(* ===== verification/Chaos_Prelude.thy ===== *)
theory Chaos_Prelude
  imports Main "HOL-Library.Word"
begin

text \<open>
  Shared vocabulary of the development: machine integer types, the errno names, C strings and
  the two libc conversions the rule parsers call.

  A C string is the list of its bytes before the terminating NUL. A pointer argument that the
  source compares with NULL is an \<open>option\<close>; an output pointer is part of the result instead,
  so the NULL checks of output pointers have no counterpart. Sizes and lengths are naturals;
  64-bit counters, hashes and generator states are words.
\<close>

unbundle bit_operations_syntax

type_synonym u8 = "8 word"
type_synonym u16 = "16 word"
type_synonym u32 = "32 word"
type_synonym u64 = "64 word"

named_theorems status_simps "unfoldings of the status record operations"
named_theorems text_simps "rewriting of string helper functions"

section \<open>errno values\<close>

text \<open>The errno values the rule grammars and the system call paths name. Their numbers differ
  between architectures, so the model keeps the names.\<close>

datatype errno =
  EIO | ENOSPC | EDQUOT | EROFS | EACCES | EMFILE | ENFILE | ENOENT
| ECONNREFUSED | ETIMEDOUT | ECONNRESET | EHOSTUNREACH | ENETUNREACH | EADDRINUSE
| EADDRNOTAVAIL | EAFNOSUPPORT | EPROTONOSUPPORT | EPIPE | ENOTCONN | EOPNOTSUPP
| EINVAL | EINTR | ENOMEM | ENOBUFS | EAGAIN
| EFAULT | ENODEV | ECHILD | ESRCH | EBUSY | E2BIG
| EPERM | EISDIR | EEXIST | ENOTSOCK | EBADF | ENOSYS | EXDEV | ENOTSUP | ERANGE

section \<open>Bytes and strings\<close>

abbreviation NUL :: char where "NUL \<equiv> CHR 0x00"
abbreviation TAB :: char where "TAB \<equiv> CHR 0x09"
abbreviation LF :: char where "LF \<equiv> CHR 0x0A"
abbreviation CR :: char where "CR \<equiv> CHR 0x0D"

definition is_digit :: "char \<Rightarrow> bool" where
  "is_digit c \<longleftrightarrow> 48 \<le> (of_char c :: nat) \<and> (of_char c :: nat) \<le> 57"

definition digit_value :: "char \<Rightarrow> nat" where
  "digit_value c = (of_char c :: nat) - 48"

text \<open>The content of a byte buffer up to its first NUL, as the string functions see it.\<close>

definition c_string :: "string \<Rightarrow> string" where
  "c_string = takeWhile (\<lambda>c. c \<noteq> NUL)"

text \<open>\<open>strncmp (text, p, strlen (p)) == 0\<close>, with the text after the prefix.\<close>

fun after_prefix :: "string \<Rightarrow> string \<Rightarrow> string option" where
  "after_prefix [] s = Some s"
| "after_prefix (p # ps) [] = None"
| "after_prefix (p # ps) (c # cs) = (if p = c then after_prefix ps cs else None)"

text \<open>Removal of a trailing run of bytes.\<close>

definition rstrip :: "('a \<Rightarrow> bool) \<Rightarrow> 'a list \<Rightarrow> 'a list" where
  "rstrip P s = rev (dropWhile P (rev s))"

text \<open>Cut at the first occurrence (\<open>strchr\<close>) and at the last one (\<open>strrchr\<close>).\<close>

fun split_first :: "'a \<Rightarrow> 'a list \<Rightarrow> ('a list \<times> 'a list) option" where
  "split_first x [] = None"
| "split_first x (y # ys) =
     (if y = x then Some ([], ys)
      else map_option (\<lambda>(a, b). (y # a, b)) (split_first x ys))"

definition split_last :: "'a \<Rightarrow> 'a list \<Rightarrow> ('a list \<times> 'a list) option" where
  "split_last x s = map_option (\<lambda>(a, b). (rev b, rev a)) (split_first x (rev s))"

text \<open>A decimal digit string read left to right.\<close>

fun decimal_from :: "nat \<Rightarrow> string \<Rightarrow> nat" where
  "decimal_from n [] = n"
| "decimal_from n (c # cs) = decimal_from (10 * n + digit_value c) cs"

abbreviation decimal :: "string \<Rightarrow> nat" where
  "decimal \<equiv> decimal_from 0"

text \<open>Decimal printing, as \<open>%lu\<close>, \<open>%llu\<close> and \<open>%ld\<close> print it.\<close>

fun print_nat :: "nat \<Rightarrow> string" where
  "print_nat n = (if n < 10 then [char_of (48 + n)] else print_nat (n div 10) @ [char_of (48 + n mod 10)])"

declare print_nat.simps [simp del]

definition print_int :: "int \<Rightarrow> string" where
  "print_int i = (if i < 0 then CHR ''-'' # print_nat (nat (- i)) else print_nat (nat i))"

text \<open>Hexadecimal printing, as \<open>%llx\<close> prints it.\<close>

definition hex_digit :: "nat \<Rightarrow> char" where
  "hex_digit d = char_of (if d < 10 then 48 + d else 87 + d)"

fun print_hex :: "nat \<Rightarrow> string" where
  "print_hex n = (if n < 16 then [hex_digit n] else print_hex (n div 16) @ [hex_digit (n mod 16)])"

declare print_hex.simps [simp del]

section \<open>strtoul\<close>

text \<open>
  \<open>strtoul (s, &end, 10)\<close> on a 64-bit \<open>unsigned long\<close>: leading white space, an optional sign,
  digits. Without a digit nothing is converted and \<open>end\<close> is the start of the text. A magnitude
  above \<open>ULONG_MAX\<close> gives \<open>ULONG_MAX\<close>; a minus sign negates the value modulo \<open>2 ^ 64\<close>. The
  result is the value, the text at \<open>end\<close>, and whether anything was converted.
\<close>

definition c_isspace :: "char \<Rightarrow> bool" where
  "c_isspace c \<longleftrightarrow> c = CHR '' '' \<or> (9 \<le> (of_char c :: nat) \<and> (of_char c :: nat) \<le> 13)"

definition ulong_max :: nat where
  "ulong_max = 18446744073709551615"

definition strtoul_sign :: "string \<Rightarrow> bool \<times> string" where
  "strtoul_sign s =
     (case s of
        [] \<Rightarrow> (False, s)
      | c # cs \<Rightarrow> if c = CHR ''-'' then (True, cs) else if c = CHR ''+'' then (False, cs) else (False, s))"

definition strtoul :: "string \<Rightarrow> nat \<times> string \<times> bool" where
  "strtoul s =
     (let (neg, body) = strtoul_sign (dropWhile c_isspace s);
          digits = takeWhile is_digit body;
          value = decimal digits
      in if digits = [] then (0, s, False)
         else (if value > ulong_max then ulong_max
               else if neg \<and> value \<noteq> 0 then ulong_max + 1 - value
               else value,
               dropWhile is_digit body, True))"

section \<open>Lemmas on strings\<close>

lemma after_prefix_Some_iff [text_simps]: "after_prefix p s = Some rest \<longleftrightarrow> s = p @ rest"
  by (induction p s rule: after_prefix.induct) auto

lemma after_prefix_append [simp]: "after_prefix p (p @ rest) = Some rest"
  by (simp add: after_prefix_Some_iff)

lemma rstrip_append_takeWhile:
  "s = rstrip P s @ rev (takeWhile P (rev s))"
  unfolding rstrip_def by (metis rev_append rev_rev_ident takeWhile_dropWhile_id)

lemma length_rstrip_le [simp]: "length (rstrip P s) \<le> length s"
  using length_dropWhile_le [of P "rev s"] by (simp add: rstrip_def)

lemma rstrip_idem [simp]: "rstrip P (rstrip P s) = rstrip P s"
  by (simp add: rstrip_def)

lemma set_rstrip_subset: "set (rstrip P s) \<subseteq> set s"
  by (auto simp: rstrip_def dest: set_dropWhileD)

lemma rstrip_snoc: "rstrip P (s @ [c]) = (if P c then rstrip P s else s @ [c])"
  by (simp add: rstrip_def)

lemma rstrip_Nil [simp]: "rstrip P [] = []"
  by (simp add: rstrip_def)

lemma rstrip_id: "s \<noteq> [] \<Longrightarrow> \<not> P (last s) \<Longrightarrow> rstrip P s = s"
  by (metis append_butlast_last_id rstrip_snoc)

lemma rstrip_last: "rstrip P s \<noteq> [] \<Longrightarrow> \<not> P (last (rstrip P s))"
  unfolding rstrip_def by (simp only: last_rev rev_is_Nil_conv) (rule hd_dropWhile, simp)

lemma split_first_Some_iff:
  "split_first x s = Some (a, b) \<longleftrightarrow> s = a @ x # b \<and> x \<notin> set a"
proof (induction s arbitrary: a)
  case Nil
  then show ?case by simp
next
  case (Cons y ys)
  show ?case
  proof (cases "y = x")
    case True
    then show ?thesis by (cases a) auto
  next
    case False
    with Cons.IH show ?thesis by (cases a) auto
  qed
qed

lemma split_first_None_iff: "split_first x s = None \<longleftrightarrow> x \<notin> set s"
  by (induction s) (auto split: if_splits)

lemma split_last_Some_iff:
  "split_last x s = Some (a, b) \<longleftrightarrow> s = a @ x # b \<and> x \<notin> set b"
proof -
  have "split_last x s = Some (a, b) \<longleftrightarrow> split_first x (rev s) = Some (rev b, rev a)"
    by (auto simp: split_last_def)
  also have "\<dots> \<longleftrightarrow> rev s = rev b @ x # rev a \<and> x \<notin> set b"
    by (simp add: split_first_Some_iff)
  also have "rev s = rev b @ x # rev a \<longleftrightarrow> s = a @ x # b"
    by (metis append.assoc append_Cons append_Nil rev.simps(2) rev_append rev_rev_ident)
  finally show ?thesis .
qed

lemma split_last_None_iff: "split_last x s = None \<longleftrightarrow> x \<notin> set s"
  by (simp add: split_last_def split_first_None_iff)

lemma digit_value_le: "is_digit c \<Longrightarrow> digit_value c \<le> 9"
  unfolding is_digit_def digit_value_def by linarith

lemma decimal_from_bound:
  "\<forall>c \<in> set s. is_digit c \<Longrightarrow> decimal_from n s < (n + 1) * 10 ^ length s"
proof (induction s arbitrary: n)
  case Nil
  then show ?case by simp
next
  case (Cons c cs)
  from Cons.prems have d: "digit_value c \<le> 9" by (simp add: digit_value_le)
  have "decimal_from (10 * n + digit_value c) cs < (10 * n + digit_value c + 1) * 10 ^ length cs"
    using Cons by simp
  also have "\<dots> \<le> (10 * (n + 1)) * 10 ^ length cs"
    using d by (intro mult_right_mono) auto
  finally show ?case by (simp add: algebra_simps)
qed

lemma decimal_bound: "\<forall>c \<in> set s. is_digit c \<Longrightarrow> decimal s < 10 ^ length s"
  using decimal_from_bound [of s 0] by simp

lemma c_string_no_NUL: "NUL \<notin> set (c_string s)"
  by (auto simp: c_string_def dest: set_takeWhileD)

lemma c_string_id: "NUL \<notin> set s \<Longrightarrow> c_string s = s"
  unfolding c_string_def by (rule takeWhile_eq_all_conv [THEN iffD2]) auto

lemma print_nat_digits: "c \<in> set (print_nat n) \<Longrightarrow> is_digit c"
proof (induction n arbitrary: c rule: print_nat.induct)
  case (1 n)
  have small: "is_digit (char_of (48 + d))" if "d < 10" for d :: nat
    using that by (simp add: is_digit_def)
  show ?case
  proof (cases "n < 10")
    case True
    with "1.prems" small [of n] show ?thesis by (simp add: print_nat.simps [of n])
  next
    case False
    with "1.prems" have "c = char_of (48 + n mod 10) \<or> c \<in> set (print_nat (n div 10))"
      by (simp add: print_nat.simps [of n])
    with "1.IH" [OF False] small [of "n mod 10"] show ?thesis by auto
  qed
qed

lemma print_nat_not_Nil [simp]: "print_nat n \<noteq> []"
  by (simp add: print_nat.simps [of n])

lemma decimal_from_append: "decimal_from n (s @ t) = decimal_from (decimal_from n s) t"
  by (induction s arbitrary: n) auto

lemma digit_value_char_of: "d < 10 \<Longrightarrow> digit_value (char_of (48 + d)) = d"
  by (simp add: digit_value_def)

lemma decimal_print_nat [simp]: "decimal (print_nat n) = n"
proof (induction n rule: print_nat.induct)
  case (1 n)
  show ?case
  proof (cases "n < 10")
    case True
    then show ?thesis by (simp add: print_nat.simps [of n] digit_value_char_of)
  next
    case False
    with "1.IH" show ?thesis
      by (simp add: print_nat.simps [of n] decimal_from_append digit_value_char_of)
  qed
qed

lemma takeWhile_all: "(\<And>x. x \<in> set xs \<Longrightarrow> P x) \<Longrightarrow> takeWhile P xs = xs"
  by simp

text \<open>A decimal numeral without sign or blanks that fits an \<open>unsigned long\<close> is read exactly.\<close>

lemma strtoul_digits:
  assumes "ds \<noteq> []" "\<forall>c \<in> set ds. is_digit c" "decimal ds \<le> ulong_max"
  shows "strtoul ds = (decimal ds, [], True)"
proof -
  obtain c cs where ds: "ds = c # cs" using assms(1) by (cases ds) auto
  with assms(2) have c: "is_digit c" by simp
  then have "\<not> c_isspace c" "c \<noteq> CHR ''-''" "c \<noteq> CHR ''+''"
    by (auto simp: is_digit_def c_isspace_def)
  then have sign: "strtoul_sign (dropWhile c_isspace ds) = (False, ds)"
    by (simp add: ds strtoul_sign_def)
  have tw: "takeWhile is_digit ds = ds" "dropWhile is_digit ds = []"
    using assms(2) by (simp_all add: takeWhile_all)
  show ?thesis
    unfolding strtoul_def Let_def sign prod.case tw using assms(1,3) by simp
qed

lemma strtoul_le: "fst (strtoul s) \<le> ulong_max"
  by (auto simp: strtoul_def Let_def split: prod.splits)

end
