(* ===== verification/Chaos_Double.thy ===== *)
theory Chaos_Double
  imports Complex_Main Chaos_Prelude
begin

text \<open>
  The one floating-point operation of the rule parsers whose result is not exact: the binary64
  quotient of two integers below \<open>2 ^ 53\<close>, rounded to the nearest 53-bit significand, ties to
  even. Every other double operation of the sources modelled here (conversion of 32-bit samples
  and of decimals below \<open>10 ^ 15\<close>, powers of ten up to \<open>10 ^ 15\<close>, multiplication by \<open>2 ^ 32\<close>,
  comparisons) is exact, so a double is represented by its rational value.
\<close>

text \<open>The least \<open>k\<close> for which \<open>num * 2 ^ k / den\<close> has at least 53 bits before the point.\<close>

function dbl_shift :: "nat \<Rightarrow> nat \<Rightarrow> nat" where
  "dbl_shift num den =
     (if num = 0 \<or> 4503599627370496 * den \<le> num then 0 else Suc (dbl_shift (2 * num) den))"
  by pat_completeness auto
termination
  by (relation "measure (\<lambda>(num, den). 4503599627370496 * den - num)") auto

declare dbl_shift.simps [simp del]

definition round_half_even :: "nat \<Rightarrow> nat \<Rightarrow> nat" where
  "round_half_even n d =
     (let q = n div d; r = n mod d
      in if 2 * r < d \<or> (2 * r = d \<and> even q) then q else Suc q)"

definition dbl_div :: "nat \<Rightarrow> nat \<Rightarrow> rat" where
  "dbl_div num den =
     (let k = dbl_shift num den in of_nat (round_half_even (num * 2 ^ k) den) / 2 ^ k)"

lemma dbl_shift_ge: "0 < num \<Longrightarrow> 4503599627370496 * den \<le> num * 2 ^ dbl_shift num den"
proof (induction num den rule: dbl_shift.induct)
  case (1 num den)
  show ?case
  proof (cases "4503599627370496 * den \<le> num")
    case True
    then show ?thesis by (simp add: dbl_shift.simps [of num den])
  next
    case False
    with "1.prems" have "4503599627370496 * den \<le> 2 * num * 2 ^ dbl_shift (2 * num) den"
      using "1.IH" by simp
    with False "1.prems" show ?thesis
      by (simp add: dbl_shift.simps [of num den] algebra_simps)
  qed
qed

lemma round_half_even_bounds:
  assumes "0 < d"
  shows "2 * n \<le> 2 * d * round_half_even n d + d"
    and "2 * d * round_half_even n d \<le> 2 * n + d"
proof -
  have n: "n = d * (n div d) + n mod d" by simp
  have r: "n mod d < d" using assms by simp
  define q r' where "q = n div d" and "r' = n mod d"
  have n': "n = d * q + r'" and r': "r' < d" using n r by (auto simp: q_def r'_def)
  show "2 * n \<le> 2 * d * round_half_even n d + d"
    unfolding round_half_even_def Let_def q_def [symmetric] r'_def [symmetric]
    using n' r' by (auto simp: algebra_simps)
  show "2 * d * round_half_even n d \<le> 2 * n + d"
    unfolding round_half_even_def Let_def q_def [symmetric] r'_def [symmetric]
    using n' r' by (auto simp: algebra_simps)
qed

lemma dbl_div_error:
  assumes "0 < den"
  shows "\<bar>dbl_div num den - of_nat num / of_nat den\<bar> \<le> of_nat num / of_nat den / 2 ^ 53"
proof (cases "num = 0")
  case True
  with assms show ?thesis
    by (simp add: dbl_div_def round_half_even_def dbl_shift.simps)
next
  case False
  define k where "k = dbl_shift num den"
  define m where "m = round_half_even (num * 2 ^ k) den"
  have v: "dbl_div num den = of_nat m / 2 ^ k"
    by (simp add: dbl_div_def k_def m_def Let_def)
  have lo: "2 * (num * 2 ^ k) \<le> 2 * den * m + den" and hi: "2 * den * m \<le> 2 * (num * 2 ^ k) + den"
    unfolding m_def using round_half_even_bounds [OF assms, of "num * 2 ^ k"] by auto
  have d: "(0::rat) < of_nat den" using assms by simp
  have p: "(0::rat) < 2 ^ k" by simp
  have lo': "2 * (of_nat num * 2 ^ k) \<le> 2 * of_nat den * of_nat m + (of_nat den :: rat)"
    using lo by (simp add: of_nat_le_iff [where ?'a = rat, symmetric] del: of_nat_le_iff)
  have hi': "2 * of_nat den * of_nat m \<le> 2 * (of_nat num * 2 ^ k) + (of_nat den :: rat)"
    using hi by (simp add: of_nat_le_iff [where ?'a = rat, symmetric] del: of_nat_le_iff)
  have eq: "dbl_div num den - of_nat num / of_nat den
      = (of_nat den * of_nat m - of_nat num * 2 ^ k) / (of_nat den * 2 ^ k)"
    using d p by (simp add: v field_simps)
  have "\<bar>of_nat den * of_nat m - of_nat num * 2 ^ k\<bar> \<le> (of_nat den :: rat) / 2"
  proof -
    define a b where "a = (of_nat den * of_nat m :: rat)" and "b = (of_nat num * 2 ^ k :: rat)"
    have "2 * b \<le> 2 * a + of_nat den" "2 * a \<le> 2 * b + of_nat den"
      using lo' hi' by (simp_all add: a_def b_def mult.assoc)
    then have "\<bar>a - b\<bar> \<le> of_nat den / 2" by linarith
    then show ?thesis by (simp add: a_def b_def)
  qed
  then have "\<bar>dbl_div num den - of_nat num / of_nat den\<bar> \<le> (of_nat den / 2) / (of_nat den * 2 ^ k)"
  proof -
    assume "\<bar>of_nat den * of_nat m - of_nat num * 2 ^ k\<bar> \<le> (of_nat den :: rat) / 2"
    then have "\<bar>of_nat den * of_nat m - of_nat num * 2 ^ k\<bar> / (of_nat den * 2 ^ k)
        \<le> (of_nat den :: rat) / 2 / (of_nat den * 2 ^ k)"
      using d p by (intro divide_right_mono) auto
    then show ?thesis unfolding eq abs_divide using d p by (simp only: abs_mult abs_of_nat power_abs abs_numeral)
  qed
  also have "\<dots> = 1 / (2 * 2 ^ k)" using d by simp
  also have "\<dots> \<le> of_nat num / of_nat den / 2 ^ 53"
  proof -
    have "4503599627370496 * den \<le> num * 2 ^ k"
      unfolding k_def using False by (intro dbl_shift_ge) simp
    then have "(4503599627370496 * of_nat den :: rat) \<le> of_nat num * 2 ^ k"
      by (simp add: of_nat_le_iff [where ?'a = rat, symmetric] del: of_nat_le_iff)
    then show ?thesis using d p by (simp add: field_simps)
  qed
  finally show ?thesis .
qed

lemma dbl_div_nonneg: "0 \<le> dbl_div num den"
  by (simp add: dbl_div_def Let_def)

lemma round_half_even_le:
  assumes "0 < d" "n \<le> c * d"
  shows "round_half_even n d \<le> c"
proof (cases "n = c * d")
  case True
  then show ?thesis using assms by (simp add: round_half_even_def)
next
  case False
  with assms have "n < c * d" by simp
  then have "n div d < c" using assms by (simp add: div_less_iff_less_mult)
  then show ?thesis by (simp add: round_half_even_def Let_def)
qed

lemma dbl_div_le_1:
  assumes "0 < den" "num \<le> den"
  shows "dbl_div num den \<le> 1"
proof -
  have "round_half_even (num * 2 ^ k) den \<le> 2 ^ k" for k
    using assms by (intro round_half_even_le) auto
  then have "(of_nat (round_half_even (num * 2 ^ k) den) :: rat) \<le> 2 ^ k" for k
    by (metis of_nat_le_iff of_nat_numeral of_nat_power)
  then show ?thesis by (simp add: dbl_div_def Let_def)
qed

lemma dbl_div_0 [simp]: "dbl_div 0 den = 0"
  by (cases "den = 0") (simp_all add: dbl_div_def round_half_even_def)

lemma dbl_div_eq_0_iff:
  assumes "0 < den"
  shows "dbl_div num den = 0 \<longleftrightarrow> num = 0"
proof
  assume z: "dbl_div num den = 0"
  show "num = 0"
  proof (rule ccontr)
    assume "num \<noteq> 0"
    then have pos: "(0::rat) < of_nat num / of_nat den" using assms by simp
    have "(of_nat num / of_nat den :: rat) \<le> of_nat num / of_nat den / 2 ^ 53"
      using dbl_div_error [OF assms, of num] pos unfolding z by simp
    with pos show False by simp
  qed
qed simp

end
