(* ===== verification/Chaos_Status.thy ===== *)
theory Chaos_Status
  imports Chaos_Prelude
begin

text \<open>
  \<open>src/common/chaos_status.h\<close>: the record of the rejected line, the status report, the content
  hash of a rule file and the atomic publication of status and hits files.

  The file system is a map from paths to contents. The raw system calls of the publication can
  fail or write short; what they do is read from \<open>fs_env\<close>, so every failure the source handles is
  a value of that record.
\<close>

section \<open>The rejection record\<close>

definition CHAOS_STATUS_TEXT_MAX :: nat where "CHAOS_STATUS_TEXT_MAX = 200"
definition CHAOS_STATUS_BUFFER_SIZE :: nat where "CHAOS_STATUS_BUFFER_SIZE = 512"

datatype chaos_status_state = CHAOS_STATUS_OK | CHAOS_STATUS_ERROR

datatype status_reason =
  REASON_INVALID | REASON_TOO_MANY | REASON_TOO_LARGE | REASON_UNREADABLE | REASON_NUL | REASON_UNSUPPORTED

fun reason_text :: "status_reason \<Rightarrow> string" where
  "reason_text REASON_INVALID = ''invalid rule''"
| "reason_text REASON_TOO_MANY = ''too many rules''"
| "reason_text REASON_TOO_LARGE = ''file too large''"
| "reason_text REASON_UNREADABLE = ''file unreadable''"
| "reason_text REASON_NUL = ''file contains a NUL byte''"
| "reason_text REASON_UNSUPPORTED = ''unsupported in seccomp mode''"

record chaos_status_error =
  err_line :: nat
  err_reason :: "status_reason option"
  err_text :: string

definition chaos_status_clear :: "chaos_status_error \<Rightarrow> chaos_status_error" where
  "chaos_status_clear e = e\<lparr>err_line := 0, err_reason := None, err_text := []\<rparr>"

text \<open>Control characters and DEL become spaces.\<close>

definition status_char :: "char \<Rightarrow> char" where
  "status_char c = (if (of_char c :: nat) < 32 \<or> (of_char c :: nat) = 127 then CHR '' '' else c)"

text \<open>The copy stops after 200 bytes, at the NUL and at a LF.\<close>

definition chaos_status_keep_line :: "chaos_status_error \<Rightarrow> nat \<Rightarrow> string \<Rightarrow> chaos_status_error" where
  "chaos_status_keep_line e number line =
     e\<lparr>err_text := map status_char
         (take CHAOS_STATUS_TEXT_MAX (takeWhile (\<lambda>c. c \<noteq> NUL \<and> c \<noteq> LF) line)),
       err_line := number, err_reason := None\<rparr>"

definition chaos_status_reject :: "chaos_status_error \<Rightarrow> status_reason \<Rightarrow> chaos_status_error" where
  "chaos_status_reject e reason = e\<lparr>err_reason := Some reason\<rparr>"

section \<open>The status report\<close>

fun state_name :: "chaos_status_state \<Rightarrow> string" where
  "state_name CHAOS_STATUS_OK = ''ok''"
| "state_name CHAOS_STATUS_ERROR = ''error''"

definition status_error_text :: "chaos_status_error \<Rightarrow> status_reason \<Rightarrow> int \<Rightarrow> string" where
  "status_error_text e reason pid =
     ''state=error'' @ [LF] @ ''rules=0'' @ [LF] @
     ''line='' @ print_nat (err_line e) @ [LF] @
     ''reason='' @ reason_text reason @ [LF] @
     ''text='' @ err_text e @ [LF] @
     ''pid='' @ print_int pid @ [LF]"

definition status_short_text :: "chaos_status_state \<Rightarrow> nat \<Rightarrow> int \<Rightarrow> string" where
  "status_short_text st rules pid =
     ''state='' @ state_name st @ [LF] @ ''rules='' @ print_nat rules @ [LF] @
     ''pid='' @ print_int pid @ [LF]"

definition status_full_text ::
  "chaos_status_state \<Rightarrow> nat \<Rightarrow> chaos_status_error option \<Rightarrow> int \<Rightarrow> string" where
  "status_full_text st rules error pid =
     (case error of
        None \<Rightarrow> status_short_text st rules pid
      | Some e \<Rightarrow>
          (case err_reason e of
             None \<Rightarrow> status_short_text st rules pid
           | Some reason \<Rightarrow>
               (if st = CHAOS_STATUS_ERROR then status_error_text e reason pid
                else status_short_text st rules pid)))"

text \<open>\<open>snprintf\<close> into a buffer of \<open>cap\<close> bytes keeps at most \<open>cap - 1\<close> of them.\<close>

definition chaos_status_format ::
  "nat \<Rightarrow> chaos_status_state \<Rightarrow> nat \<Rightarrow> chaos_status_error option \<Rightarrow> int \<Rightarrow> string" where
  "chaos_status_format cap st rules error pid =
     (if cap = 0 then [] else take (cap - 1) (status_full_text st rules error pid))"

section \<open>Content hash\<close>

fun content_hash_from :: "u64 \<Rightarrow> string \<Rightarrow> u64" where
  "content_hash_from hash [] = hash"
| "content_hash_from hash (c # cs) = content_hash_from ((hash XOR of_nat (of_char c)) * 1099511628211) cs"

definition chaos_config_content_hash :: "string \<Rightarrow> u64" where
  "chaos_config_content_hash data = content_hash_from 1469598103934665603 data"

section \<open>File system and system call outcomes\<close>

type_synonym file_system = "string \<Rightarrow> string option"

text \<open>One \<open>write\<close>: an error, or a byte count. After the listed outcomes every write is complete.\<close>

datatype write_outcome = Write_Error errno | Write_Count nat

record fs_env =
  fe_open :: "string \<Rightarrow> errno option"
  fe_write :: "write_outcome list"
  fe_link :: "errno option"
  fe_rename :: "errno option"
  fe_open_existing :: "errno option"
  fe_rewrite :: "write_outcome list"
  fe_nonce :: u64
  fe_pid :: int

text \<open>Whether all data was written, and the bytes that were.\<close>

fun chaos_status_write_all :: "write_outcome list \<Rightarrow> string \<Rightarrow> bool \<times> string" where
  "chaos_status_write_all ws [] = (True, [])"
| "chaos_status_write_all [] data = (True, data)"
| "chaos_status_write_all (Write_Error e # ws) data =
     (if e = EINTR then chaos_status_write_all ws data else (False, []))"
| "chaos_status_write_all (Write_Count n # ws) data =
     (if n = 0 then (False, [])
      else let (ok, written) = chaos_status_write_all ws (drop n data)
           in (ok, take n data @ written))"

section \<open>Atomic publication\<close>

text \<open>Directory part (with its slash) and file name of a path.\<close>

definition path_dir_name :: "string \<Rightarrow> string \<times> string" where
  "path_dir_name path =
     (case split_last CHR ''/'' path of
        None \<Rightarrow> ([], path)
      | Some (dir, name) \<Rightarrow> (dir @ ''/'', name))"

definition drop_leading_dot :: "string \<Rightarrow> string" where
  "drop_leading_dot name = (case name of [] \<Rightarrow> [] | c # cs \<Rightarrow> if c = CHR ''.'' then cs else name)"

definition staging_path :: "string \<Rightarrow> int \<Rightarrow> u64 \<Rightarrow> nat \<Rightarrow> string" where
  "staging_path path pid nonce attempt =
     (let (dir, name) = path_dir_name path
      in dir @ ''.chaos-staging-'' @ print_int pid @ ''-'' @ print_hex (unat (nonce + of_nat attempt)) @
         ''-'' @ drop_leading_dot name)"

datatype staging_result = Staging_Too_Long | Staging_Failed | Staging_Open string

definition staging_open_error :: "file_system \<Rightarrow> fs_env \<Rightarrow> string \<Rightarrow> errno option" where
  "staging_open_error fs env staging =
     (case fe_open env staging of
        Some e \<Rightarrow> Some e
      | None \<Rightarrow> if fs staging \<noteq> None then Some EEXIST else None)"

text \<open>The attempts \<open>attempt .. 3\<close>; the first argument counts those left.\<close>

fun staging_attempts :: "nat \<Rightarrow> file_system \<Rightarrow> fs_env \<Rightarrow> string \<Rightarrow> nat \<Rightarrow> staging_result" where
  "staging_attempts 0 fs env path attempt = Staging_Failed"
| "staging_attempts (Suc left) fs env path attempt =
     (let staging = staging_path path (fe_pid env) (fe_nonce env) attempt
      in if 192 \<le> length staging then Staging_Too_Long
         else case staging_open_error fs env staging of
                None \<Rightarrow> Staging_Open staging
              | Some e \<Rightarrow> if e = EEXIST then staging_attempts left fs env path (Suc attempt)
                          else Staging_Failed)"

definition link_error :: "file_system \<Rightarrow> fs_env \<Rightarrow> string \<Rightarrow> errno option" where
  "link_error fs env path =
     (case fe_link env of
        Some e \<Rightarrow> Some e
      | None \<Rightarrow> if fs path \<noteq> None then Some EEXIST else None)"

text \<open>The rewrite in place of a file that may not be renamed over.\<close>

definition rewrite_in_place :: "file_system \<Rightarrow> fs_env \<Rightarrow> string \<Rightarrow> string \<Rightarrow> file_system" where
  "rewrite_in_place fs env path data =
     (if fe_open_existing env = None \<and> fs path \<noteq> None
      then fs(path \<mapsto> snd (chaos_status_write_all (fe_rewrite env) data))
      else fs)"

text \<open>The end of the publication once the staging file is written completely or not.\<close>

definition publish_staged ::
  "file_system \<Rightarrow> fs_env \<Rightarrow> string \<Rightarrow> string \<Rightarrow> string \<Rightarrow> bool \<Rightarrow> file_system" where
  "publish_staged fs env staging path data complete =
     (if complete then
        (case fe_rename env of
           None \<Rightarrow> fs(path := fs staging, staging := None)
         | Some e \<Rightarrow>
             (if e = EPERM \<or> e = EACCES then (rewrite_in_place fs env path data)(staging := None)
              else fs(staging := None)))
      else fs(staging := None))"

definition chaos_status_publish ::
  "file_system \<Rightarrow> fs_env \<Rightarrow> string \<Rightarrow> string \<Rightarrow> bool \<Rightarrow> bool \<times> file_system" where
  "chaos_status_publish fs env path data exclusive =
     (case staging_attempts 4 fs env path 0 of
        Staging_Too_Long \<Rightarrow> (False, fs)
      | Staging_Failed \<Rightarrow> (False, fs)
      | Staging_Open staging \<Rightarrow>
          (let (complete, written) = chaos_status_write_all (fe_write env) data;
               staged = fs(staging \<mapsto> written)
           in if complete \<and> exclusive then
                (case link_error staged env path of
                   None \<Rightarrow> (False, (staged(path := staged staging))(staging := None))
                 | Some e \<Rightarrow>
                     (if e = EEXIST then (True, staged(staging := None))
                      else (False, publish_staged staged env staging path data complete)))
              else (False, publish_staged staged env staging path data complete)))"

definition chaos_status_replace_file :: "file_system \<Rightarrow> fs_env \<Rightarrow> string \<Rightarrow> string \<Rightarrow> file_system" where
  "chaos_status_replace_file fs env path data = snd (chaos_status_publish fs env path data False)"

definition chaos_status_write ::
  "file_system \<Rightarrow> fs_env \<Rightarrow> string \<Rightarrow> chaos_status_state \<Rightarrow> nat \<Rightarrow> chaos_status_error option \<Rightarrow> file_system" where
  "chaos_status_write fs env path st rules error =
     chaos_status_replace_file fs env path
       (chaos_status_format CHAOS_STATUS_BUFFER_SIZE st rules error (fe_pid env))"

definition chaos_status_remove :: "file_system \<Rightarrow> string \<Rightarrow> file_system" where
  "chaos_status_remove fs path = fs(path := None)"

section \<open>Lemmas\<close>

lemmas status_record_defs [status_simps] =
  chaos_status_clear_def chaos_status_keep_line_def chaos_status_reject_def

lemma keep_line_text_length [simp]:
  "length (err_text (chaos_status_keep_line e n l)) \<le> CHAOS_STATUS_TEXT_MAX"
  by (simp add: chaos_status_keep_line_def)

lemma keep_line_fields [simp]:
  "err_line (chaos_status_keep_line e n l) = n"
  "err_reason (chaos_status_keep_line e n l) = None"
  by (simp_all add: chaos_status_keep_line_def)

lemma reject_fields [simp]:
  "err_line (chaos_status_reject e r) = err_line e"
  "err_text (chaos_status_reject e r) = err_text e"
  "err_reason (chaos_status_reject e r) = Some r"
  by (simp_all add: chaos_status_reject_def)

lemma clear_fields [simp]:
  "err_line (chaos_status_clear e) = 0"
  "err_text (chaos_status_clear e) = []"
  "err_reason (chaos_status_clear e) = None"
  by (simp_all add: chaos_status_clear_def)

lemma status_char_printable: "32 \<le> (of_char (status_char c) :: nat) \<and> (of_char (status_char c) :: nat) \<noteq> 127"
  by (simp add: status_char_def)

lemma keep_line_printable:
  "c \<in> set (err_text (chaos_status_keep_line e n l)) \<Longrightarrow>
     32 \<le> (of_char c :: nat) \<and> (of_char c :: nat) \<noteq> 127"
  using status_char_printable by (auto simp: chaos_status_keep_line_def)

lemma length_print_nat_le: "0 < k \<Longrightarrow> n < 10 ^ k \<Longrightarrow> length (print_nat n) \<le> k"
proof (induction n arbitrary: k rule: print_nat.induct)
  case (1 n)
  show ?case
  proof (cases "n < 10")
    case True
    with "1.prems" show ?thesis by (simp add: print_nat.simps [of n])
  next
    case False
    with "1.prems" obtain j where k: "k = Suc j" and "j > 0"
      by (cases k; cases "k - 1") auto
    from "1.prems" k have "n div 10 < 10 ^ j" by (simp add: div_less_iff_less_mult mult.commute)
    with "1.IH" [OF False \<open>j > 0\<close>] have "length (print_nat (n div 10)) \<le> j" by simp
    with False k show ?thesis by (simp add: print_nat.simps [of n])
  qed
qed

lemma length_print_int_le:
  "0 < k \<Longrightarrow> \<bar>i\<bar> < 10 ^ k \<Longrightarrow> length (print_int i) \<le> Suc k"
proof -
  assume k: "0 < k" and i: "\<bar>i\<bar> < 10 ^ k"
  have n: "nat \<bar>i\<bar> < 10 ^ k" using i by (simp add: nat_less_iff)
  have "length (print_nat (nat \<bar>i\<bar>)) \<le> k" by (rule length_print_nat_le [OF k n])
  then show ?thesis by (auto simp: print_int_def)
qed

lemma length_reason_text: "length (reason_text r) \<le> 27"
  by (cases r) simp_all

lemma write_all_result:
  "chaos_status_write_all ws data = (ok, written) \<Longrightarrow>
     (ok \<longrightarrow> written = data) \<and> (\<exists>rest. data = written @ rest)"
proof (induction ws data arbitrary: ok written rule: chaos_status_write_all.induct)
  case (4 n ws d ds)
  show ?case
  proof (cases "n = 0")
    case True
    with 4 show ?thesis by auto
  next
    case False
    obtain ok' w' where r: "chaos_status_write_all ws (drop n (d # ds)) = (ok', w')" by fastforce
    with False "4.prems" have res: "ok = ok'" "written = take n (d # ds) @ w'" by auto
    from "4.IH" [OF False r] obtain rest where "ok' \<longrightarrow> w' = drop n (d # ds)"
      and "drop n (d # ds) = w' @ rest" by blast
    then have "d # ds = take n (d # ds) @ w' @ rest" by (metis append_take_drop_id)
    with res \<open>ok' \<longrightarrow> w' = drop n (d # ds)\<close> show ?thesis
      by (metis append.assoc append_take_drop_id)
  qed
qed (auto split: if_splits)

lemma length_staging_path: "length path < length (staging_path path pid nonce attempt)"
proof -
  obtain dir name where dn: "path_dir_name path = (dir, name)" by fastforce
  have "length path = length dir + length name"
    using dn by (auto simp: path_dir_name_def split_last_Some_iff split: option.splits)
  moreover have "length name \<le> Suc (length (drop_leading_dot name))"
    by (auto simp: drop_leading_dot_def split: list.splits)
  ultimately show ?thesis by (simp add: staging_path_def dn)
qed

lemma staging_path_neq [simp]: "staging_path path pid nonce attempt \<noteq> path"
  using length_staging_path [of path pid nonce attempt] by (metis less_irrefl)

lemma staging_attempts_Open:
  "staging_attempts n fs env path a = Staging_Open s \<Longrightarrow>
     (\<exists>b. s = staging_path path (fe_pid env) (fe_nonce env) b) \<and> fs s = None"
  by (induction n arbitrary: a)
    (auto simp: Let_def staging_open_error_def split: if_splits option.splits)

lemma publish_staged_frame:
  assumes "q \<noteq> path" "q \<noteq> staging"
  shows "publish_staged fs env staging path data complete q = fs q"
  using assms by (auto simp: publish_staged_def rewrite_in_place_def split: option.splits)

lemma publish_staged_removes:
  "staging \<noteq> path \<Longrightarrow> publish_staged fs env staging path data complete staging = None"
  by (auto simp: publish_staged_def split: option.splits)

text \<open>A status report always fits the 512-byte buffer of the writer: with a kept line and any process
  number of the kernel it is written whole, never cut.\<close>

theorem status_report_fits:
  assumes "length (err_text e) \<le> CHAOS_STATUS_TEXT_MAX" "err_line e < 10 ^ 20" "rules < 10 ^ 20" "\<bar>pid\<bar> < 10 ^ 10"
  shows "chaos_status_format CHAOS_STATUS_BUFFER_SIZE st rules (Some e) pid = status_full_text st rules (Some e) pid"
proof -
  have p: "length (print_int pid) \<le> 11" using length_print_int_le [of 10 pid] assms(4) by simp
  have n: "length (print_nat (err_line e)) \<le> 20" "length (print_nat rules) \<le> 20"
    using assms(2,3) by (auto intro: length_print_nat_le)
  have "length (state_name st) \<le> 5" by (cases st) simp_all
  then have short: "length (status_short_text st rules pid) < 511"
    using p n by (simp add: status_short_text_def)
  have "length (status_error_text e reason pid) < 511" for reason
    using p n assms(1) length_reason_text [of reason] by (simp add: status_error_text_def CHAOS_STATUS_TEXT_MAX_def)
  with short have "length (status_full_text st rules (Some e) pid) \<le> 511"
    by (auto simp: status_full_text_def less_imp_le split: option.split)
  then show ?thesis by (simp add: chaos_status_format_def CHAOS_STATUS_BUFFER_SIZE_def)
qed

theorem status_report_fits_witness:
  "chaos_status_format CHAOS_STATUS_BUFFER_SIZE CHAOS_STATUS_ERROR 0
     (Some \<lparr>err_line = 3, err_reason = Some REASON_INVALID, err_text = ''bad''\<rparr>) 42 =
   status_full_text CHAOS_STATUS_ERROR 0
     (Some \<lparr>err_line = 3, err_reason = Some REASON_INVALID, err_text = ''bad''\<rparr>) 42"
  by (rule status_report_fits) (simp_all add: CHAOS_STATUS_TEXT_MAX_def)

lemma staged_restore:
  assumes "fs s = None" "s \<noteq> path"
  shows "(fs(s \<mapsto> w))(path := v, s := None) = fs(path := v)" "(fs(s \<mapsto> w))(s := None) = fs"
    "(rewrite_in_place (fs(s \<mapsto> w)) env path data)(s := None) = rewrite_in_place fs env path data"
  using assms by (auto simp: rewrite_in_place_def fun_eq_iff)

lemma publish_staged_outcomes:
  assumes "fs s = None" "s \<noteq> path" "complete \<longrightarrow> written = data"
  shows "publish_staged (fs(s \<mapsto> written)) env s path data complete \<in>
    {fs, fs(path \<mapsto> data)} \<union>
    (if fe_rename env \<in> {Some EPERM, Some EACCES} then {rewrite_in_place fs env path data} else {})"
  using assms staged_restore [where fs = fs and s = s and path = path, OF assms(1,2)]
  by (auto simp: publish_staged_def split: option.splits)

lemma publish_outcome:
  "snd (chaos_status_publish fs env path data exclusive) \<in>
     {fs, fs(path \<mapsto> data)} \<union>
     (if fe_rename env \<in> {Some EPERM, Some EACCES} then {rewrite_in_place fs env path data} else {})"
proof (cases "staging_attempts 4 fs env path 0")
  case (Staging_Open s)
  then have s: "fs s = None" "s \<noteq> path" using staging_attempts_Open [OF Staging_Open] by auto
  obtain complete written where w: "chaos_status_write_all (fe_write env) data = (complete, written)"
    by fastforce
  have all: "complete \<longrightarrow> written = data" using write_all_result [OF w] by blast
  note out = publish_staged_outcomes [where fs = fs and s = s and path = path and env = env, OF s all]
  show ?thesis
  proof (cases "complete \<and> exclusive \<and> (link_error (fs(s \<mapsto> written)) env path = None \<or>
      link_error (fs(s \<mapsto> written)) env path = Some EEXIST)")
    case True
    then show ?thesis
      using all s staged_restore [where fs = fs and s = s and path = path, OF s]
      by (auto simp: chaos_status_publish_def Staging_Open w Let_def)
  next
    case False
    then have "snd (chaos_status_publish fs env path data exclusive) =
        publish_staged (fs(s \<mapsto> written)) env s path data complete"
      by (auto simp: chaos_status_publish_def Staging_Open w Let_def split: option.splits)
    with out show ?thesis by simp
  qed
qed (simp_all add: chaos_status_publish_def)


lemma publish_exclusive:
  assumes "fe_link env = None" "fs path \<noteq> None"
  shows "snd (chaos_status_publish fs env path data True) path = fs path \<and>
    fst (chaos_status_publish fs env path data True) =
      (case staging_attempts 4 fs env path 0 of
         Staging_Open s \<Rightarrow> fst (chaos_status_write_all (fe_write env) data)
       | _ \<Rightarrow> False)"
proof (cases "staging_attempts 4 fs env path 0")
  case (Staging_Open s)
  then have s: "fs s = None" "s \<noteq> path" using staging_attempts_Open [OF Staging_Open] by auto
  obtain complete written where w: "chaos_status_write_all (fe_write env) data = (complete, written)"
    by fastforce
  show ?thesis
    using assms s by (auto simp: chaos_status_publish_def Staging_Open w link_error_def publish_staged_def Let_def)
qed (simp_all add: chaos_status_publish_def)

text \<open>An exclusive publication never replaces a file: where hard links work, an existing file keeps its
  contents, and the caller is told that the name is taken once the data could be staged.\<close>

theorem publish_exclusive_keeps:
  assumes "fe_link env = None" "fs path \<noteq> None"
  shows "snd (chaos_status_publish fs env path data True) path = fs path \<and>
    fst (chaos_status_publish fs env path data True) =
      (case staging_attempts 4 fs env path 0 of
         Staging_Open s \<Rightarrow> fst (chaos_status_write_all (fe_write env) data)
       | _ \<Rightarrow> False)"
  using assms by (rule publish_exclusive)

definition quiet_env :: fs_env where
  "quiet_env =
     \<lparr>fe_open = (\<lambda>p. None), fe_write = [Write_Error EINTR, Write_Count 2], fe_link = None, fe_rename = None,
      fe_open_existing = None, fe_rewrite = [], fe_nonce = 5, fe_pid = 42\<rparr>"

theorem publish_exclusive_keeps_witness:
  "snd (chaos_status_publish [''/tmp/h.1'' \<mapsto> ''old''] quiet_env ''/tmp/h.1'' ''new'' True) ''/tmp/h.1'' =
     [''/tmp/h.1'' \<mapsto> ''old''] ''/tmp/h.1'' \<and>
   fst (chaos_status_publish [''/tmp/h.1'' \<mapsto> ''old''] quiet_env ''/tmp/h.1'' ''new'' True) =
     (case staging_attempts 4 [''/tmp/h.1'' \<mapsto> ''old''] quiet_env ''/tmp/h.1'' 0 of
        Staging_Open s \<Rightarrow> fst (chaos_status_write_all (fe_write quiet_env) ''new'')
      | _ \<Rightarrow> False)"
  by (rule publish_exclusive_keeps) (simp_all add: quiet_env_def)

end
