(* ===== verification/Chaos_Clock.thy ===== *)
theory Chaos_Clock
  imports Chaos_Prelude
begin

text \<open>
  \<open>src/common/chaos_clock.h\<close> and \<open>src/common/chaos_sleep.h\<close>: the clocks that bypass libc, the
  throttle of the rule-file check, the test for a recently modified rule file, and the injected
  delay. The ELF walk that finds the vDSO symbol is a parameter: \<open>ce_found\<close> says whether it
  finds one. Clock readings are parameters of \<open>clock_env\<close>; seconds and nanoseconds are integers
  as in \<open>struct timespec\<close>.
\<close>

record timespec =
  tv_sec :: int
  tv_nsec :: int

section \<open>The one-time vDSO lookup\<close>

record clock_state =
  clk_vdso :: bool
  clk_phase :: nat
  clk_owner :: int

record clock_env =
  ce_found :: bool
  ce_pid :: int
  ce_vdso_mono :: "timespec option"
  ce_vdso_real :: "timespec option"
  ce_raw_mono :: "timespec option"
  ce_raw_real :: "timespec option"

definition chaos_clock_find_vdso :: "clock_env \<Rightarrow> clock_state \<Rightarrow> clock_state" where
  "chaos_clock_find_vdso env st = st\<lparr>clk_vdso := ce_found env\<rparr>"

text \<open>Whether a vDSO clock is returned. Phase 0 is not started, 1 in progress, 2 done.\<close>

definition chaos_clock_vdso :: "clock_env \<Rightarrow> clock_state \<Rightarrow> bool \<times> clock_state" where
  "chaos_clock_vdso env st =
     (if clk_phase st \<noteq> 2 then
        (let st1 = (if clk_phase st = 1 \<and> clk_owner st \<noteq> ce_pid env then st\<lparr>clk_phase := 0\<rparr> else st)
         in if clk_phase st1 \<noteq> 0 then (False, st1)
            else let st2 = chaos_clock_find_vdso env (st1\<lparr>clk_phase := 1, clk_owner := ce_pid env\<rparr>)
                 in (clk_vdso st2, st2\<lparr>clk_phase := 2\<rparr>))
      else (clk_vdso st, st))"

definition chaos_clock_now_ns :: "clock_env \<Rightarrow> clock_state \<Rightarrow> u64 \<times> clock_state" where
  "chaos_clock_now_ns env st =
     (let (vdso, st') = chaos_clock_vdso env st
      in case (vdso, ce_vdso_mono env) of
           (True, Some now) \<Rightarrow> (of_int (tv_sec now) * 1000000000 + of_int (tv_nsec now), st')
         | _ \<Rightarrow> (0, st'))"

definition chaos_clock_realtime_ms :: "clock_env \<Rightarrow> clock_state \<Rightarrow> int \<times> clock_state" where
  "chaos_clock_realtime_ms env st =
     (let (vdso, st') = chaos_clock_vdso env st;
          reading = (if vdso \<and> ce_vdso_real env \<noteq> None then ce_vdso_real env else ce_raw_real env)
      in case reading of
           None \<Rightarrow> (0, st')
         | Some now \<Rightarrow> (tv_sec now * 1000 + tv_nsec now div 1000000, st'))"

text \<open>\<open>chaos_hits_now_ms\<close> of \<open>chaos_hits.h\<close>: monotonic milliseconds with the raw fallback.\<close>

definition chaos_hits_now_ms :: "clock_env \<Rightarrow> clock_state \<Rightarrow> u64 \<times> clock_state" where
  "chaos_hits_now_ms env st =
     (let (vdso_ns, st') = chaos_clock_now_ns env st
      in if vdso_ns \<noteq> 0 then (vdso_ns div 1000000, st')
         else case ce_raw_mono env of
                None \<Rightarrow> (0, st')
              | Some now \<Rightarrow> (of_int (tv_sec now) * 1000 + of_int (tv_nsec now) div 1000000, st'))"

section \<open>Recent modification and throttle\<close>

definition CHAOS_RACY_WINDOW_MS :: int where "CHAOS_RACY_WINDOW_MS = 20"

text \<open>\<open>now\<close> is the wall clock in ms, 0 when it cannot be read.\<close>

definition chaos_clock_stamp_is_recent :: "int \<Rightarrow> int \<Rightarrow> int \<Rightarrow> bool" where
  "chaos_clock_stamp_is_recent now sec nsec =
     (let stamp = sec * 1000 + nsec div 1000000
      in now \<noteq> 0 \<and> now - stamp < CHAOS_RACY_WINDOW_MS \<and> stamp - now < CHAOS_RACY_WINDOW_MS)"

definition CHAOS_CHECK_INTERVAL_NS :: u64 where "CHAOS_CHECK_INTERVAL_NS = 1000000"

text \<open>Whether to skip the check, and the new time of the last check. \<open>now\<close> is the vDSO clock in
  ns, 0 without one. The subtraction wraps as the unsigned one does.\<close>

definition chaos_clock_checked_recently :: "u64 \<Rightarrow> u64 \<Rightarrow> u64 \<Rightarrow> bool \<times> u64" where
  "chaos_clock_checked_recently now last_check interval_ns =
     (if interval_ns = 0 then (False, last_check)
      else if now = 0 then (False, last_check)
      else if now - last_check < interval_ns then (True, last_check)
      else (False, now))"

section \<open>The injected delay\<close>

text \<open>
  One \<open>clock_nanosleep\<close>: it runs to its end, or a signal ends it after some nanoseconds and the
  kernel writes the rest back, or it fails otherwise. After the listed outcomes every sleep runs
  to its end. The result is the time slept in ns.
\<close>

datatype sleep_outcome = Sleep_Interrupted int | Sleep_Fails errno

definition request_ns :: "timespec \<Rightarrow> int" where
  "request_ns ts = tv_sec ts * 1000000000 + tv_nsec ts"

definition remaining_timespec :: "timespec \<Rightarrow> int \<Rightarrow> timespec" where
  "remaining_timespec ts slept =
     \<lparr>tv_sec = (request_ns ts - slept) div 1000000000, tv_nsec = (request_ns ts - slept) mod 1000000000\<rparr>"

fun sleep_loop :: "sleep_outcome list \<Rightarrow> timespec \<Rightarrow> int" where
  "sleep_loop [] request = request_ns request"
| "sleep_loop (Sleep_Interrupted slept # rest) request =
     slept + sleep_loop rest (remaining_timespec request slept)"
| "sleep_loop (Sleep_Fails e # rest) request = 0"

definition chaos_sleep_ms :: "sleep_outcome list \<Rightarrow> nat \<Rightarrow> int" where
  "chaos_sleep_ms outcomes milliseconds =
     (if milliseconds = 0 then 0
      else sleep_loop outcomes
             \<lparr>tv_sec = int (milliseconds div 1000), tv_nsec = int (milliseconds mod 1000 * 1000000)\<rparr>)"

section \<open>Lemmas\<close>

lemma request_ns_remaining: "request_ns (remaining_timespec ts slept) = request_ns ts - slept"
  by (simp add: request_ns_def remaining_timespec_def)

lemma sleep_loop_interrupted:
  "(\<And>x. x \<in> set outcomes \<Longrightarrow> \<exists>slept. x = Sleep_Interrupted slept) \<Longrightarrow>
     sleep_loop outcomes request = request_ns request"
proof (induction outcomes arbitrary: request)
  case Nil
  then show ?case by simp
next
  case (Cons x rest)
  from Cons.prems [of x] obtain slept where x: "x = Sleep_Interrupted slept" by auto
  have "sleep_loop rest r = request_ns r" for r
    using Cons by simp
  with x show ?case by (simp add: request_ns_remaining)
qed

lemma vdso_phase_final:
  "chaos_clock_vdso env st = (found, st') \<Longrightarrow> clk_phase st' = 2 \<or> \<not> found"
  by (auto simp: chaos_clock_vdso_def Let_def split: if_splits)

text \<open>An injected delay takes its full time however often signals interrupt it: the sleeps between any
  interruptions add up to exactly the configured milliseconds.\<close>

theorem sleep_ms_total:
  assumes "\<forall>x \<in> set outcomes. \<exists>slept. x = Sleep_Interrupted slept"
  shows "chaos_sleep_ms outcomes ms = int ms * 1000000"
proof (cases "ms = 0")
  case True
  then show ?thesis by (simp add: chaos_sleep_ms_def)
next
  case False
  have "int ms = int (ms div 1000) * 1000 + int (ms mod 1000)"
    by (metis div_mult_mod_eq of_nat_add of_nat_mult of_nat_numeral)
  then show ?thesis
    using False assms sleep_loop_interrupted [of outcomes] by (simp add: chaos_sleep_ms_def request_ns_def)
qed

theorem sleep_ms_total_witness:
  "chaos_sleep_ms [Sleep_Interrupted 3, Sleep_Interrupted 999999] 1500 = int 1500 * 1000000"
  by (rule sleep_ms_total) simp

text \<open>The vDSO lookup survives a fork: after any call by a process that is not itself inside the lookup
  the lookup is finished, also when the parent forked in the middle of it, and the call returns its result.\<close>

theorem vdso_lookup_completes:
  assumes "clk_phase st \<noteq> 1 \<or> clk_owner st \<noteq> ce_pid env" "clk_phase st \<le> 2"
  shows "clk_phase (snd (chaos_clock_vdso env st)) = 2 \<and>
    fst (chaos_clock_vdso env st) = clk_vdso (snd (chaos_clock_vdso env st)) \<and>
    clk_vdso (snd (chaos_clock_vdso env st)) = (if clk_phase st = 2 then clk_vdso st else ce_found env)"
  using assms by (auto simp: chaos_clock_vdso_def chaos_clock_find_vdso_def Let_def)

theorem vdso_lookup_completes_witness:
  "clk_phase (snd (chaos_clock_vdso \<lparr>ce_found = True, ce_pid = 8, ce_vdso_mono = None, ce_vdso_real = None,
       ce_raw_mono = None, ce_raw_real = None\<rparr> \<lparr>clk_vdso = False, clk_phase = 1, clk_owner = 7\<rparr>)) = 2 \<and>
   fst (chaos_clock_vdso \<lparr>ce_found = True, ce_pid = 8, ce_vdso_mono = None, ce_vdso_real = None,
       ce_raw_mono = None, ce_raw_real = None\<rparr> \<lparr>clk_vdso = False, clk_phase = 1, clk_owner = 7\<rparr>) =
     clk_vdso (snd (chaos_clock_vdso \<lparr>ce_found = True, ce_pid = 8, ce_vdso_mono = None, ce_vdso_real = None,
       ce_raw_mono = None, ce_raw_real = None\<rparr> \<lparr>clk_vdso = False, clk_phase = 1, clk_owner = 7\<rparr>)) \<and>
   clk_vdso (snd (chaos_clock_vdso \<lparr>ce_found = True, ce_pid = 8, ce_vdso_mono = None, ce_vdso_real = None,
       ce_raw_mono = None, ce_raw_real = None\<rparr> \<lparr>clk_vdso = False, clk_phase = 1, clk_owner = 7\<rparr>)) =
     (if clk_phase \<lparr>clk_vdso = False, clk_phase = 1, clk_owner = 7\<rparr> = 2
      then clk_vdso \<lparr>clk_vdso = False, clk_phase = 1, clk_owner = 7\<rparr>
      else ce_found \<lparr>ce_found = True, ce_pid = 8, ce_vdso_mono = None, ce_vdso_real = None,
       ce_raw_mono = None, ce_raw_real = None\<rparr>)"
  by (rule vdso_lookup_completes) simp_all

end
