(* ===== verification/Chaos_Hits.thy ===== *)
theory Chaos_Hits
  imports Chaos_Status Chaos_Clock
begin

text \<open>
  \<open>src/common/chaos_hits.h\<close>: the per-rule counters, the slot pool that carries them across
  reloads, the snapshot sequence and the hits file.

  A slot pointer is an index into the pool, \<open>None\<close> for NULL. The report hook is a flag saying
  whether one is installed.
\<close>

section \<open>Slots, sequence, claim words\<close>

record chaos_hit_slot =
  slot_count :: u64
  slot_claimed :: u64
  slot_state :: u64
  slot_report :: bool
  slot_generation :: u64
  slot_used :: bool

definition chaos_snapshot_read_begin :: "u64 \<Rightarrow> u64" where
  "chaos_snapshot_read_begin sequence = sequence"

definition chaos_snapshot_read_valid :: "u64 \<Rightarrow> u64 \<Rightarrow> bool" where
  "chaos_snapshot_read_valid sequence begin_seq \<longleftrightarrow> begin_seq AND 1 = 0 \<and> sequence = begin_seq"

definition chaos_snapshot_write_begin :: "u64 \<Rightarrow> u64" where
  "chaos_snapshot_write_begin sequence = (if sequence AND 1 = 0 then sequence + 1 else sequence)"

definition chaos_snapshot_write_end :: "u64 \<Rightarrow> u64" where
  "chaos_snapshot_write_end sequence = (if sequence AND 1 \<noteq> 0 then sequence + 1 else sequence)"

definition chaos_hit_claims_none :: "u64 \<Rightarrow> u64" where
  "chaos_hit_claims_none generation = push_bit 32 (generation AND 0xffffffff)"

definition chaos_hit_claims :: "u64 \<Rightarrow> u64" where
  "chaos_hit_claims claimed = claimed AND 0xffffffff"

definition chaos_hit_slot_current :: "chaos_hit_slot option \<Rightarrow> u64 \<Rightarrow> bool" where
  "chaos_hit_slot_current slot generation =
     (case slot of None \<Rightarrow> True | Some s \<Rightarrow> slot_generation s = generation)"

section \<open>Assignment and release of slots\<close>

text \<open>The slot of the first rule of the active snapshot with this text; a NULL slot is passed over.\<close>

fun find_previous :: "(nat option \<times> string) list \<Rightarrow> string \<Rightarrow> nat option" where
  "find_previous [] t = None"
| "find_previous ((slot, prev_text) # rest) t =
     (if slot \<noteq> None \<and> prev_text = t then slot else find_previous rest t)"

text \<open>The first unused slot at or after the cursor, or the pool size.\<close>

function next_free :: "chaos_hit_slot list \<Rightarrow> nat \<Rightarrow> nat" where
  "next_free pool free_slot =
     (if free_slot < length pool \<and> slot_used (pool ! free_slot) then next_free pool (Suc free_slot)
      else free_slot)"
  by pat_completeness auto
termination
  by (relation "measure (\<lambda>(pool, free_slot). length pool - free_slot)") auto

declare next_free.simps [simp del]

definition attach_slot :: "chaos_hit_slot \<Rightarrow> chaos_hit_slot" where
  "attach_slot s = s\<lparr>slot_used := True, slot_report := True\<rparr>"

definition fresh_slot :: "chaos_hit_slot \<Rightarrow> chaos_hit_slot" where
  "fresh_slot s =
     s\<lparr>slot_count := 0, slot_claimed := chaos_hit_claims_none (slot_generation s), slot_state := 0\<rparr>"

text \<open>The loop over the rules of the snapshot being built; \<open>prev\<close> pairs the slots and the texts of
  the active snapshot.\<close>

fun hits_assign_from ::
  "(nat option \<times> string) list \<Rightarrow> chaos_hit_slot list \<Rightarrow> nat \<Rightarrow> string list
     \<Rightarrow> chaos_hit_slot list \<times> nat option list" where
  "hits_assign_from prev pool free_slot [] = (pool, [])"
| "hits_assign_from prev pool free_slot (t # ts) =
     (case find_previous prev t of
        Some i \<Rightarrow>
          (let (pool', slots) = hits_assign_from prev (pool[i := attach_slot (pool ! i)]) free_slot ts
           in (pool', Some i # slots))
      | None \<Rightarrow>
          (let i = next_free pool free_slot
           in if i = length pool
              then let (pool', slots) = hits_assign_from prev pool i ts in (pool', None # slots)
              else let (pool', slots) =
                         hits_assign_from prev (pool[i := attach_slot (fresh_slot (pool ! i))]) i ts
                   in (pool', Some i # slots)))"

definition chaos_hits_assign ::
  "chaos_hit_slot list \<Rightarrow> nat option list \<Rightarrow> string list \<Rightarrow> nat \<Rightarrow> string list
     \<Rightarrow> chaos_hit_slot list \<times> nat option list" where
  "chaos_hits_assign pool active active_texts active_count next_texts =
     hits_assign_from (take active_count (zip active active_texts)) pool 0 next_texts"

definition release_slot :: "chaos_hit_slot \<Rightarrow> chaos_hit_slot" where
  "release_slot s = s\<lparr>slot_used := False, slot_generation := slot_generation s + 1\<rparr>"

definition chaos_hits_release :: "chaos_hit_slot list \<Rightarrow> nat option list \<Rightarrow> chaos_hit_slot list" where
  "chaos_hits_release pool kept =
     map (\<lambda>(i, s). if slot_used s \<and> Some i \<notin> set kept then release_slot s else s)
       (zip [0..<length pool] pool)"

definition reset_slot :: "chaos_hit_slot \<Rightarrow> chaos_hit_slot" where
  "reset_slot s =
     (let g = slot_generation s + 1
      in s\<lparr>slot_used := False, slot_count := 0, slot_state := 0, slot_generation := g,
           slot_claimed := chaos_hit_claims_none g\<rparr>)"

definition chaos_hits_pool_reset :: "chaos_hit_slot list \<Rightarrow> chaos_hit_slot list" where
  "chaos_hits_pool_reset pool = map reset_slot pool"

definition after_fork_slot :: "chaos_hit_slot \<Rightarrow> chaos_hit_slot" where
  "after_fork_slot s =
     s\<lparr>slot_count := 0, slot_claimed := chaos_hit_claims_none (slot_generation s),
       slot_state := (if slot_state s = 3 then 1 else slot_state s)\<rparr>"

definition chaos_hits_pool_after_fork ::
  "chaos_hit_slot list \<Rightarrow> nat option list \<Rightarrow> chaos_hit_slot list" where
  "chaos_hits_pool_after_fork pool active = map after_fork_slot (chaos_hits_release pool active)"

text \<open>The counted slot, and whether its report hook runs.\<close>

definition chaos_hit_record :: "chaos_hit_slot option \<Rightarrow> chaos_hit_slot option \<times> bool" where
  "chaos_hit_record slot =
     (case slot of
        None \<Rightarrow> (None, False)
      | Some s \<Rightarrow> (Some (s\<lparr>slot_count := slot_count s + 1\<rparr>), slot_report s))"

section \<open>The hits file\<close>

definition CHAOS_HITS_EAGER :: u64 where "CHAOS_HITS_EAGER = 64"
definition CHAOS_HITS_INTERVAL_MS :: u64 where "CHAOS_HITS_INTERVAL_MS = 100"
definition CHAOS_HITS_LINE_MAX :: nat where "CHAOS_HITS_LINE_MAX = 20 + 1 + CHAOS_STATUS_TEXT_MAX + 1"

definition hits_path :: "string \<Rightarrow> int \<Rightarrow> string" where
  "hits_path prefix number = prefix @ ''.'' @ print_int number"

text \<open>The probes \<open>attempt .. 7\<close>; the first argument counts those left.\<close>

fun file_number_probes ::
  "nat \<Rightarrow> (string \<Rightarrow> bool) \<Rightarrow> u64 \<Rightarrow> string \<Rightarrow> int \<Rightarrow> nat \<Rightarrow> int \<Rightarrow> int" where
  "file_number_probes 0 exists_path salt prefix pid attempt number = number"
| "file_number_probes (Suc left) exists_path salt prefix pid attempt number =
     (if 128 \<le> length (hits_path prefix number) \<or> \<not> exists_path (hits_path prefix number) then number
      else file_number_probes left exists_path salt prefix pid (Suc attempt)
             (pid * 1000000000 + int (unat ((salt + of_nat attempt) mod 1000000000))))"

definition chaos_hits_file_number_for ::
  "(string \<Rightarrow> bool) \<Rightarrow> u64 \<Rightarrow> string \<Rightarrow> int \<Rightarrow> int" where
  "chaos_hits_file_number_for exists_path salt prefix pid =
     file_number_probes 8 exists_path salt prefix pid 0 pid"

definition hits_line :: "u64 \<Rightarrow> string \<Rightarrow> string" where
  "hits_line hits t = print_nat (unat hits) @ [TAB] @ t @ [LF]"

text \<open>The report, \<open>None\<close> when a line does not fit the space left of the buffer.\<close>

fun hits_report :: "nat \<Rightarrow> (u64 \<times> string) list \<Rightarrow> string option" where
  "hits_report space [] = Some []"
| "hits_report space ((hits, t) # rest) =
     (let line = hits_line hits t
      in if space \<le> length line then None
         else map_option (\<lambda>more. line @ more) (hits_report (space - length line) rest))"

text \<open>The attempts to create the file, or its replacement once it is owned. The environments are
  those of the successive publications and the salts those of the renumberings.\<close>

fun hits_write_attempts ::
  "nat \<Rightarrow> (nat \<Rightarrow> fs_env) \<Rightarrow> (nat \<Rightarrow> u64) \<Rightarrow> file_system \<Rightarrow> string \<Rightarrow> int \<Rightarrow> string \<Rightarrow> int \<Rightarrow> bool \<Rightarrow> nat
     \<Rightarrow> file_system \<times> int \<times> bool" where
  "hits_write_attempts 0 envs salts fs prefix pid data number owned attempt = (fs, number, owned)"
| "hits_write_attempts (Suc left) envs salts fs prefix pid data number owned attempt =
     (if 128 \<le> length (hits_path prefix number) then (fs, number, owned)
      else if owned then
        (chaos_status_replace_file fs (envs attempt) (hits_path prefix number) data, number, owned)
      else
        (let (taken, fs') = chaos_status_publish fs (envs attempt) (hits_path prefix number) data True
         in if \<not> taken then (fs', number, True)
            else hits_write_attempts left envs salts fs' prefix pid data
                   (chaos_hits_file_number_for (\<lambda>p. fs' p \<noteq> None) (salts attempt) prefix pid)
                   owned (Suc attempt)))"

definition slot_hits :: "chaos_hit_slot list \<Rightarrow> nat option \<Rightarrow> u64" where
  "slot_hits pool slot = (case slot of None \<Rightarrow> 0 | Some i \<Rightarrow> slot_count (pool ! i))"

definition chaos_hits_write_for ::
  "(nat \<Rightarrow> fs_env) \<Rightarrow> (nat \<Rightarrow> u64) \<Rightarrow> file_system \<Rightarrow> string \<Rightarrow> int \<Rightarrow> int \<Rightarrow> bool
     \<Rightarrow> chaos_hit_slot list \<Rightarrow> nat option list \<Rightarrow> string list \<Rightarrow> nat \<Rightarrow> file_system \<times> int \<times> bool" where
  "chaos_hits_write_for envs salts fs prefix pid number owned pool slots texts buffer_size =
     (case hits_report buffer_size (zip (map (slot_hits pool) slots) texts) of
        None \<Rightarrow> (fs, number, owned)
      | Some data \<Rightarrow> hits_write_attempts 4 envs salts fs prefix pid data number owned 0)"

section \<open>Lemmas on the claim word\<close>

lemma low_half_mask: "(0xffffffff :: u64) = mask 32" by (simp add: mask_eq_exp_minus_1)

lemma claim_word_split:
  fixes g c :: u64
  assumes "c \<le> 0xffffffff"
  shows "chaos_hit_claims (chaos_hit_claims_none g + c) = c"
    and "(chaos_hit_claims_none g + c) AND NOT 0xffffffff = chaos_hit_claims_none g"
proof -
  have c: "c AND mask 32 = c"
  proof -
    have "unat c < 2 ^ 32" using assms by (simp add: word_le_nat_alt)
    then have "unat (take_bit 32 c) = unat c"
      unfolding unsigned_take_bit_eq by (rule take_bit_nat_eq_self)
    then have "take_bit 32 c = c" by (simp only: word_unat_eq_iff)
    then show ?thesis by (simp only: take_bit_eq_mask)
  qed
  have bitc: "\<not> bit c n" if "32 \<le> n" for n
  proof -
    have "bit c n \<longleftrightarrow> bit (c AND mask 32) n" by (simp only: c)
    with that show ?thesis by (simp add: bit_and_iff bit_mask_iff)
  qed
  then have bitc': "n < 32" if "bit c n" for n using that not_less by blast
  have dis: "chaos_hit_claims_none g AND c = 0"
    by (rule bit_eqI) (auto simp: chaos_hit_claims_none_def bit_and_iff bit_push_bit_iff bitc)
  have sum: "chaos_hit_claims_none g + c = chaos_hit_claims_none g OR c"
    using dis by (rule disjunctive_add_eq_or)
  show "chaos_hit_claims (chaos_hit_claims_none g + c) = c"
    unfolding chaos_hit_claims_def sum low_half_mask
    by (rule bit_eqI) (auto simp: chaos_hit_claims_none_def bit_simps intro: bitc')
  show "(chaos_hit_claims_none g + c) AND NOT 0xffffffff = chaos_hit_claims_none g"
    unfolding sum low_half_mask
    by (rule bit_eqI) (auto simp: chaos_hit_claims_none_def bit_simps bitc)
qed

lemma claims_le: "chaos_hit_claims w \<le> 0xffffffff"
  unfolding chaos_hit_claims_def by (rule word_and_le1)

lemma claims_tag:
  "w AND NOT 0xffffffff = chaos_hit_claims_none g \<Longrightarrow> w = chaos_hit_claims_none g + chaos_hit_claims w"
  unfolding chaos_hit_claims_def 
proof -
  assume tag: "w AND NOT 0xffffffff = chaos_hit_claims_none g"
  have "(w AND NOT 0xffffffff) AND (w AND 0xffffffff) = 0"
    by (rule bit_eqI) (auto simp: bit_simps)
  then have "(w AND NOT 0xffffffff) + (w AND 0xffffffff) = (w AND NOT 0xffffffff) OR (w AND 0xffffffff)"
    by (rule disjunctive_add_eq_or)
  also have "\<dots> = w" by (rule bit_eqI) (auto simp: bit_simps)
  finally show "w = chaos_hit_claims_none g + (w AND 0xffffffff)" unfolding tag by (rule sym)
qed

section \<open>Lemmas on the slot pool\<close>

definition used_slots :: "chaos_hit_slot list \<Rightarrow> nat set" where
  "used_slots pool = {i. i < length pool \<and> slot_used (pool ! i)}"

text \<open>The counters of a slot are untouched, respectively as a new rule finds them.\<close>

definition same_counters :: "chaos_hit_slot \<Rightarrow> chaos_hit_slot \<Rightarrow> bool" where
  "same_counters a b \<longleftrightarrow>
     slot_count a = slot_count b \<and> slot_claimed a = slot_claimed b \<and> slot_state a = slot_state b \<and>
     slot_generation a = slot_generation b"

definition fresh_counters :: "chaos_hit_slot \<Rightarrow> bool" where
  "fresh_counters s \<longleftrightarrow>
     slot_count s = 0 \<and> slot_claimed s = chaos_hit_claims_none (slot_generation s) \<and> slot_state s = 0"

text \<open>The slot pointers of a snapshot are exactly the used slots of the pool.\<close>

definition pool_ok :: "chaos_hit_slot list \<Rightarrow> nat option list \<Rightarrow> bool" where
  "pool_ok pool slots \<longleftrightarrow> None \<notin> set slots \<and> (\<forall>i. Some i \<in> set slots \<longleftrightarrow> i \<in> used_slots pool)"

lemma finite_used_slots [simp]: "finite (used_slots pool)"
  by (simp add: used_slots_def)

lemma card_used_slots_le: "card (used_slots pool) \<le> length pool"
proof -
  have "used_slots pool \<subseteq> {..<length pool}" by (auto simp: used_slots_def)
  then show ?thesis using card_mono [of "{..<length pool}"] by fastforce
qed

lemma next_free_result:
  "free \<le> length pool \<Longrightarrow>
   free \<le> next_free pool free \<and> next_free pool free \<le> length pool \<and>
   (\<forall>j. free \<le> j \<and> j < next_free pool free \<longrightarrow> slot_used (pool ! j)) \<and>
   (next_free pool free < length pool \<longrightarrow> \<not> slot_used (pool ! next_free pool free))"
proof (induction pool free rule: next_free.induct)
  case (1 pool free)
  show ?case
  proof (cases "free < length pool \<and> slot_used (pool ! free)")
    case True
    have e: "next_free pool free = next_free pool (Suc free)"
      using True by (simp add: next_free.simps [of pool free])
    have IH: "Suc free \<le> next_free pool (Suc free) \<and> next_free pool (Suc free) \<le> length pool \<and>
       (\<forall>j. Suc free \<le> j \<and> j < next_free pool (Suc free) \<longrightarrow> slot_used (pool ! j)) \<and>
       (next_free pool (Suc free) < length pool \<longrightarrow> \<not> slot_used (pool ! next_free pool (Suc free)))"
      using "1.IH" True by simp
    have "slot_used (pool ! j)" if "free \<le> j" "j < next_free pool (Suc free)" for j
      using IH True that by (cases "j = free") auto
    then show ?thesis unfolding e using IH by auto
  next
    case False
    with "1.prems" show ?thesis by (auto simp: next_free.simps [of pool free])
  qed
qed

lemma used_slots_attach:
  "i < length pool \<Longrightarrow> slot_used s \<Longrightarrow> used_slots (pool[i := s]) = insert i (used_slots pool)"
  by (auto simp: used_slots_def nth_list_update split: if_splits)

lemma find_previous_in: "find_previous prev t = Some i \<Longrightarrow> (Some i, t) \<in> set prev"
  by (induction prev t rule: find_previous.induct) (auto split: if_splits)

lemma same_counters_attach [simp]: "same_counters (attach_slot s) s"
  by (simp add: same_counters_def attach_slot_def)

lemma same_counters_trans: "same_counters a b \<Longrightarrow> same_counters b c \<Longrightarrow> same_counters a c"
  by (simp add: same_counters_def)

lemma same_counters_refl [simp]: "same_counters a a"
  by (simp add: same_counters_def)

lemma fresh_counters_attach [simp]: "fresh_counters (attach_slot (fresh_slot s))"
  by (simp add: fresh_counters_def attach_slot_def fresh_slot_def)

lemma slot_used_attach [simp]: "slot_used (attach_slot s)"
  by (simp add: attach_slot_def)

text \<open>What the assignment loop leaves for the rule at position \<open>k\<close> of those it still has to serve:
  the slot of the previous rule with its text, or a slot that was unused and no other rule has.\<close>

definition assign_rule ::
  "(nat option \<times> string) list \<Rightarrow> chaos_hit_slot list \<Rightarrow> string list \<Rightarrow> chaos_hit_slot list
     \<Rightarrow> nat option list \<Rightarrow> nat \<Rightarrow> bool" where
  "assign_rule prev pool ts pool' slots k \<longleftrightarrow>
     (case find_previous prev (ts ! k) of
        Some j \<Rightarrow> slots ! k = Some j
      | None \<Rightarrow> \<exists>i. slots ! k = Some i \<and> i < length pool \<and> i \<notin> used_slots pool \<and> fresh_counters (pool' ! i) \<and>
                 (\<forall>l < length ts. l \<noteq> k \<longrightarrow> slots ! l \<noteq> Some i))"

definition assign_spec ::
  "(nat option \<times> string) list \<Rightarrow> chaos_hit_slot list \<Rightarrow> string list \<Rightarrow> chaos_hit_slot list
     \<Rightarrow> nat option list \<Rightarrow> bool" where
  "assign_spec prev pool ts pool' slots \<longleftrightarrow>
     length pool' = length pool \<and> length slots = length ts \<and> None \<notin> set slots \<and>
     used_slots pool' = used_slots pool \<union> {i. Some i \<in> set slots} \<and>
     (\<forall>i \<in> used_slots pool. same_counters (pool' ! i) (pool ! i)) \<and>
     (\<forall>k < length ts. assign_rule prev pool ts pool' slots k)"

lemma assign_specD:
  assumes "assign_spec prev pool ts pool' slots"
  shows "length pool' = length pool" "length slots = length ts" "None \<notin> set slots"
    "used_slots pool' = used_slots pool \<union> {i. Some i \<in> set slots}"
    "i \<in> used_slots pool \<Longrightarrow> same_counters (pool' ! i) (pool ! i)"
    "k < length ts \<Longrightarrow> assign_rule prev pool ts pool' slots k"
  using assms by (simp_all add: assign_spec_def)

lemma assign_rule_0:
  "assign_rule prev pool (t # ts) pool' (Some i # slots) 0 \<longleftrightarrow>
     (case find_previous prev t of
        Some j \<Rightarrow> i = j
      | None \<Rightarrow> i < length pool \<and> i \<notin> used_slots pool \<and> fresh_counters (pool' ! i) \<and>
          (\<forall>l < length ts. slots ! l \<noteq> Some i))"
  by (auto simp: assign_rule_def nth_Cons split: option.splits nat.splits)

lemma assign_rule_Suc:
  assumes "assign_rule prev q ts pool' slots m" "length q = length pool" "used_slots q = insert i (used_slots pool)"
  shows "assign_rule prev pool (t # ts) pool' (Some i # slots) (Suc m)"
proof (cases "find_previous prev (ts ! m)")
  case (Some j)
  with assms(1) show ?thesis by (simp add: assign_rule_def)
next
  case None
  with assms obtain j where j: "slots ! m = Some j" "j < length pool" "j \<noteq> i" "j \<notin> used_slots pool"
    "fresh_counters (pool' ! j)" "\<forall>l < length ts. l \<noteq> m \<longrightarrow> slots ! l \<noteq> Some j"
    by (auto simp: assign_rule_def)
  then have "\<forall>l < length (t # ts). l \<noteq> Suc m \<longrightarrow> (Some i # slots) ! l \<noteq> Some j"
    by (auto simp: nth_Cons split: nat.splits)
  with j None show ?thesis by (simp add: assign_rule_def)
qed

lemma fresh_counters_same: "same_counters a b \<Longrightarrow> fresh_counters b \<Longrightarrow> fresh_counters a"
  by (simp add: same_counters_def fresh_counters_def)

lemma assign_spec_Cons:
  assumes spec: "assign_spec prev q ts pool' slots"
    and q: "length q = length pool" "used_slots q = insert i (used_slots pool)"
      "\<forall>j \<in> used_slots pool. same_counters (q ! j) (pool ! j)"
    and first: "assign_rule prev pool (t # ts) pool' (Some i # slots) 0"
  shows "assign_spec prev pool (t # ts) pool' (Some i # slots)"
  unfolding assign_spec_def
proof (intro conjI ballI allI impI)
  note D = assign_specD [OF spec]
  show "length pool' = length pool" "length (Some i # slots) = length (t # ts)" "None \<notin> set (Some i # slots)"
    using D(1-3) q(1) by simp_all
  show "used_slots pool' = used_slots pool \<union> {j. Some j \<in> set (Some i # slots)}"
    unfolding D(4) q(2) by auto
  show "same_counters (pool' ! j) (pool ! j)" if "j \<in> used_slots pool" for j
  proof (rule same_counters_trans)
    show "same_counters (pool' ! j) (q ! j)" using that q(2) by (intro D(5)) simp
    show "same_counters (q ! j) (pool ! j)" using that q(3) by blast
  qed
  show "assign_rule prev pool (t # ts) pool' (Some i # slots) k" if "k < length (t # ts)" for k
    using that first assign_rule_Suc [OF D(6) q(1,2)] by (cases k) simp_all
qed

lemma assign_spec_keep:
  assumes "find_previous prev t = Some i" "i \<in> used_slots pool"
    and spec: "assign_spec prev (pool[i := attach_slot (pool ! i)]) ts pool' slots"
  shows "assign_spec prev pool (t # ts) pool' (Some i # slots)"
proof (rule assign_spec_Cons [OF spec])
  have i: "i < length pool" using assms(2) by (simp add: used_slots_def)
  show "used_slots (pool[i := attach_slot (pool ! i)]) = insert i (used_slots pool)"
    using i by (simp add: used_slots_attach)
  show "\<forall>j \<in> used_slots pool. same_counters (pool[i := attach_slot (pool ! i)] ! j) (pool ! j)"
  proof
    show "same_counters (pool[i := attach_slot (pool ! i)] ! j) (pool ! j)" for j
      using i by (cases "j = i") simp_all
  qed
  show "assign_rule prev pool (t # ts) pool' (Some i # slots) 0"
    using assms(1) by (simp add: assign_rule_0)
qed simp

lemma assign_spec_new:
  assumes "find_previous prev t = None" "i < length pool" "i \<notin> used_slots pool"
    and prev: "\<forall>(s, u) \<in> set prev. case s of None \<Rightarrow> True | Some j \<Rightarrow> j \<in> used_slots pool"
    and spec: "assign_spec prev (pool[i := attach_slot (fresh_slot (pool ! i))]) ts pool' slots"
  shows "assign_spec prev pool (t # ts) pool' (Some i # slots)"
proof (rule assign_spec_Cons [OF spec])
  let ?q = "pool[i := attach_slot (fresh_slot (pool ! i))]"
  show used: "used_slots ?q = insert i (used_slots pool)"
    using assms(2) by (simp add: used_slots_attach)
  show "\<forall>j \<in> used_slots pool. same_counters (?q ! j) (pool ! j)"
  proof
    fix j assume "j \<in> used_slots pool"
    then have "j \<noteq> i" using assms(3) by auto
    then show "same_counters (?q ! j) (pool ! j)" by simp
  qed
  have "same_counters (pool' ! i) (?q ! i)"
    using assign_specD(5) [OF spec, of i] used by simp
  then have fresh: "fresh_counters (pool' ! i)"
    using assms(2) fresh_counters_same [of "pool' ! i" "?q ! i"] by simp
  have other: "slots ! m \<noteq> Some i" if m: "m < length ts" for m
  proof (cases "find_previous prev (ts ! m)")
    case (Some j)
    then have "slots ! m = Some j" using assign_specD(6) [OF spec m] by (simp add: assign_rule_def)
    moreover have "j \<in> used_slots pool"
      using find_previous_in [OF Some] prev by fastforce
    ultimately show ?thesis using assms(3) by auto
  next
    case None
    then show ?thesis using assign_specD(6) [OF spec m] used by (auto simp: assign_rule_def)
  qed
  show "assign_rule prev pool (t # ts) pool' (Some i # slots) 0"
    using assms(1-3) fresh other by (simp add: assign_rule_0)
qed simp

lemma slot_used_update: "slot_used s \<Longrightarrow> slot_used (pool ! j) \<Longrightarrow> slot_used (pool[i := s] ! j)"
  by (cases "i < length pool") (auto simp: nth_list_update list_update_beyond)

lemma hits_assign_from_spec:
  assumes "\<forall>(s, u) \<in> set prev. case s of None \<Rightarrow> True | Some j \<Rightarrow> j \<in> used_slots pool"
    "free \<le> length pool" "\<forall>j < free. slot_used (pool ! j)"
    "card (used_slots pool) + length ts \<le> length pool"
    "hits_assign_from prev pool free ts = (pool', slots)"
  shows "assign_spec prev pool ts pool' slots"
  using assms
proof (induction prev pool free ts arbitrary: pool' slots rule: hits_assign_from.induct)
  case (1 prev pool free)
  then show ?case by (simp add: assign_spec_def)
next
  case (2 prev pool free t ts)
  note prev = "2.prems"(1) and free = "2.prems"(2,3) and card = "2.prems"(4) and res = "2.prems"(5)
  show ?case
  proof (cases "find_previous prev t")
    case (Some i)
    have i: "i \<in> used_slots pool" using find_previous_in [OF Some] prev by fastforce
    let ?q = "pool[i := attach_slot (pool ! i)]"
    have used: "used_slots ?q = used_slots pool"
      using i by (subst used_slots_attach) (auto simp: used_slots_def)
    obtain qs where qs: "hits_assign_from prev ?q free ts = (pool', qs)" "slots = Some i # qs"
      using res Some by (auto split: prod.splits)
    have "assign_spec prev ?q ts pool' qs"
    proof (rule "2.IH"(3) [OF Some])
      show "\<forall>j < free. slot_used (?q ! j)" using free by (simp add: slot_used_update)
      show "\<forall>(s, u) \<in> set prev. case s of None \<Rightarrow> True | Some j \<Rightarrow> j \<in> used_slots ?q"
        unfolding used by (rule prev)
    qed (use prev free card qs used in simp_all)
    then show ?thesis unfolding qs by (intro assign_spec_keep Some i)
  next
    case None
    define i where "i = next_free pool free"
    have nf: "free \<le> i" "i \<le> length pool" "\<forall>j. free \<le> j \<and> j < i \<longrightarrow> slot_used (pool ! j)"
      "i < length pool \<longrightarrow> \<not> slot_used (pool ! i)"
      using next_free_result [OF free(1)] unfolding i_def by blast+
    have below: "\<forall>j < i. slot_used (pool ! j)"
      using nf(3) free(2) by (meson not_le)
    have "i \<noteq> length pool"
    proof
      assume "i = length pool"
      then have "used_slots pool = {..<length pool}" using below by (auto simp: used_slots_def)
      with card show False by simp
    qed
    with nf have i: "i < length pool" "i \<notin> used_slots pool" by (auto simp: used_slots_def)
    let ?q = "pool[i := attach_slot (fresh_slot (pool ! i))]"
    have used: "used_slots ?q = insert i (used_slots pool)" using i by (simp add: used_slots_attach)
    obtain qs where qs: "hits_assign_from prev ?q i ts = (pool', qs)" "slots = Some i # qs"
      using res None i by (auto simp: i_def [symmetric] Let_def split: prod.splits)
    have "assign_spec prev ?q ts pool' qs"
    proof (rule "2.IH"(2) [OF None i_def])
      show "i \<noteq> length pool" using i by simp
      show "\<forall>(s, u) \<in> set prev. case s of None \<Rightarrow> True | Some j \<Rightarrow> j \<in> used_slots ?q"
        using prev used by (fastforce split: option.splits)
      show "\<forall>j < i. slot_used (?q ! j)" using below by (simp add: slot_used_update)
      show "card (used_slots ?q) + length ts \<le> length ?q" using card i(2) used by simp
    qed (use i qs in simp_all)
    then show ?thesis unfolding qs by (intro assign_spec_new None i prev)
  qed
qed

text \<open>The reload protocol: assignment from the active snapshot, then release of what only it held.\<close>

definition active_pairs :: "nat option list \<Rightarrow> string list \<Rightarrow> nat \<Rightarrow> (nat option \<times> string) list" where
  "active_pairs active texts n = take n (zip active texts)"

lemma assign_spec_of:
  assumes "pool_ok pool (take n active)" "n \<le> length active" "2 * m \<le> length pool" "n \<le> m" "length ts \<le> m"
    "chaos_hits_assign pool active texts n ts = (pool', slots)"
  shows "assign_spec (active_pairs active texts n) pool ts pool' slots"
proof (rule hits_assign_from_spec [where free = 0])
  have used: "used_slots pool = {i. Some i \<in> set (take n active)}"
    using assms(1) by (auto simp: pool_ok_def)
  have "card (used_slots pool) \<le> card (set (take n active))"
  proof -
    have sub: "used_slots pool \<subseteq> the ` set (take n active)" unfolding used by force
    have "card (used_slots pool) \<le> card (the ` set (take n active))" by (rule card_mono [OF _ sub]) simp
    also have "\<dots> \<le> card (set (take n active))" by (rule card_image_le) simp
    finally show ?thesis .
  qed
  also have "\<dots> \<le> n" using card_length [of "take n active"] by simp
  finally show "card (used_slots pool) + length ts \<le> length pool" using assms(3-5) by simp
  show "\<forall>(s, u) \<in> set (active_pairs active texts n). case s of None \<Rightarrow> True | Some j \<Rightarrow> j \<in> used_slots pool"
    unfolding used active_pairs_def take_zip by (auto dest: set_zip_leftD split: option.splits)
  show "hits_assign_from (active_pairs active texts n) pool 0 ts = (pool', slots)"
    using assms(6) by (simp add: chaos_hits_assign_def active_pairs_def)
qed simp_all

lemma length_release [simp]: "length (chaos_hits_release pool kept) = length pool"
  by (simp add: chaos_hits_release_def)

lemma release_nth:
  "i < length pool \<Longrightarrow> chaos_hits_release pool kept ! i =
     (if slot_used (pool ! i) \<and> Some i \<notin> set kept then release_slot (pool ! i) else pool ! i)"
  by (simp add: chaos_hits_release_def)

lemma used_slots_release:
  "used_slots (chaos_hits_release pool kept) = used_slots pool \<inter> {i. Some i \<in> set kept}"
  by (auto simp: used_slots_def release_nth release_slot_def split: if_splits)

lemma assign_release:
  assumes "pool_ok pool (take n active)" "n \<le> length active" "2 * m \<le> length pool" "n \<le> m" "length ts \<le> m"
    "chaos_hits_assign pool active texts n ts = (pool', slots)"
  shows "length slots = length ts \<and> pool_ok (chaos_hits_release pool' slots) slots"
proof -
  note D = assign_specD [OF assign_spec_of [OF assms]]
  have "used_slots (chaos_hits_release pool' slots) = {i. Some i \<in> set slots}"
    unfolding used_slots_release D(4) by auto
  then show ?thesis using D(2,3) by (auto simp: pool_ok_def)
qed

text \<open>C11. A reload keeps the pool sound: with a pool of twice the rule limit every rule of the new
  snapshot gets a slot, and after the release the used slots are again exactly those of that snapshot.\<close>

theorem assign_release_invariant:
  assumes "pool_ok pool (take n active)" "n \<le> length active" "2 * m \<le> length pool" "n \<le> m" "length ts \<le> m"
    "chaos_hits_assign pool active texts n ts = (pool', slots)"
  shows "length slots = length ts \<and> pool_ok (chaos_hits_release pool' slots) slots"
  using assms by (rule assign_release)

definition idle_slot :: chaos_hit_slot where
  "idle_slot =
     \<lparr>slot_count = 0, slot_claimed = 0, slot_state = 0, slot_report = False, slot_generation = 0,
      slot_used = False\<rparr>"

theorem assign_release_invariant_witness:
  "length (snd (chaos_hits_assign (replicate 4 idle_slot) [] [] 0 [''a'', ''b''])) = length [''a'', ''b''] \<and>
   pool_ok (chaos_hits_release (fst (chaos_hits_assign (replicate 4 idle_slot) [] [] 0 [''a'', ''b'']))
     (snd (chaos_hits_assign (replicate 4 idle_slot) [] [] 0 [''a'', ''b''])))
     (snd (chaos_hits_assign (replicate 4 idle_slot) [] [] 0 [''a'', ''b'']))"
  by (rule assign_release_invariant [where m = 2 and n = 0])
    (simp_all add: pool_ok_def used_slots_def idle_slot_def nth_Cons' numeral_eq_Suc)


definition demo_pool :: "chaos_hit_slot list" where
  "demo_pool = [idle_slot\<lparr>slot_used := True, slot_count := 7\<rparr>, idle_slot, idle_slot, idle_slot]"


text \<open>In a forked child every slot starts over: counts and claims are zero, slots that only the parent's
  half-built snapshot held are retired, the others keep their generation, and none stays on its busy state.\<close>

theorem after_fork_slots:
  assumes "i < length pool"
  shows "slot_count (chaos_hits_pool_after_fork pool active ! i) = 0 \<and>
    slot_claimed (chaos_hits_pool_after_fork pool active ! i) =
      chaos_hit_claims_none (slot_generation (chaos_hits_pool_after_fork pool active ! i)) \<and>
    slot_state (chaos_hits_pool_after_fork pool active ! i) \<noteq> 3 \<and>
    slot_used (chaos_hits_pool_after_fork pool active ! i) = (slot_used (pool ! i) \<and> Some i \<in> set active) \<and>
    slot_generation (chaos_hits_pool_after_fork pool active ! i) =
      slot_generation (pool ! i) + (if slot_used (pool ! i) \<and> Some i \<notin> set active then 1 else 0)"
  using assms by (auto simp: chaos_hits_pool_after_fork_def after_fork_slot_def release_nth release_slot_def)

theorem after_fork_slots_witness:
  "slot_count (chaos_hits_pool_after_fork demo_pool [Some 1] ! 0) = 0 \<and>
    slot_claimed (chaos_hits_pool_after_fork demo_pool [Some 1] ! 0) =
      chaos_hit_claims_none (slot_generation (chaos_hits_pool_after_fork demo_pool [Some 1] ! 0)) \<and>
    slot_state (chaos_hits_pool_after_fork demo_pool [Some 1] ! 0) \<noteq> 3 \<and>
    slot_used (chaos_hits_pool_after_fork demo_pool [Some 1] ! 0) =
      (slot_used (demo_pool ! 0) \<and> Some 0 \<in> set [Some (1::nat)]) \<and>
    slot_generation (chaos_hits_pool_after_fork demo_pool [Some 1] ! 0) =
      slot_generation (demo_pool ! 0) +
      (if slot_used (demo_pool ! 0) \<and> Some 0 \<notin> set [Some (1::nat)] then 1 else 0)"
  by (rule after_fork_slots) (simp add: demo_pool_def)

section \<open>Lemmas on the hits file\<close>

definition report_text :: "(u64 \<times> string) list \<Rightarrow> string" where
  "report_text rows = concat (map (\<lambda>(hits, t). hits_line hits t) rows)"

lemma hits_report_eq:
  "hits_report space rows =
     (if rows = [] \<or> length (report_text rows) < space then Some (report_text rows) else None)"
proof (induction space rows rule: hits_report.induct)
  case (1 space)
  then show ?case by (simp add: report_text_def)
next
  case (2 space hits t rest)
  define line where "line = hits_line hits t"
  have line: "line \<noteq> []" by (simp add: line_def hits_line_def)
  show ?case
  proof (cases "space \<le> length line")
    case True
    then show ?thesis by (simp add: line_def report_text_def)
  next
    case False
    then have "hits_report (space - length line) rest =
        (if rest = [] \<or> length (report_text rest) < space - length line then Some (report_text rest) else None)"
      using "2.IH" [OF line_def] by simp
    with False show ?thesis by (auto simp: line_def [symmetric] report_text_def Let_def)
  qed
qed

lemma length_hits_line: "length t \<le> CHAOS_STATUS_TEXT_MAX \<Longrightarrow> length (hits_line hits t) \<le> CHAOS_HITS_LINE_MAX"
proof -
  assume t: "length t \<le> CHAOS_STATUS_TEXT_MAX"
  have "unat hits < 2 ^ 64" using unsigned_less [of hits] by simp
  then have "unat hits < 10 ^ 20" by simp
  then have "length (print_nat (unat hits)) \<le> 20" by (intro length_print_nat_le) auto
  with t show ?thesis by (simp add: hits_line_def CHAOS_HITS_LINE_MAX_def)
qed

text \<open>The report of a snapshot always fits its buffer: with texts as the parser keeps them, at most
  as many rules as the buffer was made for, the whole report is formatted and no line is dropped.\<close>

theorem hits_report_complete:
  assumes "\<forall>(hits, t) \<in> set rows. length t \<le> CHAOS_STATUS_TEXT_MAX" "length rows \<le> m"
  shows "hits_report (m * CHAOS_HITS_LINE_MAX + 1) rows = Some (report_text rows)"
proof -
  have "length (report_text rows) \<le> length rows * CHAOS_HITS_LINE_MAX"
    using assms(1)
  proof (induction rows)
    case (Cons row rows)
    obtain hits t where row: "row = (hits, t)" by fastforce
    with Cons.prems have "length (hits_line hits t) \<le> CHAOS_HITS_LINE_MAX" by (auto intro: length_hits_line)
    with Cons row show ?case by (auto simp: report_text_def)
  qed (simp add: report_text_def)
  also have "\<dots> \<le> m * CHAOS_HITS_LINE_MAX" using assms(2) by simp
  finally show ?thesis by (simp add: hits_report_eq)
qed

theorem hits_report_complete_witness:
  "hits_report (1 * CHAOS_HITS_LINE_MAX + 1) [(3, ''a'')] = Some (report_text [(3, ''a'')])"
  by (rule hits_report_complete) (simp_all add: CHAOS_STATUS_TEXT_MAX_def)

lemma publish_other_path:
  "q \<noteq> path \<Longrightarrow> snd (chaos_status_publish fs env path data exclusive) q = fs q"
  using publish_outcome [of fs env path data exclusive] by (auto simp: rewrite_in_place_def split: if_splits)

lemma publish_exclusive_all:
  assumes "fe_link env = None" "fs q \<noteq> None"
  shows "snd (chaos_status_publish fs env path data True) q = fs q"
proof (cases "q = path")
  case True
  then show ?thesis using publish_exclusive [where fs = fs and env = env and path = path] assms by simp
qed (rule publish_other_path)

lemma write_attempts_keep:
  assumes "\<forall>k. fe_link (envs k) = None" "fs q \<noteq> None" "\<not> owned"
  shows "fst (hits_write_attempts n envs salts fs prefix pid data number owned attempt) q = fs q"
  using assms(2,3)
proof (induction n arbitrary: fs number attempt)
  case (Suc n)
  let ?pub = "chaos_status_publish fs (envs attempt) (hits_path prefix number) data True"
  have keep: "snd ?pub q = fs q" using assms(1) Suc.prems by (intro publish_exclusive_all) auto
  obtain taken fs' where pub: "?pub = (taken, fs')" by fastforce
  then have fs': "fs' q = fs q" using keep by simp
  then show ?case
    using Suc.IH [of fs'] Suc.prems pub by (auto simp: Let_def)
qed simp

text \<open>A process that does not own its hits file yet destroys nobody else's: where hard links work, its
  write keeps the contents of every file that exists.\<close>

theorem hits_write_keeps_foreign:
  assumes "\<forall>k. fe_link (envs k) = None" "fs q \<noteq> None"
  shows "fst (chaos_hits_write_for envs salts fs prefix pid number False pool slots texts size') q = fs q"
  using assms write_attempts_keep [of envs fs q False]
  by (simp add: chaos_hits_write_for_def split: option.split)

theorem hits_write_keeps_foreign_witness:
  "fst (chaos_hits_write_for (\<lambda>k. quiet_env) (\<lambda>k. 7) [''/t/h.1'' \<mapsto> ''x''] ''/t/h'' 1 1 False demo_pool [Some 0]
     [''r''] 300) ''/t/h.1'' = [''/t/h.1'' \<mapsto> ''x''] ''/t/h.1''"
  by (rule hits_write_keeps_foreign) (simp_all add: quiet_env_def)

text \<open>The environment in which no staging file can be created.\<close>

definition full_disk_env :: fs_env where
  "full_disk_env = quiet_env\<lparr>fe_open := (\<lambda>p. Some ENOSPC)\<rparr>"

lemma publish_full_disk:
  "fe_open env = (\<lambda>p. Some ENOSPC) \<Longrightarrow>
     chaos_status_publish fs env path data exclusive = (False, fs)"
  by (auto simp: chaos_status_publish_def numeral_eq_Suc staging_open_error_def Let_def)

text \<open>C16. Ownership is assumed after a first write that created nothing: when no staging file can be made,
  the write reports no clash, so the next write takes the name for its own and replaces the file another
  process has there.\<close>

theorem hits_owned_without_create:
  assumes "fe_open (envs 0) = (\<lambda>p. Some ENOSPC)" "length (hits_path prefix number) < 128"
    "hits_report size' (zip (map (slot_hits pool) slots) texts) = Some data"
  shows "chaos_hits_write_for envs salts fs prefix pid number False pool slots texts size' = (fs, number, True) \<and>
    chaos_hits_write_for envs' salts fs prefix pid number True pool slots texts size' =
      (chaos_status_replace_file fs (envs' 0) (hits_path prefix number) data, number, True)"
  using assms by (simp add: chaos_hits_write_for_def numeral_eq_Suc publish_full_disk)

theorem hits_owned_without_create_witness:
  "chaos_hits_write_for (\<lambda>k. full_disk_env) (\<lambda>k. 7) [''/t/h.1'' \<mapsto> ''x''] ''/t/h'' 1 1 False demo_pool [Some 0]
      [''r''] 300 = ([''/t/h.1'' \<mapsto> ''x''], 1, True) \<and>
   chaos_hits_write_for (\<lambda>k. quiet_env) (\<lambda>k. 7) [''/t/h.1'' \<mapsto> ''x''] ''/t/h'' 1 1 True demo_pool [Some 0]
      [''r''] 300 =
     (chaos_status_replace_file [''/t/h.1'' \<mapsto> ''x''] quiet_env (hits_path ''/t/h'' 1)
        (report_text [(7, ''r'')]), 1, True)"
  by (rule hits_owned_without_create)
    (simp_all add: full_disk_env_def hits_path_def print_int_def print_nat.simps hits_report_eq report_text_def
      hits_line_def demo_pool_def slot_hits_def)

end
