(* ===== verification/Chaos_Policy.thy ===== *)
theory Chaos_Policy
  imports Chaos_Double Chaos_Hits
begin

text \<open>
  \<open>src/common/chaos_policy.h\<close>: the number parsers of the rule grammars, the qualifiers, and the
  final gate of a hit.
\<close>

section \<open>Data\<close>

text \<open>\<open>UINT64_MAX\<close>: the size passed for a call that moves no byte count.\<close>

definition CHAOS_POLICY_NO_SIZE :: u64 where "CHAOS_POLICY_NO_SIZE = 18446744073709551615"

record chaos_rule_policy =
  pol_first :: u64
  pol_from_ms :: int
  pol_until_ms :: int
  pol_size_above :: u64
  pol_size_below :: u64
  pol_has_size_above :: bool
  pol_has_size_below :: bool

definition policy_zero :: chaos_rule_policy where
  "policy_zero =
     \<lparr>pol_first = 0, pol_from_ms = 0, pol_until_ms = 0, pol_size_above = 0, pol_size_below = 0,
      pol_has_size_above = False, pol_has_size_below = False\<rparr>"

section \<open>Probability\<close>

text \<open>White space the rule grammars accept: space, tab, CR, LF.\<close>

definition is_blank_char :: "char \<Rightarrow> bool" where
  "is_blank_char c \<longleftrightarrow> c = CHR '' '' \<or> c = TAB \<or> c = CR \<or> c = LF"

text \<open>The digits after the point: the text after them, the accumulated decimals and the scale.
  The scale is a power of ten below \<open>10 ^ 16\<close>, exact as a double.\<close>

fun probability_digits :: "bool \<Rightarrow> string \<Rightarrow> u64 \<Rightarrow> nat \<Rightarrow> (string \<times> u64 \<times> nat) option" where
  "probability_digits one [] decimals scale = Some ([], decimals, scale)"
| "probability_digits one (c # cs) decimals scale =
     (if is_digit c then
        (if one \<and> c \<noteq> CHR ''0'' then None
         else if scale < 1000000000000000
              then probability_digits one cs (decimals * 10 + of_nat (digit_value c)) (scale * 10)
              else probability_digits one cs decimals scale)
      else Some (c # cs, decimals, scale))"

definition probability_end :: "bool \<Rightarrow> string \<times> u64 \<times> nat \<Rightarrow> rat option" where
  "probability_end one r =
     (let (rest, decimals, scale) = r
      in if dropWhile is_blank_char rest \<noteq> [] then None
         else Some (if one then 1 else dbl_div (unat decimals) scale))"

definition chaos_policy_parse_probability :: "string option \<Rightarrow> rat option" where
  "chaos_policy_parse_probability txt =
     (case txt of
        None \<Rightarrow> None
      | Some [] \<Rightarrow> None
      | Some (c # cs) \<Rightarrow>
          (if c \<noteq> CHR ''0'' \<and> c \<noteq> CHR ''1'' then None
           else let one = (c = CHR ''1'')
                in case cs of
                     [] \<Rightarrow> probability_end one (cs, 0, 1)
                   | d # ds \<Rightarrow>
                       (if d = CHR ''.'' then
                          (case ds of
                             [] \<Rightarrow> None
                           | e # es \<Rightarrow>
                               (if \<not> is_digit e then None
                                else Option.bind (probability_digits one ds 0 1) (probability_end one)))
                        else probability_end one (cs, 0, 1))))"

section \<open>Numbers and qualifier words\<close>

text \<open>The loop over the digits, with the value so far and the number of digits read.\<close>

fun number_digits :: "string \<Rightarrow> u64 \<Rightarrow> nat \<Rightarrow> u64 option" where
  "number_digits [] result digits = Some result"
| "number_digits (c # cs) result digits =
     (if \<not> is_digit c \<or> 18 \<le> digits then None
      else number_digits cs (result * 10 + of_nat (digit_value c)) (Suc digits))"

definition chaos_policy_parse_number :: "string \<Rightarrow> u64 option" where
  "chaos_policy_parse_number txt = (if txt = [] then None else number_digits txt 0 0)"

definition qualifier_number :: "string \<Rightarrow> string \<Rightarrow> u64 option" where
  "qualifier_number prefix word = Option.bind (after_prefix prefix word) chaos_policy_parse_number"

definition chaos_policy_parse_word ::
  "string \<Rightarrow> chaos_rule_policy \<Rightarrow> chaos_rule_policy option" where
  "chaos_policy_parse_word word policy =
     (case qualifier_number ''@first='' word of
        Some v \<Rightarrow> if v > 0 then Some (policy\<lparr>pol_first := v\<rparr>) else None
      | None \<Rightarrow>
     (case qualifier_number ''@from='' word of
        Some v \<Rightarrow> Some (policy\<lparr>pol_from_ms := int (unat v)\<rparr>)
      | None \<Rightarrow>
     (case qualifier_number ''@until='' word of
        Some v \<Rightarrow> Some (policy\<lparr>pol_until_ms := int (unat v)\<rparr>)
      | None \<Rightarrow>
     (case qualifier_number ''@size>'' word of
        Some v \<Rightarrow> Some (policy\<lparr>pol_size_above := v, pol_has_size_above := True\<rparr>)
      | None \<Rightarrow>
     (case qualifier_number ''@size<'' word of
        Some v \<Rightarrow> Some (policy\<lparr>pol_size_below := v, pol_has_size_below := True\<rparr>)
      | None \<Rightarrow> None)))))"

section \<open>Extraction of the qualifiers\<close>

definition ends_word :: "char \<Rightarrow> bool" where
  "ends_word c \<longleftrightarrow> c = CHR '' '' \<or> c = TAB \<or> c = CR"

definition starts_word :: "char \<Rightarrow> bool" where
  "starts_word c \<longleftrightarrow> c = CHR '' '' \<or> c = TAB"

text \<open>The last word of a text, and the text before it.\<close>

definition split_word :: "string \<Rightarrow> string \<times> string" where
  "split_word s =
     (let w = rev (takeWhile (\<lambda>c. \<not> starts_word c) (rev s))
      in (take (length s - length w) s, w))"

lemma split_word_append: "split_word s = (before, word) \<Longrightarrow> s = before @ word"
proof -
  assume eq: "split_word s = (before, word)"
  define w where "w = rev (takeWhile (\<lambda>c. \<not> starts_word c) (rev s))"
  have "s = rev (dropWhile (\<lambda>c. \<not> starts_word c) (rev s)) @ w"
    unfolding w_def by (metis rev_append rev_rev_ident takeWhile_dropWhile_id)
  then obtain b where "s = b @ w" by blast
  moreover from eq have "before = take (length s - length w) s" "word = w"
    by (auto simp: split_word_def w_def Let_def)
  ultimately show ?thesis by simp
qed

text \<open>
  The scan from right to left. \<open>s\<close> is the line up to \<open>end\<close>, \<open>cut_at\<close> the offset of the leftmost
  qualifier found. The result says whether every qualifier parsed.
\<close>

function policy_scan ::
  "string \<Rightarrow> nat option \<Rightarrow> chaos_rule_policy \<Rightarrow> bool \<times> nat option \<times> chaos_rule_policy" where
  "policy_scan s cut_at policy =
     (let (before, word) = split_word (rstrip ends_word s)
      in if word = [] \<or> hd word \<noteq> CHR ''@'' \<or> before = [] then (True, cut_at, policy)
         else case chaos_policy_parse_word word policy of
                None \<Rightarrow> (False, cut_at, policy)
              | Some policy' \<Rightarrow> policy_scan before (Some (length before)) policy')"
  by pat_completeness auto
termination
proof (relation "measure (\<lambda>(s, cut_at, policy). length s)", goal_cases)
  case 1
  show ?case by simp
next
  case (2 s cut_at policy split before word policy')
  then have "rstrip ends_word s = before @ word" by (metis split_word_append)
  then have "length before + length word = length (rstrip ends_word s)" by simp
  moreover have "0 < length word" using 2 by simp
  ultimately have "length before < length s"
    using length_rstrip_le [of ends_word s] by linarith
  then show ?case by simp
qed

declare policy_scan.simps [simp del]

text \<open>Whether the line is accepted, the line as left behind, the qualifiers.\<close>

definition chaos_policy_extract :: "string \<Rightarrow> bool \<times> string \<times> chaos_rule_policy" where
  "chaos_policy_extract line =
     (let scanned = takeWhile (\<lambda>c. c \<noteq> CHR ''#'') line;
          (ok, cut_at, policy) = policy_scan scanned None policy_zero
      in if \<not> ok then (False, line, policy)
         else let line' = (case cut_at of None \<Rightarrow> line | Some k \<Rightarrow> take k line)
              in if pol_from_ms policy \<noteq> 0 \<and> pol_until_ms policy \<noteq> 0 \<and>
                    pol_until_ms policy \<le> pol_from_ms policy
                 then (False, line', policy) else (True, line', policy))"

section \<open>The gates of a hit\<close>

definition chaos_policy_is_empty :: "chaos_rule_policy \<Rightarrow> bool" where
  "chaos_policy_is_empty p \<longleftrightarrow>
     pol_first p = 0 \<and> pol_from_ms p = 0 \<and> pol_until_ms p = 0 \<and>
     \<not> pol_has_size_above p \<and> \<not> pol_has_size_below p"

text \<open>\<open>now\<close> is what \<open>chaos_clock_realtime_ms\<close> returns.\<close>

definition chaos_policy_window_open :: "int \<Rightarrow> chaos_rule_policy \<Rightarrow> bool" where
  "chaos_policy_window_open now p =
     (if pol_from_ms p = 0 \<and> pol_until_ms p = 0 then True
      else (pol_from_ms p = 0 \<or> pol_from_ms p \<le> now) \<and> (pol_until_ms p = 0 \<or> now < pol_until_ms p))"

definition chaos_policy_size_ok :: "chaos_rule_policy \<Rightarrow> u64 \<Rightarrow> bool" where
  "chaos_policy_size_ok p size' =
     (if \<not> pol_has_size_above p \<and> \<not> pol_has_size_below p then True
      else if size' = CHAOS_POLICY_NO_SIZE then False
      else (\<not> pol_has_size_above p \<or> pol_size_above p < size') \<and>
           (\<not> pol_has_size_below p \<or> size' < pol_size_below p))"

text \<open>The test of the claim loop: the word is tagged with this generation and has an allowance left.\<close>

definition claim_refused :: "chaos_rule_policy \<Rightarrow> u64 \<Rightarrow> u64 \<Rightarrow> bool" where
  "claim_refused p generation claimed \<longleftrightarrow>
     claimed AND NOT 0xffffffff \<noteq> chaos_hit_claims_none generation \<or>
     pol_first p \<le> chaos_hit_claims claimed \<or>
     chaos_hit_claims claimed = 0xffffffff"

text \<open>
  Whether the effect is applied, the slot afterwards, and whether the report hook runs. No other
  thread touches the slot in between, so the compare-and-swap succeeds at once; theory
  \<open>Claim_Protocol\<close> has the interleaved version.
\<close>

definition chaos_policy_fire ::
  "chaos_rule_policy \<Rightarrow> chaos_hit_slot option \<Rightarrow> u64 \<Rightarrow> bool \<times> chaos_hit_slot option \<times> bool" where
  "chaos_policy_fire p slot generation =
     (if \<not> chaos_hit_slot_current slot generation then (False, slot, False)
      else case slot of
             None \<Rightarrow> (let (slot', hook) = chaos_hit_record slot in (True, slot', hook))
           | Some s \<Rightarrow>
               (if pol_first p \<noteq> 0 then
                  (if claim_refused p generation (slot_claimed s) then (False, slot, False)
                   else let (slot', hook) =
                              chaos_hit_record (Some (s\<lparr>slot_claimed := slot_claimed s + 1\<rparr>))
                        in (True, slot', hook))
                else let (slot', hook) = chaos_hit_record slot in (True, slot', hook)))"

section \<open>Lemmas on the number parsers\<close>

text \<open>The digits after the point: fifteen of them enter the value, a leading 1 allows only zeros.\<close>

lemma probability_digits_eq:
  "k \<le> 15 \<Longrightarrow>
   probability_digits one s (of_nat n) (10 ^ k) =
     (if one \<and> (\<exists>c \<in> set (takeWhile is_digit s). c \<noteq> CHR ''0'') then None
      else Some (dropWhile is_digit s, of_nat (decimal_from n (take (15 - k) (takeWhile is_digit s))),
                 10 ^ (k + min (15 - k) (length (takeWhile is_digit s)))))"
proof (induction s arbitrary: n k)
  case Nil
  then show ?case by simp
next
  case (Cons c cs)
  show ?case
  proof (cases "is_digit c")
    case False
    then show ?thesis by simp
  next
    case digit: True
    show ?thesis
    proof (cases "one \<and> c \<noteq> CHR ''0''")
      case True
      with digit show ?thesis by auto
    next
      case zero: False
      show ?thesis
      proof (cases "k < 15")
        case True
        have "(10::nat) ^ k < 10 ^ 15" using True by (intro power_strict_increasing) auto
        then have lt: "(10::nat) ^ k < 1000000000000000" by simp
        have w: "(of_nat n * 10 + of_nat (digit_value c) :: u64) = of_nat (10 * n + digit_value c)"
          by simp
        have step: "probability_digits one (c # cs) (of_nat n) (10 ^ k) =
            probability_digits one cs (of_nat (10 * n + digit_value c)) (10 ^ Suc k)"
          unfolding probability_digits.simps w using digit zero lt by (simp only: if_True if_False power_Suc2)
        have t: "15 - k = Suc (15 - Suc k)" "Suc k \<le> 15" using True by auto
        show ?thesis
          unfolding step Cons.IH [OF t(2)] unfolding t(1) using digit zero by auto
      next
        case False
        with Cons.prems have k: "k = 15" by simp
        have step: "probability_digits one (c # cs) (of_nat n) (10 ^ k) =
            probability_digits one cs (of_nat n) (10 ^ k)"
          unfolding probability_digits.simps using digit zero
          by (simp only: k if_True if_False) simp
        show ?thesis
          unfolding step Cons.IH [OF Cons.prems] using digit zero by (auto simp: k)
      qed
    qed
  qed
qed

text \<open>The value of the digits read, and its distance to the digits written.\<close>

definition decimal_fraction :: "string \<Rightarrow> rat" where
  "decimal_fraction ds = of_nat (decimal ds) / 10 ^ length ds"

lemma decimal_from_shift: "decimal_from n s = n * 10 ^ length s + decimal s"
proof (induction s arbitrary: n)
  case (Cons c cs)
  have "decimal_from (10 * n + digit_value c) cs = (10 * n + digit_value c) * 10 ^ length cs + decimal cs"
    by (rule Cons.IH)
  moreover have "decimal_from (digit_value c) cs = digit_value c * 10 ^ length cs + decimal cs"
    by (rule Cons.IH)
  ultimately show ?case by (simp add: algebra_simps)
qed simp

lemma decimal_append: "decimal (s @ t) = decimal s * 10 ^ length t + decimal t"
  by (simp only: decimal_from_append decimal_from_shift [of "decimal s"])

lemma decimal_fraction_take:
  assumes "\<forall>c \<in> set ds. is_digit c"
  shows "decimal_fraction (take k ds) \<le> decimal_fraction ds"
    and "decimal_fraction ds < decimal_fraction (take k ds) + 1 / 10 ^ length (take k ds)"
proof -
  define a b where "a = take k ds" and "b = drop k ds"
  have ds: "ds = a @ b" by (simp add: a_def b_def)
  have b: "decimal b < 10 ^ length b"
    by (rule decimal_bound) (use assms in \<open>auto simp: b_def dest: in_set_dropD\<close>)
  have eq: "decimal_fraction ds = decimal_fraction a + of_nat (decimal b) / 10 ^ length b / 10 ^ length a"
    unfolding decimal_fraction_def ds decimal_append by (simp add: field_simps power_add)
  have lt: "(of_nat (decimal b) :: rat) < 10 ^ length b"
    using b by (metis of_nat_less_iff of_nat_numeral of_nat_power)
  define x where "x = (of_nat (decimal b) :: rat) / 10 ^ length b"
  have x: "0 \<le> x" "x < 1" using lt by (simp_all add: x_def)
  show "decimal_fraction (take k ds) \<le> decimal_fraction ds"
    unfolding eq a_def [symmetric] x_def [symmetric] using x by simp
  have "x / 10 ^ length a < 1 / 10 ^ length a" using x by (intro divide_strict_right_mono) auto
  then show "decimal_fraction ds < decimal_fraction (take k ds) + 1 / 10 ^ length (take k ds)"
    unfolding eq a_def [symmetric] x_def [symmetric] by simp
qed

lemma decimal_lt_word:
  assumes "\<forall>c \<in> set ds. is_digit c" "length ds \<le> 15"
  shows "unat (of_nat (decimal ds) :: u64) = decimal ds"
proof -
  have "decimal ds < 10 ^ length ds" using assms(1) by (rule decimal_bound)
  also have "(10::nat) ^ length ds \<le> 10 ^ 15" using assms(2) by (rule power_increasing) simp
  finally have "decimal ds < 18446744073709551616" by simp
  then show ?thesis by (simp add: unat_of_nat)
qed

text \<open>Everything the parser accepts: the texts, and the values it gives them.\<close>

inductive probability_text :: "string \<Rightarrow> rat \<Rightarrow> bool" where
  Whole: "c = CHR ''0'' \<and> v = 0 \<or> c = CHR ''1'' \<and> v = 1 \<Longrightarrow> \<forall>b \<in> set blanks. is_blank_char b \<Longrightarrow>
     probability_text (c # blanks) v"
| One: "zeros \<noteq> [] \<Longrightarrow> \<forall>z \<in> set zeros. z = CHR ''0'' \<Longrightarrow> \<forall>b \<in> set blanks. is_blank_char b \<Longrightarrow>
     probability_text (''1.'' @ zeros @ blanks) 1"
| Fraction: "ds \<noteq> [] \<Longrightarrow> \<forall>d \<in> set ds. is_digit d \<Longrightarrow> \<forall>b \<in> set blanks. is_blank_char b \<Longrightarrow>
     probability_text (''0.'' @ ds @ blanks)
       (dbl_div (decimal (take 15 ds)) (10 ^ min 15 (length ds)))"

lemma dropWhile_Nil_split:
  "dropWhile P (dropWhile Q s) = [] \<longleftrightarrow> (\<exists>blanks. s = takeWhile Q s @ blanks \<and> (\<forall>b \<in> set blanks. P b))"
  by (metis dropWhile_eq_Nil_conv same_append_eq takeWhile_dropWhile_id)

lemma probability_end_eq:
  "probability_end one (rest, decimals, scale) = Some v \<longleftrightarrow>
     (\<forall>b \<in> set rest. is_blank_char b) \<and> v = (if one then 1 else dbl_div (unat decimals) scale)"
  by (auto simp: probability_end_def)

lemma blank_not_digit: "is_blank_char b \<Longrightarrow> \<not> is_digit b"
  by (auto simp: is_blank_char_def is_digit_def)

lemma takeWhile_digits_append:
  assumes "\<forall>d \<in> set ds. is_digit d" "\<forall>b \<in> set blanks. is_blank_char b"
  shows "takeWhile is_digit (ds @ blanks) = ds" "dropWhile is_digit (ds @ blanks) = blanks"
proof -
  have "takeWhile is_digit blanks = []" "dropWhile is_digit blanks = blanks"
    using assms(2) by (cases blanks; simp add: blank_not_digit)+
  then show "takeWhile is_digit (ds @ blanks) = ds" "dropWhile is_digit (ds @ blanks) = blanks"
    using assms(1) by (simp_all add: takeWhile_all)
qed

text \<open>The texts with a point.\<close>

lemma parse_probability_point:
  assumes "c = CHR ''0'' \<or> c = CHR ''1''" "ds \<noteq> []" "\<forall>d \<in> set ds. is_digit d"
    "rest = [] \<or> \<not> is_digit (hd rest)"
  shows "chaos_policy_parse_probability (Some (c # CHR ''.'' # ds @ rest)) =
     (if (\<exists>b \<in> set rest. \<not> is_blank_char b) \<or> (c = CHR ''1'' \<and> (\<exists>d \<in> set ds. d \<noteq> CHR ''0'')) then None
      else if c = CHR ''1'' then Some 1
      else Some (dbl_div (decimal (take 15 ds)) (10 ^ min 15 (length ds))))"
proof -
  obtain e es where ds: "ds = e # es" using assms(2) by (cases ds) auto
  have tw: "takeWhile is_digit (ds @ rest) = ds" "dropWhile is_digit (ds @ rest) = rest"
    using assms(3,4) by (cases rest; simp add: takeWhile_all)+
  have un: "unat (of_nat (decimal (take 15 ds)) :: u64) = decimal (take 15 ds)"
    by (rule decimal_lt_word) (use assms(3) in \<open>auto dest: in_set_takeD\<close>)
  have "chaos_policy_parse_probability (Some (c # CHR ''.'' # ds @ rest)) =
      Option.bind (probability_digits (c = CHR ''1'') (ds @ rest) (of_nat 0) (10 ^ 0))
        (probability_end (c = CHR ''1''))"
    using assms(1,3) by (auto simp: chaos_policy_parse_probability_def ds Let_def)
  then show ?thesis
    unfolding probability_digits_eq [OF le0] tw
    using assms(1) by (auto simp: probability_end_def un min.commute)
qed

lemma parse_probability_whole:
  assumes "c = CHR ''0'' \<or> c = CHR ''1''" "rest = [] \<or> hd rest \<noteq> CHR ''.''"
  shows "chaos_policy_parse_probability (Some (c # rest)) =
     (if \<exists>b \<in> set rest. \<not> is_blank_char b then None else Some (if c = CHR ''1'' then 1 else 0))"
  using assms by (cases rest) (auto simp: chaos_policy_parse_probability_def probability_end_def Let_def)

lemma parse_probability_shape:
  assumes "chaos_policy_parse_probability (Some t) = Some v"
  obtains (whole) c rest where "t = c # rest" "c = CHR ''0'' \<or> c = CHR ''1''"
      "rest = [] \<or> hd rest \<noteq> CHR ''.''"
  | (point) c ds rest where "t = c # CHR ''.'' # ds @ rest" "c = CHR ''0'' \<or> c = CHR ''1''" "ds \<noteq> []"
      "\<forall>d \<in> set ds. is_digit d" "rest = [] \<or> \<not> is_digit (hd rest)"
proof -
  from assms obtain c cs where t: "t = c # cs" and c: "c = CHR ''0'' \<or> c = CHR ''1''"
    by (auto simp: chaos_policy_parse_probability_def split: list.splits if_splits)
  show thesis
  proof (cases "cs = [] \<or> hd cs \<noteq> CHR ''.''")
    case True
    with t c show thesis by (rule whole)
  next
    case False
    then obtain es where cs: "cs = CHR ''.'' # es" by (cases cs) auto
    with assms t c obtain e fs where es: "es = e # fs" and e: "is_digit e"
      by (auto simp: chaos_policy_parse_probability_def split: list.splits if_splits)
    show thesis
    proof (rule point)
      show "t = c # CHR ''.'' # takeWhile is_digit es @ dropWhile is_digit es" by (simp add: t cs)
      show "takeWhile is_digit es \<noteq> []" using es e by simp
      show "\<forall>d \<in> set (takeWhile is_digit es). is_digit d" by (auto dest: set_takeWhileD)
      show "dropWhile is_digit es = [] \<or> \<not> is_digit (hd (dropWhile is_digit es))"
        using hd_dropWhile by blast
    qed (rule c)
  qed
qed

lemma parse_probability_sound:
  assumes "chaos_policy_parse_probability (Some t) = Some v"
  shows "probability_text t v"
  using assms
proof (cases rule: parse_probability_shape)
  case (whole c rest)
  then have "\<forall>b \<in> set rest. is_blank_char b" "v = (if c = CHR ''1'' then 1 else 0)"
    using assms by (auto simp: parse_probability_whole split: if_splits)
  with whole show ?thesis by (auto intro!: probability_text.Whole)
next
  case (point c ds rest)
  then have b: "\<forall>b \<in> set rest. is_blank_char b" and z: "c = CHR ''1'' \<longrightarrow> (\<forall>d \<in> set ds. d = CHR ''0'')"
    and v: "v = (if c = CHR ''1'' then 1 else dbl_div (decimal (take 15 ds)) (10 ^ min 15 (length ds)))"
    using assms by (auto simp: parse_probability_point split: if_splits)
  show ?thesis
  proof (cases "c = CHR ''1''")
    case True
    with point b z v probability_text.One [of ds rest] show ?thesis by simp
  next
    case False
    with point b v probability_text.Fraction [of ds rest] show ?thesis by simp
  qed
qed

lemma parse_probability_complete:
  assumes "probability_text t v"
  shows "chaos_policy_parse_probability (Some t) = Some v"
  using assms
proof cases
  case (Whole c blanks)
  have "blanks = [] \<or> hd blanks \<noteq> CHR ''.''"
    using Whole(3) by (cases blanks) (auto simp: is_blank_char_def)
  moreover have "c = CHR ''0'' \<or> c = CHR ''1''" using Whole(2) by blast
  ultimately show ?thesis
    using Whole(2,3) unfolding Whole(1) by (subst parse_probability_whole) auto
next
  case (One zeros blanks)
  have zero: "is_digit CHR ''0''" by (simp add: is_digit_def)
  have z: "\<forall>d \<in> set zeros. is_digit d" using One(4) zero by metis
  have b: "blanks = [] \<or> \<not> is_digit (hd blanks)" using One(5) by (cases blanks) (simp_all add: blank_not_digit)
  have t: "t = CHR ''1'' # CHR ''.'' # zeros @ blanks" using One(1) by simp
  have n: "\<not> ((\<exists>d \<in> set blanks. \<not> is_blank_char d) \<or> (CHR ''1'' = CHR ''1'' \<and> (\<exists>d \<in> set zeros. d \<noteq> CHR ''0'')))"
    using One(4,5) by simp
  show ?thesis
    unfolding t parse_probability_point [OF disjI2 [OF refl] One(3) z b] One(2) using n by simp
next
  case (Fraction ds blanks)
  have b: "blanks = [] \<or> \<not> is_digit (hd blanks)"
    using Fraction(5) by (cases blanks) (simp_all add: blank_not_digit)
  have t: "t = CHR ''0'' # CHR ''.'' # ds @ blanks" using Fraction(1) by simp
  have n: "\<not> (\<exists>d \<in> set blanks. \<not> is_blank_char d)" using Fraction(5) by simp
  show ?thesis
    unfolding t parse_probability_point [OF disjI1 [OF refl] Fraction(3,4) b] Fraction(2) using n by simp
qed

lemma decimal_fraction_digits:
  assumes "\<forall>d \<in> set ds. is_digit d"
  shows "decimal (take 15 ds) \<le> 10 ^ min 15 (length ds)"
    and "decimal_fraction (take 15 ds) = of_nat (decimal (take 15 ds)) / of_nat (10 ^ min 15 (length ds))"
proof -
  have "decimal (take 15 ds) < 10 ^ length (take 15 ds)"
    by (rule decimal_bound) (use assms in \<open>auto dest: in_set_takeD\<close>)
  then show "decimal (take 15 ds) \<le> 10 ^ min 15 (length ds)" by (simp add: min.commute)
  show "decimal_fraction (take 15 ds) = of_nat (decimal (take 15 ds)) / of_nat (10 ^ min 15 (length ds))"
    by (simp add: decimal_fraction_def min.commute)
qed

lemma probability_text_range: "probability_text t v \<Longrightarrow> 0 \<le> v \<and> v \<le> 1"
  by (induction rule: probability_text.induct)
    (auto simp: dbl_div_nonneg intro!: dbl_div_le_1 decimal_fraction_digits(1))

lemma parse_probability_range:
  "chaos_policy_parse_probability txt = Some v \<Longrightarrow> 0 \<le> v \<and> v \<le> 1"
  by (cases "txt") (auto simp: chaos_policy_parse_probability_def [of None]
      dest: parse_probability_sound probability_text_range)

text \<open>C14. The probability parser accepts exactly the texts of the grammar, digits with an optional
  decimal part up to one and trailing blanks, with these values; every value lies between 0 and 1.\<close>

theorem parse_probability_language:
  "chaos_policy_parse_probability (Some t) = Some v \<longleftrightarrow> probability_text t v \<and> 0 \<le> v \<and> v \<le> 1"
  using parse_probability_sound parse_probability_complete parse_probability_range by blast

text \<open>A decimal fraction with any number of digits is read with an error of at most
  \<open>10 ^ -15 + 2 ^ -53\<close>, and a fraction of at most fifteen digits with the rounding error alone.\<close>

theorem parse_probability_accuracy:
  assumes "ds \<noteq> []" "\<forall>d \<in> set ds. is_digit d" "\<forall>b \<in> set blanks. is_blank_char b"
  shows "\<exists>v. chaos_policy_parse_probability (Some (''0.'' @ ds @ blanks)) = Some v \<and>
     \<bar>v - decimal_fraction ds\<bar> \<le> 1 / 10 ^ 15 + 1 / 2 ^ 53 \<and>
     (length ds \<le> 15 \<longrightarrow> \<bar>v - decimal_fraction ds\<bar> \<le> decimal_fraction ds / 2 ^ 53)"
proof -
  define v where "v = dbl_div (decimal (take 15 ds)) (10 ^ min 15 (length ds))"
  have parsed: "chaos_policy_parse_probability (Some (''0.'' @ ds @ blanks)) = Some v"
    unfolding v_def by (intro parse_probability_complete probability_text.Fraction assms)
  have err: "\<bar>v - decimal_fraction (take 15 ds)\<bar> \<le> decimal_fraction (take 15 ds) / 2 ^ 53"
    unfolding v_def decimal_fraction_digits(2) [OF assms(2)] by (rule dbl_div_error) simp
  have le1: "decimal_fraction (take 15 ds) \<le> 1"
    unfolding decimal_fraction_digits(2) [OF assms(2)]
    using decimal_fraction_digits(1) [OF assms(2)] by (simp del: of_nat_power add: of_nat_le_iff divide_le_eq)
  have near: "\<bar>v - decimal_fraction ds\<bar> \<le> 1 / 10 ^ 15 + 1 / 2 ^ 53" if "15 < length ds"
  proof -
    have "length (take 15 ds) = 15" using that by simp
    then have "\<bar>decimal_fraction (take 15 ds) - decimal_fraction ds\<bar> \<le> 1 / 10 ^ 15"
      using decimal_fraction_take [OF assms(2), of 15] by simp
    moreover have "decimal_fraction (take 15 ds) / 2 ^ 53 \<le> 1 / 2 ^ 53" using le1 by simp
    ultimately show ?thesis using err by linarith
  qed
  show ?thesis
  proof (intro exI conjI impI)
    show "chaos_policy_parse_probability (Some (''0.'' @ ds @ blanks)) = Some v" by (rule parsed)
    show "\<bar>v - decimal_fraction ds\<bar> \<le> decimal_fraction ds / 2 ^ 53" if "length ds \<le> 15"
      using err that by simp
    show "\<bar>v - decimal_fraction ds\<bar> \<le> 1 / 10 ^ 15 + 1 / 2 ^ 53"
    proof (cases "15 < length ds")
      case True
      then show ?thesis by (rule near)
    next
      case False
      then have "\<bar>v - decimal_fraction ds\<bar> \<le> decimal_fraction ds / 2 ^ 53"
        and "decimal_fraction ds \<le> 1" using err le1 by simp_all
      then show ?thesis by simp
    qed
  qed
qed

theorem parse_probability_accuracy_witness:
  "\<exists>v. chaos_policy_parse_probability (Some (''0.'' @ ''25'' @ '' '')) = Some v \<and>
     \<bar>v - decimal_fraction ''25''\<bar> \<le> 1 / 10 ^ 15 + 1 / 2 ^ 53 \<and>
     (length ''25'' \<le> 15 \<longrightarrow> \<bar>v - decimal_fraction ''25''\<bar> \<le> decimal_fraction ''25'' / 2 ^ 53)"
  by (rule parse_probability_accuracy) (simp_all add: is_digit_def is_blank_char_def)

section \<open>Numbers\<close>

lemma number_digits_eq:
  "d \<le> 18 \<Longrightarrow>
   number_digits s (of_nat n) d =
     (if (\<forall>c \<in> set s. is_digit c) \<and> d + length s \<le> 18 then Some (of_nat (decimal_from n s)) else None)"
proof (induction s arbitrary: n d)
  case (Cons c cs)
  have w: "(of_nat n * 10 + of_nat (digit_value c) :: u64) = of_nat (10 * n + digit_value c)" by simp
  show ?case
  proof (cases "is_digit c \<and> d < 18")
    case True
    then show ?thesis
      unfolding number_digits.simps w using Cons.IH [of "Suc d" "10 * n + digit_value c"] by auto
  next
    case False
    with Cons.prems show ?thesis by auto
  qed
qed simp

lemma decimal_lt_18:
  assumes "\<forall>c \<in> set s. is_digit c" "length s \<le> 18"
  shows "decimal s < 10 ^ 18"
proof -
  have "decimal s < 10 ^ length s" using assms(1) by (rule decimal_bound)
  also have "(10::nat) ^ length s \<le> 10 ^ 18" using assms(2) by (rule power_increasing) simp
  finally show ?thesis .
qed

text \<open>A qualifier number is accepted exactly when it is one to eighteen digits, and its value is
  then the decimal value of the text: nothing wraps around in 64 bits.\<close>

theorem parse_number_exact:
  "map_option unat (chaos_policy_parse_number s) =
     (if s \<noteq> [] \<and> (\<forall>c \<in> set s. is_digit c) \<and> length s \<le> 18 then Some (decimal s) else None)"
proof -
  have "unat (of_nat (decimal s) :: u64) = decimal s" if "\<forall>c \<in> set s. is_digit c" "length s \<le> 18"
    using decimal_lt_18 [OF that] by (simp add: unat_of_nat)
  then show ?thesis
    using number_digits_eq [of 0 s 0] by (auto simp: chaos_policy_parse_number_def)
qed

lemma parse_number_print:
  assumes "n < 10 ^ 18"
  shows "chaos_policy_parse_number (print_nat n) = Some (of_nat n)"
proof -
  have "length (print_nat n) \<le> 18" using assms by (intro length_print_nat_le) auto
  then show ?thesis
    using number_digits_eq [of 0 "print_nat n" 0] print_nat_digits [of _ n]
    by (simp add: chaos_policy_parse_number_def)
qed

lemma parse_number_bound:
  assumes "chaos_policy_parse_number s = Some v"
  shows "unat v < 10 ^ 18"
proof -
  have d: "(\<forall>c \<in> set s. is_digit c) \<and> length s \<le> 18 \<and> v = of_nat (decimal s)"
    using assms number_digits_eq [of 0 s 0] by (auto simp: chaos_policy_parse_number_def split: if_splits)
  then have "decimal s < 10 ^ 18" by (intro decimal_lt_18) auto
  with d show ?thesis by (simp add: unat_of_nat)
qed

section \<open>Qualifiers\<close>

text \<open>The policies a line can carry, and the text of a policy: its qualifiers, each after a space.\<close>

definition policy_ok :: "chaos_rule_policy \<Rightarrow> bool" where
  "policy_ok p \<longleftrightarrow>
     unat (pol_first p) < 10 ^ 18 \<and> 0 \<le> pol_from_ms p \<and> pol_from_ms p < 10 ^ 18 \<and>
     0 \<le> pol_until_ms p \<and> pol_until_ms p < 10 ^ 18 \<and>
     (pol_from_ms p \<noteq> 0 \<and> pol_until_ms p \<noteq> 0 \<longrightarrow> pol_from_ms p < pol_until_ms p) \<and>
     unat (pol_size_above p) < 10 ^ 18 \<and> unat (pol_size_below p) < 10 ^ 18 \<and>
     (\<not> pol_has_size_above p \<longrightarrow> pol_size_above p = 0) \<and>
     (\<not> pol_has_size_below p \<longrightarrow> pol_size_below p = 0)"

definition qualifier_words :: "chaos_rule_policy \<Rightarrow> string list" where
  "qualifier_words p =
     (if pol_first p \<noteq> 0 then [''@first='' @ print_nat (unat (pol_first p))] else []) @
     (if pol_from_ms p \<noteq> 0 then [''@from='' @ print_nat (nat (pol_from_ms p))] else []) @
     (if pol_until_ms p \<noteq> 0 then [''@until='' @ print_nat (nat (pol_until_ms p))] else []) @
     (if pol_has_size_above p then [''@size>'' @ print_nat (unat (pol_size_above p))] else []) @
     (if pol_has_size_below p then [''@size<'' @ print_nat (unat (pol_size_below p))] else [])"

definition words_text :: "string list \<Rightarrow> string" where
  "words_text ws = concat (map (\<lambda>w. CHR '' '' # w) ws)"

definition print_qualifiers :: "chaos_rule_policy \<Rightarrow> string" where
  "print_qualifiers p = words_text (qualifier_words p)"

text \<open>A text whose last word is no qualifier.\<close>

definition no_qualifier :: "string \<Rightarrow> bool" where
  "no_qualifier s \<longleftrightarrow>
     (let (before, word) = split_word (rstrip ends_word s)
      in word = [] \<or> hd word \<noteq> CHR ''@'' \<or> before = [])"

lemma starts_word_ends_word: "starts_word c \<Longrightarrow> ends_word c"
  by (auto simp: starts_word_def ends_word_def)

lemma split_word_last:
  assumes "\<forall>c \<in> set w. \<not> starts_word c" "s = [] \<or> starts_word (last s)"
  shows "split_word (s @ w) = (s, w)"
proof -
  have rs: "takeWhile (\<lambda>c. \<not> starts_word c) (rev s) = []"
    using assms(2) by (cases s rule: rev_cases) auto
  have "takeWhile (\<lambda>c. \<not> starts_word c) (rev w @ rev s) = rev w"
    using assms(1) rs by (subst takeWhile_append2) auto
  then show ?thesis by (simp add: split_word_def Let_def)
qed

lemma policy_scan_end: "no_qualifier s \<Longrightarrow> policy_scan s cut_at p = (True, cut_at, p)"
  by (auto simp: no_qualifier_def policy_scan.simps [of s] split: prod.splits)

lemma policy_scan_blank: "ends_word b \<Longrightarrow> policy_scan (s @ [b]) cut_at p = policy_scan s cut_at p"
  by (simp add: policy_scan.simps [of "s @ [b]"] policy_scan.simps [of s] rstrip_snoc)

lemma policy_scan_word:
  assumes "hd w = CHR ''@''" "w \<noteq> []" "\<forall>c \<in> set w. \<not> ends_word c"
  shows "policy_scan (s @ CHR '' '' # w) cut_at p =
    (case chaos_policy_parse_word w p of
       None \<Rightarrow> (False, cut_at, p)
     | Some p' \<Rightarrow> policy_scan s (Some (Suc (length s))) p')"
proof -
  have last: "\<not> ends_word (last w)" using assms(2,3) by simp
  have strip: "rstrip ends_word (s @ CHR '' '' # w) = (s @ '' '') @ w"
    using assms(2) last by (simp add: rstrip_id)
  have split: "split_word ((s @ '' '') @ w) = (s @ '' '', w)"
    using assms(3) starts_word_ends_word by (intro split_word_last) (auto simp: starts_word_def)
  have blank: "policy_scan (s @ '' '') k q = policy_scan s k q" for k q
    by (rule policy_scan_blank) (simp add: ends_word_def)
  show ?thesis
    by (subst policy_scan.simps) (use assms(1,2) in \<open>simp add: strip split blank split: option.splits del: append_assoc\<close>)
qed

definition parse_words :: "string list \<Rightarrow> chaos_rule_policy \<Rightarrow> chaos_rule_policy option" where
  "parse_words ws p = foldr (\<lambda>w acc. Option.bind acc (chaos_policy_parse_word w)) ws (Some p)"

lemma words_text_snoc: "words_text (ws @ [w]) = words_text ws @ CHR '' '' # w"
  by (simp add: words_text_def)

lemma parse_words_None: "foldr (\<lambda>w acc. Option.bind acc (chaos_policy_parse_word w)) ws None = None"
  by (induction ws) auto

lemma parse_words_snoc:
  "parse_words (ws @ [w]) p =
     (case chaos_policy_parse_word w p of None \<Rightarrow> None | Some p' \<Rightarrow> parse_words ws p')"
  by (simp add: parse_words_def parse_words_None split: option.splits)

lemma policy_scan_words:
  assumes "\<forall>w \<in> set ws. w \<noteq> [] \<and> hd w = CHR ''@'' \<and> (\<forall>c \<in> set w. \<not> ends_word c)"
    "no_qualifier s" "parse_words ws p = Some p'"
  shows "policy_scan (s @ words_text ws) cut_at p =
    (True, if ws = [] then cut_at else Some (Suc (length s)), p')"
  using assms
proof (induction ws arbitrary: cut_at p rule: rev_induct)
  case Nil
  then show ?case by (simp add: words_text_def parse_words_def policy_scan_end)
next
  case (snoc w ws)
  then obtain q where q: "chaos_policy_parse_word w p = Some q" "parse_words ws q = Some p'"
    by (auto simp: parse_words_snoc split: option.splits)
  have IH: "policy_scan (s @ words_text ws) k q = (True, if ws = [] then k else Some (Suc (length s)), p')" for k
    using snoc q by (intro snoc.IH) auto
  have "policy_scan (s @ words_text (ws @ [w])) cut_at p =
      policy_scan (s @ words_text ws) (Some (Suc (length (s @ words_text ws)))) q"
    using snoc.prems(1) q policy_scan_word [of w "s @ words_text ws" cut_at p]
    by (simp add: words_text_snoc)
  moreover have "ws = [] \<Longrightarrow> words_text ws = []" by (simp add: words_text_def)
  ultimately show ?case unfolding IH by (cases "ws = []") simp_all
qed

lemma print_nat_plain [simp]:
  "CHR '' '' \<notin> set (print_nat n)" "TAB \<notin> set (print_nat n)" "CR \<notin> set (print_nat n)"
  "CHR ''#'' \<notin> set (print_nat n)" "CHR '':'' \<notin> set (print_nat n)"
  using print_nat_digits [of _ n] by (force simp: is_digit_def)+

lemma qualifier_word_shape:
  assumes "w \<in> set (qualifier_words p)"
  shows "w \<noteq> [] \<and> hd w = CHR ''@'' \<and> (\<forall>c \<in> set w. \<not> ends_word c) \<and> CHR ''#'' \<notin> set w"
proof -
  have "\<forall>c \<in> set (print_nat n). \<not> ends_word c" for n
    using print_nat_plain(1-3) [of n] by (auto simp: ends_word_def)
  then show ?thesis
    using assms by (auto simp: qualifier_words_def split: if_splits) (simp_all add: ends_word_def)
qed

lemma parse_word_first:
  "0 < n \<Longrightarrow> n < 10 ^ 18 \<Longrightarrow>
     chaos_policy_parse_word (''@first='' @ print_nat n) p = Some (p\<lparr>pol_first := of_nat n\<rparr>)"
proof -
  assume n: "0 < n" "n < 10 ^ 18"
  have v: "qualifier_number ''@first='' (''@first='' @ print_nat n) = Some (of_nat n)"
    unfolding qualifier_number_def after_prefix_append using parse_number_print [OF n(2)] by simp
  have "unat (of_nat n :: u64) = n" using n by (simp add: unat_of_nat)
  then have "(0::u64) < of_nat n" using n(1) by (simp add: word_less_nat_alt)
  then show ?thesis unfolding chaos_policy_parse_word_def v by simp
qed

lemma parse_word_others:
  assumes "n < 10 ^ 18"
  shows "chaos_policy_parse_word (''@from='' @ print_nat n) p = Some (p\<lparr>pol_from_ms := int n\<rparr>)"
    and "chaos_policy_parse_word (''@until='' @ print_nat n) p = Some (p\<lparr>pol_until_ms := int n\<rparr>)"
    and "chaos_policy_parse_word (''@size>'' @ print_nat n) p =
      Some (p\<lparr>pol_size_above := of_nat n, pol_has_size_above := True\<rparr>)"
    and "chaos_policy_parse_word (''@size<'' @ print_nat n) p =
      Some (p\<lparr>pol_size_below := of_nat n, pol_has_size_below := True\<rparr>)"
proof -
  have u: "unat (of_nat n :: u64) = n" using assms by (simp add: unat_of_nat)
  note num = parse_number_print [OF assms]
  show "chaos_policy_parse_word (''@from='' @ print_nat n) p = Some (p\<lparr>pol_from_ms := int n\<rparr>)"
    by (simp add: chaos_policy_parse_word_def qualifier_number_def num u)
  show "chaos_policy_parse_word (''@until='' @ print_nat n) p = Some (p\<lparr>pol_until_ms := int n\<rparr>)"
    by (simp add: chaos_policy_parse_word_def qualifier_number_def num u)
  show "chaos_policy_parse_word (''@size>'' @ print_nat n) p =
      Some (p\<lparr>pol_size_above := of_nat n, pol_has_size_above := True\<rparr>)"
    by (simp add: chaos_policy_parse_word_def qualifier_number_def num u)
  show "chaos_policy_parse_word (''@size<'' @ print_nat n) p =
      Some (p\<lparr>pol_size_below := of_nat n, pol_has_size_below := True\<rparr>)"
    by (simp add: chaos_policy_parse_word_def qualifier_number_def num u)
qed

lemma parse_words_append:
  "parse_words (ws @ vs) p = Option.bind (parse_words vs p) (parse_words ws)"
  by (cases "parse_words vs p") (simp_all add: parse_words_def parse_words_None)

lemma parse_words_optional:
  "(b \<Longrightarrow> chaos_policy_parse_word w p = Some p') \<Longrightarrow> (\<not> b \<Longrightarrow> p = p') \<Longrightarrow>
     parse_words (if b then [w] else []) p = Some p'"
  by (simp add: parse_words_def)

lemma parse_qualifier_words:
  assumes "policy_ok p"
  shows "parse_words (qualifier_words p) policy_zero = Some p"
proof -
  have parts: "nat (pol_from_ms p) < 10 ^ 18" "nat (pol_until_ms p) < 10 ^ 18"
    "unat (pol_first p) < 10 ^ 18" "unat (pol_size_above p) < 10 ^ 18" "unat (pol_size_below p) < 10 ^ 18"
    using assms by (auto simp: policy_ok_def nat_less_iff)
  note words = parse_word_others [OF parts(1)] parse_word_others [OF parts(2)]
    parse_word_others [OF parts(4)] parse_word_others [OF parts(5)]
  have first: "pol_first p \<noteq> 0 \<Longrightarrow> chaos_policy_parse_word (''@first='' @ print_nat (unat (pol_first p))) q =
      Some (q\<lparr>pol_first := pol_first p\<rparr>)" for q
    using parse_word_first [OF _ parts(3), of q] by (simp add: unat_gt_0)
  define q1 q2 q3 q4 where
    "q1 = policy_zero\<lparr>pol_size_below := pol_size_below p, pol_has_size_below := pol_has_size_below p\<rparr>"
    and "q2 = q1\<lparr>pol_size_above := pol_size_above p, pol_has_size_above := pol_has_size_above p\<rparr>"
    and "q3 = q2\<lparr>pol_until_ms := pol_until_ms p\<rparr>"
    and "q4 = q3\<lparr>pol_from_ms := pol_from_ms p\<rparr>"
  note qs = q1_def q2_def q3_def q4_def policy_zero_def
  have "parse_words (if pol_has_size_below p then [''@size<'' @ print_nat (unat (pol_size_below p))] else [])
      policy_zero = Some q1"
    using assms by (intro parse_words_optional) (simp_all add: words qs policy_ok_def del: append_Cons)
  moreover have "parse_words (if pol_has_size_above p then [''@size>'' @ print_nat (unat (pol_size_above p))] else [])
      q1 = Some q2"
    using assms by (intro parse_words_optional) (simp_all add: words qs policy_ok_def del: append_Cons)
  moreover have "parse_words (if pol_until_ms p \<noteq> 0 then [''@until='' @ print_nat (nat (pol_until_ms p))] else [])
      q2 = Some q3"
    using assms by (intro parse_words_optional) (simp_all add: words qs policy_ok_def del: append_Cons)
  moreover have "parse_words (if pol_from_ms p \<noteq> 0 then [''@from='' @ print_nat (nat (pol_from_ms p))] else [])
      q3 = Some q4"
    using assms by (intro parse_words_optional) (simp_all add: words qs policy_ok_def del: append_Cons)
  moreover have "parse_words (if pol_first p \<noteq> 0 then [''@first='' @ print_nat (unat (pol_first p))] else [])
      q4 = Some p"
    by (intro parse_words_optional) (simp_all add: first qs del: append_Cons)
  ultimately show ?thesis
    unfolding qualifier_words_def parse_words_append by simp
qed

lemma words_text_no_hash: "\<forall>w \<in> set ws. CHR ''#'' \<notin> set w \<Longrightarrow> CHR ''#'' \<notin> set (words_text ws)"
  by (auto simp: words_text_def)

lemma takeWhile_no_hash: "CHR ''#'' \<notin> set s \<Longrightarrow> takeWhile (\<lambda>c. c \<noteq> CHR ''#'') s = s"
  by (rule takeWhile_all) auto

lemma extract_print:
  assumes "policy_ok p" "no_qualifier s" "CHR ''#'' \<notin> set s"
  shows "chaos_policy_extract (s @ print_qualifiers p) =
    (True, if qualifier_words p = [] then s else s @ '' '', p)"
proof -
  have shape: "\<forall>w \<in> set (qualifier_words p). w \<noteq> [] \<and> hd w = CHR ''@'' \<and> (\<forall>c \<in> set w. \<not> ends_word c)"
    using qualifier_word_shape by blast
  have scan: "policy_scan (s @ words_text (qualifier_words p)) None policy_zero =
      (True, if qualifier_words p = [] then None else Some (Suc (length s)), p)"
    by (rule policy_scan_words [OF shape assms(2) parse_qualifier_words [OF assms(1)]])
  have hash: "takeWhile (\<lambda>c. c \<noteq> CHR ''#'') (s @ words_text (qualifier_words p)) =
      s @ words_text (qualifier_words p)"
    using assms(3) words_text_no_hash [of "qualifier_words p"] qualifier_word_shape
    by (intro takeWhile_no_hash) auto
  have cutline: "take (Suc (length s)) (s @ words_text (qualifier_words p)) = s @ '' ''"
    if "qualifier_words p \<noteq> []"
    using that by (cases "qualifier_words p") (simp_all add: words_text_def)
  have win: "\<not> (pol_from_ms p \<noteq> 0 \<and> pol_until_ms p \<noteq> 0 \<and> pol_until_ms p \<le> pol_from_ms p)"
    using assms(1) by (auto simp: policy_ok_def)
  have "chaos_policy_extract (s @ words_text (qualifier_words p)) =
      (True, case (if qualifier_words p = [] then None else Some (Suc (length s))) of
               None \<Rightarrow> s @ words_text (qualifier_words p)
             | Some k \<Rightarrow> take k (s @ words_text (qualifier_words p)), p)"
    unfolding chaos_policy_extract_def hash scan Let_def prod.case using win by (simp only: simp_thms if_False)
  moreover have "words_text [] = []" by (simp add: words_text_def)
  ultimately show ?thesis
    unfolding print_qualifiers_def using cutline by (cases "qualifier_words p = []") simp_all
qed

text \<open>C13. Qualifiers survive printing and extraction: a rule text followed by the printed qualifiers of
  any policy a line can carry gives back the rule text and that very policy.\<close>

theorem extract_print_roundtrip:
  assumes "policy_ok p" "no_qualifier s" "CHR ''#'' \<notin> set s"
  shows "chaos_policy_extract (s @ print_qualifiers p) =
    (True, if qualifier_words p = [] then s else s @ '' '', p)"
  using assms by (rule extract_print)

theorem extract_print_roundtrip_witness:
  "chaos_policy_extract (''/a:read:EIO:1'' @ print_qualifiers (policy_zero\<lparr>pol_first := 3, pol_until_ms := 50\<rparr>)) =
    (True, if qualifier_words (policy_zero\<lparr>pol_first := 3, pol_until_ms := 50\<rparr>) = [] then ''/a:read:EIO:1''
           else ''/a:read:EIO:1'' @ '' '', policy_zero\<lparr>pol_first := 3, pol_until_ms := 50\<rparr>)"
  by (rule extract_print_roundtrip)
    (simp_all add: policy_ok_def policy_zero_def no_qualifier_def split_word_def rstrip_def starts_word_def
      ends_word_def)

text \<open>Whatever an accepted line carries is such a policy.\<close>

lemma parse_word_ok:
  assumes "chaos_policy_parse_word w p = Some p'"
    and "policy_ok (p\<lparr>pol_from_ms := 0, pol_until_ms := 0\<rparr>)" "0 \<le> pol_from_ms p" "pol_from_ms p < 10 ^ 18"
      "0 \<le> pol_until_ms p" "pol_until_ms p < 10 ^ 18"
  shows "policy_ok (p'\<lparr>pol_from_ms := 0, pol_until_ms := 0\<rparr>)" "0 \<le> pol_from_ms p'" "pol_from_ms p' < 10 ^ 18"
    "0 \<le> pol_until_ms p'" "pol_until_ms p' < 10 ^ 18"
proof -
  have num: "unat v < 10 ^ 18" if "qualifier_number q w = Some v" for q v
    using that parse_number_bound by (auto simp: qualifier_number_def split: bind_splits)
  have int_lt: "int (unat v) < 10 ^ 18" if "unat v < 10 ^ 18" for v :: u64
    using that by (metis of_nat_less_iff of_nat_numeral of_nat_power)
  consider (first) v where "p' = p\<lparr>pol_first := v\<rparr>" "v > 0" "unat v < 10 ^ 18"
    | (from_ms) v :: u64 where "p' = p\<lparr>pol_from_ms := int (unat v)\<rparr>" "unat v < 10 ^ 18"
    | (until_ms) v :: u64 where "p' = p\<lparr>pol_until_ms := int (unat v)\<rparr>" "unat v < 10 ^ 18"
    | (above) v where "p' = p\<lparr>pol_size_above := v, pol_has_size_above := True\<rparr>" "unat v < 10 ^ 18"
    | (below) v where "p' = p\<lparr>pol_size_below := v, pol_has_size_below := True\<rparr>" "unat v < 10 ^ 18"
  proof (cases "qualifier_number ''@first='' w")
    case (Some v)
    with assms(1) num [OF Some] show ?thesis by (intro first [of v]) (auto simp: chaos_policy_parse_word_def split: if_splits)
  next
    case n1: None
    show ?thesis
    proof (cases "qualifier_number ''@from='' w")
      case (Some v)
      with assms(1) n1 num [OF Some] show ?thesis by (intro from_ms [of v]) (auto simp: chaos_policy_parse_word_def)
    next
      case n2: None
      show ?thesis
      proof (cases "qualifier_number ''@until='' w")
        case (Some v)
        with assms(1) n1 n2 num [OF Some] show ?thesis by (intro until_ms [of v]) (auto simp: chaos_policy_parse_word_def)
      next
        case n3: None
        show ?thesis
        proof (cases "qualifier_number ''@size>'' w")
          case (Some v)
          with assms(1) n1 n2 n3 num [OF Some] show ?thesis by (intro above [of v]) (auto simp: chaos_policy_parse_word_def)
        next
          case n4: None
          then obtain v where "qualifier_number ''@size<'' w = Some v"
            using assms(1) n1 n2 n3 by (auto simp: chaos_policy_parse_word_def split: option.splits)
          with assms(1) n1 n2 n3 n4 num [OF this] show ?thesis by (intro below [of v]) (auto simp: chaos_policy_parse_word_def)
        qed
      qed
    qed
  qed
  then have "policy_ok (p'\<lparr>pol_from_ms := 0, pol_until_ms := 0\<rparr>) \<and> 0 \<le> pol_from_ms p' \<and> pol_from_ms p' < 10 ^ 18 \<and>
      0 \<le> pol_until_ms p' \<and> pol_until_ms p' < 10 ^ 18"
  proof cases
    case (from_ms v)
    with assms(2-6) int_lt [OF from_ms(2)] show ?thesis by (simp add: policy_ok_def)
  next
    case (until_ms v)
    with assms(2-6) int_lt [OF until_ms(2)] show ?thesis by (simp add: policy_ok_def)
  qed (use assms(2-6) in \<open>simp_all add: policy_ok_def\<close>)
  then show "policy_ok (p'\<lparr>pol_from_ms := 0, pol_until_ms := 0\<rparr>)" "0 \<le> pol_from_ms p'" "pol_from_ms p' < 10 ^ 18"
    "0 \<le> pol_until_ms p'" "pol_until_ms p' < 10 ^ 18" by blast+
qed

definition policy_loose :: "chaos_rule_policy \<Rightarrow> bool" where
  "policy_loose p \<longleftrightarrow>
     policy_ok (p\<lparr>pol_from_ms := 0, pol_until_ms := 0\<rparr>) \<and> 0 \<le> pol_from_ms p \<and> pol_from_ms p < 10 ^ 18 \<and>
     0 \<le> pol_until_ms p \<and> pol_until_ms p < 10 ^ 18"

lemma policy_scan_ok: "policy_loose p \<Longrightarrow> policy_loose (snd (snd (policy_scan s cut_at p)))"
proof (induction s cut_at p rule: policy_scan.induct)
  case (1 s cut_at p)
  obtain before word where sw: "split_word (rstrip ends_word s) = (before, word)" by fastforce
  show ?case
  proof (cases "word = [] \<or> hd word \<noteq> CHR ''@'' \<or> before = []")
    case True
    with sw 1 show ?thesis by (auto simp: policy_scan.simps [of s])
  next
    case False
    show ?thesis
    proof (cases "chaos_policy_parse_word word p")
      case None
      with False sw 1 show ?thesis by (simp add: policy_scan.simps [of s])
    next
      case (Some q)
      have "policy_loose q"
        using parse_word_ok [OF Some] "1.prems" by (auto simp: policy_loose_def)
      then have "policy_loose (snd (snd (policy_scan before (Some (length before)) q)))"
        using "1.IH" [OF sw [symmetric] refl False Some] by simp
      with False sw Some show ?thesis by (simp add: policy_scan.simps [of s])
    qed
  qed
qed

lemma extract_policy_ok:
  assumes "chaos_policy_extract line = (True, line', p)"
  shows "policy_ok p" "\<exists>rest. line = line' @ rest"
proof -
  obtain ok k q where scan: "policy_scan (takeWhile (\<lambda>c. c \<noteq> CHR ''#'') line) None policy_zero = (ok, k, q)"
    by (metis prod_cases3)
  have "policy_loose policy_zero" by (simp add: policy_loose_def policy_ok_def policy_zero_def)
  then have "policy_loose q"
    using policy_scan_ok [of policy_zero "takeWhile (\<lambda>c. c \<noteq> CHR ''#'') line" None] scan by simp
  moreover have p: "p = q" "\<not> (pol_from_ms q \<noteq> 0 \<and> pol_until_ms q \<noteq> 0 \<and> pol_until_ms q \<le> pol_from_ms q)"
    using assms scan by (auto simp: chaos_policy_extract_def Let_def split: if_splits)
  ultimately show "policy_ok p" by (auto simp: policy_loose_def policy_ok_def)
  have "line' = line \<or> (\<exists>n. line' = take n line)"
    using assms scan by (auto simp: chaos_policy_extract_def Let_def split: if_splits option.splits)
  then show "\<exists>rest. line = line' @ rest" by (metis append_Nil2 append_take_drop_id)
qed

text \<open>An accepted line yields a satisfiable policy: its numbers fit 64 bits, a window that has both
  ends is not empty, an absent size bound is 0, and the line left is a prefix of the line given.\<close>

theorem extract_sound:
  "fst (chaos_policy_extract line) \<longrightarrow>
     policy_ok (snd (snd (chaos_policy_extract line))) \<and>
     (\<exists>rest. line = fst (snd (chaos_policy_extract line)) @ rest)"
  using extract_policy_ok [of line] by (cases "chaos_policy_extract line") auto

theorem extract_sound_witness:
  "policy_ok (snd (snd (chaos_policy_extract ''a''))) \<and>
   (\<exists>rest. ''a'' = fst (snd (chaos_policy_extract ''a'')) @ rest)"
proof -
  have "fst (chaos_policy_extract ''a'')"
    by (simp add: chaos_policy_extract_def policy_scan.simps split_word_def rstrip_def
        starts_word_def ends_word_def policy_zero_def Let_def)
  with extract_sound [of "''a''"] show ?thesis by blast
qed

section \<open>Successive hits\<close>

text \<open>The answers of \<open>k\<close> successive hits on a slot, and the slot afterwards.\<close>

fun fire_run ::
  "nat \<Rightarrow> chaos_rule_policy \<Rightarrow> chaos_hit_slot option \<Rightarrow> u64 \<Rightarrow> bool list \<times> chaos_hit_slot option" where
  "fire_run 0 p slot generation = ([], slot)"
| "fire_run (Suc k) p slot generation =
     (let (fired, slot', hook) = chaos_policy_fire p slot generation;
          (rest, slot'') = fire_run k p slot' generation
      in (fired # rest, slot''))"

lemma fire_run_Suc:
  "fst (fire_run (Suc k) p slot g) =
     (case chaos_policy_fire p slot g of (fired, slot', hook) \<Rightarrow> fired # fst (fire_run k p slot' g))"
  by (simp split: prod.splits)

declare fire_run.simps(2) [simp del]

definition fire_limit :: "chaos_rule_policy \<Rightarrow> nat" where
  "fire_limit p = min (unat (pol_first p)) 0xffffffff"

lemma claim_refused_iff:
  assumes "c \<le> 0xffffffff"
  shows "claim_refused p g (chaos_hit_claims_none g + of_nat c) \<longleftrightarrow> fire_limit p \<le> c"
proof -
  have u: "unat (of_nat c :: u64) = c" using assms by (simp add: unat_of_nat)
  then have le: "(of_nat c :: u64) \<le> 0xffffffff" using assms by (simp add: word_le_nat_alt)
  have top: "(of_nat c :: u64) = 0xffffffff \<longleftrightarrow> c = 0xffffffff"
    by (simp add: word_unat_eq_iff u)
  have first: "pol_first p \<le> of_nat c \<longleftrightarrow> unat (pol_first p) \<le> c" by (simp add: word_le_nat_alt u)
  show ?thesis
    unfolding claim_refused_def claim_word_split [OF le] fire_limit_def top first
    using assms by auto
qed

lemma fire_unlimited:
  "pol_first p = 0 \<Longrightarrow> slot_generation s = g \<Longrightarrow>
     chaos_policy_fire p (Some s) g = (True, Some (s\<lparr>slot_count := slot_count s + 1\<rparr>), slot_report s)"
  by (simp add: chaos_policy_fire_def chaos_hit_slot_current_def chaos_hit_record_def)

lemma fire_limited:
  assumes "pol_first p \<noteq> 0" "slot_generation s = g" "slot_claimed s = chaos_hit_claims_none g + of_nat c"
    "c \<le> 0xffffffff"
  shows "chaos_policy_fire p (Some s) g =
    (if fire_limit p \<le> c then (False, Some s, False)
     else (True, Some (s\<lparr>slot_claimed := chaos_hit_claims_none g + of_nat (Suc c), slot_count := slot_count s + 1\<rparr>),
           slot_report s))"
  using assms claim_refused_iff [OF assms(4), of p g]
  by (simp add: chaos_policy_fire_def chaos_hit_slot_current_def chaos_hit_record_def add.commute
      add.left_commute)

lemma fire_stale:
  "slot_generation s \<noteq> g \<Longrightarrow> chaos_policy_fire p (Some s) g = (False, Some s, False)"
  by (simp add: chaos_policy_fire_def chaos_hit_slot_current_def)

lemma fire_run_unlimited:
  "pol_first p = 0 \<Longrightarrow> slot_generation s = g \<Longrightarrow> fst (fire_run k p (Some s) g) = replicate k True"
  by (induction k arbitrary: s) (simp_all add: fire_unlimited fire_run_Suc)

lemma fire_run_spent:
  assumes "pol_first p \<noteq> 0" "slot_generation s = g" "slot_claimed s = chaos_hit_claims_none g + of_nat c"
    "c \<le> 0xffffffff" "fire_limit p \<le> c"
  shows "fst (fire_run k p (Some s) g) = replicate k False"
proof (induction k)
  case (Suc k)
  then show ?case using fire_limited [OF assms(1-4)] assms(5) by (simp add: fire_run_Suc)
qed simp

lemma fire_run_limited:
  assumes "pol_first p \<noteq> 0" "slot_generation s = g" "slot_claimed s = chaos_hit_claims_none g + of_nat c"
    "c \<le> fire_limit p"
  shows "fst (fire_run k p (Some s) g) =
    replicate (min k (fire_limit p - c)) True @ replicate (k - (fire_limit p - c)) False"
  using assms
proof (induction k arbitrary: s c)
  case (Suc k)
  have c: "c \<le> 0xffffffff" using Suc.prems(4) by (simp add: fire_limit_def)
  show ?case
  proof (cases "fire_limit p \<le> c")
    case True
    with fire_run_spent [OF Suc.prems(1-3) c True, of "Suc k"] show ?thesis by simp
  next
    case False
    define t where "t = s\<lparr>slot_claimed := chaos_hit_claims_none g + of_nat (Suc c), slot_count := slot_count s + 1\<rparr>"
    have t: "slot_generation t = g" "slot_claimed t = chaos_hit_claims_none g + of_nat (Suc c)"
      using Suc.prems(2) by (simp_all add: t_def)
    have le: "Suc c \<le> fire_limit p" using False by simp
    have lim: "fire_limit p - c = Suc (fire_limit p - Suc c)" using False by simp
    have step: "fst (fire_run (Suc k) p (Some s) g) = True # fst (fire_run k p (Some t) g)"
      using fire_limited [OF Suc.prems(1-3) c] False by (simp add: t_def fire_run_Suc)
    show ?thesis unfolding step lim Suc.IH [OF Suc.prems(1) t le] by simp
  qed
qed simp

text \<open>With \<open>@first=N\<close> a freshly assigned slot lets exactly the first \<open>N\<close> of any number of hits through
  and refuses all later ones; without it every hit goes through.\<close>

theorem fire_first_exact:
  "fst (fire_run k p (Some (fresh_slot s)) (slot_generation s)) =
     (if pol_first p = 0 then replicate k True
      else replicate (min k (fire_limit p)) True @ replicate (k - fire_limit p) False)"
proof (cases "pol_first p = 0")
  case True
  then show ?thesis by (simp add: fire_run_unlimited fresh_slot_def)
next
  case False
  then show ?thesis
    using fire_run_limited [of p "fresh_slot s" "slot_generation s" 0 k] by (simp add: fresh_slot_def)
qed

text \<open>A rule copy of an earlier generation never fires and never touches the counters: neither after
  its slot was released nor after the pool was reset.\<close>

theorem fire_released_never:
  "chaos_policy_fire p (Some (release_slot s)) (slot_generation s) = (False, Some (release_slot s), False) \<and>
   chaos_policy_fire p (Some (reset_slot s)) (slot_generation s) = (False, Some (reset_slot s), False)"
  by (simp add: fire_stale release_slot_def reset_slot_def Let_def)

end
