(* ===== verification/Rule_File.thy ===== *)
theory Rule_File
  imports Chaos_Policy
begin

text \<open>
  What the rule files of the libraries share: the tail of a rule record, the loop over the lines
  of a file with its all-or-nothing result, and the selection of the best matching rule by a
  linear scan. Two interfaces state what the loop needs of a library's line parser and what every
  selection scan promises; their consequences are proved here once.
\<close>

section \<open>The common tail of a rule\<close>

record rule_head =
  rh_policy :: chaos_rule_policy
  rh_call_size :: u64
  rh_hit :: "nat option"
  rh_hit_generation :: u64

text \<open>The gate of a hit on the slot a rule copy points to.\<close>

definition fire_on_pool ::
  "'a rule_head_scheme \<Rightarrow> chaos_hit_slot list \<Rightarrow> bool \<times> chaos_hit_slot list \<times> bool" where
  "fire_on_pool rule pool =
     (let (fired, slot, hook) =
            chaos_policy_fire (rh_policy rule) (map_option (\<lambda>i. pool ! i) (rh_hit rule)) (rh_hit_generation rule)
      in (fired, (case (rh_hit rule, slot) of (Some i, Some s) \<Rightarrow> pool[i := s] | _ \<Rightarrow> pool), hook))"

lemma fire_on_pool_current:
  "fire_on_pool rule pool = (True, pool', hook) \<Longrightarrow>
     case rh_hit rule of None \<Rightarrow> True | Some i \<Rightarrow> slot_generation (pool ! i) = rh_hit_generation rule"
  by (auto simp: fire_on_pool_def chaos_policy_fire_def chaos_hit_slot_current_def Let_def
      split: prod.splits option.splits if_splits)

section \<open>Trimming and comments\<close>

text \<open>Removal of blanks at both ends; the parsers' trim functions all compute this.\<close>

definition trim_blanks :: "string \<Rightarrow> string" where
  "trim_blanks s = rstrip is_blank_char (dropWhile is_blank_char s)"

definition cut_comment :: "string \<Rightarrow> string" where
  "cut_comment s = takeWhile (\<lambda>c. c \<noteq> CHR ''#'') s"

lemma trim_blanks_Nil_iff: "trim_blanks s = [] \<longleftrightarrow> (\<forall>c \<in> set s. is_blank_char c)"
proof -
  have "trim_blanks s = [] \<longleftrightarrow> (\<forall>c \<in> set (dropWhile is_blank_char s). is_blank_char c)"
    by (simp add: trim_blanks_def rstrip_def)
  also have "\<dots> \<longleftrightarrow> dropWhile is_blank_char s = []"
  proof (cases "dropWhile is_blank_char s")
    case Nil
    then show ?thesis by (simp only: set_simps ball_simps simp_thms)
  next
    case (Cons c cs)
    then have "\<not> is_blank_char c" using hd_dropWhile [of is_blank_char s] by simp
    with Cons show ?thesis by (simp only: set_simps ball_simps simp_thms list.distinct)
  qed
  finally show ?thesis by simp
qed

lemma set_trim_blanks: "set (trim_blanks s) \<subseteq> set s"
  unfolding trim_blanks_def by (meson set_dropWhileD set_rstrip_subset subset_iff)

lemma cut_comment_append: "cut_comment (s @ CHR ''#'' # t) = cut_comment s"
  unfolding cut_comment_def by (induction s) auto

lemma cut_comment_id: "CHR ''#'' \<notin> set s \<Longrightarrow> cut_comment s = s"
  unfolding cut_comment_def by (rule takeWhile_eq_all_conv [THEN iffD2]) auto

text \<open>The two text helpers as the libraries write them.\<close>

lemma trim_form:
  "(let t = dropWhile is_blank_char s in if t = [] then t else rstrip is_blank_char t) = trim_blanks s"
  by (cases "dropWhile is_blank_char s = []")
    (simp_all only: trim_blanks_def Let_def if_True if_False rstrip_Nil simp_thms)

lemma strip_form: "(case split_first CHR ''#'' s of None \<Rightarrow> s | Some (before, _) \<Rightarrow> before) = cut_comment s"
proof (cases "split_first CHR ''#'' s")
  case None
  then have "CHR ''#'' \<notin> set s" by (simp add: split_first_None_iff)
  with None show ?thesis by (simp add: cut_comment_id)
next
  case (Some ab)
  obtain a b where ab: "ab = (a, b)" by fastforce
  with Some have "s = a @ CHR ''#'' # b" "CHR ''#'' \<notin> set a" by (simp_all add: split_first_Some_iff)
  with Some ab show ?thesis by (simp add: cut_comment_append cut_comment_id)
qed

lemma trim_blanks_ends:
  assumes "trim_blanks s \<noteq> []"
  shows "\<not> is_blank_char (hd (trim_blanks s))" "\<not> is_blank_char (last (trim_blanks s))"
proof -
  let ?t = "dropWhile is_blank_char s"
  have ne: "rstrip is_blank_char ?t \<noteq> []" using assms by (simp add: trim_blanks_def)
  then show "\<not> is_blank_char (last (trim_blanks s))" unfolding trim_blanks_def by (rule rstrip_last)
  have "?t = rstrip is_blank_char ?t @ rev (takeWhile is_blank_char (rev ?t))"
    by (rule rstrip_append_takeWhile)
  then have "hd ?t = hd (rstrip is_blank_char ?t)" using ne by (metis hd_append2)
  moreover have "?t \<noteq> []"
  proof
    assume "?t = []"
    with ne show False by (simp only: rstrip_Nil simp_thms)
  qed
  ultimately show "\<not> is_blank_char (hd (trim_blanks s))"
    unfolding trim_blanks_def using hd_dropWhile [of is_blank_char s] by simp
qed

text \<open>A field that trimming leaves alone.\<close>

definition trimmed :: "string \<Rightarrow> bool" where
  "trimmed f \<longleftrightarrow> f \<noteq> [] \<and> \<not> is_blank_char (hd f) \<and> \<not> is_blank_char (last f)"

lemma trim_blanks_trimmed:
  assumes "trimmed f" "\<forall>b \<in> set blanks. is_blank_char b"
  shows "trim_blanks (f @ blanks) = f"
proof -
  have "dropWhile is_blank_char (f @ blanks) = f @ blanks"
    using assms(1) by (cases f) (simp_all add: trimmed_def)
  moreover have "rstrip is_blank_char (f @ blanks) = f"
    using assms(2)
  proof (induction blanks rule: rev_induct)
    case Nil
    then show ?case using assms(1) by (simp add: trimmed_def rstrip_id)
  next
    case (snoc b bs)
    then show ?case by (simp add: rstrip_snoc flip: append_assoc)
  qed
  ultimately show ?thesis by (simp add: trim_blanks_def)
qed

lemma trim_blanks_id [simp]: "trimmed f \<Longrightarrow> trim_blanks f = f"
  using trim_blanks_trimmed [of f "[]"] by simp

lemma trimmed_trim: "trim_blanks s \<noteq> [] \<Longrightarrow> trimmed (trim_blanks s)"
  by (simp add: trimmed_def trim_blanks_ends)

text \<open>A field that can stand in a line: no separator, comment or qualifier character.\<close>

definition plain_field :: "string \<Rightarrow> bool" where
  "plain_field f \<longleftrightarrow> trimmed f \<and> CHR '':'' \<notin> set f \<and> CHR ''#'' \<notin> set f \<and> CHR ''@'' \<notin> set f"

lemma plain_field_trim: "plain_field f \<Longrightarrow> trim_blanks f = f"
  by (simp add: plain_field_def)

lemma plain_print_nat: "plain_field (print_nat n)"
proof -
  have "is_digit (hd (print_nat n))" "is_digit (last (print_nat n))"
    using print_nat_digits [of _ n] by simp_all
  then show ?thesis
    using print_nat_digits [of "CHR ''@''" n] blank_not_digit
    by (auto simp: plain_field_def trimmed_def is_digit_def)
qed

lemma strtoul_print_nat: "n \<le> 0xffffffff \<Longrightarrow> strtoul (print_nat n) = (n, [], True)"
  using strtoul_digits [of "print_nat n"] print_nat_digits [of _ n] by (simp add: ulong_max_def)

lemma no_qualifier_plain: "CHR ''@'' \<notin> set s \<Longrightarrow> no_qualifier s"
proof -
  assume s: "CHR ''@'' \<notin> set s"
  obtain before word where sw: "split_word (rstrip ends_word s) = (before, word)" by fastforce
  then have "set word \<subseteq> set s"
    using split_word_append [OF sw] set_rstrip_subset [of ends_word s] by auto
  with s have "word = [] \<or> hd word \<noteq> CHR ''@''" by (cases word) auto
  then show ?thesis using sw by (auto simp: no_qualifier_def)
qed

text \<open>A qualifier starts after a blank, so an \<open>@\<close> inside a word starts none.\<close>

lemma split_word_before: "split_word s = (before, word) \<Longrightarrow> before \<noteq> [] \<Longrightarrow> starts_word (last before)"
proof -
  assume sw: "split_word s = (before, word)" and ne: "before \<noteq> []"
  define w where "w = rev (takeWhile (\<lambda>c. \<not> starts_word c) (rev s))"
  define b where "b = rev (dropWhile (\<lambda>c. \<not> starts_word c) (rev s))"
  have s: "s = b @ w" unfolding b_def w_def by (metis rev_append rev_rev_ident takeWhile_dropWhile_id)
  have "before = take (length s - length w) s" using sw by (auto simp: split_word_def Let_def w_def)
  also have "\<dots> = b" unfolding s by simp
  finally have "before = b" .
  with ne have "dropWhile (\<lambda>c. \<not> starts_word c) (rev s) \<noteq> []" by (simp add: b_def)
  from hd_dropWhile [OF this] show ?thesis using \<open>before = b\<close> by (simp add: b_def last_rev)
qed

lemma no_qualifier_payload:
  assumes "CHR ''@'' \<notin> set u" "CHR ''@'' \<notin> set q" "u \<noteq> []" "\<not> starts_word (last u)"
  shows "no_qualifier (u @ CHR ''@'' # q)"
proof -
  let ?s = "u @ CHR ''@'' # q"
  obtain before word where sw: "split_word (rstrip ends_word ?s) = (before, word)" by fastforce
  obtain rest where s: "?s = (before @ word) @ rest"
    using rstrip_append_takeWhile [of ?s ends_word] split_word_append [OF sw] by metis
  have "word = [] \<or> hd word \<noteq> CHR ''@'' \<or> before = []"
  proof (rule ccontr)
    assume "\<not> ?thesis"
    then obtain w where w: "word = CHR ''@'' # w" and b: "before \<noteq> []" by (cases word) auto
    then have "u @ CHR ''@'' # q = before @ CHR ''@'' # w @ rest" using s by simp
    moreover have "CHR ''@'' \<notin> set before"
    proof
      assume at: "CHR ''@'' \<in> set before"
      have "count_list ?s (CHR ''@'') = 1" using assms(1,2) by (simp add: count_list_0_iff)
      moreover have "count_list before (CHR ''@'') \<ge> 1"
        using at by (metis count_list_0_iff less_one not_less)
      ultimately show False using s w by simp
    qed
    ultimately have "u = before" using assms(1) by (metis split_first_Some_iff option.inject prod.inject)
    with split_word_before [OF sw b] assms(4) show False by simp
  qed
  then show ?thesis using sw by (auto simp: no_qualifier_def)
qed

section \<open>The loop over the lines\<close>

datatype 'r line_result = Line_Blank | Line_Rule 'r | Line_Invalid

record 'r parse_result =
  pr_ok :: bool
  pr_error :: chaos_status_error
  pr_rules :: "'r list"
  pr_texts :: "string list"

definition first_line :: "string \<Rightarrow> string" where
  "first_line s = takeWhile (\<lambda>c. c \<noteq> LF) s"

definition after_line :: "string \<Rightarrow> string" where
  "after_line s = drop 1 (dropWhile (\<lambda>c. c \<noteq> LF) s)"

lemma after_line_shorter: "s \<noteq> [] \<Longrightarrow> length (after_line s) < length s"
proof -
  assume "s \<noteq> []"
  moreover have "length (dropWhile (\<lambda>c. c \<noteq> LF) s) \<le> length s" by (rule length_dropWhile_le)
  ultimately show ?thesis by (cases s) (auto simp: after_line_def)
qed

text \<open>The rule a line gives, or the reason it is rejected; qualifiers need a rule.\<close>

definition line_rule ::
  "(string \<Rightarrow> ('a rule_head_scheme) line_result) \<Rightarrow> string
     \<Rightarrow> status_reason + ('a rule_head_scheme) option" where
  "line_rule parse_line line =
     (let (ok, rest, policy) = chaos_policy_extract line
      in if \<not> ok then Inl REASON_INVALID
         else case parse_line rest of
                Line_Invalid \<Rightarrow> Inl REASON_INVALID
              | Line_Blank \<Rightarrow> if \<not> chaos_policy_is_empty policy then Inl REASON_INVALID else Inr None
              | Line_Rule r \<Rightarrow> Inr (Some (r\<lparr>rh_policy := policy, rh_call_size := CHAOS_POLICY_NO_SIZE\<rparr>)))"

text \<open>
  The loop: \<open>number\<close> lines were read before \<open>buffer\<close>, \<open>rules\<close> and \<open>texts\<close> hold what they gave.
  A rejection keeps the record of its line and drops the rules.
\<close>

function parse_lines ::
  "(string \<Rightarrow> ('a rule_head_scheme) line_result) \<Rightarrow> ('a rule_head_scheme \<Rightarrow> bool) \<Rightarrow> nat
     \<Rightarrow> string \<Rightarrow> nat \<Rightarrow> ('a rule_head_scheme) list \<Rightarrow> string list \<Rightarrow> chaos_status_error
     \<Rightarrow> ('a rule_head_scheme) parse_result" where
  "parse_lines parse_line supported max_rules buffer number rules texts err =
     (if buffer = [] then
        \<lparr>pr_ok = True, pr_error = chaos_status_clear err, pr_rules = rules, pr_texts = texts\<rparr>
      else
        let line = first_line buffer;
            kept = chaos_status_keep_line err (Suc number) line;
            reject = (\<lambda>reason. \<lparr>pr_ok = False, pr_error = chaos_status_reject kept reason,
                                pr_rules = [], pr_texts = texts\<rparr>)
        in case line_rule parse_line line of
             Inl reason \<Rightarrow> reject reason
           | Inr None \<Rightarrow>
               parse_lines parse_line supported max_rules (after_line buffer) (Suc number) rules texts kept
           | Inr (Some r) \<Rightarrow>
               (if max_rules \<le> length rules then reject REASON_TOO_MANY
                else if \<not> supported r then reject REASON_UNSUPPORTED
                else parse_lines parse_line supported max_rules (after_line buffer) (Suc number)
                       (rules @ [r]) (texts @ [err_text kept]) kept))"
  by pat_completeness auto
termination
  by (relation "measure (\<lambda>(p, q, m, buffer, n, rs, ts, e). length buffer)")
    (auto simp: after_line_shorter)

declare parse_lines.simps [simp del]

definition parse_rule_buffer ::
  "(string \<Rightarrow> ('a rule_head_scheme) line_result) \<Rightarrow> ('a rule_head_scheme \<Rightarrow> bool) \<Rightarrow> nat
     \<Rightarrow> chaos_status_error \<Rightarrow> string \<Rightarrow> ('a rule_head_scheme) parse_result" where
  "parse_rule_buffer parse_line supported max_rules err buffer =
     parse_lines parse_line supported max_rules (c_string buffer) 0 [] [] (chaos_status_clear err)"

subsection \<open>The lines of a buffer\<close>

function buffer_lines :: "string \<Rightarrow> string list" where
  "buffer_lines s = (if s = [] then [] else first_line s # buffer_lines (after_line s))"
  by pat_completeness auto
termination
  by (relation "measure length") (auto simp: after_line_shorter)

declare buffer_lines.simps [simp del]

text \<open>
  Reference description of the result: the rules of the lines in order, when every line is
  accepted and supported and they are not too many; otherwise the number and the reason of the
  first line that is not.
\<close>

fun scan_lines ::
  "(string \<Rightarrow> status_reason + 'r option) \<Rightarrow> ('r \<Rightarrow> bool) \<Rightarrow> nat \<Rightarrow> nat \<Rightarrow> nat
     \<Rightarrow> string list \<Rightarrow> (nat \<times> status_reason \<times> string) + 'r list" where
  "scan_lines rule_of supported max_rules number count [] = Inr []"
| "scan_lines rule_of supported max_rules number count (line # rest) =
     (case rule_of line of
        Inl reason \<Rightarrow> Inl (Suc number, reason, line)
      | Inr None \<Rightarrow> scan_lines rule_of supported max_rules (Suc number) count rest
      | Inr (Some r) \<Rightarrow>
          (if max_rules \<le> count then Inl (Suc number, REASON_TOO_MANY, line)
           else if \<not> supported r then Inl (Suc number, REASON_UNSUPPORTED, line)
           else map_sum id (\<lambda>rs. r # rs)
                  (scan_lines rule_of supported max_rules (Suc number) (Suc count) rest)))"

lemma parse_lines_refines:
  "(case scan_lines (line_rule parse_line) supported max_rules number (length rules)
           (buffer_lines buffer) of
      Inr rs \<Rightarrow>
        pr_ok (parse_lines parse_line supported max_rules buffer number rules texts err) \<and>
        pr_rules (parse_lines parse_line supported max_rules buffer number rules texts err) = rules @ rs \<and>
        err_reason (pr_error (parse_lines parse_line supported max_rules buffer number rules texts err)) = None
    | Inl (n, reason, line) \<Rightarrow>
        \<not> pr_ok (parse_lines parse_line supported max_rules buffer number rules texts err) \<and>
        pr_rules (parse_lines parse_line supported max_rules buffer number rules texts err) = [] \<and>
        pr_error (parse_lines parse_line supported max_rules buffer number rules texts err) =
          chaos_status_reject (chaos_status_keep_line err n line) reason)"
proof (induction parse_line supported max_rules buffer number rules texts err rule: parse_lines.induct)
  case (1 parse_line supported max_rules buffer number rules texts err)
  show ?case
  proof (cases "buffer = []")
    case True
    then show ?thesis by (simp add: parse_lines.simps buffer_lines.simps)
  next
    case False
    let ?line = "first_line buffer"
    let ?kept = "chaos_status_keep_line err (Suc number) ?line"
    have keep: "chaos_status_keep_line ?kept n l = chaos_status_keep_line err n l" for n l
      by (simp add: chaos_status_keep_line_def)
    have bl: "buffer_lines buffer = ?line # buffer_lines (after_line buffer)"
      using False by (simp add: buffer_lines.simps [of buffer])
    show ?thesis
    proof (cases "line_rule parse_line ?line")
      case (Inl reason)
      then show ?thesis
        using False by (simp add: bl parse_lines.simps [of _ _ _ buffer] Let_def)
    next
      case (Inr opt)
      show ?thesis
      proof (cases opt)
        case None
        note IH = "1.IH"(1) [OF False refl refl refl Inr None]
        show ?thesis
          using IH False Inr None
          by (simp add: bl parse_lines.simps [of _ _ _ buffer] Let_def keep split: sum.splits prod.splits)
      next
        case (Some r)
        show ?thesis
        proof (cases "max_rules \<le> length rules \<or> \<not> supported r")
          case True
          then show ?thesis
            using False Inr Some by (auto simp: bl parse_lines.simps [of _ _ _ buffer] Let_def)
        next
          case ok: False
          then have c: "\<not> max_rules \<le> length rules" "\<not> \<not> supported r" by auto
          note IH = "1.IH"(2) [OF False refl refl refl Inr Some c]
          show ?thesis
            using IH False Inr Some c
            by (simp add: bl parse_lines.simps [of _ _ _ buffer] Let_def keep split: sum.splits prod.splits)
        qed
      qed
    qed
  qed
qed

lemma parse_rule_buffer_refines:
  "case scan_lines (line_rule parse_line) supported max_rules 0 0 (buffer_lines (c_string buffer)) of
     Inr rs \<Rightarrow>
       pr_ok (parse_rule_buffer parse_line supported max_rules err buffer) \<and>
       pr_rules (parse_rule_buffer parse_line supported max_rules err buffer) = rs \<and>
       err_reason (pr_error (parse_rule_buffer parse_line supported max_rules err buffer)) = None
   | Inl (n, reason, line) \<Rightarrow>
       \<not> pr_ok (parse_rule_buffer parse_line supported max_rules err buffer) \<and>
       pr_rules (parse_rule_buffer parse_line supported max_rules err buffer) = [] \<and>
       pr_error (parse_rule_buffer parse_line supported max_rules err buffer) =
         chaos_status_reject (chaos_status_keep_line (chaos_status_clear err) n line) reason"
  using parse_lines_refines [where parse_line = parse_line and supported = supported
      and max_rules = max_rules and number = 0 and rules = "[]" and texts = "[]"
      and buffer = "c_string buffer" and err = "chaos_status_clear err"]
  by (simp add: parse_rule_buffer_def split: sum.splits prod.splits)

lemma parse_lines_texts:
  "length rules = length texts \<Longrightarrow>
   pr_ok (parse_lines parse_line supported max_rules buffer number rules texts err) \<Longrightarrow>
   length (pr_texts (parse_lines parse_line supported max_rules buffer number rules texts err)) =
   length (pr_rules (parse_lines parse_line supported max_rules buffer number rules texts err))"
proof (induction parse_line supported max_rules buffer number rules texts err rule: parse_lines.induct)
  case (1 parse_line supported max_rules buffer number rules texts err)
  show ?case
  proof (cases "buffer = []")
    case True
    with "1.prems" show ?thesis by (simp add: parse_lines.simps)
  next
    case False
    show ?thesis
    proof (cases "line_rule parse_line (first_line buffer)")
      case (Inl reason)
      with False "1.prems" show ?thesis by (simp add: parse_lines.simps [of _ _ _ buffer] Let_def)
    next
      case (Inr opt)
      show ?thesis
      proof (cases opt)
        case None
        with "1.IH"(1) [OF False refl refl refl Inr None] "1.prems" False Inr show ?thesis
          by (simp add: parse_lines.simps [of _ _ _ buffer] Let_def)
      next
        case (Some r)
        show ?thesis
        proof (cases "max_rules \<le> length rules \<or> \<not> supported r")
          case True
          with "1.prems" False Inr Some show ?thesis
            by (auto simp: parse_lines.simps [of _ _ _ buffer] Let_def split: if_splits)
        next
          case ok: False
          then have c: "\<not> max_rules \<le> length rules" "\<not> \<not> supported r" by auto
          show ?thesis
            using "1.IH"(2) [OF False refl refl refl Inr Some c] "1.prems" False Inr Some c
            by (simp add: parse_lines.simps [of _ _ _ buffer] Let_def)
        qed
      qed
    qed
  qed
qed

lemma parse_rule_buffer_texts:
  "pr_ok (parse_rule_buffer parse_line supported max_rules err buffer) \<Longrightarrow>
   length (pr_texts (parse_rule_buffer parse_line supported max_rules err buffer)) =
   length (pr_rules (parse_rule_buffer parse_line supported max_rules err buffer))"
  unfolding parse_rule_buffer_def by (rule parse_lines_texts) simp_all

lemma scan_lines_length:
  "scan_lines rule_of supported max_rules number count ls = Inr rs \<Longrightarrow> count \<le> max_rules \<Longrightarrow>
     count + length rs \<le> max_rules"
proof (induction ls arbitrary: number count rs)
  case Nil
  then show ?case by simp
next
  case (Cons l ls)
  show ?case
  proof (cases "rule_of l")
    case (Inl a)
    with Cons.prems show ?thesis by simp
  next
    case (Inr opt)
    show ?thesis
    proof (cases opt)
      case None
      with Inr Cons show ?thesis by simp
    next
      case (Some r)
      with Inr Cons.prems have c: "count < max_rules"
        by (auto split: if_splits)
      with Inr Some Cons.prems obtain rs' where rs': "rs = r # rs'"
        and s: "scan_lines rule_of supported max_rules (Suc number) (Suc count) ls = Inr rs'"
        by (cases "scan_lines rule_of supported max_rules (Suc number) (Suc count) ls")
          (auto split: if_splits)
      from Cons.IH [OF s] c rs' show ?thesis by simp
    qed
  qed
qed

lemma scan_lines_rules:
  "scan_lines rule_of supported max_rules number count ls = Inr rs \<Longrightarrow> r \<in> set rs \<Longrightarrow>
     supported r \<and> (\<exists>l \<in> set ls. rule_of l = Inr (Some r))"
proof (induction ls arbitrary: number count rs)
  case Nil
  then show ?case by simp
next
  case (Cons l ls)
  show ?case
  proof (cases "rule_of l")
    case (Inl a)
    with Cons.prems show ?thesis by simp
  next
    case (Inr opt)
    show ?thesis
    proof (cases opt)
      case None
      with Inr Cons show ?thesis by auto
    next
      case (Some s)
      with Inr Cons.prems obtain rs' where rs': "rs = s # rs'" and "supported s"
        and sc: "scan_lines rule_of supported max_rules (Suc number) (Suc count) ls = Inr rs'"
        by (cases "scan_lines rule_of supported max_rules (Suc number) (Suc count) ls")
          (auto split: if_splits)
      with Cons.IH [OF sc] Cons.prems(2) Inr Some show ?thesis by auto
    qed
  qed
qed

section \<open>Interface of a line parser\<close>

locale line_grammar =
  fixes parse_line :: "string \<Rightarrow> ('a rule_head_scheme) line_result"
    and supported :: "'a rule_head_scheme \<Rightarrow> bool"
    and max_rules :: nat
    and well_formed :: "'a rule_head_scheme \<Rightarrow> bool"
  assumes blank_line: "\<forall>c \<in> set s. is_blank_char c \<Longrightarrow> parse_line s = Line_Blank"
    and comment_cut: "parse_line (s @ CHR ''#'' # t) = parse_line s"
    and rule_well_formed: "parse_line s = Line_Rule r \<Longrightarrow> well_formed r"
    and well_formed_tail: "well_formed r \<Longrightarrow> well_formed (r\<lparr>rh_policy := p, rh_call_size := n\<rparr>)"
begin

lemma line_rule_well_formed: "line_rule parse_line l = Inr (Some r) \<Longrightarrow> well_formed r"
  by (auto simp: line_rule_def Let_def split: prod.splits line_result.splits if_splits
    intro: well_formed_tail rule_well_formed)

text \<open>An accepted file: at most \<open>max_rules\<close> rules, each well formed and supported.\<close>

lemma parsed_rules:
  assumes "pr_ok (parse_rule_buffer parse_line supported max_rules err buffer)"
  shows "length (pr_rules (parse_rule_buffer parse_line supported max_rules err buffer)) \<le> max_rules"
    and "\<forall>r \<in> set (pr_rules (parse_rule_buffer parse_line supported max_rules err buffer)).
           well_formed r \<and> supported r"
proof -
  note ref = parse_rule_buffer_refines [of parse_line supported max_rules err buffer]
  from assms ref obtain rs where
    sc: "scan_lines (line_rule parse_line) supported max_rules 0 0 (buffer_lines (c_string buffer)) = Inr rs"
    and rs: "pr_rules (parse_rule_buffer parse_line supported max_rules err buffer) = rs"
    by (auto split: sum.splits)
  show "length (pr_rules (parse_rule_buffer parse_line supported max_rules err buffer)) \<le> max_rules"
    using scan_lines_length [OF sc] rs by simp
  show "\<forall>r \<in> set (pr_rules (parse_rule_buffer parse_line supported max_rules err buffer)).
           well_formed r \<and> supported r"
    unfolding rs using scan_lines_rules [OF sc] line_rule_well_formed by blast
qed

text \<open>A rejected file keeps no rule and names a line of the file that is itself at fault.\<close>

lemma rejected_file:
  assumes "\<not> pr_ok (parse_rule_buffer parse_line supported max_rules err buffer)"
  shows "pr_rules (parse_rule_buffer parse_line supported max_rules err buffer) = []"
    and "err_reason (pr_error (parse_rule_buffer parse_line supported max_rules err buffer)) \<noteq> None"
proof -
  note ref = parse_rule_buffer_refines [of parse_line supported max_rules err buffer]
  from assms ref obtain n reason line where
    e: "pr_rules (parse_rule_buffer parse_line supported max_rules err buffer) = []"
    "pr_error (parse_rule_buffer parse_line supported max_rules err buffer) =
       chaos_status_reject (chaos_status_keep_line (chaos_status_clear err) n line) reason"
    by (auto split: sum.splits prod.splits)
  then show "pr_rules (parse_rule_buffer parse_line supported max_rules err buffer) = []"
    and "err_reason (pr_error (parse_rule_buffer parse_line supported max_rules err buffer)) \<noteq> None"
    by simp_all
qed

text \<open>The contract of a file parser: whole and well formed, or not at all with the first line at fault.\<close>

lemma parse_contract:
  "case scan_lines (line_rule parse_line) supported max_rules 0 0 (buffer_lines (c_string buffer)) of
     Inr rs \<Rightarrow>
       pr_ok (parse_rule_buffer parse_line supported max_rules err buffer) \<and>
       pr_rules (parse_rule_buffer parse_line supported max_rules err buffer) = rs \<and>
       length rs \<le> max_rules \<and> list_all well_formed rs
   | Inl (n, reason, line) \<Rightarrow>
       \<not> pr_ok (parse_rule_buffer parse_line supported max_rules err buffer) \<and>
       pr_rules (parse_rule_buffer parse_line supported max_rules err buffer) = [] \<and>
       pr_error (parse_rule_buffer parse_line supported max_rules err buffer) =
         chaos_status_reject (chaos_status_keep_line (chaos_status_clear err) n line) reason"
  using parse_rule_buffer_refines [of parse_line supported max_rules err buffer] parsed_rules [of err buffer]
  by (auto simp: list_all_iff split: sum.splits prod.splits)

end

section \<open>Line parsers on the trimmed line\<close>

text \<open>Every library cuts the comment, trims the line and hands what is left to its own grammar.\<close>

definition trimmed_line :: "(string \<Rightarrow> 'r line_result) \<Rightarrow> string \<Rightarrow> 'r line_result" where
  "trimmed_line body line =
     (let cursor = trim_blanks (cut_comment line) in if cursor = [] then Line_Blank else body cursor)"

lemma trimmed_line_plain:
  assumes "trimmed f" "CHR ''#'' \<notin> set f" "\<forall>b \<in> set blanks. is_blank_char b"
  shows "trimmed_line body (f @ blanks) = body f"
proof -
  have "CHR ''#'' \<notin> set (f @ blanks)" using assms(2,3) by (auto simp: is_blank_char_def)
  moreover have "f \<noteq> []" using assms(1) by (simp add: trimmed_def)
  ultimately show ?thesis
    using trim_blanks_trimmed [OF assms(1,3)] by (simp add: trimmed_line_def cut_comment_id Let_def)
qed

text \<open>A printed line with printed qualifiers gives the rule of the line with these qualifiers.\<close>

lemma line_rule_print:
  assumes "trimmed f" "CHR ''#'' \<notin> set f" "no_qualifier f" "policy_ok p" "body f = Line_Rule r"
  shows "line_rule (trimmed_line body) (f @ print_qualifiers p) =
    Inr (Some (r\<lparr>rh_policy := p, rh_call_size := CHAOS_POLICY_NO_SIZE\<rparr>))"
proof -
  have "chaos_policy_extract (f @ print_qualifiers p) = (True, f @ (if qualifier_words p = [] then [] else '' ''), p)"
    using extract_print [OF assms(4,3,2)] by simp
  moreover have "trimmed_line body (f @ (if qualifier_words p = [] then [] else '' '')) = Line_Rule r"
    by (subst trimmed_line_plain) (simp_all add: assms is_blank_char_def)
  ultimately show ?thesis by (simp add: line_rule_def)
qed

locale trimmed_grammar =
  fixes body :: "string \<Rightarrow> ('a rule_head_scheme) line_result"
    and supported :: "'a rule_head_scheme \<Rightarrow> bool"
    and max_rules :: nat
    and well_formed :: "'a rule_head_scheme \<Rightarrow> bool"
  assumes body_well_formed: "body s = Line_Rule r \<Longrightarrow> well_formed r"
    and tail_well_formed: "well_formed r \<Longrightarrow> well_formed (r\<lparr>rh_policy := p, rh_call_size := n\<rparr>)"
begin

lemma trimmed_blank: "\<forall>c \<in> set s. is_blank_char c \<Longrightarrow> trimmed_line body s = Line_Blank"
proof -
  assume "\<forall>c \<in> set s. is_blank_char c"
  then have "\<forall>c \<in> set (cut_comment s). is_blank_char c" by (auto simp: cut_comment_def dest: set_takeWhileD)
  then have "trim_blanks (cut_comment s) = []" by (simp only: trim_blanks_Nil_iff)
  then show ?thesis by (simp add: trimmed_line_def)
qed

lemma trimmed_comment: "trimmed_line body (s @ CHR ''#'' # t) = trimmed_line body s"
  by (simp add: trimmed_line_def cut_comment_append)

lemma trimmed_well_formed: "trimmed_line body s = Line_Rule r \<Longrightarrow> well_formed r"
  by (auto simp: trimmed_line_def Let_def split: if_splits intro: body_well_formed)

end

sublocale trimmed_grammar \<subseteq> line_grammar "trimmed_line body" supported max_rules well_formed
  by unfold_locales (simp_all add: trimmed_blank trimmed_comment trimmed_well_formed tail_well_formed)

section \<open>Interface of a selection scan\<close>

text \<open>
  A scan that keeps the first candidate and replaces it only by a strictly better one: the laws
  are its value on the empty list and on a list extended at the end.
\<close>

locale best_scan =
  fixes matches :: "'q \<Rightarrow> 'r \<Rightarrow> bool"
    and key :: "'r \<Rightarrow> 'k::linorder"
    and select :: "'q \<Rightarrow> 'r list \<Rightarrow> 'r option"
  assumes select_Nil: "select q [] = None"
    and select_snoc: "select q (rs @ [r]) =
      (if \<not> matches q r then select q rs
       else case select q rs of None \<Rightarrow> Some r | Some b \<Rightarrow> if key b < key r then Some r else Some b)"
begin

lemma select_None_iff: "select q rs = None \<longleftrightarrow> (\<forall>r \<in> set rs. \<not> matches q r)"
  by (induction rs rule: rev_induct) (auto simp: select_Nil select_snoc split: option.splits)

text \<open>The selected rule matches, every earlier match has a smaller key, every later one no larger.\<close>

lemma select_split:
  "select q rs = Some b \<Longrightarrow>
     \<exists>before after. rs = before @ b # after \<and> matches q b \<and>
       (\<forall>r \<in> set before. matches q r \<longrightarrow> key r < key b) \<and>
       (\<forall>r \<in> set after. matches q r \<longrightarrow> key r \<le> key b)"
proof (induction rs arbitrary: b rule: rev_induct)
  case Nil
  then show ?case by (simp add: select_Nil)
next
  case (snoc r rs)
  show ?case
  proof (cases "select q rs")
    case None
    then have "\<forall>x \<in> set rs. \<not> matches q x" by (simp add: select_None_iff)
    moreover from None snoc.prems have "matches q r" "b = r"
      by (auto simp: select_snoc split: if_splits)
    ultimately show ?thesis by (intro exI [of _ rs] exI [of _ "[]"]) auto
  next
    case (Some c)
    from snoc.IH [OF Some] obtain before after where
      rs: "rs = before @ c # after" and m: "matches q c"
      and lt: "\<forall>x \<in> set before. matches q x \<longrightarrow> key x < key c"
      and le: "\<forall>x \<in> set after. matches q x \<longrightarrow> key x \<le> key c" by blast
    show ?thesis
    proof (cases "matches q r \<and> key c < key r")
      case True
      with Some snoc.prems have "b = r" by (simp add: select_snoc)
      moreover have "\<forall>x \<in> set rs. matches q x \<longrightarrow> key x < key r"
        using rs lt le True by fastforce
      ultimately show ?thesis using True by (intro exI [of _ rs] exI [of _ "[]"]) auto
    next
      case False
      with Some snoc.prems have "b = c" by (auto simp: select_snoc split: if_splits)
      with rs m lt le False show ?thesis
        by (intro exI [of _ before] exI [of _ "after @ [r]"]) auto
    qed
  qed
qed

lemma select_matches: "select q rs = Some b \<Longrightarrow> b \<in> set rs \<and> matches q b"
  using select_split by fastforce

lemma select_maximal: "select q rs = Some b \<Longrightarrow> r \<in> set rs \<Longrightarrow> matches q r \<Longrightarrow> key r \<le> key b"
  using select_split by fastforce

lemma select_best:
  "case select q rs of
     None \<Rightarrow> \<forall>r \<in> set rs. \<not> matches q r
   | Some b \<Rightarrow> \<exists>before after. rs = before @ b # after \<and> matches q b \<and>
       (\<forall>r \<in> set before. matches q r \<longrightarrow> key r < key b) \<and>
       (\<forall>r \<in> set after. matches q r \<longrightarrow> key r \<le> key b)"
  using select_split [of q rs] select_None_iff [of q rs] by (auto split: option.splits)

end

section \<open>Selection by rank and length\<close>

text \<open>The rank of a match and the length of its selector, compared in this order.\<close>

datatype rank_key = Rank_Key nat nat

instantiation rank_key :: linorder
begin

fun less_eq_rank_key :: "rank_key \<Rightarrow> rank_key \<Rightarrow> bool" where
  "Rank_Key r n \<le> Rank_Key s m \<longleftrightarrow> r < s \<or> (r = s \<and> n \<le> m)"

fun less_rank_key :: "rank_key \<Rightarrow> rank_key \<Rightarrow> bool" where
  "Rank_Key r n < Rank_Key s m \<longleftrightarrow> r < s \<or> (r = s \<and> n < m)"

instance
proof
  fix x y z :: rank_key
  show "x < y \<longleftrightarrow> x \<le> y \<and> \<not> y \<le> x" by (cases x; cases y) auto
  show "x \<le> x" by (cases x) simp
  show "x \<le> y \<Longrightarrow> y \<le> z \<Longrightarrow> x \<le> z" by (cases x; cases y; cases z) auto
  show "x \<le> y \<Longrightarrow> y \<le> x \<Longrightarrow> x = y" by (cases x; cases y) auto
  show "x \<le> y \<or> y \<le> x" by (cases x; cases y) auto
qed

end

text \<open>
  The loop the selections of the resolver, time, memory and process libraries share: \<open>rank_of\<close> is the
  rank of a rule that applies, and \<open>best\<close> the rule copied out so far with its rank and selector length.
\<close>

fun ranked_from :: "('r \<Rightarrow> nat option) \<Rightarrow> ('r \<Rightarrow> nat) \<Rightarrow> ('r \<times> nat \<times> nat) option \<Rightarrow> 'r list \<Rightarrow> 'r option" where
  "ranked_from rank_of length_of best [] = map_option fst best"
| "ranked_from rank_of length_of best (r # rules) =
     (case rank_of r of
        None \<Rightarrow> ranked_from rank_of length_of best rules
      | Some rank \<Rightarrow>
          (if (case best of None \<Rightarrow> True
               | Some (b, best_rank, best_len) \<Rightarrow> best_rank < rank \<or> (rank = best_rank \<and> best_len < length_of r))
           then ranked_from rank_of length_of (Some (r, rank, length_of r)) rules
           else ranked_from rank_of length_of best rules))"

definition rank_key_of :: "('r \<Rightarrow> nat option) \<Rightarrow> ('r \<Rightarrow> nat) \<Rightarrow> 'r \<Rightarrow> rank_key" where
  "rank_key_of rank_of length_of r = Rank_Key (the (rank_of r)) (length_of r)"

lemma ranked_from_snoc:
  assumes "\<forall>b rank len. best = Some (b, rank, len) \<longrightarrow> rank_of b = Some rank \<and> len = length_of b"
  shows "ranked_from rank_of length_of best (rules @ [r]) =
    (if rank_of r = None then ranked_from rank_of length_of best rules
     else case ranked_from rank_of length_of best rules of
            None \<Rightarrow> Some r
          | Some b \<Rightarrow> if rank_key_of rank_of length_of b < rank_key_of rank_of length_of r then Some r else Some b)"
  using assms
proof (induction rules arbitrary: best)
  case Nil
  then show ?case by (cases best) (auto simp: rank_key_of_def split: option.splits)
next
  case (Cons x rules)
  show ?case
  proof (cases "rank_of x")
    case None
    with Cons show ?thesis by simp
  next
    case (Some rank)
    with Cons.IH [of "Some (x, rank, length_of x)"] Cons.IH [of best] Cons.prems show ?thesis by simp
  qed
qed

interpretation ranked: best_scan "\<lambda>_::unit. \<lambda>r. rank_of r \<noteq> None" "rank_key_of rank_of length_of"
    "\<lambda>_. ranked_from rank_of length_of None" for rank_of length_of
  by unfold_locales (simp_all add: ranked_from_snoc)

lemma ranked_best:
  assumes "x = ranked_from rank_of length_of None rs" "key = rank_key_of rank_of length_of"
  shows "case x of
     None \<Rightarrow> \<forall>r \<in> set rs. rank_of r = None
   | Some b \<Rightarrow> \<exists>before after. rs = before @ b # after \<and> rank_of b \<noteq> None \<and>
       (\<forall>r \<in> set before. rank_of r \<noteq> None \<longrightarrow> key r < key b) \<and>
       (\<forall>r \<in> set after. rank_of r \<noteq> None \<longrightarrow> key r \<le> key b)"
  unfolding assms by (rule ranked.select_best [unfolded not_not])

section \<open>Lookups in the active snapshot\<close>

text \<open>What the lookups read of the active snapshot. The sequence they read at the end may differ: the snapshot
  may be rewritten meanwhile.\<close>

record 'r rule_snapshot =
  snap_sequence :: u64
  snap_rules :: "'r list"
  snap_parse_ok :: bool

text \<open>A lookup: the selection on the rules of the snapshot, kept only when the snapshot stayed the same.\<close>

definition match_snapshot :: "('r list \<Rightarrow> 'r option) \<Rightarrow> 'r rule_snapshot \<Rightarrow> u64 \<Rightarrow> 'r option" where
  "match_snapshot select st sequence_after =
     (let sequence = chaos_snapshot_read_begin (snap_sequence st)
      in if \<not> snap_parse_ok st then None
         else case select (snap_rules st) of
                None \<Rightarrow> None
              | Some rule \<Rightarrow> if chaos_snapshot_read_valid sequence_after sequence then Some rule else None)"

end
