(* ===== verification/Io_Internal.thy ===== *)
theory Io_Internal
  imports Chaos_Prelude
begin

text \<open>
  The inline helpers of \<open>src/core/chaos_io_internal.h\<close>: the re-entrancy guard, the per-thread
  xorshift64* generator, and the lexical path functions whose results the rules are matched
  against.
\<close>

section \<open>Limits and sentinels\<close>

definition CHAOS_IO_CONFIG_PATH :: string where "CHAOS_IO_CONFIG_PATH = ''/tmp/.chaos-io.conf''"
definition CHAOS_IO_STATUS_PATH :: string where "CHAOS_IO_STATUS_PATH = ''/tmp/.chaos-io.status''"
definition CHAOS_IO_HITS_PREFIX :: string where "CHAOS_IO_HITS_PREFIX = ''/tmp/.chaos-io.hits''"
definition CHAOS_IO_MAX_RULES :: nat where "CHAOS_IO_MAX_RULES = 256"
definition CHAOS_IO_MAX_PATH :: nat where "CHAOS_IO_MAX_PATH = 4096"
definition CHAOS_IO_MAX_RULE_PATH :: nat where "CHAOS_IO_MAX_RULE_PATH = 1024"
definition CHAOS_IO_MAX_LINE_LENGTH :: nat where "CHAOS_IO_MAX_LINE_LENGTH = 1024"
definition CHAOS_IO_MAX_CONFIG_BYTES :: nat where
  "CHAOS_IO_MAX_CONFIG_BYTES = CHAOS_IO_MAX_RULES * CHAOS_IO_MAX_LINE_LENGTH"
definition CHAOS_IO_FD_CACHE_SLOTS :: nat where "CHAOS_IO_FD_CACHE_SLOTS = 32"

definition CHAOS_IO_MTIME_MISSING :: u64 where "CHAOS_IO_MTIME_MISSING = 0"
definition CHAOS_IO_MTIME_RELOADING :: u64 where "CHAOS_IO_MTIME_RELOADING = 0xfffffffffffffffe"
definition CHAOS_IO_MTIME_UNKNOWN :: u64 where "CHAOS_IO_MTIME_UNKNOWN = 0xffffffffffffffff"

section \<open>Re-entrancy guard\<close>

text \<open>The guard is the thread-local integer \<open>g_chaos_io_tls_guard\<close>.\<close>

definition chaos_io_in_internal :: "int \<Rightarrow> bool" where
  "chaos_io_in_internal guard \<longleftrightarrow> guard \<noteq> 0"

text \<open>The previous value, and the guard afterwards.\<close>

definition chaos_io_enter_internal :: "int \<Rightarrow> int \<times> int" where
  "chaos_io_enter_internal guard = (guard, 1)"

definition chaos_io_leave_internal :: "int \<Rightarrow> int" where
  "chaos_io_leave_internal previous = previous"

section \<open>Generator\<close>

definition chaos_io_prng_mix :: "u64 \<Rightarrow> u64" where
  "chaos_io_prng_mix value =
     (let v1 = value + 0x9e3779b97f4a7c15;
          v2 = (v1 XOR drop_bit 30 v1) * 0xbf58476d1ce4e5b9;
          v3 = (v2 XOR drop_bit 27 v2) * 0x94d049bb133111eb
      in v3 XOR drop_bit 31 v3)"

text \<open>Seed material of a thread: the process seed, its kernel id, a stack address.\<close>

record prng_env =
  pe_process_seed :: u64
  pe_tid :: u64
  pe_stack_address :: u64

definition chaos_io_prng_ensure_seeded :: "prng_env \<Rightarrow> u64 \<Rightarrow> u64" where
  "chaos_io_prng_ensure_seeded env state =
     (if state \<noteq> 0 then state
      else chaos_io_prng_mix (pe_process_seed env XOR pe_tid env XOR pe_stack_address env) OR 1)"

definition chaos_io_prng_seed_thread :: "u64 \<Rightarrow> u64" where
  "chaos_io_prng_seed_thread seed = chaos_io_prng_mix (if seed = 0 then 1 else seed)"

definition xorshift :: "u64 \<Rightarrow> u64" where
  "xorshift s =
     (let s1 = s XOR drop_bit 12 s;
          s2 = s1 XOR push_bit 25 s1
      in s2 XOR drop_bit 27 s2)"

text \<open>The sample and the state afterwards.\<close>

definition chaos_io_prng_next_u32 :: "prng_env \<Rightarrow> u64 \<Rightarrow> u32 \<times> u64" where
  "chaos_io_prng_next_u32 env state =
     (let s = xorshift (chaos_io_prng_ensure_seeded env state)
      in (ucast (drop_bit 32 (s * 0x2545f4914f6cdd1d)), s))"

lemma xor_eq_0_imp_eq: "a XOR b = 0 \<Longrightarrow> a = b" for a b :: u64
proof (rule bit_word_eqI)
  fix n
  assume "a XOR b = 0"
  then have "bit (a XOR b) n = bit (0 :: u64) n" by simp
  then show "bit a n = bit b n" by (simp add: bit_xor_iff)
qed

lemma drop_bit_fixed: "drop_bit k s = s \<Longrightarrow> drop_bit (n * k) s = s" for s :: u64
proof (induction n)
  case (Suc n)
  have "drop_bit (Suc n * k) s = drop_bit k (drop_bit (n * k) s)"
    by (simp add: add.commute)
  with Suc show ?case by simp
qed simp

lemma push_bit_fixed: "push_bit k s = s \<Longrightarrow> push_bit (n * k) s = s" for s :: u64
proof (induction n)
  case (Suc n)
  have "push_bit (Suc n * k) s = push_bit k (push_bit (n * k) s)"
    by (simp add: add.commute)
  with Suc show ?case by simp
qed simp

lemma drop_bit_large: "64 \<le> m \<Longrightarrow> drop_bit m s = 0" for s :: u64
  by (rule bit_word_eqI) (simp add: bit_drop_bit_eq)

lemma push_bit_large: "64 \<le> m \<Longrightarrow> push_bit m s = 0" for s :: u64
  by (rule bit_word_eqI) (simp add: bit_push_bit_iff)

lemma xor_drop_bit_eq_0:
  fixes s :: u64
  assumes "0 < k" "s XOR drop_bit k s = 0"
  shows "s = 0"
proof -
  have "drop_bit k s = s" using xor_eq_0_imp_eq [OF assms(2)] by simp
  then have "drop_bit (64 * k) s = s" by (rule drop_bit_fixed)
  moreover have "drop_bit (64 * k) s = 0" using assms(1) by (intro drop_bit_large) simp
  ultimately show ?thesis by simp
qed

lemma xor_push_bit_eq_0:
  fixes s :: u64
  assumes "0 < k" "s XOR push_bit k s = 0"
  shows "s = 0"
proof -
  have "push_bit k s = s" using xor_eq_0_imp_eq [OF assms(2)] by simp
  then have "push_bit (64 * k) s = s" by (rule push_bit_fixed)
  moreover have "push_bit (64 * k) s = 0" using assms(1) by (intro push_bit_large) simp
  ultimately show ?thesis by simp
qed

lemma xorshift_nonzero: "s \<noteq> 0 \<Longrightarrow> xorshift s \<noteq> 0"
proof
  assume s: "s \<noteq> 0" and z: "xorshift s = 0"
  define s1 where "s1 = s XOR drop_bit 12 s"
  define s2 where "s2 = s1 XOR push_bit 25 s1"
  have "s2 XOR drop_bit 27 s2 = 0"
    using z unfolding xorshift_def Let_def s1_def s2_def .
  then have "s2 = 0" by (rule xor_drop_bit_eq_0 [rotated]) simp
  then have "s1 XOR push_bit 25 s1 = 0" by (simp only: s2_def)
  then have "s1 = 0" by (rule xor_push_bit_eq_0 [rotated]) simp
  then have "s XOR drop_bit 12 s = 0" by (simp only: s1_def)
  then have "s = 0" by (rule xor_drop_bit_eq_0 [rotated]) simp
  with s show False by simp
qed

lemma or_1_nonzero: "v OR 1 \<noteq> 0" for v :: u64
proof
  assume "v OR 1 = 0"
  then have "bit (v OR 1) 0 = bit (0 :: u64) 0" by simp
  then show False by (simp add: bit_or_iff)
qed

lemma ensure_seeded_nonzero: "chaos_io_prng_ensure_seeded env state \<noteq> 0"
  by (simp add: chaos_io_prng_ensure_seeded_def or_1_nonzero)

section \<open>Paths\<close>

abbreviation SLASH :: char where "SLASH \<equiv> CHR ''/''"

definition CHAOS_IO_CONTROL_PREFIX :: string where "CHAOS_IO_CONTROL_PREFIX = ''/tmp/.chaos-''"

definition chaos_io_is_control_path :: "string option \<Rightarrow> bool" where
  "chaos_io_is_control_path path =
     (case path of
        None \<Rightarrow> False
      | Some p \<Rightarrow> p = CHAOS_IO_CONFIG_PATH \<or> after_prefix CHAOS_IO_CONTROL_PREFIX p \<noteq> None)"

definition chaos_io_has_reserved_prefix :: "string option \<Rightarrow> string option \<Rightarrow> bool" where
  "chaos_io_has_reserved_prefix path prefix =
     (case (path, prefix) of
        (Some p, Some q) \<Rightarrow>
          (case after_prefix q p of
             None \<Rightarrow> False
           | Some rest \<Rightarrow> rest = [] \<or> hd rest = SLASH)
      | _ \<Rightarrow> False)"

definition chaos_io_is_excluded_path :: "string option \<Rightarrow> bool" where
  "chaos_io_is_excluded_path path =
     (if path = None \<or> path = Some [] then True
      else if chaos_io_is_control_path path then True
      else if chaos_io_has_reserved_prefix path (Some ''/proc'') \<or>
              chaos_io_has_reserved_prefix path (Some ''/sys'') \<or>
              chaos_io_has_reserved_prefix path (Some ''/dev'') then True
      else False)"

text \<open>The destination buffer afterwards, \<open>None\<close> when the copy fails and leaves it untouched.\<close>

definition chaos_io_copy_path :: "nat \<Rightarrow> string option \<Rightarrow> string option" where
  "chaos_io_copy_path destination_size path =
     (case path of
        None \<Rightarrow> None
      | Some p \<Rightarrow>
          (if destination_size = 0 then None
           else if destination_size < length p + 1 then None else Some p))"

text \<open>
  The normalisation in place. \<open>rest\<close> is the text from the read position on, \<open>body\<close> the text
  written so far after the leading slash. The write position never passes the read position, so
  the two do not overlap.
\<close>

definition drop_component :: "string \<Rightarrow> string" where
  "drop_component body = butlast (rstrip (\<lambda>c. c \<noteq> SLASH) body)"

definition add_component :: "string \<Rightarrow> string \<Rightarrow> string" where
  "add_component body c = (if body = [] then c else body @ SLASH # c)"

function normalize_loop :: "string \<Rightarrow> string \<Rightarrow> string" where
  "normalize_loop rest body =
     (if rest = [] then body
      else let start = dropWhile (\<lambda>c. c = SLASH) rest;
               component = takeWhile (\<lambda>c. c \<noteq> SLASH) start;
               after = dropWhile (\<lambda>c. c \<noteq> SLASH) start
           in if component = [] \<or> component = ''.'' then normalize_loop after body
              else if component = ''..'' then normalize_loop after (drop_component body)
              else normalize_loop after (add_component body component))"
  by pat_completeness auto
termination
proof (relation "measure (\<lambda>(rest, body). length rest)", goal_cases)
  case 1
  show ?case by simp
next
  have shorter: "length (dropWhile (\<lambda>c. c \<noteq> SLASH) (dropWhile (\<lambda>c. c = SLASH) rest)) < length rest"
    if "rest \<noteq> []" for rest :: string
  proof (cases rest)
    case Nil
    with that show ?thesis by simp
  next
    case (Cons c cs)
    have "length (dropWhile P (dropWhile Q cs)) \<le> length cs" for P Q :: "char \<Rightarrow> bool"
      by (meson length_dropWhile_le order_trans)
    moreover have "length (dropWhile P cs) \<le> length cs" for P :: "char \<Rightarrow> bool"
      by (rule length_dropWhile_le)
    ultimately show ?thesis using Cons by (auto simp: less_Suc_eq_le)
  qed
  { case 2 then show ?case using shorter by simp }
  { case 3 then show ?case using shorter by simp }
  { case 4 then show ?case using shorter by simp }
qed

declare normalize_loop.simps [simp del]

definition normalize_absolute :: "string \<Rightarrow> string" where
  "normalize_absolute path =
     (case path of
        [] \<Rightarrow> path
      | c # rest \<Rightarrow> if c \<noteq> SLASH then path else SLASH # normalize_loop rest [])"

definition chaos_io_normalize_path :: "string option \<Rightarrow> string option" where
  "chaos_io_normalize_path path = map_option normalize_absolute path"

definition chaos_io_join_paths :: "nat \<Rightarrow> string option \<Rightarrow> string option \<Rightarrow> string option" where
  "chaos_io_join_paths destination_size base path =
     (case (base, path) of
        (Some b, Some p) \<Rightarrow>
          (if destination_size = 0 \<or> b = [] \<or> p = [] then None
           else let needs_separator = (if last b = SLASH then 0 else 1)
                in if destination_size < length b + needs_separator + length p + 1 then None
                   else Some (b @ (if needs_separator \<noteq> (0::nat) then [SLASH] else []) @ p))
      | _ \<Rightarrow> None)"

section \<open>Normal form of paths\<close>

text \<open>Reference description: the components between slashes, with \<open>.\<close> and empty ones skipped and
  \<open>..\<close> removing the last kept one, joined again.\<close>

fun components :: "string \<Rightarrow> string list" where
  "components [] = [[]]"
| "components (c # cs) =
     (if c = SLASH then [] # components cs
      else case components cs of [] \<Rightarrow> [[c]] | d # ds \<Rightarrow> (c # d) # ds)"

fun resolve_components :: "string list \<Rightarrow> string list \<Rightarrow> string list" where
  "resolve_components kept [] = kept"
| "resolve_components kept (c # cs) =
     (if c = [] \<or> c = ''.'' then resolve_components kept cs
      else if c = ''..'' then resolve_components (butlast kept) cs
      else resolve_components (kept @ [c]) cs)"

fun join_components :: "string list \<Rightarrow> string" where
  "join_components [] = []"
| "join_components (c # cs) = (if cs = [] then c else c @ SLASH # join_components cs)"

definition plain_component :: "string \<Rightarrow> bool" where
  "plain_component c \<longleftrightarrow> c \<noteq> [] \<and> c \<noteq> ''.'' \<and> c \<noteq> ''..'' \<and> SLASH \<notin> set c"

lemma components_not_Nil [simp]: "components s \<noteq> []"
  by (induction s) (auto split: list.splits)

lemma components_no_slash: "SLASH \<notin> set s \<Longrightarrow> components s = [s]"
  by (induction s) auto

lemma components_append_slash: "SLASH \<notin> set a \<Longrightarrow> components (a @ SLASH # b) = a # components b"
  by (induction a) auto

lemma components_slash_free: "c \<in> set (components s) \<Longrightarrow> SLASH \<notin> set c"
  by (induction s arbitrary: c) (auto split: list.splits if_splits)

lemma join_components_snoc:
  "join_components (cs @ [c]) = (if cs = [] then c else join_components cs @ SLASH # c)"
  by (induction cs) auto

lemma join_components_eq_Nil: "\<forall>c \<in> set cs. c \<noteq> [] \<Longrightarrow> join_components cs = [] \<longleftrightarrow> cs = []"
  by (cases cs) auto

lemma components_join:
  "cs \<noteq> [] \<Longrightarrow> \<forall>c \<in> set cs. SLASH \<notin> set c \<Longrightarrow> components (join_components cs) = cs"
proof (induction cs)
  case Nil
  then show ?case by simp
next
  case (Cons c cs)
  then show ?case
    by (cases "cs = []") (auto simp: components_no_slash components_append_slash)
qed

lemma add_component_join:
  "\<forall>c \<in> set cs. c \<noteq> [] \<Longrightarrow> add_component (join_components cs) c = join_components (cs @ [c])"
  by (simp add: add_component_def join_components_snoc join_components_eq_Nil)

lemma rstrip_component:
  "SLASH \<notin> set c \<Longrightarrow> rstrip (\<lambda>c. c \<noteq> SLASH) (s @ SLASH # c) = s @ [SLASH]"
proof (induction c rule: rev_induct)
  case Nil
  then show ?case by (simp add: rstrip_snoc)
next
  case (snoc d ds)
  then show ?case
    using rstrip_snoc [of "\<lambda>c. c \<noteq> SLASH" "s @ SLASH # ds" d] by auto
qed

lemma rstrip_all: "\<forall>c \<in> set s. P c \<Longrightarrow> rstrip P s = []"
  by (simp add: rstrip_def)

lemma drop_component_join:
  "\<forall>c \<in> set cs. SLASH \<notin> set c \<Longrightarrow> drop_component (join_components cs) = join_components (butlast cs)"
proof (induction cs rule: rev_induct)
  case Nil
  then show ?case by (simp add: drop_component_def)
next
  case (snoc c cs)
  then have c: "SLASH \<notin> set c" by simp
  show ?case
  proof (cases "cs = []")
    case True
    with c have "rstrip (\<lambda>c. c \<noteq> SLASH) c = []" by (intro rstrip_all) auto
    with True show ?thesis by (simp add: drop_component_def)
  next
    case False
    with c show ?thesis by (simp add: drop_component_def join_components_snoc rstrip_component)
  qed
qed

lemma resolve_components_plain:
  "\<forall>c \<in> set kept. plain_component c \<Longrightarrow> \<forall>c \<in> set cs. SLASH \<notin> set c \<Longrightarrow>
     \<forall>c \<in> set (resolve_components kept cs). plain_component c"
proof (induction kept cs rule: resolve_components.induct)
  case (1 kept)
  then show ?case by simp
next
  case (2 kept c cs)
  have bl: "\<forall>d \<in> set (butlast kept). plain_component d"
    using "2.prems"(1) in_set_butlastD by metis
  consider "c = [] \<or> c = ''.''" | "c = ''..''" | "plain_component c" "\<not> (c = [] \<or> c = ''.'')" "c \<noteq> ''..''"
    using "2.prems"(2) by (auto simp: plain_component_def)
  then show ?case
  proof cases
    case 1
    then have "resolve_components kept (c # cs) = resolve_components kept cs" by auto
    then show ?thesis using "2.IH"(1) 1 "2.prems" by simp
  next
    case 2
    then have "resolve_components kept (c # cs) = resolve_components (butlast kept) cs" by simp
    then show ?thesis using "2.IH"(2) 2 "2.prems"(2) bl by simp
  next
    case 3
    then have "resolve_components kept (c # cs) = resolve_components (kept @ [c]) cs"
      by (simp only: resolve_components.simps if_False)
    then show ?thesis using "2.IH"(3) 3 "2.prems" by simp
  qed
qed

lemma resolve_components_id:
  "\<forall>c \<in> set cs. plain_component c \<Longrightarrow> resolve_components kept cs = kept @ cs"
  by (induction kept cs rule: resolve_components.induct) (auto simp: plain_component_def)

lemma resolve_skip_slashes:
  "resolve_components kept (components (dropWhile (\<lambda>c. c = SLASH) s)) =
   resolve_components kept (components s)"
  by (induction s) auto

lemma components_unfold:
  "components s = takeWhile (\<lambda>c. c \<noteq> SLASH) s #
     (case dropWhile (\<lambda>c. c \<noteq> SLASH) s of [] \<Rightarrow> [] | _ # t \<Rightarrow> components t)"
  by (induction s) (auto split: list.splits)

lemma resolve_tail:
  "t = [] \<or> hd t = SLASH \<Longrightarrow>
     resolve_components kept (components t) =
     resolve_components kept (case t of [] \<Rightarrow> [] | _ # u \<Rightarrow> components u)"
  by (cases t) auto

lemma resolve_after:
  "resolve_components kept (components (dropWhile (\<lambda>c. c \<noteq> SLASH) s)) =
   resolve_components kept
     (case dropWhile (\<lambda>c. c \<noteq> SLASH) s of [] \<Rightarrow> [] | _ # t \<Rightarrow> components t)"
proof (rule resolve_tail)
  show "dropWhile (\<lambda>c. c \<noteq> SLASH) s = [] \<or> hd (dropWhile (\<lambda>c. c \<noteq> SLASH) s) = SLASH"
    using hd_dropWhile [of "\<lambda>c. c \<noteq> SLASH" s] by blast
qed

lemma length_after_component:
  "rest \<noteq> [] \<Longrightarrow> length (dropWhile (\<lambda>c. c \<noteq> SLASH) (dropWhile (\<lambda>c. c = SLASH) rest)) < length rest"
proof (cases rest)
  case (Cons c cs)
  have "length (dropWhile P (dropWhile Q cs)) \<le> length cs" for P Q :: "char \<Rightarrow> bool"
    by (meson length_dropWhile_le order_trans)
  moreover have "length (dropWhile P cs) \<le> length cs" for P :: "char \<Rightarrow> bool"
    by (rule length_dropWhile_le)
  ultimately show ?thesis using Cons by (auto simp: less_Suc_eq_le)
qed simp

lemma normalize_loop_join:
  "\<forall>c \<in> set kept. plain_component c \<Longrightarrow>
     normalize_loop rest (join_components kept) =
     join_components (resolve_components kept (components rest))"
proof (induction "length rest" arbitrary: rest kept rule: less_induct)
  case less
  show ?case
  proof (cases "rest = []")
    case True
    then show ?thesis by (simp add: normalize_loop.simps)
  next
    case False
    define start where "start = dropWhile (\<lambda>c. c = SLASH) rest"
    define comp where "comp = takeWhile (\<lambda>c. c \<noteq> SLASH) start"
    define after' where "after' = dropWhile (\<lambda>c. c \<noteq> SLASH) start"
    have len: "length after' < length rest"
      unfolding after'_def start_def using False by (rule length_after_component)
    note IH = less.hyps [OF len]
    have res: "resolve_components k (components rest) = resolve_components k (comp # components after')" for k
    proof -
      have "resolve_components k (components rest) = resolve_components k (components start)"
        unfolding start_def by (rule resolve_skip_slashes [symmetric])
      also have "\<dots> = resolve_components k
          (comp # (case after' of [] \<Rightarrow> [] | _ # t \<Rightarrow> components t))"
        by (subst components_unfold) (simp only: comp_def after'_def)
      also have "\<dots> = resolve_components k (comp # components after')"
        unfolding after'_def by (simp only: resolve_components.simps resolve_after)
      finally show ?thesis .
    qed
    have kept: "\<forall>c \<in> set kept. SLASH \<notin> set c" "\<forall>c \<in> set kept. c \<noteq> []"
      using less.prems by (auto simp: plain_component_def)
    have step: "normalize_loop rest (join_components kept) =
      (if comp = [] \<or> comp = ''.'' then normalize_loop after' (join_components kept)
       else if comp = ''..'' then normalize_loop after' (join_components (butlast kept))
       else normalize_loop after' (join_components (kept @ [comp])))"
      by (subst normalize_loop.simps)
        (simp only: False if_False Let_def start_def [symmetric] comp_def [symmetric]
          after'_def [symmetric] drop_component_join [OF kept(1)] add_component_join [OF kept(2)])
    have bl: "\<forall>c \<in> set (butlast kept). plain_component c"
      using less.prems in_set_butlastD by metis
    have free: "SLASH \<notin> set comp" by (auto simp: comp_def dest: set_takeWhileD)
    consider "comp = [] \<or> comp = ''.''" | "\<not> (comp = [] \<or> comp = ''.'')" "comp = ''..''"
      | "\<not> (comp = [] \<or> comp = ''.'')" "comp \<noteq> ''..''" by blast
    then show ?thesis
    proof cases
      case 1
      then show ?thesis unfolding step res using IH [OF less.prems] by auto
    next
      case 2
      then show ?thesis unfolding step res using IH [OF bl] by simp
    next
      case 3
      then have "plain_component comp" using free by (simp add: plain_component_def)
      then have "\<forall>c \<in> set (kept @ [comp]). plain_component c" using less.prems by simp
      from IH [OF this] show ?thesis
        unfolding step res resolve_components.simps using 3 by (simp only: if_False)
    qed
  qed
qed

lemma normalize_absolute_join:
  "normalize_absolute (SLASH # rest) =
     SLASH # join_components (resolve_components [] (components rest))"
  using normalize_loop_join [of "[]" rest] by (simp add: normalize_absolute_def)

section \<open>Properties\<close>

text \<open>The generator never gets stuck: from any state, seeded or not, the state after a sample is not 0,
  the fixed point of the shift register that would also mean "not seeded".\<close>

theorem prng_never_zero: "snd (chaos_io_prng_next_u32 env state) \<noteq> 0"
  using xorshift_nonzero [OF ensure_seeded_nonzero] by (simp add: chaos_io_prng_next_u32_def Let_def)

definition weight :: "string list \<Rightarrow> nat" where
  "weight cs = sum_list (map (\<lambda>c. Suc (length c)) cs)"

lemma weight_simps [simp]:
  "weight [] = 0" "weight (c # cs) = Suc (length c) + weight cs" "weight (as @ bs) = weight as + weight bs"
  by (simp_all add: weight_def)

lemma weight_butlast: "weight (butlast cs) \<le> weight cs"
  by (induction cs) auto

lemma weight_resolve: "weight (resolve_components kept cs) \<le> weight kept + weight cs"
proof (induction kept cs rule: resolve_components.induct)
  case (2 kept c cs)
  then show ?case using weight_butlast [of kept] by auto
qed simp

lemma weight_components: "weight (components s) = Suc (length s)"
  by (induction s) (auto split: list.splits)

lemma length_join: "length (join_components cs) \<le> weight cs - 1"
  by (induction cs) (auto simp: neq_Nil_conv)

text \<open>Normalising an absolute path resolves it component by component as described: empty and \<open>.\<close>
  components vanish, \<open>..\<close> removes the component before it and stops at the root; the result is a fixed
  point and never longer than the path, so normalising in place is safe.\<close>

theorem normalize_path_reference:
  "normalize_absolute (SLASH # s) = SLASH # join_components (resolve_components [] (components s)) \<and>
   normalize_absolute (normalize_absolute (SLASH # s)) = normalize_absolute (SLASH # s) \<and>
   length (normalize_absolute (SLASH # s)) \<le> length (SLASH # s)"
proof (intro conjI)
  let ?cs = "resolve_components [] (components s)"
  show n: "normalize_absolute (SLASH # s) = SLASH # join_components ?cs" by (rule normalize_absolute_join)
  have plain: "\<forall>c \<in> set ?cs. plain_component c"
    by (rule resolve_components_plain) (auto dest: components_slash_free)
  have "resolve_components [] (components (join_components ?cs)) = ?cs"
  proof (cases "?cs = []")
    case True
    then show ?thesis by simp
  next
    case False
    then have "components (join_components ?cs) = ?cs"
      using plain by (intro components_join) (auto simp: plain_component_def)
    then show ?thesis using resolve_components_id [OF plain, of "[]"] by simp
  qed
  then show "normalize_absolute (normalize_absolute (SLASH # s)) = normalize_absolute (SLASH # s)"
    unfolding n by (simp add: normalize_absolute_join)
  have "weight ?cs \<le> Suc (length s)" using weight_resolve [of "[]" "components s"] by (simp add: weight_components)
  then show "length (normalize_absolute (SLASH # s)) \<le> length (SLASH # s)"
    unfolding n using length_join [of ?cs] by simp
qed

end
