(* ===== verification/Io_Config.thy ===== *)
theory Io_Config
  imports Rule_File Io_Internal
begin

text \<open>
  The rule file grammar of the file library (\<open>src/config/chaos_io_config.c\<close>): the tables of
  operations and effects, the parser of one line and of a whole file, and the selection of the
  rule that governs an operation on a path.
\<close>

section \<open>Data\<close>

datatype chaos_io_operation =
  CHAOS_IO_OP_INVALID | CHAOS_IO_OP_READ | CHAOS_IO_OP_WRITE | CHAOS_IO_OP_OPEN | CHAOS_IO_OP_CLOSE
| CHAOS_IO_OP_FSYNC | CHAOS_IO_OP_FDATASYNC | CHAOS_IO_OP_PREAD | CHAOS_IO_OP_PWRITE
| CHAOS_IO_OP_TRUNCATE | CHAOS_IO_OP_ALLOCATE | CHAOS_IO_OP_UNLINK | CHAOS_IO_OP_RENAME_FROM
| CHAOS_IO_OP_RENAME_TO

datatype chaos_io_effect =
  CHAOS_IO_EFFECT_INVALID | CHAOS_IO_EFFECT_ERRNO | CHAOS_IO_EFFECT_LATENCY | CHAOS_IO_EFFECT_TORN
| CHAOS_IO_EFFECT_CORRUPT

text \<open>\<open>errnum\<close> 0 is \<open>None\<close>; a resolved prefix lives in the snapshot that owns the rule.\<close>

record chaos_io_rule = rule_head +
  io_path_prefix :: string
  io_path_len :: nat
  io_resolved_prefix :: "string option"
  io_resolved_len :: nat
  io_operation :: chaos_io_operation
  io_effect :: chaos_io_effect
  io_errnum :: "errno option"
  io_probability :: rat
  io_latency_ms :: nat

text \<open>The zeroed rule; enumerators of value 0 are \<open>READ\<close> and \<open>ERRNO\<close>.\<close>

definition io_rule_zero :: chaos_io_rule where
  "io_rule_zero =
     \<lparr>rh_policy = policy_zero, rh_call_size = 0, rh_hit = None, rh_hit_generation = 0,
      io_path_prefix = [], io_path_len = 0, io_resolved_prefix = None, io_resolved_len = 0,
      io_operation = CHAOS_IO_OP_READ, io_effect = CHAOS_IO_EFFECT_ERRNO, io_errnum = None,
      io_probability = 0, io_latency_ms = 0\<rparr>"

section \<open>Text helpers\<close>

definition chaos_io_is_blank_char :: "char \<Rightarrow> bool" where
  "chaos_io_is_blank_char ch \<longleftrightarrow> ch = CHR '' '' \<or> ch = TAB \<or> ch = CR \<or> ch = LF"

definition chaos_io_trim :: "string \<Rightarrow> string" where
  "chaos_io_trim txt =
     (let t = dropWhile chaos_io_is_blank_char txt
      in if t = [] then t else rstrip chaos_io_is_blank_char t)"

definition chaos_io_strip_comment :: "string \<Rightarrow> string" where
  "chaos_io_strip_comment line =
     (case split_first CHR ''#'' line of None \<Rightarrow> line | Some (before, _) \<Rightarrow> before)"

section \<open>Tables\<close>

definition chaos_io_parse_operation :: "string option \<Rightarrow> chaos_io_operation" where
  "chaos_io_parse_operation txt =
     (if txt = None then CHAOS_IO_OP_INVALID
      else if txt = Some ''read'' then CHAOS_IO_OP_READ
      else if txt = Some ''write'' then CHAOS_IO_OP_WRITE
      else if txt = Some ''open'' then CHAOS_IO_OP_OPEN
      else if txt = Some ''close'' then CHAOS_IO_OP_CLOSE
      else if txt = Some ''fsync'' then CHAOS_IO_OP_FSYNC
      else if txt = Some ''fdatasync'' then CHAOS_IO_OP_FDATASYNC
      else if txt = Some ''pread'' then CHAOS_IO_OP_PREAD
      else if txt = Some ''pwrite'' then CHAOS_IO_OP_PWRITE
      else if txt = Some ''truncate'' then CHAOS_IO_OP_TRUNCATE
      else if txt = Some ''allocate'' then CHAOS_IO_OP_ALLOCATE
      else if txt = Some ''unlink'' then CHAOS_IO_OP_UNLINK
      else if txt = Some ''rename_from'' then CHAOS_IO_OP_RENAME_FROM
      else if txt = Some ''rename_to'' then CHAOS_IO_OP_RENAME_TO
      else CHAOS_IO_OP_INVALID)"

definition chaos_io_parse_errno_name :: "string option \<Rightarrow> errno option" where
  "chaos_io_parse_errno_name txt =
     (if txt = None then None
      else if txt = Some ''EIO'' then Some EIO
      else if txt = Some ''ENOSPC'' then Some ENOSPC
      else if txt = Some ''EDQUOT'' then Some EDQUOT
      else if txt = Some ''EROFS'' then Some EROFS
      else if txt = Some ''EACCES'' then Some EACCES
      else if txt = Some ''EMFILE'' then Some EMFILE
      else if txt = Some ''ENFILE'' then Some ENFILE
      else if txt = Some ''ENOENT'' then Some ENOENT
      else None)"

definition chaos_io_parse_probability :: "string option \<Rightarrow> rat option" where
  "chaos_io_parse_probability txt = chaos_policy_parse_probability txt"

definition chaos_io_parse_latency :: "string option \<Rightarrow> nat option" where
  "chaos_io_parse_latency txt =
     (case txt of
        None \<Rightarrow> None
      | Some t \<Rightarrow>
          (let (value, rest, converted) = strtoul t
           in if \<not> converted \<or> chaos_io_trim rest \<noteq> [] then None
              else if value > 0xffffffff then None
              else Some value))"

definition chaos_io_effect_allowed :: "chaos_io_operation \<Rightarrow> chaos_io_effect \<Rightarrow> bool" where
  "chaos_io_effect_allowed operation effect =
     (if effect = CHAOS_IO_EFFECT_ERRNO \<or> effect = CHAOS_IO_EFFECT_LATENCY then True
      else if effect = CHAOS_IO_EFFECT_TORN
      then operation = CHAOS_IO_OP_WRITE \<or> operation = CHAOS_IO_OP_PWRITE
      else if effect = CHAOS_IO_EFFECT_CORRUPT
      then operation = CHAOS_IO_OP_READ \<or> operation = CHAOS_IO_OP_PREAD
      else False)"

section \<open>One line\<close>

text \<open>The text cut at its first \<open>n\<close> colons; the last field keeps the later ones.\<close>

fun split_fields :: "nat \<Rightarrow> string \<Rightarrow> string list" where
  "split_fields 0 s = [s]"
| "split_fields (Suc n) s =
     (case split_first CHR '':'' s of None \<Rightarrow> [s] | Some (a, b) \<Rightarrow> a # split_fields n b)"

text \<open>The effect of a line on a rule that already has its path and operation.\<close>

definition io_parse_effect :: "string \<Rightarrow> string \<Rightarrow> chaos_io_rule \<Rightarrow> chaos_io_rule option" where
  "io_parse_effect effect value rule =
     (case chaos_io_parse_errno_name (Some effect) of
        Some e \<Rightarrow>
          map_option (\<lambda>p. rule\<lparr>io_effect := CHAOS_IO_EFFECT_ERRNO, io_errnum := Some e, io_probability := p\<rparr>)
            (chaos_io_parse_probability (Some value))
      | None \<Rightarrow>
          (if effect = ''LATENCY'' then
             map_option (\<lambda>ms. rule\<lparr>io_effect := CHAOS_IO_EFFECT_LATENCY, io_latency_ms := ms\<rparr>)
               (chaos_io_parse_latency (Some value))
           else if effect = ''TORN'' then
             map_option (\<lambda>p. rule\<lparr>io_effect := CHAOS_IO_EFFECT_TORN, io_probability := p\<rparr>)
               (chaos_io_parse_probability (Some value))
           else if effect = ''CORRUPT'' then
             map_option (\<lambda>p. rule\<lparr>io_effect := CHAOS_IO_EFFECT_CORRUPT, io_probability := p\<rparr>)
               (chaos_io_parse_probability (Some value))
           else None))"

text \<open>The four trimmed fields of a line.\<close>

definition io_parse_fields :: "string \<Rightarrow> string \<Rightarrow> string \<Rightarrow> string \<Rightarrow> chaos_io_rule option" where
  "io_parse_fields path operation effect value =
     (if path = [] \<or> operation = [] \<or> effect = [] \<or> value = [] then None
      else if CHAOS_IO_MAX_RULE_PATH \<le> length path then None
      else let rule = io_rule_zero\<lparr>io_path_prefix := path, io_path_len := length path,
                        io_operation := chaos_io_parse_operation (Some operation)\<rparr>
           in if io_operation rule = CHAOS_IO_OP_INVALID then None
              else case io_parse_effect effect value rule of
                     None \<Rightarrow> None
                   | Some r \<Rightarrow> if chaos_io_effect_allowed (io_operation r) (io_effect r)
                               then Some r else None)"

definition chaos_io_config_parse_line :: "string \<Rightarrow> chaos_io_rule line_result" where
  "chaos_io_config_parse_line line =
     (let cursor = chaos_io_trim (chaos_io_strip_comment line)
      in if cursor = [] then Line_Blank
         else case split_fields 3 cursor of
                [f0, f1, f2, f3] \<Rightarrow>
                  (case io_parse_fields (chaos_io_trim f0) (chaos_io_trim f1) (chaos_io_trim f2)
                          (chaos_io_trim f3) of
                     None \<Rightarrow> Line_Invalid
                   | Some r \<Rightarrow> Line_Rule r)
              | _ \<Rightarrow> Line_Invalid)"

section \<open>The file\<close>

text \<open>\<open>CHAOS_IO_RULE_SUPPORTED\<close>: everything in the preload library, the effects that need no
  rewriting of the call's data in \<open>chaos-init\<close>.\<close>

definition chaos_io_rule_supported :: "chaos_io_rule \<Rightarrow> bool" where
  "chaos_io_rule_supported rule \<longleftrightarrow> True"

definition chaos_init_io_supported :: "chaos_io_rule \<Rightarrow> bool" where
  "chaos_init_io_supported rule \<longleftrightarrow>
     (io_effect rule = CHAOS_IO_EFFECT_ERRNO \<and> io_operation rule \<noteq> CHAOS_IO_OP_CLOSE) \<or>
     io_effect rule = CHAOS_IO_EFFECT_LATENCY"

definition chaos_io_config_parse_buffer ::
  "(chaos_io_rule \<Rightarrow> bool) \<Rightarrow> chaos_status_error \<Rightarrow> string \<Rightarrow> chaos_io_rule parse_result" where
  "chaos_io_config_parse_buffer supported err buffer =
     parse_rule_buffer chaos_io_config_parse_line supported CHAOS_IO_MAX_RULES err buffer"

section \<open>Selection\<close>

text \<open>\<open>prefix\<close> is the buffer the pointer names, of which the first \<open>len\<close> bytes count.\<close>

definition chaos_io_prefix_covers :: "string \<Rightarrow> nat \<Rightarrow> string \<Rightarrow> bool" where
  "chaos_io_prefix_covers prefix len path =
     (case after_prefix (take len prefix) path of
        None \<Rightarrow> False
      | Some rest \<Rightarrow> rest = [] \<or> (0 < len \<and> prefix ! (len - 1) = SLASH) \<or> hd rest = SLASH)"

definition chaos_io_rule_prefix_matches :: "chaos_io_rule \<Rightarrow> string \<Rightarrow> bool" where
  "chaos_io_rule_prefix_matches rule path =
     (if io_path_prefix rule = ''*'' then
        path \<noteq> [] \<and> hd path = SLASH \<and> after_prefix ''/memfd:'' path = None
      else chaos_io_prefix_covers (io_path_prefix rule) (io_path_len rule) path \<or>
           (case io_resolved_prefix rule of
              None \<Rightarrow> False
            | Some resolved \<Rightarrow> chaos_io_prefix_covers resolved (io_resolved_len rule) path))"

text \<open>The loop over the candidates, \<open>best\<close> being the rule kept so far.\<close>

fun io_select_from ::
  "chaos_io_rule option \<Rightarrow> chaos_io_rule list \<Rightarrow> chaos_io_operation \<Rightarrow> string \<Rightarrow> chaos_io_rule option" where
  "io_select_from best [] operation path = best"
| "io_select_from best (candidate # rest) operation path =
     (if io_operation candidate \<noteq> operation then io_select_from best rest operation path
      else if \<not> chaos_io_rule_prefix_matches candidate path then io_select_from best rest operation path
      else if best = None \<or> io_path_len (the best) < io_path_len candidate
      then io_select_from (Some candidate) rest operation path
      else io_select_from best rest operation path)"

definition chaos_io_config_select_rule ::
  "chaos_io_rule list \<Rightarrow> chaos_io_operation \<Rightarrow> string option \<Rightarrow> chaos_io_rule option" where
  "chaos_io_config_select_rule rules operation path =
     (case path of None \<Rightarrow> None | Some p \<Rightarrow> io_select_from None rules operation p)"

section \<open>Lemmas on the text helpers\<close>

lemma io_blank_eq: "chaos_io_is_blank_char = is_blank_char"
  by (auto simp: fun_eq_iff chaos_io_is_blank_char_def is_blank_char_def)

lemma io_trim_eq: "chaos_io_trim = trim_blanks"
  by (rule ext) (simp only: chaos_io_trim_def io_blank_eq trim_form)

lemma io_strip_comment_eq: "chaos_io_strip_comment = cut_comment"
  by (rule ext) (simp only: chaos_io_strip_comment_def strip_form)

lemma split_fields_no_colon:
  "f \<in> set (butlast (split_fields n s)) \<Longrightarrow> CHR '':'' \<notin> set f"
proof (induction n arbitrary: s)
  case (Suc n)
  have ne: "split_fields n b \<noteq> []" for b by (cases n) (auto split: option.splits)
  show ?case
  proof (cases "split_first CHR '':'' s")
    case (Some ab)
    then obtain a b where ab: "split_first CHR '':'' s = Some (a, b)" by (cases ab) auto
    then have "CHR '':'' \<notin> set a" by (simp add: split_first_Some_iff)
    with Suc ab ne show ?thesis by auto
  qed (use Suc in simp)
qed simp

lemma split_fields_subset: "f \<in> set (split_fields n s) \<Longrightarrow> set f \<subseteq> set s"
proof (induction n arbitrary: s)
  case (Suc n)
  show ?case
  proof (cases "split_first CHR '':'' s")
    case (Some ab)
    then obtain a b where "split_first CHR '':'' s = Some (a, b)" by (cases ab) auto
    moreover from this have "s = a @ CHR '':'' # b" by (simp add: split_first_Some_iff)
    ultimately show ?thesis using Suc by fastforce
  qed (use Suc in simp)
qed simp

lemma split_fields_colons:
  assumes "CHR '':'' \<notin> set a" "CHR '':'' \<notin> set b" "CHR '':'' \<notin> set c"
  shows "split_fields 3 (a @ CHR '':'' # b @ CHR '':'' # c @ CHR '':'' # d) = [a, b, c, d]"
proof -
  have "split_first CHR '':'' (x @ CHR '':'' # y) = Some (x, y)" if "CHR '':'' \<notin> set x" for x y
    using that by (simp add: split_first_Some_iff)
  with assms show ?thesis by (simp add: numeral_eq_Suc)
qed

section \<open>Well-formed rules\<close>

definition io_rule_ok :: "chaos_io_rule \<Rightarrow> bool" where
  "io_rule_ok r \<longleftrightarrow>
     trimmed (io_path_prefix r) \<and> io_path_len r = length (io_path_prefix r) \<and>
     length (io_path_prefix r) < CHAOS_IO_MAX_RULE_PATH \<and>
     CHR '':'' \<notin> set (io_path_prefix r) \<and> CHR ''#'' \<notin> set (io_path_prefix r) \<and>
     io_resolved_prefix r = None \<and>
     io_operation r \<noteq> CHAOS_IO_OP_INVALID \<and> io_effect r \<noteq> CHAOS_IO_EFFECT_INVALID \<and>
     chaos_io_effect_allowed (io_operation r) (io_effect r) \<and>
     (io_errnum r \<noteq> None \<longleftrightarrow> io_effect r = CHAOS_IO_EFFECT_ERRNO) \<and>
     0 \<le> io_probability r \<and> io_probability r \<le> 1 \<and>
     io_latency_ms r \<le> 0xffffffff \<and> (io_effect r \<noteq> CHAOS_IO_EFFECT_LATENCY \<longrightarrow> io_latency_ms r = 0)"

lemma io_parse_latency_bound: "chaos_io_parse_latency t = Some ms \<Longrightarrow> ms \<le> 0xffffffff"
  by (auto simp: chaos_io_parse_latency_def split: option.splits prod.splits if_splits)

lemma io_parse_effect_ok:
  assumes "io_parse_effect effect value rule = Some r"
    "io_errnum rule = None" "io_probability rule = 0" "io_latency_ms rule = 0"
  shows "io_effect r \<noteq> CHAOS_IO_EFFECT_INVALID" "io_errnum r \<noteq> None \<longleftrightarrow> io_effect r = CHAOS_IO_EFFECT_ERRNO"
    "0 \<le> io_probability r \<and> io_probability r \<le> 1"
    "io_latency_ms r \<le> 0xffffffff \<and> (io_effect r \<noteq> CHAOS_IO_EFFECT_LATENCY \<longrightarrow> io_latency_ms r = 0)"
    "io_path_prefix r = io_path_prefix rule" "io_path_len r = io_path_len rule"
    "io_resolved_prefix r = io_resolved_prefix rule" "io_operation r = io_operation rule"
  using assms io_parse_latency_bound parse_probability_range
  by (auto simp: io_parse_effect_def chaos_io_parse_probability_def split: option.splits if_splits)

lemma io_parse_fields_ok:
  assumes "io_parse_fields path operation effect value = Some r" "trimmed path"
    "CHR '':'' \<notin> set path" "CHR ''#'' \<notin> set path"
  shows "io_rule_ok r"
proof -
  define rule where "rule = io_rule_zero\<lparr>io_path_prefix := path, io_path_len := length path,
      io_operation := chaos_io_parse_operation (Some operation)\<rparr>"
  have e: "io_parse_effect effect value rule = Some r" "io_operation rule \<noteq> CHAOS_IO_OP_INVALID"
    "chaos_io_effect_allowed (io_operation r) (io_effect r)" "length path < CHAOS_IO_MAX_RULE_PATH"
    using assms(1) by (auto simp: io_parse_fields_def rule_def Let_def split: if_splits option.splits)
  have z: "io_errnum rule = None" "io_probability rule = 0" "io_latency_ms rule = 0"
    "io_path_prefix rule = path" "io_path_len rule = length path" "io_resolved_prefix rule = None"
    by (simp_all add: rule_def io_rule_zero_def)
  note ok = io_parse_effect_ok [OF e(1) z(1-3)]
  show ?thesis
    unfolding io_rule_ok_def using ok e(2-4) z(4-6) assms(2-4) by simp
qed

lemma io_parse_line_ok:
  assumes "chaos_io_config_parse_line line = Line_Rule r"
  shows "io_rule_ok r"
proof -
  define cursor where "cursor = trim_blanks (cut_comment line)"
  obtain f0 f1 f2 f3 where f: "split_fields 3 cursor = [f0, f1, f2, f3]"
    and p: "io_parse_fields (trim_blanks f0) (trim_blanks f1) (trim_blanks f2) (trim_blanks f3) = Some r"
    using assms
    by (auto simp: chaos_io_config_parse_line_def Let_def io_trim_eq io_strip_comment_eq cursor_def
        split: if_splits list.splits option.splits)
  have "f0 \<in> set (butlast (split_fields 3 cursor))" by (simp add: f)
  then have colon: "CHR '':'' \<notin> set (trim_blanks f0)"
    using split_fields_no_colon set_trim_blanks by blast
  have "f0 \<in> set (split_fields 3 cursor)" by (simp add: f)
  then have "set (trim_blanks f0) \<subseteq> set (cut_comment line)"
    using split_fields_subset set_trim_blanks unfolding cursor_def by blast
  moreover have "CHR ''#'' \<notin> set (cut_comment line)"
    by (auto simp: cut_comment_def dest: set_takeWhileD)
  ultimately have hash: "CHR ''#'' \<notin> set (trim_blanks f0)" by blast
  have "trim_blanks f0 \<noteq> []" using p by (auto simp: io_parse_fields_def)
  then show ?thesis using io_parse_fields_ok [OF p trimmed_trim colon hash] by simp
qed

section \<open>The parser as a line grammar\<close>

lemma io_parse_line_blank: "\<forall>c \<in> set s. is_blank_char c \<Longrightarrow> chaos_io_config_parse_line s = Line_Blank"
proof -
  assume "\<forall>c \<in> set s. is_blank_char c"
  then have "\<forall>c \<in> set (cut_comment s). is_blank_char c"
    by (auto simp: cut_comment_def dest: set_takeWhileD)
  then have "trim_blanks (cut_comment s) = []" by (simp only: trim_blanks_Nil_iff)
  then show ?thesis by (simp add: chaos_io_config_parse_line_def io_trim_eq io_strip_comment_eq)
qed

lemma io_parse_line_comment:
  "chaos_io_config_parse_line (s @ CHR ''#'' # t) = chaos_io_config_parse_line s"
  by (simp add: chaos_io_config_parse_line_def io_strip_comment_eq cut_comment_append)

lemma io_rule_ok_tail: "io_rule_ok r \<Longrightarrow> io_rule_ok (r\<lparr>rh_policy := p, rh_call_size := n\<rparr>)"
  by (simp add: io_rule_ok_def)

interpretation io_lines: line_grammar chaos_io_config_parse_line chaos_io_rule_supported CHAOS_IO_MAX_RULES io_rule_ok
  by unfold_locales (simp_all add: io_parse_line_blank io_parse_line_comment io_parse_line_ok io_rule_ok_tail)

interpretation io_init_lines: line_grammar chaos_io_config_parse_line chaos_init_io_supported CHAOS_IO_MAX_RULES io_rule_ok
  by unfold_locales (simp_all add: io_parse_line_blank io_parse_line_comment io_parse_line_ok io_rule_ok_tail)

text \<open>C4. A rule file is taken whole or not at all: the parser returns exactly the rules its lines describe,
  in order, when every line is acceptable, and otherwise no rule and the number, text and reason of the
  first line at fault.\<close>

theorem io_parse_buffer_all_or_nothing:
  "case scan_lines (line_rule chaos_io_config_parse_line) supported CHAOS_IO_MAX_RULES 0 0
          (buffer_lines (c_string buffer)) of
     Inr rs \<Rightarrow>
       pr_ok (chaos_io_config_parse_buffer supported err buffer) \<and>
       pr_rules (chaos_io_config_parse_buffer supported err buffer) = rs \<and>
       err_reason (pr_error (chaos_io_config_parse_buffer supported err buffer)) = None
   | Inl (n, reason, line) \<Rightarrow>
       \<not> pr_ok (chaos_io_config_parse_buffer supported err buffer) \<and>
       pr_rules (chaos_io_config_parse_buffer supported err buffer) = [] \<and>
       pr_error (chaos_io_config_parse_buffer supported err buffer) =
         chaos_status_reject (chaos_status_keep_line (chaos_status_clear err) n line) reason"
  unfolding chaos_io_config_parse_buffer_def by (rule parse_rule_buffer_refines)

text \<open>Every rule of an accepted file is well formed: a trimmed path below the length limit, a known
  operation, an effect that operation admits, its errno, a probability between 0 and 1, a 32-bit delay;
  and there are at most 256 of them.\<close>

theorem io_accepted_rules_well_formed:
  assumes "pr_ok (chaos_io_config_parse_buffer chaos_io_rule_supported err buffer)"
  shows "length (pr_rules (chaos_io_config_parse_buffer chaos_io_rule_supported err buffer)) \<le> CHAOS_IO_MAX_RULES \<and>
    (\<forall>r \<in> set (pr_rules (chaos_io_config_parse_buffer chaos_io_rule_supported err buffer)). io_rule_ok r)"
  using assms io_lines.parsed_rules [of err buffer] unfolding chaos_io_config_parse_buffer_def by blast

definition demo_no_error :: chaos_status_error where
  "demo_no_error = \<lparr>err_line = 0, err_reason = None, err_text = []\<rparr>"

theorem io_accepted_rules_well_formed_witness:
  "length (pr_rules (chaos_io_config_parse_buffer chaos_io_rule_supported demo_no_error ''/a:read:EIO:1'')) \<le> CHAOS_IO_MAX_RULES \<and>
    list_all io_rule_ok (pr_rules (chaos_io_config_parse_buffer chaos_io_rule_supported demo_no_error ''/a:read:EIO:1''))"
proof -
  have "pr_ok (chaos_io_config_parse_buffer chaos_io_rule_supported demo_no_error ''/a:read:EIO:1'')"
    by code_simp
  from io_accepted_rules_well_formed [OF this] show ?thesis by (simp add: list_all_iff)
qed

text \<open>In the supervisor's build the same parser never lets through a rule it cannot apply: no data
  effect and no errno on close.\<close>

theorem io_init_rejects_unsupported:
  assumes "pr_ok (chaos_io_config_parse_buffer chaos_init_io_supported err buffer)"
    "r \<in> set (pr_rules (chaos_io_config_parse_buffer chaos_init_io_supported err buffer))"
  shows "io_rule_ok r \<and> io_effect r \<noteq> CHAOS_IO_EFFECT_TORN \<and> io_effect r \<noteq> CHAOS_IO_EFFECT_CORRUPT \<and>
    \<not> (io_effect r = CHAOS_IO_EFFECT_ERRNO \<and> io_operation r = CHAOS_IO_OP_CLOSE)"
  using assms io_init_lines.parsed_rules [of err buffer]
  unfolding chaos_io_config_parse_buffer_def by (auto simp: chaos_init_io_supported_def)

theorem io_init_rejects_unsupported_witness:
  "\<exists>r \<in> set (pr_rules (chaos_io_config_parse_buffer chaos_init_io_supported demo_no_error ''/a:read:EIO:1'')).
     io_rule_ok r \<and> io_effect r \<noteq> CHAOS_IO_EFFECT_TORN \<and> io_effect r \<noteq> CHAOS_IO_EFFECT_CORRUPT \<and>
    \<not> (io_effect r = CHAOS_IO_EFFECT_ERRNO \<and> io_operation r = CHAOS_IO_OP_CLOSE)"
proof -
  have ok: "pr_ok (chaos_io_config_parse_buffer chaos_init_io_supported demo_no_error ''/a:read:EIO:1'')"
    by code_simp
  have "pr_rules (chaos_io_config_parse_buffer chaos_init_io_supported demo_no_error ''/a:read:EIO:1'') \<noteq> []"
    by code_simp
  then obtain r where "r \<in> set (pr_rules (chaos_io_config_parse_buffer chaos_init_io_supported demo_no_error ''/a:read:EIO:1''))"
    by (meson hd_in_set)
  then show ?thesis using io_init_rejects_unsupported [OF ok] by blast
qed

section \<open>Selection\<close>

lemma io_select_from_snoc:
  "io_select_from best (rs @ [r]) op path =
     (if io_operation r \<noteq> op \<or> \<not> chaos_io_rule_prefix_matches r path then io_select_from best rs op path
      else case io_select_from best rs op path of
             None \<Rightarrow> Some r
           | Some b \<Rightarrow> if io_path_len b < io_path_len r then Some r else Some b)"
  by (induction rs arbitrary: best) (auto split: option.splits)

definition io_rule_applies :: "chaos_io_operation \<times> string \<Rightarrow> chaos_io_rule \<Rightarrow> bool" where
  "io_rule_applies q r \<longleftrightarrow> io_operation r = fst q \<and> chaos_io_rule_prefix_matches r (snd q)"

interpretation io_scan: best_scan io_rule_applies io_path_len "\<lambda>q rs. io_select_from None rs (fst q) (snd q)"
  by unfold_locales (auto simp: io_select_from_snoc io_rule_applies_def)

text \<open>The rule selected for an operation on a path is one that applies, with the longest prefix of those
  that do, and the first in the file among equally long ones; without an applicable rule none is selected.\<close>

theorem io_select_rule_best:
  "case chaos_io_config_select_rule rules operation (Some path) of
     None \<Rightarrow> \<forall>r \<in> set rules. \<not> io_rule_applies (operation, path) r
   | Some b \<Rightarrow> \<exists>before after. rules = before @ b # after \<and>
       io_operation b = operation \<and> chaos_io_rule_prefix_matches b path \<and>
       (\<forall>r \<in> set before. io_rule_applies (operation, path) r \<longrightarrow> io_path_len r < io_path_len b) \<and>
       (\<forall>r \<in> set after. io_rule_applies (operation, path) r \<longrightarrow> io_path_len r \<le> io_path_len b)"
proof (cases "io_select_from None rules operation path")
  case None
  then show ?thesis
    using io_scan.select_None_iff [where q = "(operation, path)" and rs = rules]
    by (auto simp: chaos_io_config_select_rule_def io_rule_applies_def)
next
  case (Some b)
  then show ?thesis
    using io_scan.select_split [where q = "(operation, path)" and rs = rules and b = b]
    by (auto simp: chaos_io_config_select_rule_def io_rule_applies_def)
qed

definition demo_io_rule :: "string \<Rightarrow> chaos_io_rule" where
  "demo_io_rule p = io_rule_zero\<lparr>io_path_prefix := p, io_path_len := length p, io_errnum := Some EIO\<rparr>"

theorem io_select_rule_best_witness:
  "case chaos_io_config_select_rule [demo_io_rule ''/a'', demo_io_rule ''/a/b''] CHAOS_IO_OP_READ (Some ''/a/b/c'') of
     None \<Rightarrow> \<forall>r \<in> set [demo_io_rule ''/a'', demo_io_rule ''/a/b'']. \<not> io_rule_applies (CHAOS_IO_OP_READ, ''/a/b/c'') r
   | Some b \<Rightarrow> \<exists>before after. [demo_io_rule ''/a'', demo_io_rule ''/a/b''] = before @ b # after \<and>
       io_operation b = CHAOS_IO_OP_READ \<and> chaos_io_rule_prefix_matches b ''/a/b/c'' \<and>
       (\<forall>r \<in> set before. io_rule_applies (CHAOS_IO_OP_READ, ''/a/b/c'') r \<longrightarrow> io_path_len r < io_path_len b) \<and>
       (\<forall>r \<in> set after. io_rule_applies (CHAOS_IO_OP_READ, ''/a/b/c'') r \<longrightarrow> io_path_len r \<le> io_path_len b)"
  by (rule io_select_rule_best)

text \<open>A prefix covers a path exactly at component boundaries: the path itself, what lies below it, and
  for a prefix with a trailing slash everything that starts with it; a sibling that merely shares the
  leading characters is never covered.\<close>

theorem io_prefix_covers_exact:
  assumes "p \<noteq> []"
  shows "chaos_io_prefix_covers p (length p) path \<longleftrightarrow>
    path = p \<or> (\<exists>rest. path = p @ SLASH # rest) \<or> (last p = SLASH \<and> (\<exists>rest. path = p @ rest))"
proof -
  have last: "p ! (length p - Suc 0) = last p" using assms by (simp add: last_conv_nth)
  have whole: "after_prefix p p = Some []" by (simp add: after_prefix_Some_iff)
  show ?thesis
  proof (cases "after_prefix p path")
    case None
    then have "\<not> (\<exists>rest. path = p @ rest)"
      using after_prefix_append by fastforce
    then have "path \<noteq> p" "\<not> (\<exists>rest. path = p @ SLASH # rest)" by (metis append_Nil2, blast)
    with None \<open>\<not> (\<exists>rest. path = p @ rest)\<close> show ?thesis by (simp add: chaos_io_prefix_covers_def)
  next
    case (Some rest)
    then have path: "path = p @ rest" by (simp add: after_prefix_Some_iff)
    show ?thesis
      using assms by (cases rest) (auto simp: chaos_io_prefix_covers_def path last whole)
  qed
qed

theorem io_prefix_covers_exact_witness:
  "chaos_io_prefix_covers ''/data'' (length ''/data'') ''/database'' \<longleftrightarrow>
    ''/database'' = ''/data'' \<or> (\<exists>rest. ''/database'' = ''/data'' @ SLASH # rest) \<or>
    (last ''/data'' = SLASH \<and> (\<exists>rest. ''/database'' = ''/data'' @ rest))"
  by (rule io_prefix_covers_exact) simp

section \<open>Round trip of a line\<close>

fun io_operation_name :: "chaos_io_operation \<Rightarrow> string" where
  "io_operation_name CHAOS_IO_OP_INVALID = []"
| "io_operation_name CHAOS_IO_OP_READ = ''read''"
| "io_operation_name CHAOS_IO_OP_WRITE = ''write''"
| "io_operation_name CHAOS_IO_OP_OPEN = ''open''"
| "io_operation_name CHAOS_IO_OP_CLOSE = ''close''"
| "io_operation_name CHAOS_IO_OP_FSYNC = ''fsync''"
| "io_operation_name CHAOS_IO_OP_FDATASYNC = ''fdatasync''"
| "io_operation_name CHAOS_IO_OP_PREAD = ''pread''"
| "io_operation_name CHAOS_IO_OP_PWRITE = ''pwrite''"
| "io_operation_name CHAOS_IO_OP_TRUNCATE = ''truncate''"
| "io_operation_name CHAOS_IO_OP_ALLOCATE = ''allocate''"
| "io_operation_name CHAOS_IO_OP_UNLINK = ''unlink''"
| "io_operation_name CHAOS_IO_OP_RENAME_FROM = ''rename_from''"
| "io_operation_name CHAOS_IO_OP_RENAME_TO = ''rename_to''"

lemma io_parse_operation_name [simp]: "chaos_io_parse_operation (Some (io_operation_name op)) = op"
  by (cases op) (simp_all add: chaos_io_parse_operation_def)

definition io_line :: "string \<Rightarrow> chaos_io_operation \<Rightarrow> string \<Rightarrow> string \<Rightarrow> string" where
  "io_line path op effect value =
     path @ CHR '':'' # io_operation_name op @ CHR '':'' # effect @ CHR '':'' # value"

lemma plain_operation: "op \<noteq> CHAOS_IO_OP_INVALID \<Longrightarrow> plain_field (io_operation_name op)"
  by (cases op) (simp_all add: plain_field_def trimmed_def is_blank_char_def)

lemma io_parse_line_fields:
  assumes "plain_field path" "op \<noteq> CHAOS_IO_OP_INVALID" "plain_field effect" "plain_field value"
    "\<forall>b \<in> set blanks. is_blank_char b"
  shows "chaos_io_config_parse_line (io_line path op effect value @ blanks) =
    (case io_parse_fields path (io_operation_name op) effect value of
       None \<Rightarrow> Line_Invalid | Some r \<Rightarrow> Line_Rule r)"
proof -
  note op = plain_operation [OF assms(2)]
  have hash: "CHR ''#'' \<notin> set (io_line path op effect value @ blanks)"
    using assms op by (auto simp: io_line_def plain_field_def is_blank_char_def)
  have "trimmed (io_line path op effect value)"
    using assms(1,4) by (auto simp: io_line_def trimmed_def plain_field_def)
  then have trim: "trim_blanks (io_line path op effect value @ blanks) = io_line path op effect value"
    using assms(5) by (rule trim_blanks_trimmed)
  have fields: "split_fields 3 (io_line path op effect value) = [path, io_operation_name op, effect, value]"
    unfolding io_line_def using assms op by (intro split_fields_colons) (simp_all add: plain_field_def)
  have ne: "io_line path op effect value \<noteq> []" by (simp add: io_line_def)
  show ?thesis
    unfolding chaos_io_config_parse_line_def io_trim_eq io_strip_comment_eq cut_comment_id [OF hash] trim
    by (simp add: ne fields plain_field_trim assms(1,3,4) op)
qed

lemma io_line_rule_print:
  assumes "plain_field path" "op \<noteq> CHAOS_IO_OP_INVALID" "plain_field effect" "plain_field value" "policy_ok p"
    "io_parse_fields path (io_operation_name op) effect value = Some r"
  shows "line_rule chaos_io_config_parse_line (io_line path op effect value @ print_qualifiers p) =
    Inr (Some (r\<lparr>rh_policy := p, rh_call_size := CHAOS_POLICY_NO_SIZE\<rparr>))"
proof -
  note op = plain_operation [OF assms(2)]
  have plain: "CHR ''@'' \<notin> set (io_line path op effect value)" "CHR ''#'' \<notin> set (io_line path op effect value)"
    using assms(1,3,4) op by (auto simp: io_line_def plain_field_def)
  have ext: "chaos_policy_extract (io_line path op effect value @ print_qualifiers p) =
      (True, io_line path op effect value @ (if qualifier_words p = [] then [] else '' ''), p)"
    using extract_print [OF assms(5) no_qualifier_plain [OF plain(1)] plain(2)] by simp
  have parsed: "chaos_io_config_parse_line (io_line path op effect value @ (if qualifier_words p = [] then [] else '' '')) =
      Line_Rule r"
    using assms(6) by (subst io_parse_line_fields) (simp_all add: assms(1-4) is_blank_char_def)
  show ?thesis by (simp add: line_rule_def ext parsed)
qed

text \<open>A delay rule survives printing and parsing: path, operation, milliseconds and every qualifier are
  read back exactly.\<close>

theorem io_latency_roundtrip:
  assumes "plain_field path" "length path < CHAOS_IO_MAX_RULE_PATH" "op \<noteq> CHAOS_IO_OP_INVALID"
    "ms \<le> 0xffffffff" "policy_ok p"
  shows "line_rule chaos_io_config_parse_line (io_line path op ''LATENCY'' (print_nat ms) @ print_qualifiers p) =
    Inr (Some (io_rule_zero\<lparr>io_path_prefix := path, io_path_len := length path, io_operation := op,
      io_effect := CHAOS_IO_EFFECT_LATENCY, io_latency_ms := ms,
      rh_policy := p, rh_call_size := CHAOS_POLICY_NO_SIZE\<rparr>))"
proof -
  note val = plain_print_nat [of ms]
  have "strtoul (print_nat ms) = (ms, [], True)" using assms(4) by (rule strtoul_print_nat)
  then have lat: "chaos_io_parse_latency (Some (print_nat ms)) = Some ms"
    using assms(4) by (simp add: chaos_io_parse_latency_def io_trim_eq trim_blanks_Nil_iff)
  have eff: "plain_field ''LATENCY''" by (simp add: plain_field_def trimmed_def is_blank_char_def)
  have "io_operation_name op \<noteq> []" "path \<noteq> []"
    using plain_operation [OF assms(3)] assms(1) by (simp_all add: plain_field_def trimmed_def)
  then have "io_parse_fields path (io_operation_name op) ''LATENCY'' (print_nat ms) =
      Some (io_rule_zero\<lparr>io_path_prefix := path, io_path_len := length path, io_operation := op,
        io_effect := CHAOS_IO_EFFECT_LATENCY, io_latency_ms := ms\<rparr>)"
    using assms(2,3)
    by (simp add: io_parse_fields_def io_parse_effect_def chaos_io_parse_errno_name_def lat
        chaos_io_effect_allowed_def Let_def)
  from io_line_rule_print [OF assms(1,3) eff val assms(5) this] show ?thesis by simp
qed

theorem io_latency_roundtrip_witness:
  "line_rule chaos_io_config_parse_line
     (io_line ''/var/lib'' CHAOS_IO_OP_READ ''LATENCY'' (print_nat 250) @ print_qualifiers (policy_zero\<lparr>pol_first := 2\<rparr>)) =
   Inr (Some (io_rule_zero\<lparr>io_path_prefix := ''/var/lib'', io_path_len := length ''/var/lib'',
      io_operation := CHAOS_IO_OP_READ, io_effect := CHAOS_IO_EFFECT_LATENCY, io_latency_ms := 250,
      rh_policy := policy_zero\<lparr>pol_first := 2\<rparr>, rh_call_size := CHAOS_POLICY_NO_SIZE\<rparr>))"
  by (rule io_latency_roundtrip)
    (simp_all add: plain_field_def trimmed_def is_blank_char_def CHAOS_IO_MAX_RULE_PATH_def policy_ok_def
      policy_zero_def)

text \<open>A delay given by digits is read exactly or refused above 32 bits; a negative one is not refused as
  such but negated modulo \<open>2 ^ 64\<close>, so that the text of \<open>1 - 2 ^ 64\<close> is a delay of one millisecond.\<close>

theorem io_latency_values:
  assumes "ds \<noteq> []" "\<forall>c \<in> set ds. is_digit c"
  shows "chaos_io_parse_latency (Some ds) = (if decimal ds \<le> 0xffffffff then Some (decimal ds) else None) \<and>
    chaos_io_parse_latency (Some ''-18446744073709551615'') = Some 1"
proof
  obtain c cs where ds: "ds = c # cs" using assms(1) by (cases ds) auto
  have c: "\<not> c_isspace c" "c \<noteq> CHR ''-''" "c \<noteq> CHR ''+''"
    using assms(2) ds by (auto simp: is_digit_def c_isspace_def)
  have "strtoul ds = (if decimal ds > ulong_max then ulong_max else decimal ds, [], True)"
  proof -
    have sign: "strtoul_sign (dropWhile c_isspace ds) = (False, ds)" using c by (simp add: ds strtoul_sign_def)
    have tw: "takeWhile is_digit ds = ds" "dropWhile is_digit ds = []"
      using assms(2) by (simp_all add: takeWhile_all)
    show ?thesis unfolding strtoul_def Let_def sign prod.case tw using assms(1) by simp
  qed
  then show "chaos_io_parse_latency (Some ds) = (if decimal ds \<le> 0xffffffff then Some (decimal ds) else None)"
    by (simp add: chaos_io_parse_latency_def io_trim_eq trim_blanks_Nil_iff ulong_max_def)
  show "chaos_io_parse_latency (Some ''-18446744073709551615'') = Some 1"
    by (simp add: chaos_io_parse_latency_def strtoul_def strtoul_sign_def c_isspace_def is_digit_def
        digit_value_def ulong_max_def io_trim_eq trim_blanks_Nil_iff)
qed

theorem io_latency_values_witness:
  "chaos_io_parse_latency (Some ''250'') = (if decimal ''250'' \<le> 0xffffffff then Some (decimal ''250'') else None) \<and>
    chaos_io_parse_latency (Some ''-18446744073709551615'') = Some 1"
  by (rule io_latency_values) (simp_all add: is_digit_def)

end
