(* ===== verification/Io_Actions.thy ===== *)
theory Io_Actions
  imports Io_Config
begin

text \<open>
  \<open>src/effects/chaos_io_actions.c\<close>: the decision whether a matched rule takes effect and the
  effects themselves. The generator state, the slot pool and the clock reading are passed in; the
  results are what the functions return, store in \<open>errno\<close> or sleep, with the states afterwards.
\<close>

section \<open>Sampling\<close>

definition chaos_io_probability_hit_sample :: "rat \<Rightarrow> u32 \<Rightarrow> bool" where
  "chaos_io_probability_hit_sample probability sample =
     (if probability \<le> 0 then False
      else if probability \<ge> 1 then True
      else of_nat (unat sample) < probability * 4294967296)"

definition chaos_io_probability_hit :: "prng_env \<Rightarrow> rat \<Rightarrow> u64 \<Rightarrow> bool \<times> u64" where
  "chaos_io_probability_hit env probability prng =
     (let (sample, prng') = chaos_io_prng_next_u32 env prng
      in (chaos_io_probability_hit_sample probability sample, prng'))"

definition chaos_io_torn_count_sample :: "nat \<Rightarrow> u32 \<Rightarrow> nat" where
  "chaos_io_torn_count_sample requested sample =
     (if requested = 0 then 0
      else if requested = 1 then 1
      else unat sample mod (requested - 1) + 1)"

definition chaos_io_torn_count :: "prng_env \<Rightarrow> nat \<Rightarrow> u64 \<Rightarrow> nat \<times> u64" where
  "chaos_io_torn_count env requested prng =
     (let (sample, prng') = chaos_io_prng_next_u32 env prng
      in (chaos_io_torn_count_sample requested sample, prng'))"

text \<open>The first \<open>size'\<close> bytes of the buffer are the caller's data.\<close>

definition chaos_io_corrupt_buffer_sample ::
  "u8 list option \<Rightarrow> nat \<Rightarrow> u32 \<Rightarrow> u32 \<Rightarrow> u8 list option" where
  "chaos_io_corrupt_buffer_sample buffer size' index_sample bit_sample =
     (case buffer of
        None \<Rightarrow> None
      | Some bytes \<Rightarrow>
          (if size' = 0 then Some bytes
           else let index = unat index_sample mod size';
                    b = unat (bit_sample AND 7)
                in Some (bytes[index := bytes ! index XOR push_bit b 1])))"

definition chaos_io_corrupt_buffer ::
  "prng_env \<Rightarrow> u8 list option \<Rightarrow> nat \<Rightarrow> u64 \<Rightarrow> u8 list option \<times> u64" where
  "chaos_io_corrupt_buffer env buffer size' prng =
     (let (index_sample, prng1) = chaos_io_prng_next_u32 env prng;
          (bit_sample, prng2) = chaos_io_prng_next_u32 env prng1
      in (chaos_io_corrupt_buffer_sample buffer size' index_sample bit_sample, prng2))"

section \<open>The decision\<close>

text \<open>What the functions read and change: the clock, the generator of the thread, the pool, and the
  number of report hooks run.\<close>

record action_state =
  act_prng :: u64
  act_pool :: "chaos_hit_slot list"
  act_reports :: nat

definition fire_action :: "'a rule_head_scheme \<Rightarrow> action_state \<Rightarrow> bool \<times> action_state" where
  "fire_action rule st =
     (let (fired, pool, hook) = fire_on_pool rule (act_pool st)
      in (fired, st\<lparr>act_pool := pool, act_reports := act_reports st + (if hook then 1 else 0)\<rparr>))"

definition chaos_io_rule_should_trigger ::
  "prng_env \<Rightarrow> int \<Rightarrow> chaos_io_rule option \<Rightarrow> action_state \<Rightarrow> bool \<times> action_state" where
  "chaos_io_rule_should_trigger env now rule st =
     (case rule of
        None \<Rightarrow> (False, st)
      | Some r \<Rightarrow>
          (if \<not> chaos_policy_window_open now (rh_policy r) \<or>
              \<not> chaos_policy_size_ok (rh_policy r) (rh_call_size r) then (False, st)
           else if io_effect r = CHAOS_IO_EFFECT_LATENCY then fire_action r st
           else let (hit, prng) = chaos_io_probability_hit env (io_probability r) (act_prng st);
                    st' = st\<lparr>act_prng := prng\<rparr>
                in if \<not> hit then (False, st') else fire_action r st'))"

text \<open>The delay in nanoseconds and the state afterwards.\<close>

definition chaos_io_rule_apply_latency ::
  "prng_env \<Rightarrow> int \<Rightarrow> sleep_outcome list \<Rightarrow> chaos_io_rule option \<Rightarrow> action_state \<Rightarrow> int \<times> action_state" where
  "chaos_io_rule_apply_latency env now sleeps rule st =
     (case rule of
        None \<Rightarrow> (0, st)
      | Some r \<Rightarrow>
          (if io_effect r \<noteq> CHAOS_IO_EFFECT_LATENCY then (0, st)
           else let (fired, st') = chaos_io_rule_should_trigger env now rule st
                in if \<not> fired then (0, st') else (chaos_sleep_ms sleeps (io_latency_ms r), st')))"

text \<open>Whether the call is to fail, \<open>errno\<close> when it is set, and the state afterwards.\<close>

definition chaos_io_rule_apply_errno ::
  "prng_env \<Rightarrow> int \<Rightarrow> chaos_io_rule option \<Rightarrow> action_state \<Rightarrow> bool \<times> errno option \<times> action_state" where
  "chaos_io_rule_apply_errno env now rule st =
     (case rule of
        None \<Rightarrow> (False, None, st)
      | Some r \<Rightarrow>
          (if io_effect r \<noteq> CHAOS_IO_EFFECT_ERRNO then (False, None, st)
           else let (fired, st') = chaos_io_rule_should_trigger env now rule st
                in if \<not> fired then (False, None, st') else (True, io_errnum r, st')))"

section \<open>Lemmas\<close>

lemma nat_below_rat:
  fixes t :: rat
  shows "of_nat n < t \<longleftrightarrow> n < nat \<lceil>t\<rceil>"
  by (simp add: zless_nat_eq_int_zless less_ceiling_iff)

lemma card_words_below:
  fixes t :: rat
  assumes "0 \<le> t" "t \<le> 4294967296"
  shows "card {s :: u32. of_nat (unat s) < t} = nat \<lceil>t\<rceil>"
proof -
  have "\<lceil>t\<rceil> \<le> 4294967296" using assms(2) by (simp add: ceiling_le_iff)
  then have le: "nat \<lceil>t\<rceil> \<le> 4294967296" by linarith
  have "bij_betw unat {s :: u32. of_nat (unat s) < t} {..<nat \<lceil>t\<rceil>}"
  proof (rule bij_betw_byWitness [where f' = of_nat])
    have inv: "unat (of_nat n :: u32) = n" if "n < nat \<lceil>t\<rceil>" for n
      using that le by (simp add: unat_of_nat)
    show "\<forall>s \<in> {s :: u32. of_nat (unat s) < t}. of_nat (unat s) = s" by simp
    show "\<forall>n \<in> {..<nat \<lceil>t\<rceil>}. unat (of_nat n :: u32) = n" using inv by simp
    show "unat ` {s :: u32. of_nat (unat s) < t} \<subseteq> {..<nat \<lceil>t\<rceil>}"
      unfolding nat_below_rat by blast
    show "of_nat ` {..<nat \<lceil>t\<rceil>} \<subseteq> {s :: u32. of_nat (unat s) < t}"
    proof
      fix s :: u32 assume "s \<in> of_nat ` {..<nat \<lceil>t\<rceil>}"
      then obtain n where "n < nat \<lceil>t\<rceil>" "s = of_nat n" by blast
      then show "s \<in> {s :: u32. of_nat (unat s) < t}" unfolding nat_below_rat using inv by simp
    qed
  qed
  then show ?thesis by (metis bij_betw_same_card card_lessThan)
qed

lemma probability_hit_count:
  assumes "0 \<le> p" "p \<le> 1"
  shows "card {s :: u32. chaos_io_probability_hit_sample p s} = nat \<lceil>p * 4294967296\<rceil>"
proof -
  consider "p = 0" | "p = 1" | "0 < p" "p < 1" using assms by linarith
  then show ?thesis
  proof cases
    case 2
    have "card (UNIV :: u32 set) = 4294967296" by (simp add: card_word)
    with 2 show ?thesis by (simp add: chaos_io_probability_hit_sample_def)
  next
    case 3
    then have "card {s :: u32. of_nat (unat s) < p * 4294967296} = nat \<lceil>p * 4294967296\<rceil>"
      by (intro card_words_below) auto
    with 3 show ?thesis by (simp add: chaos_io_probability_hit_sample_def)
  qed (simp add: chaos_io_probability_hit_sample_def)
qed

text \<open>A rule fires at its configured rate: over the \<open>2 ^ 32\<close> equally likely samples the share that hits
  exceeds the probability by less than \<open>2 ^ -32\<close> and never falls short of it.\<close>

theorem probability_hit_rate:
  assumes "0 \<le> p" "p \<le> 1"
  shows "p \<le> of_nat (card {s :: u32. chaos_io_probability_hit_sample p s}) / 2 ^ 32 \<and>
    of_nat (card {s :: u32. chaos_io_probability_hit_sample p s}) / 2 ^ 32 < p + 1 / 2 ^ 32"
proof -
  have nn: "0 \<le> \<lceil>p * 4294967296\<rceil>" using assms(1) by simp
  have "of_nat (card {s :: u32. chaos_io_probability_hit_sample p s}) = (of_int \<lceil>p * 4294967296\<rceil> :: rat)"
    unfolding probability_hit_count [OF assms] using nn by simp
  moreover have "p * 4294967296 \<le> of_int \<lceil>p * 4294967296\<rceil>" by (rule le_of_int_ceiling)
  moreover have "of_int \<lceil>p * 4294967296\<rceil> < p * 4294967296 + 1" by linarith
  ultimately show ?thesis by (simp add: field_simps)
qed

theorem probability_hit_rate_witness:
  "1 / 3 \<le> of_nat (card {s :: u32. chaos_io_probability_hit_sample (1 / 3) s}) / (2 ^ 32 :: rat) \<and>
    of_nat (card {s :: u32. chaos_io_probability_hit_sample (1 / 3) s}) / 2 ^ 32 < (1 / 3 :: rat) + 1 / 2 ^ 32"
  by (rule probability_hit_rate) simp_all

text \<open>A torn write is a real prefix: of two or more bytes at least one is written and at least one is not.\<close>

theorem torn_count_bounds:
  assumes "2 \<le> requested"
  shows "0 < chaos_io_torn_count_sample requested sample \<and> chaos_io_torn_count_sample requested sample < requested"
proof -
  have "unat sample mod (requested - 1) < requested - 1" using assms by (intro mod_less_divisor) simp
  then have "unat sample mod (requested - 1) + 1 < requested" using assms by linarith
  with assms show ?thesis by (simp add: chaos_io_torn_count_sample_def)
qed

theorem torn_count_bounds_witness:
  "0 < chaos_io_torn_count_sample 10 4294967295 \<and> chaos_io_torn_count_sample 10 4294967295 < 10"
  by (rule torn_count_bounds) simp

text \<open>Corruption flips exactly one bit of the data: one byte among the first \<open>size'\<close> differs, in a single
  bit, and every other byte and the length are as before.\<close>

theorem corrupt_flips_one_bit:
  assumes "0 < size'" "size' \<le> length bytes"
  shows "\<exists>i b. i < size' \<and> b < 8 \<and>
    chaos_io_corrupt_buffer_sample (Some bytes) size' index_sample bit_sample =
      Some (bytes[i := flip_bit b (bytes ! i)]) \<and> flip_bit b (bytes ! i) \<noteq> bytes ! i"
proof (intro exI conjI)
  let ?i = "unat index_sample mod size'" and ?b = "unat (bit_sample AND 7)"
  show "?i < size'" using assms(1) by simp
  have "bit_sample AND 7 \<le> 7" by (rule word_and_le1)
  then show b: "?b < 8" by (simp add: word_le_nat_alt)
  show "chaos_io_corrupt_buffer_sample (Some bytes) size' index_sample bit_sample =
      Some (bytes[?i := flip_bit ?b (bytes ! ?i)])"
    using assms(1) by (simp add: chaos_io_corrupt_buffer_sample_def flip_bit_eq_xor Let_def)
  have "bit (flip_bit ?b (bytes ! ?i)) ?b \<noteq> bit (bytes ! ?i) ?b"
    using b by (simp add: bit_flip_bit_iff)
  then show "flip_bit ?b (bytes ! ?i) \<noteq> bytes ! ?i" by auto
qed

theorem corrupt_flips_one_bit_witness:
  "\<exists>i b. i < 3 \<and> b < 8 \<and>
    chaos_io_corrupt_buffer_sample (Some [1, 2, 3, 4 :: u8]) 3 8 13 = Some ([1, 2, 3, 4 :: u8][i := flip_bit b ([1, 2, 3, 4 :: u8] ! i)]) \<and>
    flip_bit b ([1, 2, 3, 4 :: u8] ! i) \<noteq> [1, 2, 3, 4 :: u8] ! i"
  by (rule corrupt_flips_one_bit) simp_all

lemma should_trigger_gates:
  assumes "chaos_io_rule_should_trigger env now (Some r) st = (True, st')"
  shows "chaos_policy_window_open now (rh_policy r)" "chaos_policy_size_ok (rh_policy r) (rh_call_size r)"
    "case rh_hit r of None \<Rightarrow> True | Some i \<Rightarrow> slot_generation (act_pool st ! i) = rh_hit_generation r"
    "io_effect r \<noteq> CHAOS_IO_EFFECT_LATENCY \<Longrightarrow> 0 < io_probability r"
  using assms fire_on_pool_current
  by (auto simp: chaos_io_rule_should_trigger_def chaos_io_probability_hit_def
      chaos_io_probability_hit_sample_def fire_action_def Let_def split: if_splits prod.splits)

text \<open>A call is failed only by an errno rule that is allowed to: with the errno of that rule, inside its
  time window and size range, with a positive probability, and from a snapshot whose slot is still its own.\<close>

theorem apply_errno_sound:
  assumes "chaos_io_rule_apply_errno env now (Some r) st = (True, e, st')"
  shows "e = io_errnum r \<and> io_effect r = CHAOS_IO_EFFECT_ERRNO \<and> 0 < io_probability r \<and>
    chaos_policy_window_open now (rh_policy r) \<and> chaos_policy_size_ok (rh_policy r) (rh_call_size r) \<and>
    (case rh_hit r of None \<Rightarrow> True | Some i \<Rightarrow> slot_generation (act_pool st ! i) = rh_hit_generation r)"
proof -
  from assms have eff: "io_effect r = CHAOS_IO_EFFECT_ERRNO" and e: "e = io_errnum r"
    and fired: "chaos_io_rule_should_trigger env now (Some r) st = (True, st')"
    by (auto simp: chaos_io_rule_apply_errno_def Let_def split: if_splits prod.splits)
  from should_trigger_gates [OF fired] eff e show ?thesis by simp
qed

theorem apply_errno_sound_witness:
  "Some EIO = io_errnum ((demo_io_rule ''/a'')\<lparr>io_probability := 1\<rparr>) \<and>
    io_effect ((demo_io_rule ''/a'')\<lparr>io_probability := 1\<rparr>) = CHAOS_IO_EFFECT_ERRNO \<and>
    0 < io_probability ((demo_io_rule ''/a'')\<lparr>io_probability := 1\<rparr>) \<and>
    chaos_policy_window_open 5 (rh_policy ((demo_io_rule ''/a'')\<lparr>io_probability := 1\<rparr>)) \<and>
    chaos_policy_size_ok (rh_policy ((demo_io_rule ''/a'')\<lparr>io_probability := 1\<rparr>))
      (rh_call_size ((demo_io_rule ''/a'')\<lparr>io_probability := 1\<rparr>)) \<and>
    (case rh_hit ((demo_io_rule ''/a'')\<lparr>io_probability := 1\<rparr>) of None \<Rightarrow> True
     | Some i \<Rightarrow> slot_generation (act_pool \<lparr>act_prng = 1, act_pool = [], act_reports = 0\<rparr> ! i) =
         rh_hit_generation ((demo_io_rule ''/a'')\<lparr>io_probability := 1\<rparr>))"
proof (rule apply_errno_sound)
  let ?env = "\<lparr>pe_process_seed = 1, pe_tid = 2, pe_stack_address = 3\<rparr>"
  let ?st = "\<lparr>act_prng = 1, act_pool = [], act_reports = 0\<rparr>"
  show "chaos_io_rule_apply_errno ?env 5 (Some ((demo_io_rule ''/a'')\<lparr>io_probability := 1\<rparr>)) ?st =
      (True, Some EIO, ?st\<lparr>act_prng := snd (chaos_io_prng_next_u32 ?env 1)\<rparr>)"
    by (simp add: chaos_io_rule_apply_errno_def chaos_io_rule_should_trigger_def demo_io_rule_def io_rule_zero_def
        chaos_policy_window_open_def chaos_policy_size_ok_def policy_zero_def chaos_io_probability_hit_def
        chaos_io_probability_hit_sample_def fire_action_def fire_on_pool_def chaos_policy_fire_def
        chaos_hit_slot_current_def chaos_hit_record_def Let_def split: prod.splits)
qed

end
