(* ===== verification/Io_Reload.thy ===== *)
theory Io_Reload
  imports Io_Actions
begin

text \<open>
  The life of the rule file in \<open>src/config/chaos_io_config.c\<close>: reading and stamping it, resolving
  links in rule paths, building and publishing a snapshot, the throttled refresh, the report of
  hits, the fork handler and the lookup. The library's globals are one record; what a call reads
  from outside (clocks, \<open>stat\<close>, \<open>open\<close>, \<open>read\<close>, \<open>realpath\<close>, the process number, the outcome of
  publications) is another, so a call is a function of the two. The clock readings of one call are
  those \<open>Chaos_Clock\<close>'s functions return during it.
\<close>

section \<open>State\<close>

text \<open>\<open>st_rules\<close>, \<open>st_hits\<close> and \<open>st_text\<close> are the first \<open>rule_count\<close> entries of the C arrays; the
  buffer of resolved prefixes is in the rules.\<close>

record io_snapshot =
  st_sequence :: u64
  st_rules :: "chaos_io_rule list"
  st_parse_ok :: bool
  st_hits :: "nat option list"
  st_text :: "string list"
  st_links :: bool
  st_resolved_ms :: u64

record io_lib =
  io_states :: "io_snapshot list"
  io_pool :: "chaos_hit_slot list"
  io_pool_used :: bool
  io_active_index :: nat
  io_cached_mtime :: u64
  io_provisional :: bool
  io_content :: u64
  io_error :: chaos_status_error
  io_texts :: "string list"
  io_hits_writing :: bool
  io_hits_pending :: bool
  io_hits_total :: u64
  io_hits_last_ms :: u64
  io_hits_pid :: int
  io_hits_file :: int
  io_hits_owned :: bool
  io_tls_prng :: u64
  io_atfork_registered :: bool
  io_last_check_ns :: u64
  io_check_interval_ns :: u64
  io_fs :: file_system

record file_stamp =
  fst_sec :: int
  fst_nsec :: int
  fst_size :: int
  fst_ino :: u64
  fst_dev :: u64

datatype read_outcome = Read_Error errno | Read_Data string

record io_env =
  ev_now_ms :: u64
  ev_realtime_ms :: int
  ev_vdso_ns :: u64
  ev_stat :: "file_stamp option"
  ev_opens :: "errno list"
  ev_reads :: "read_outcome list"
  ev_fstat :: "file_stamp option"
  ev_realpath :: "string \<Rightarrow> string option"
  ev_pid :: int
  ev_publish :: fs_env
  ev_hits_publish :: "nat \<Rightarrow> fs_env"
  ev_salts :: "nat \<Rightarrow> u64"

definition chaos_io_config_reset_state :: "bool \<Rightarrow> io_snapshot \<Rightarrow> io_snapshot" where
  "chaos_io_config_reset_state parse_ok st =
     \<lparr>st_sequence = chaos_snapshot_write_begin (st_sequence st), st_rules = [], st_parse_ok = parse_ok,
      st_hits = [], st_text = [], st_links = False, st_resolved_ms = 0\<rparr>"

definition chaos_io_config_active_state :: "io_lib \<Rightarrow> io_snapshot" where
  "chaos_io_config_active_state lib = io_states lib ! io_active_index lib"

definition update_state :: "nat \<Rightarrow> (io_snapshot \<Rightarrow> io_snapshot) \<Rightarrow> io_lib \<Rightarrow> io_lib" where
  "update_state i f lib = lib\<lparr>io_states := (io_states lib)[i := f (io_states lib ! i)]\<rparr>"

definition end_write :: "io_snapshot \<Rightarrow> io_snapshot" where
  "end_write st = st\<lparr>st_sequence := chaos_snapshot_write_end (st_sequence st)\<rparr>"

definition chaos_io_config_publish :: "nat \<Rightarrow> u64 \<Rightarrow> io_lib \<Rightarrow> io_lib" where
  "chaos_io_config_publish next_index observed_mtime lib =
     (update_state next_index end_write lib)
       \<lparr>io_active_index := next_index, io_cached_mtime := observed_mtime\<rparr>"

section \<open>Stamps\<close>

definition chaos_io_config_normalize_mtime_hash :: "u64 \<Rightarrow> u64" where
  "chaos_io_config_normalize_mtime_hash value =
     (if value = CHAOS_IO_MTIME_MISSING \<or> value = CHAOS_IO_MTIME_RELOADING \<or> value = CHAOS_IO_MTIME_UNKNOWN
      then value XOR 0x9e3779b97f4a7c15 else value)"

definition chaos_io_config_hash_mtime :: "file_stamp option \<Rightarrow> u64" where
  "chaos_io_config_hash_mtime st =
     (case st of
        None \<Rightarrow> CHAOS_IO_MTIME_MISSING
      | Some s \<Rightarrow>
          (let v1 = (1469598103934665603 XOR of_int (fst_sec s)) * 1099511628211;
               v2 = (v1 XOR of_int (fst_nsec s)) * 1099511628211;
               v3 = (v2 XOR of_int (fst_size s)) * 1099511628211;
               v4 = (v3 XOR fst_ino s) * 1099511628211;
               v5 = (v4 XOR fst_dev s) * 1099511628211
           in chaos_io_config_normalize_mtime_hash v5))"

definition chaos_io_config_observed_mtime :: "io_env \<Rightarrow> u64" where
  "chaos_io_config_observed_mtime env =
     (case ev_stat env of
        None \<Rightarrow> CHAOS_IO_MTIME_MISSING
      | Some s \<Rightarrow> chaos_io_config_hash_mtime (Some s))"

section \<open>Reading the file\<close>

text \<open>The return codes 0 with the contents, -1, -2 and -3.\<close>

datatype read_result = Read_Ok string | Read_Retry | Read_Too_Large | Read_Unreadable

text \<open>The error \<open>open\<close> ends with, if any; it is called again after \<open>EINTR\<close>.\<close>

fun open_loop :: "errno list \<Rightarrow> errno option" where
  "open_loop [] = None"
| "open_loop (e # es) = (if e = EINTR then open_loop es else Some e)"

text \<open>The reads into the buffer that holds \<open>got\<close>; after the listed outcomes \<open>read\<close> returns 0.\<close>

fun read_loop :: "read_outcome list \<Rightarrow> string \<Rightarrow> read_result" where
  "read_loop [] got = Read_Ok got"
| "read_loop (Read_Error e # rest) got =
     (if e = EINTR then read_loop rest got
      else if e = EISDIR then Read_Unreadable else Read_Retry)"
| "read_loop (Read_Data d # rest) got =
     (let part = take (CHAOS_IO_MAX_CONFIG_BYTES - length got) d
      in if part = [] then Read_Ok got
         else if length (got @ part) = CHAOS_IO_MAX_CONFIG_BYTES then Read_Too_Large
         else read_loop rest (got @ part))"

definition chaos_io_config_read_file :: "io_env \<Rightarrow> u64 \<Rightarrow> io_lib \<Rightarrow> read_result \<times> io_lib" where
  "chaos_io_config_read_file env expected_stamp lib =
     (case open_loop (ev_opens env) of
        Some e \<Rightarrow> (if e = EACCES \<or> e = EPERM then Read_Unreadable else Read_Retry, lib)
      | None \<Rightarrow>
          (case read_loop (ev_reads env) [] of
             Read_Ok data \<Rightarrow>
               (case ev_fstat env of
                  None \<Rightarrow> (Read_Retry, lib)
                | Some s \<Rightarrow>
                    (if chaos_io_config_hash_mtime (Some s) \<noteq> expected_stamp then (Read_Retry, lib)
                     else (Read_Ok data,
                           lib\<lparr>io_provisional :=
                             chaos_clock_stamp_is_recent (ev_realtime_ms env) (fst_sec s) (fst_nsec s)\<rparr>)))
           | failed \<Rightarrow> (failed, lib)))"

definition chaos_io_config_reject_file :: "nat \<Rightarrow> status_reason \<Rightarrow> io_lib \<Rightarrow> io_lib" where
  "chaos_io_config_reject_file i reason lib =
     (update_state i (chaos_io_config_reset_state False) lib)
       \<lparr>io_error := chaos_status_reject (chaos_status_clear (io_error lib)) reason\<rparr>"

section \<open>Links in rule paths\<close>

definition PATH_MAX :: nat where "PATH_MAX = 4096"
definition CHAOS_IO_LINKS_RECHECK_MS :: u64 where "CHAOS_IO_LINKS_RECHECK_MS = 1000"

text \<open>The loop over the ancestors of \<open>path\<close>, \<open>head\<close> being the last one tried.\<close>

function resolve_head :: "(string \<Rightarrow> string option) \<Rightarrow> string \<Rightarrow> string \<Rightarrow> string option" where
  "resolve_head realpath path head =
     (case split_last SLASH head of
        None \<Rightarrow> None
      | Some (dir, _) \<Rightarrow>
          (if dir = [] then None
           else case realpath dir of
                  Some out \<Rightarrow>
                    (let rest = drop (length dir) path
                     in if PATH_MAX \<le> length out + length rest then None
                        else Some (normalize_absolute (out @ rest)))
                | None \<Rightarrow> resolve_head realpath path dir))"
  by pat_completeness auto
termination
proof (relation "measure (\<lambda>(realpath, path, head). length head)", goal_cases)
  case 1
  show ?case by simp
next
  case (2 realpath path head _ dir)
  then show ?case by (auto simp: split_last_Some_iff)
qed

declare resolve_head.simps [simp del]

text \<open>The resolved path when one was found, and whether the whole path exists.\<close>

definition chaos_io_config_resolve_path ::
  "(string \<Rightarrow> string option) \<Rightarrow> string \<Rightarrow> string option \<times> bool" where
  "chaos_io_config_resolve_path realpath path =
     (case realpath path of
        Some out \<Rightarrow> (Some out, True)
      | None \<Rightarrow> (resolve_head realpath path path, False))"

text \<open>One rule of the loop, and whether its path has links that may move.\<close>

definition resolve_rule :: "(string \<Rightarrow> string option) \<Rightarrow> chaos_io_rule \<Rightarrow> chaos_io_rule \<times> bool" where
  "resolve_rule realpath rule0 =
     (let rule = rule0\<lparr>io_resolved_prefix := None, io_resolved_len := 0\<rparr>
      in if io_path_prefix rule = [] \<or> hd (io_path_prefix rule) \<noteq> SLASH then (rule, False)
         else let path = normalize_absolute (io_path_prefix rule);
                  rule1 = rule\<lparr>io_path_prefix := path, io_path_len := length path\<rparr>;
                  (found, whole) = chaos_io_config_resolve_path realpath path
              in case found of
                   None \<Rightarrow> (rule1, True)
                 | Some resolved \<Rightarrow>
                     (if resolved \<noteq> path \<and> length resolved < CHAOS_IO_MAX_RULE_PATH
                      then rule1\<lparr>io_resolved_prefix := Some resolved, io_resolved_len := length resolved\<rparr>
                      else rule1,
                      \<not> whole \<or> resolved \<noteq> path))"

definition chaos_io_config_resolve_rules :: "io_env \<Rightarrow> io_snapshot \<Rightarrow> io_snapshot" where
  "chaos_io_config_resolve_rules env st =
     (let done = map (resolve_rule (ev_realpath env)) (st_rules st)
      in st\<lparr>st_links := (\<exists>d \<in> set done. snd d), st_resolved_ms := ev_now_ms env, st_rules := map fst done\<rparr>)"

definition chaos_io_config_links_due :: "io_env \<Rightarrow> io_lib \<Rightarrow> bool" where
  "chaos_io_config_links_due env lib \<longleftrightarrow>
     st_links (chaos_io_config_active_state lib) \<and>
     CHAOS_IO_LINKS_RECHECK_MS \<le> ev_now_ms env - st_resolved_ms (chaos_io_config_active_state lib)"

definition rule_moved :: "(string \<Rightarrow> string option) \<Rightarrow> chaos_io_rule \<Rightarrow> bool" where
  "rule_moved realpath rule \<longleftrightarrow>
     io_path_prefix rule \<noteq> [] \<and> hd (io_path_prefix rule) = SLASH \<and>
     (case fst (chaos_io_config_resolve_path realpath (io_path_prefix rule)) of
        None \<Rightarrow> False
      | Some resolved \<Rightarrow>
          resolved \<noteq> (case io_resolved_prefix rule of Some p \<Rightarrow> p | None \<Rightarrow> io_path_prefix rule))"

definition chaos_io_config_links_moved :: "io_env \<Rightarrow> io_lib \<Rightarrow> bool \<times> io_lib" where
  "chaos_io_config_links_moved env lib =
     (if \<not> chaos_io_config_links_due env lib then (False, lib)
      else if \<exists>r \<in> set (st_rules (chaos_io_config_active_state lib)). rule_moved (ev_realpath env) r
      then (True, lib)
      else (False, update_state (io_active_index lib) (\<lambda>st. st\<lparr>st_resolved_ms := ev_now_ms env\<rparr>) lib))"

section \<open>Counters of a snapshot\<close>

definition attach_rule :: "chaos_hit_slot list \<Rightarrow> nat option \<Rightarrow> chaos_io_rule \<Rightarrow> chaos_io_rule" where
  "attach_rule pool slot rule =
     rule\<lparr>rh_hit := slot,
          rh_hit_generation := (case slot of None \<Rightarrow> 0 | Some i \<Rightarrow> slot_generation (pool ! i))\<rparr>"

text \<open>The snapshot being built is never the active one.\<close>

definition chaos_io_config_attach_hits :: "nat \<Rightarrow> io_lib \<Rightarrow> io_lib" where
  "chaos_io_config_attach_hits next_index lib =
     (let active = chaos_io_config_active_state lib;
          next_state = io_states lib ! next_index;
          n = length (st_rules next_state);
          texts = take n (io_texts lib);
          (pool, slots) = chaos_hits_assign (io_pool lib) (st_hits active) (st_text active)
                            (length (st_rules active)) texts
      in (update_state next_index
            (\<lambda>st. st\<lparr>st_text := texts, st_hits := slots,
                    st_rules := map2 (attach_rule pool) slots (st_rules st)\<rparr>) lib)
         \<lparr>io_pool := pool, io_pool_used := (0 < n \<or> io_pool_used lib)\<rparr>)"

section \<open>Reload\<close>

definition chaos_io_config_report :: "io_env \<Rightarrow> u64 \<Rightarrow> io_snapshot \<Rightarrow> io_lib \<Rightarrow> io_lib" where
  "chaos_io_config_report env observed_mtime st lib =
     (if observed_mtime = CHAOS_IO_MTIME_MISSING
      then lib\<lparr>io_fs := chaos_status_remove (io_fs lib) CHAOS_IO_STATUS_PATH\<rparr>
      else if \<not> st_parse_ok st
      then lib\<lparr>io_fs := chaos_status_write (io_fs lib) (ev_publish env) CHAOS_IO_STATUS_PATH
                          CHAOS_STATUS_ERROR 0 (Some (io_error lib))\<rparr>
      else lib\<lparr>io_fs := chaos_status_write (io_fs lib) (ev_publish env) CHAOS_IO_STATUS_PATH
                          CHAOS_STATUS_OK (length (st_rules st)) None\<rparr>)"

definition release_to :: "nat \<Rightarrow> io_lib \<Rightarrow> io_lib" where
  "release_to i lib = lib\<lparr>io_pool := chaos_hits_release (io_pool lib) (st_hits (io_states lib ! i))\<rparr>"

text \<open>The parse of the contents into the snapshot at \<open>i\<close>.\<close>

definition parse_into :: "nat \<Rightarrow> string \<Rightarrow> io_lib \<Rightarrow> io_lib" where
  "parse_into i data lib =
     (let result = chaos_io_config_parse_buffer chaos_io_rule_supported (io_error lib) data;
          lib' = lib\<lparr>io_error := pr_error result, io_texts := pr_texts result\<rparr>
      in if pr_ok result then update_state i (\<lambda>st. st\<lparr>st_rules := pr_rules result\<rparr>) lib'
         else update_state i (chaos_io_config_reset_state False) lib')"

text \<open>The end of a reload once the snapshot at \<open>i\<close> holds the outcome of the file.\<close>

definition finish_reload :: "io_env \<Rightarrow> nat \<Rightarrow> u64 \<Rightarrow> u64 \<Rightarrow> io_lib \<Rightarrow> io_lib" where
  "finish_reload env i observed_mtime content lib =
     (let lib1 = update_state i (chaos_io_config_resolve_rules env) lib;
          lib2 = chaos_io_config_attach_hits i (lib1\<lparr>io_content := content\<rparr>);
          lib3 = chaos_io_config_report env observed_mtime (io_states lib2 ! i) lib2
      in chaos_io_config_publish i observed_mtime (release_to i lib3))"

definition chaos_io_config_reload :: "io_env \<Rightarrow> u64 \<Rightarrow> u64 \<Rightarrow> io_lib \<Rightarrow> io_lib" where
  "chaos_io_config_reload env observed_mtime previous_mtime lib =
     (let i = 1 - io_active_index lib;
          lib0 = update_state i (chaos_io_config_reset_state True) lib
      in if observed_mtime = CHAOS_IO_MTIME_MISSING then
           (let lib1 = chaos_io_config_report env CHAOS_IO_MTIME_MISSING (io_states lib0 ! i)
                         (lib0\<lparr>io_content := 0\<rparr>)
            in chaos_io_config_publish i CHAOS_IO_MTIME_MISSING (release_to i lib1))
         else let (read_rc, lib1) = chaos_io_config_read_file env observed_mtime lib0
              in case read_rc of
                   Read_Too_Large \<Rightarrow>
                     finish_reload env i observed_mtime 0 (chaos_io_config_reject_file i REASON_TOO_LARGE lib1)
                 | Read_Unreadable \<Rightarrow>
                     finish_reload env i observed_mtime 0 (chaos_io_config_reject_file i REASON_UNREADABLE lib1)
                 | Read_Retry \<Rightarrow> lib1\<lparr>io_cached_mtime := previous_mtime\<rparr>
                 | Read_Ok data \<Rightarrow>
                     (let content = chaos_config_content_hash data;
                          same = (observed_mtime = previous_mtime \<and> content = io_content lib1);
                          (moved, lib2) = (if same then chaos_io_config_links_moved env lib1 else (True, lib1))
                      in if \<not> moved then lib2\<lparr>io_cached_mtime := previous_mtime\<rparr>
                         else finish_reload env i observed_mtime content
                                (if NUL \<in> set data then chaos_io_config_reject_file i REASON_NUL lib2
                                 else parse_into i data lib2)))"

section \<open>The hits file\<close>

definition write_hits :: "io_env \<Rightarrow> io_lib \<Rightarrow> io_lib" where
  "write_hits env lib =
     (let active = chaos_io_config_active_state lib;
          (fs, number, owned) =
            chaos_hits_write_for (ev_hits_publish env) (ev_salts env) (io_fs lib) CHAOS_IO_HITS_PREFIX (ev_pid env)
              (io_hits_file lib) (io_hits_owned lib) (io_pool lib) (st_hits active) (st_text active)
              (CHAOS_IO_MAX_RULES * CHAOS_HITS_LINE_MAX + 1)
      in lib\<lparr>io_fs := fs, io_hits_file := number, io_hits_owned := owned\<rparr>)"

text \<open>\<open>counted\<close> says whether the call comes from a hit (a non-NULL slot). No other thread runs, so
  the loops end as soon as nothing is pending.\<close>

definition chaos_io_config_report_hits :: "io_env \<Rightarrow> bool \<Rightarrow> io_lib \<Rightarrow> io_lib" where
  "chaos_io_config_report_hits env counted lib0 =
     (let now = ev_now_ms env;
          lib = (if counted then lib0\<lparr>io_hits_total := io_hits_total lib0 + 1, io_hits_pending := True\<rparr> else lib0)
      in if counted \<and> CHAOS_HITS_EAGER < io_hits_total lib \<and> now - io_hits_last_ms lib < CHAOS_HITS_INTERVAL_MS
         then lib
         else if \<not> counted \<and> \<not> io_hits_pending lib then lib
         else if ev_pid env \<noteq> io_hits_pid lib then lib
         else if io_hits_writing lib then lib
         else let lib1 = (if io_hits_pending lib then write_hits env (lib\<lparr>io_hits_pending := False\<rparr>) else lib)
              in lib1\<lparr>io_hits_last_ms := now\<rparr>)"

definition chaos_io_config_report_hits_at_exit :: "io_env \<Rightarrow> io_lib \<Rightarrow> io_lib" where
  "chaos_io_config_report_hits_at_exit env lib = chaos_io_config_report_hits env False lib"

section \<open>Fork, initialisation, refresh, lookup\<close>

definition chaos_io_config_after_fork :: "io_env \<Rightarrow> io_lib \<Rightarrow> io_lib" where
  "chaos_io_config_after_fork env lib =
     lib\<lparr>io_cached_mtime :=
           (if io_cached_mtime lib = CHAOS_IO_MTIME_RELOADING then CHAOS_IO_MTIME_UNKNOWN
            else io_cached_mtime lib),
         io_hits_writing := False, io_hits_pending := False, io_hits_total := 0, io_hits_last_ms := 0,
         io_hits_pid := ev_pid env, io_hits_file := ev_pid env, io_hits_owned := False, io_tls_prng := 0,
         io_pool := (if io_pool_used lib
                     then chaos_hits_pool_after_fork (io_pool lib) (st_hits (chaos_io_config_active_state lib))
                     else io_pool lib)\<rparr>"

definition chaos_io_config_init :: "io_env \<Rightarrow> io_lib \<Rightarrow> io_lib" where
  "chaos_io_config_init env lib =
     lib\<lparr>io_hits_pid := ev_pid env,
         io_hits_file := chaos_hits_file_number_for (\<lambda>p. io_fs lib p \<noteq> None) (ev_vdso_ns env)
                           CHAOS_IO_HITS_PREFIX (ev_pid env),
         io_hits_owned := False, io_pool := chaos_hits_pool_reset (io_pool lib),
         io_atfork_registered := True,
         io_states := map (\<lambda>st. end_write (chaos_io_config_reset_state True st)) (io_states lib),
         io_active_index := 0, io_cached_mtime := CHAOS_IO_MTIME_UNKNOWN\<rparr>"

definition chaos_io_config_checked_recently :: "io_env \<Rightarrow> io_lib \<Rightarrow> bool \<times> io_lib" where
  "chaos_io_config_checked_recently env lib =
     (if io_cached_mtime lib = CHAOS_IO_MTIME_UNKNOWN \<or> io_cached_mtime lib = CHAOS_IO_MTIME_RELOADING
      then (False, lib)
      else let (recent, last_check) =
                 chaos_clock_checked_recently (ev_vdso_ns env) (io_last_check_ns lib) (io_check_interval_ns lib)
           in (recent, lib\<lparr>io_last_check_ns := last_check\<rparr>))"

definition has_rules :: "io_lib \<Rightarrow> bool" where
  "has_rules lib \<longleftrightarrow> st_rules (chaos_io_config_active_state lib) \<noteq> []"

definition chaos_io_config_refresh :: "io_env \<Rightarrow> io_lib \<Rightarrow> bool \<times> io_lib" where
  "chaos_io_config_refresh env lib0 =
     (let (recent, lib1) = chaos_io_config_checked_recently env lib0
      in if recent then (has_rules lib1, lib1)
         else let lib2 = (if io_hits_pending lib1 \<and> CHAOS_HITS_INTERVAL_MS \<le> ev_now_ms env - io_hits_last_ms lib1
                          then chaos_io_config_report_hits env False lib1 else lib1);
                  observed = chaos_io_config_observed_mtime env;
                  cached = io_cached_mtime lib2
              in if cached = observed \<and> \<not> io_provisional lib2 \<and> \<not> chaos_io_config_links_due env lib2
                 then (has_rules lib2, lib2)
                 else if cached = CHAOS_IO_MTIME_RELOADING then (has_rules lib2, lib2)
                 else let lib3 = chaos_io_config_reload env observed cached
                                   (lib2\<lparr>io_cached_mtime := CHAOS_IO_MTIME_RELOADING, io_provisional := False\<rparr>)
                      in (has_rules lib3, lib3))"

definition chaos_io_config_prepare :: "io_env \<Rightarrow> io_lib \<Rightarrow> bool \<times> io_lib" where
  "chaos_io_config_prepare env lib = chaos_io_config_refresh env lib"

text \<open>The sequence read at the end is \<open>sequence_after\<close>: the snapshot may be rewritten meanwhile.\<close>

definition chaos_io_config_match_loaded ::
  "io_lib \<Rightarrow> u64 \<Rightarrow> chaos_io_operation \<Rightarrow> string option \<Rightarrow> chaos_io_rule option" where
  "chaos_io_config_match_loaded lib sequence_after operation path =
     (if path = None then None
      else let st = chaos_io_config_active_state lib;
               sequence = chaos_snapshot_read_begin (st_sequence st)
           in if st_rules st = [] then None
              else case chaos_io_config_select_rule (st_rules st) operation path of
                     None \<Rightarrow> None
                   | Some rule \<Rightarrow> if chaos_snapshot_read_valid sequence_after sequence then Some rule else None)"

definition chaos_io_config_match_path ::
  "io_env \<Rightarrow> chaos_io_operation \<Rightarrow> string option \<Rightarrow> io_lib \<Rightarrow> chaos_io_rule option \<times> io_lib" where
  "chaos_io_config_match_path env operation path lib =
     (if path = None \<or> chaos_io_is_excluded_path path then (None, lib)
      else let (loaded, lib') = chaos_io_config_prepare env lib
           in if \<not> loaded then (None, lib')
              else (chaos_io_config_match_loaded lib' (st_sequence (chaos_io_config_active_state lib')) operation path,
                    lib'))"

section \<open>The invariant of the library\<close>

lemma write_begin_odd: "chaos_snapshot_write_begin s AND 1 = 1"
proof (cases "s AND 1 = 0")
  case True
  then have "even s" by (simp add: and_one_eq mod_2_eq_odd split: if_splits)
  then have "(s + 1) AND 1 = 1" by (simp add: and_one_eq mod_2_eq_odd)
  with True show ?thesis by (simp add: chaos_snapshot_write_begin_def)
next
  case False
  then have "odd s" by (simp add: and_one_eq mod_2_eq_odd split: if_splits)
  with False show ?thesis by (simp add: chaos_snapshot_write_begin_def and_one_eq mod_2_eq_odd)
qed

lemma write_end_even: "chaos_snapshot_write_end s AND 1 = 0"
proof (cases "s AND 1 = 0")
  case True
  then show ?thesis by (simp add: chaos_snapshot_write_end_def)
next
  case False
  then have "odd s" by (simp add: and_one_eq mod_2_eq_odd split: if_splits)
  then have "(s + 1) AND 1 = 0" by (simp add: and_one_eq mod_2_eq_odd)
  with False show ?thesis by (simp add: chaos_snapshot_write_end_def)
qed

text \<open>Each rule of a snapshot points to the slot recorded for it, a used one of its own generation.\<close>

definition rules_attached :: "chaos_hit_slot list \<Rightarrow> nat option list \<Rightarrow> chaos_io_rule list \<Rightarrow> bool" where
  "rules_attached pool slots rules \<longleftrightarrow>
     list_all2 (\<lambda>slot r. rh_hit r = slot \<and>
       (case slot of None \<Rightarrow> False | Some i \<Rightarrow> slot_generation (pool ! i) = rh_hit_generation r)) slots rules"

definition snapshot_ok :: "chaos_hit_slot list \<Rightarrow> io_snapshot \<Rightarrow> bool" where
  "snapshot_ok pool st \<longleftrightarrow>
     length (st_rules st) \<le> CHAOS_IO_MAX_RULES \<and> length (st_text st) = length (st_rules st) \<and>
     pool_ok pool (st_hits st) \<and> rules_attached pool (st_hits st) (st_rules st) \<and>
     st_sequence st AND 1 = 0"

definition io_lib_ok :: "io_lib \<Rightarrow> bool" where
  "io_lib_ok lib \<longleftrightarrow>
     length (io_states lib) = 2 \<and> io_active_index lib < 2 \<and> length (io_pool lib) = 2 * CHAOS_IO_MAX_RULES \<and>
     snapshot_ok (io_pool lib) (chaos_io_config_active_state lib)"

lemma rules_attached_length: "rules_attached pool slots rules \<Longrightarrow> length slots = length rules"
  by (simp add: rules_attached_def list_all2_lengthD)

lemma update_state_simps [simp]:
  "io_pool (update_state i f lib) = io_pool lib" "io_active_index (update_state i f lib) = io_active_index lib"
  "io_fs (update_state i f lib) = io_fs lib" "io_texts (update_state i f lib) = io_texts lib"
  "io_error (update_state i f lib) = io_error lib" "io_cached_mtime (update_state i f lib) = io_cached_mtime lib"
  "io_content (update_state i f lib) = io_content lib" "io_provisional (update_state i f lib) = io_provisional lib"
  "io_pool_used (update_state i f lib) = io_pool_used lib"
  "io_hits_pending (update_state i f lib) = io_hits_pending lib"
  "length (io_states (update_state i f lib)) = length (io_states lib)"
  by (simp_all add: update_state_def)

lemma update_state_nth:
  "j < length (io_states lib) \<Longrightarrow>
     io_states (update_state i f lib) ! j = (if i = j then f (io_states lib ! j) else io_states lib ! j)"
  by (auto simp: update_state_def nth_list_update)

lemma read_file_frame:
  "chaos_io_config_read_file env stamp lib = (rc, lib') \<Longrightarrow>
     lib' = lib \<or> (\<exists>b. lib' = lib\<lparr>io_provisional := b\<rparr>)"
  by (auto simp: chaos_io_config_read_file_def split: option.splits read_result.splits if_splits)

text \<open>The two snapshots of a library during a reload: the active one is sound, the other one is being
  built and has rules the parser accepted.\<close>

definition building :: "nat \<Rightarrow> io_lib \<Rightarrow> bool" where
  "building i lib \<longleftrightarrow>
     io_lib_ok lib \<and> i = 1 - io_active_index lib \<and>
     length (st_rules (io_states lib ! i)) \<le> CHAOS_IO_MAX_RULES \<and>
     length (st_rules (io_states lib ! i)) \<le> length (io_texts lib)"

lemma other_index: "io_active_index lib < 2 \<Longrightarrow> i = 1 - io_active_index lib \<Longrightarrow> i < 2 \<and> i \<noteq> io_active_index lib"
  by arith

lemma active_state_simps [simp]:
  "chaos_io_config_active_state (lib\<lparr>io_error := e\<rparr>) = chaos_io_config_active_state lib"
  "chaos_io_config_active_state (lib\<lparr>io_texts := t\<rparr>) = chaos_io_config_active_state lib"
  "chaos_io_config_active_state (lib\<lparr>io_content := c\<rparr>) = chaos_io_config_active_state lib"
  "chaos_io_config_active_state (lib\<lparr>io_provisional := b\<rparr>) = chaos_io_config_active_state lib"
  "chaos_io_config_active_state (lib\<lparr>io_cached_mtime := m\<rparr>) = chaos_io_config_active_state lib"
  "chaos_io_config_active_state (lib\<lparr>io_fs := fs\<rparr>) = chaos_io_config_active_state lib"
  "chaos_io_config_active_state (lib\<lparr>io_pool := p\<rparr>) = chaos_io_config_active_state lib"
  "chaos_io_config_active_state (lib\<lparr>io_last_check_ns := n\<rparr>) = chaos_io_config_active_state lib"
  "chaos_io_config_active_state (lib\<lparr>io_tls_prng := q\<rparr>) = chaos_io_config_active_state lib"
  by (simp_all add: chaos_io_config_active_state_def)

lemma io_lib_ok_simps [simp]:
  "io_lib_ok (lib\<lparr>io_error := e\<rparr>) = io_lib_ok lib" "io_lib_ok (lib\<lparr>io_texts := t\<rparr>) = io_lib_ok lib"
  "io_lib_ok (lib\<lparr>io_content := c\<rparr>) = io_lib_ok lib" "io_lib_ok (lib\<lparr>io_provisional := b\<rparr>) = io_lib_ok lib"
  "io_lib_ok (lib\<lparr>io_cached_mtime := m\<rparr>) = io_lib_ok lib" "io_lib_ok (lib\<lparr>io_fs := fs\<rparr>) = io_lib_ok lib"
  "io_lib_ok (lib\<lparr>io_last_check_ns := n\<rparr>) = io_lib_ok lib" "io_lib_ok (lib\<lparr>io_tls_prng := q\<rparr>) = io_lib_ok lib"
  by (simp_all add: io_lib_ok_def)

lemma update_other:
  assumes "io_lib_ok lib" "i = 1 - io_active_index lib"
  shows "chaos_io_config_active_state (update_state i f lib) = chaos_io_config_active_state lib"
    "io_lib_ok (update_state i f lib)" "io_states (update_state i f lib) ! i = f (io_states lib ! i)"
proof -
  have i: "i < 2" "i \<noteq> io_active_index lib" "length (io_states lib) = 2" "io_active_index lib < 2"
    using assms other_index [of lib i] by (auto simp: io_lib_ok_def)
  then show a: "chaos_io_config_active_state (update_state i f lib) = chaos_io_config_active_state lib"
    by (simp add: chaos_io_config_active_state_def update_state_nth)
  show "io_lib_ok (update_state i f lib)"
    using assms(1) unfolding io_lib_ok_def a by simp
  show "io_states (update_state i f lib) ! i = f (io_states lib ! i)" using i by (simp add: update_state_nth)
qed

lemma building_update:
  assumes "io_lib_ok lib" "i = 1 - io_active_index lib"
    "length (st_rules (f (io_states lib ! i))) \<le> CHAOS_IO_MAX_RULES"
    "length (st_rules (f (io_states lib ! i))) \<le> length (io_texts lib)"
  shows "building i (update_state i f lib)"
  using assms update_other [OF assms(1,2)] by (simp add: building_def)

lemma reset_rules [simp]:
  "st_rules (chaos_io_config_reset_state ok st) = []" "st_parse_ok (chaos_io_config_reset_state ok st) = ok"
  by (simp_all add: chaos_io_config_reset_state_def)

lemma building_reset:
  "io_lib_ok lib \<Longrightarrow> i = 1 - io_active_index lib \<Longrightarrow> building i (update_state i (chaos_io_config_reset_state ok) lib)"
  by (rule building_update) simp_all

lemma building_reject:
  "io_lib_ok lib \<Longrightarrow> i = 1 - io_active_index lib \<Longrightarrow> building i (chaos_io_config_reject_file i reason lib)"
  using building_reset [of lib i False] by (simp add: chaos_io_config_reject_file_def building_def)

lemma building_parse:
  assumes "io_lib_ok lib" "i = 1 - io_active_index lib"
  shows "building i (parse_into i data lib)"
proof -
  define result where "result = chaos_io_config_parse_buffer chaos_io_rule_supported (io_error lib) data"
  have pi: "parse_into i data lib =
      (if pr_ok result
       then update_state i (\<lambda>st. st\<lparr>st_rules := pr_rules result\<rparr>) (lib\<lparr>io_error := pr_error result, io_texts := pr_texts result\<rparr>)
       else update_state i (chaos_io_config_reset_state False) (lib\<lparr>io_error := pr_error result, io_texts := pr_texts result\<rparr>))"
    unfolding parse_into_def result_def [symmetric] Let_def by simp
  show ?thesis
  proof (cases "pr_ok result")
    case True
    then have "length (pr_rules result) \<le> CHAOS_IO_MAX_RULES" "length (pr_texts result) = length (pr_rules result)"
      using io_lines.parsed_rules(1) parse_rule_buffer_texts
      unfolding result_def chaos_io_config_parse_buffer_def by blast+
    then show ?thesis
      unfolding pi using True assms by (simp only: if_True) (rule building_update, simp_all)
  next
    case False
    then show ?thesis unfolding pi using assms by (simp only: if_False) (rule building_reset, simp_all)
  qed
qed

lemma rules_attached_map2:
  assumes "length slots = length rules" "None \<notin> set slots"
    "\<forall>i. Some i \<in> set slots \<longrightarrow> slot_generation (pool' ! i) = slot_generation (pool ! i)"
  shows "rules_attached pool' slots (map2 (attach_rule pool) slots rules)"
  unfolding rules_attached_def
proof (rule list_all2_all_nthI)
  show "length slots = length (map2 (attach_rule pool) slots rules)" using assms(1) by simp
  fix n assume n: "n < length slots"
  then obtain i where i: "slots ! n = Some i" using assms(2) nth_mem [of n slots] by (cases "slots ! n") auto
  then have "Some i \<in> set slots" using n nth_mem [of n slots] by simp
  with i n assms(1,3) show "rh_hit (map2 (attach_rule pool) slots rules ! n) = slots ! n \<and>
      (case slots ! n of None \<Rightarrow> False
       | Some i \<Rightarrow> slot_generation (pool' ! i) = rh_hit_generation (map2 (attach_rule pool) slots rules ! n))"
    by (simp add: attach_rule_def)
qed

text \<open>The last steps of a reload publish a sound snapshot with the rules being built, resolved.\<close>

definition bare_rule :: "chaos_io_rule \<Rightarrow> chaos_io_rule" where
  "bare_rule r = r\<lparr>rh_hit := None, rh_hit_generation := 0\<rparr>"

lemma bare_attach [simp]: "bare_rule (attach_rule pool slot r) = bare_rule r"
  by (simp add: bare_rule_def attach_rule_def)

lemma map_bare_map2:
  "length slots = length rules \<Longrightarrow> map bare_rule (map2 (attach_rule pool) slots rules) = map bare_rule rules"
  by (rule nth_equalityI) simp_all

lemma report_simps [simp]:
  "io_states (chaos_io_config_report env m st lib) = io_states lib"
  "io_pool (chaos_io_config_report env m st lib) = io_pool lib"
  "io_active_index (chaos_io_config_report env m st lib) = io_active_index lib"
  "io_content (chaos_io_config_report env m st lib) = io_content lib"
  by (simp_all add: chaos_io_config_report_def)

lemma finish_reload_ok:
  assumes "building i lib"
  shows "io_lib_ok (finish_reload env i observed content lib)"
    and "io_active_index (finish_reload env i observed content lib) = i"
    and "io_cached_mtime (finish_reload env i observed content lib) = observed"
    and "io_content (finish_reload env i observed content lib) = content"
    and "map bare_rule (st_rules (chaos_io_config_active_state (finish_reload env i observed content lib))) =
      map (\<lambda>r. bare_rule (fst (resolve_rule (ev_realpath env) r))) (st_rules (io_states lib ! i))"
proof -
  define lib1 where "lib1 = (update_state i (chaos_io_config_resolve_rules env) lib)\<lparr>io_content := content\<rparr>"
  define rules where "rules = map (\<lambda>r. fst (resolve_rule (ev_realpath env) r)) (st_rules (io_states lib ! i))"
  have a: "i < 2" "i \<noteq> io_active_index lib" "length (io_states lib) = 2" "io_active_index lib < 2"
    "length (io_pool lib) = 2 * CHAOS_IO_MAX_RULES" "snapshot_ok (io_pool lib) (chaos_io_config_active_state lib)"
    "length (st_rules (io_states lib ! i)) \<le> CHAOS_IO_MAX_RULES"
    "length (st_rules (io_states lib ! i)) \<le> length (io_texts lib)"
    using assms other_index [of lib i] by (auto simp: building_def io_lib_ok_def)
  define active where "active = chaos_io_config_active_state lib"
  have act: "chaos_io_config_active_state lib1 = active"
    using a by (simp add: lib1_def active_def chaos_io_config_active_state_def update_state_nth)
  have next1: "st_rules (io_states lib1 ! i) = rules"
    using a by (simp add: lib1_def update_state_nth chaos_io_config_resolve_rules_def rules_def comp_def)
  have len: "length rules = length (st_rules (io_states lib ! i))" by (simp add: rules_def)
  define texts where "texts = take (length rules) (io_texts lib)"
  have texts: "length texts = length rules" using a(8) by (simp add: texts_def len)
  obtain pool slots where asg: "chaos_hits_assign (io_pool lib) (st_hits active) (st_text active)
      (length (st_rules active)) texts = (pool, slots)" by fastforce
  have ok: "snapshot_ok (io_pool lib) active" using a(6) by (simp add: active_def)
  then have hits: "length (st_hits active) = length (st_rules active)"
    using rules_attached_length by (auto simp: snapshot_ok_def)
  have pre: "pool_ok (io_pool lib) (take (length (st_rules active)) (st_hits active))"
    "length (st_rules active) \<le> length (st_hits active)" "2 * CHAOS_IO_MAX_RULES \<le> length (io_pool lib)"
    "length (st_rules active) \<le> CHAOS_IO_MAX_RULES" "length texts \<le> CHAOS_IO_MAX_RULES"
    using ok hits a(5,7) texts len by (simp_all add: snapshot_ok_def)
  note rel = assign_release [OF pre asg]
  have none: "None \<notin> set slots" using rel by (simp add: pool_ok_def)
  have slots: "length slots = length rules" using rel texts by simp
  have plen: "length pool = length (io_pool lib)"
    by (rule assign_specD(1) [OF assign_spec_of [OF pre asg]])
  have gen: "\<forall>j. Some j \<in> set slots \<longrightarrow>
      slot_generation (chaos_hits_release pool slots ! j) = slot_generation (pool ! j)"
  proof (intro allI impI)
    fix j assume j: "Some j \<in> set slots"
    then have "j \<in> used_slots (chaos_hits_release pool slots)" using rel by (simp add: pool_ok_def)
    then have "j < length pool" by (simp add: used_slots_def)
    with j show "slot_generation (chaos_hits_release pool slots ! j) = slot_generation (pool ! j)"
      by (simp add: release_nth)
  qed
  define lib2 where "lib2 = chaos_io_config_attach_hits i lib1"
  have pool1: "io_pool lib1 = io_pool lib" "io_texts lib1 = io_texts lib" by (simp_all add: lib1_def)
  have lib2: "lib2 = (update_state i (\<lambda>st. st\<lparr>st_text := texts, st_hits := slots,
        st_rules := map2 (attach_rule pool) slots (st_rules st)\<rparr>) lib1)
        \<lparr>io_pool := pool, io_pool_used := (0 < length rules \<or> io_pool_used lib1)\<rparr>"
    unfolding lib2_def chaos_io_config_attach_hits_def act next1 pool1 texts_def [symmetric] Let_def
    by (simp add: asg)
  have st1: "length (io_states lib1) = 2" using a(3) by (simp add: lib1_def)
  have next2: "st_rules (io_states lib2 ! i) = map2 (attach_rule pool) slots rules"
    "st_hits (io_states lib2 ! i) = slots" "st_text (io_states lib2 ! i) = texts"
    using a(1) st1 next1 by (simp_all add: lib2 update_state_nth)
  have lib2c: "io_pool lib2 = pool" "io_content lib2 = content" by (simp_all add: lib2 lib1_def)
  define lib3 where "lib3 = release_to i (chaos_io_config_report env observed (io_states lib2 ! i) lib2)"
  have lib3: "io_states lib3 = io_states lib2" "io_pool lib3 = chaos_hits_release pool slots"
    "io_content lib3 = content"
    using lib2c by (simp_all add: lib3_def release_to_def next2)
  have fin: "finish_reload env i observed content lib = chaos_io_config_publish i observed lib3"
    by (simp add: finish_reload_def lib1_def lib2_def lib3_def Let_def)
  have st2: "length (io_states lib2) = 2" using st1 by (simp add: lib2)
  have new: "chaos_io_config_active_state (finish_reload env i observed content lib) = end_write (io_states lib2 ! i)"
    using a(1) st2 lib3 by (simp add: fin chaos_io_config_publish_def chaos_io_config_active_state_def update_state_nth)
  have snap: "snapshot_ok (chaos_hits_release pool slots) (end_write (io_states lib2 ! i))"
    unfolding snapshot_ok_def
    using slots texts a(7) len rel rules_attached_map2 [OF slots none gen]
    by (simp add: end_write_def next2 write_end_even)
  show "io_lib_ok (finish_reload env i observed content lib)"
    using snap a(1,5) plen st2 lib3 unfolding io_lib_ok_def new
    by (simp add: fin chaos_io_config_publish_def)
  show "io_active_index (finish_reload env i observed content lib) = i"
    "io_cached_mtime (finish_reload env i observed content lib) = observed"
    "io_content (finish_reload env i observed content lib) = content"
    by (simp_all add: fin chaos_io_config_publish_def lib3)
  show "map bare_rule (st_rules (chaos_io_config_active_state (finish_reload env i observed content lib))) =
      map (\<lambda>r. bare_rule (fst (resolve_rule (ev_realpath env) r))) (st_rules (io_states lib ! i))"
    unfolding new using map_bare_map2 [OF slots] by (simp add: end_write_def next2 rules_def comp_def)
qed

lemma links_moved_ok:
  assumes "chaos_io_config_links_moved env lib = (moved, lib')" "io_lib_ok lib"
  shows "io_lib_ok lib'" "io_active_index lib' = io_active_index lib" "io_pool lib' = io_pool lib"
    "io_fs lib' = io_fs lib" "st_rules (chaos_io_config_active_state lib') = st_rules (chaos_io_config_active_state lib)"
    "st_hits (chaos_io_config_active_state lib') = st_hits (chaos_io_config_active_state lib)"
    "io_content lib' = io_content lib" "io_error lib' = io_error lib"
    "moved \<Longrightarrow> lib' = lib"
proof -
  let ?upd = "update_state (io_active_index lib) (\<lambda>st. st\<lparr>st_resolved_ms := ev_now_ms env\<rparr>) lib"
  have c: "lib' = lib \<or> (lib' = ?upd \<and> \<not> moved)"
    using assms(1) by (auto simp: chaos_io_config_links_moved_def split: if_splits)
  have "io_active_index lib < length (io_states lib)" using assms(2) by (simp add: io_lib_ok_def)
  then have a: "chaos_io_config_active_state ?upd =
      (chaos_io_config_active_state lib)\<lparr>st_resolved_ms := ev_now_ms env\<rparr>"
    by (simp add: chaos_io_config_active_state_def update_state_nth)
  have ok: "io_lib_ok ?upd" using assms(2) unfolding io_lib_ok_def a by (simp add: snapshot_ok_def)
  show "io_lib_ok lib'" "io_active_index lib' = io_active_index lib" "io_pool lib' = io_pool lib"
    "io_fs lib' = io_fs lib" "st_rules (chaos_io_config_active_state lib') = st_rules (chaos_io_config_active_state lib)"
    "st_hits (chaos_io_config_active_state lib') = st_hits (chaos_io_config_active_state lib)"
    "io_content lib' = io_content lib" "io_error lib' = io_error lib"
    "moved \<Longrightarrow> lib' = lib"
    using c assms(2) ok a by auto
qed

lemma pool_ok_release_all: "pool_ok (chaos_hits_release pool []) []"
  by (auto simp: pool_ok_def used_slots_release)

lemma reload_missing:
  assumes "io_lib_ok lib"
  shows "io_lib_ok (chaos_io_config_reload env CHAOS_IO_MTIME_MISSING prev lib)"
    and "st_rules (chaos_io_config_active_state (chaos_io_config_reload env CHAOS_IO_MTIME_MISSING prev lib)) = []"
    and "io_fs (chaos_io_config_reload env CHAOS_IO_MTIME_MISSING prev lib) =
      (io_fs lib)(CHAOS_IO_STATUS_PATH := None)"
    and "io_cached_mtime (chaos_io_config_reload env CHAOS_IO_MTIME_MISSING prev lib) = CHAOS_IO_MTIME_MISSING"
proof -
  define i where "i = 1 - io_active_index lib"
  define lib0 where "lib0 = update_state i (chaos_io_config_reset_state True) lib"
  define lib1 where "lib1 = chaos_io_config_report env CHAOS_IO_MTIME_MISSING (io_states lib0 ! i) (lib0\<lparr>io_content := 0\<rparr>)"
  have i: "i < 2" "length (io_states lib) = 2"
    using assms other_index [of lib i] by (auto simp: io_lib_ok_def i_def)
  have st: "io_states lib1 ! i = chaos_io_config_reset_state True (io_states lib ! i)" "length (io_states lib1) = 2"
    using i by (simp_all add: lib1_def lib0_def update_state_nth)
  have hits: "st_hits (io_states lib1 ! i) = []" unfolding st by (simp add: chaos_io_config_reset_state_def)
  have pool: "io_pool lib1 = io_pool lib" by (simp add: lib1_def lib0_def)
  have res: "chaos_io_config_reload env CHAOS_IO_MTIME_MISSING prev lib =
      chaos_io_config_publish i CHAOS_IO_MTIME_MISSING (release_to i lib1)"
    by (simp add: chaos_io_config_reload_def i_def lib0_def lib1_def Let_def)
  have states: "io_states (release_to i lib1) = io_states lib1" "io_pool (release_to i lib1) = chaos_hits_release (io_pool lib) []"
    by (simp_all add: release_to_def hits pool)
  have act: "chaos_io_config_active_state (chaos_io_config_publish i CHAOS_IO_MTIME_MISSING (release_to i lib1)) =
      end_write (chaos_io_config_reset_state True (io_states lib ! i))"
    using i st by (simp add: chaos_io_config_publish_def chaos_io_config_active_state_def update_state_nth states)
  have "snapshot_ok (chaos_hits_release (io_pool lib) []) (end_write (chaos_io_config_reset_state True (io_states lib ! i)))"
    by (simp add: snapshot_ok_def end_write_def chaos_io_config_reset_state_def write_end_even pool_ok_release_all
        rules_attached_def)
  then show "io_lib_ok (chaos_io_config_reload env CHAOS_IO_MTIME_MISSING prev lib)"
    unfolding res io_lib_ok_def act using i st assms
    by (simp add: chaos_io_config_publish_def states io_lib_ok_def)
  show "st_rules (chaos_io_config_active_state (chaos_io_config_reload env CHAOS_IO_MTIME_MISSING prev lib)) = []"
    unfolding res act by (simp add: end_write_def)
  show "io_fs (chaos_io_config_reload env CHAOS_IO_MTIME_MISSING prev lib) = (io_fs lib)(CHAOS_IO_STATUS_PATH := None)"
    unfolding res by (simp add: chaos_io_config_publish_def release_to_def lib1_def lib0_def chaos_io_config_report_def
        chaos_status_remove_def)
  show "io_cached_mtime (chaos_io_config_reload env CHAOS_IO_MTIME_MISSING prev lib) = CHAOS_IO_MTIME_MISSING"
    unfolding res by (simp add: chaos_io_config_publish_def)
qed

text \<open>The library as \<open>chaos_io_config_read_file\<close> leaves it, with the snapshot at \<open>i\<close> reset.\<close>

lemma reset_read:
  assumes "io_lib_ok lib" "i = 1 - io_active_index lib"
    "chaos_io_config_read_file env observed (update_state i (chaos_io_config_reset_state True) lib) = (rc, lib1)"
  shows "io_lib_ok lib1" "io_active_index lib1 = io_active_index lib" "io_pool lib1 = io_pool lib"
    "io_fs lib1 = io_fs lib" "chaos_io_config_active_state lib1 = chaos_io_config_active_state lib"
    "io_content lib1 = io_content lib" "io_error lib1 = io_error lib"
    "io_states lib1 ! i = chaos_io_config_reset_state True (io_states lib ! i)"
proof -
  define lib0 where "lib0 = update_state i (chaos_io_config_reset_state True) lib"
  have "\<exists>b. lib1 = lib0\<lparr>io_provisional := b\<rparr>"
  proof -
    have "lib0 = lib0\<lparr>io_provisional := io_provisional lib0\<rparr>" by simp
    then show ?thesis using read_file_frame [OF assms(3)] unfolding lib0_def [symmetric] by metis
  qed
  then obtain b where b: "lib1 = lib0\<lparr>io_provisional := b\<rparr>" by blast
  note u = update_other [OF assms(1,2), of "chaos_io_config_reset_state True", folded lib0_def]
  have f: "io_active_index lib0 = io_active_index lib" "io_pool lib0 = io_pool lib" "io_fs lib0 = io_fs lib"
    "io_content lib0 = io_content lib" "io_error lib0 = io_error lib"
    by (simp_all add: lib0_def)
  show "io_lib_ok lib1" "io_active_index lib1 = io_active_index lib" "io_pool lib1 = io_pool lib"
    "io_fs lib1 = io_fs lib" "chaos_io_config_active_state lib1 = chaos_io_config_active_state lib"
    "io_content lib1 = io_content lib" "io_error lib1 = io_error lib"
    "io_states lib1 ! i = chaos_io_config_reset_state True (io_states lib ! i)"
    unfolding b using u f by simp_all
qed

text \<open>What a reload of an existing file does, by the result of reading it.\<close>

lemma reload_cases:
  assumes "io_lib_ok lib" "observed \<noteq> CHAOS_IO_MTIME_MISSING" "i = 1 - io_active_index lib"
    "chaos_io_config_read_file env observed (update_state i (chaos_io_config_reset_state True) lib) = (rc, lib1)"
  shows "chaos_io_config_reload env observed prev lib =
    (case rc of
       Read_Too_Large \<Rightarrow> finish_reload env i observed 0 (chaos_io_config_reject_file i REASON_TOO_LARGE lib1)
     | Read_Unreadable \<Rightarrow> finish_reload env i observed 0 (chaos_io_config_reject_file i REASON_UNREADABLE lib1)
     | Read_Retry \<Rightarrow> lib1\<lparr>io_cached_mtime := prev\<rparr>
     | Read_Ok data \<Rightarrow>
         (if observed = prev \<and> chaos_config_content_hash data = io_content lib \<and>
             \<not> fst (chaos_io_config_links_moved env lib1)
          then (snd (chaos_io_config_links_moved env lib1))\<lparr>io_cached_mtime := prev\<rparr>
          else finish_reload env i observed (chaos_config_content_hash data)
                 (if NUL \<in> set data then chaos_io_config_reject_file i REASON_NUL lib1 else parse_into i data lib1)))"
proof -
  have content: "io_content lib1 = io_content lib" by (rule reset_read(6) [OF assms(1,3,4)])
  have ok: "io_lib_ok lib1" by (rule reset_read(1) [OF assms(1,3,4)])
  have moved: "lib2 = lib1" if "chaos_io_config_links_moved env lib1 = (True, lib2)" for lib2
    using links_moved_ok(9) [OF that ok] by simp
  have unf: "chaos_io_config_reload env observed prev lib =
    (case rc of
       Read_Too_Large \<Rightarrow> finish_reload env i observed 0 (chaos_io_config_reject_file i REASON_TOO_LARGE lib1)
     | Read_Unreadable \<Rightarrow> finish_reload env i observed 0 (chaos_io_config_reject_file i REASON_UNREADABLE lib1)
     | Read_Retry \<Rightarrow> lib1\<lparr>io_cached_mtime := prev\<rparr>
     | Read_Ok data \<Rightarrow>
         (case (if observed = prev \<and> chaos_config_content_hash data = io_content lib1
                then chaos_io_config_links_moved env lib1 else (True, lib1)) of
            (moved, lib2) \<Rightarrow>
              if \<not> moved then lib2\<lparr>io_cached_mtime := prev\<rparr>
              else finish_reload env i observed (chaos_config_content_hash data)
                 (if NUL \<in> set data then chaos_io_config_reject_file i REASON_NUL lib2 else parse_into i data lib2)))"
    unfolding chaos_io_config_reload_def Let_def assms(3) [symmetric] assms(4) prod.case
    using assms(2) by (simp only: if_False)
  show ?thesis
  proof (cases rc)
    case (Read_Ok data)
    obtain moved lib2 where lm: "chaos_io_config_links_moved env lib1 = (moved, lib2)" by fastforce
    show ?thesis
      unfolding unf Read_Ok read_result.case content lm fst_conv snd_conv
      using moved [of lib2] lm by (cases moved) simp_all
  qed (simp_all only: unf read_result.case)
qed

lemma reload_ok:
  assumes "io_lib_ok lib"
  shows "io_lib_ok (chaos_io_config_reload env observed prev lib)"
proof (cases "observed = CHAOS_IO_MTIME_MISSING")
  case True
  then show ?thesis using reload_missing(1) [OF assms] by simp
next
  case False
  define i where "i = 1 - io_active_index lib"
  obtain rc lib1 where rd: "chaos_io_config_read_file env observed (update_state i (chaos_io_config_reset_state True) lib) = (rc, lib1)"
    by fastforce
  note r = reset_read [OF assms i_def rd]
  have i1: "i = 1 - io_active_index lib1" using r(2) by (simp add: i_def)
  have moved: "io_lib_ok (snd (chaos_io_config_links_moved env lib1))"
    using links_moved_ok(1) [OF _ r(1), of env] by (cases "chaos_io_config_links_moved env lib1") auto
  show ?thesis
    unfolding reload_cases [OF assms False i_def rd]
    using r(1) moved building_reject [OF r(1) i1] building_parse [OF r(1) i1]
    by (auto intro!: finish_reload_ok(1) split: read_result.split)
qed

lemma rules_attached_cong:
  assumes "rules_attached pool slots rules"
    "\<forall>i. Some i \<in> set slots \<longrightarrow> slot_generation (pool' ! i) = slot_generation (pool ! i)"
  shows "rules_attached pool' slots rules"
proof -
  note att = assms(1) [unfolded rules_attached_def]
  show ?thesis
    unfolding rules_attached_def
    by (rule list.rel_mono_strong [OF att]) (use assms(2) in \<open>auto split: option.splits\<close>)
qed

lemma write_hits_simps [simp]:
  "io_states (write_hits env lib) = io_states lib" "io_pool (write_hits env lib) = io_pool lib"
  "io_active_index (write_hits env lib) = io_active_index lib"
  "io_cached_mtime (write_hits env lib) = io_cached_mtime lib"
  by (simp_all add: write_hits_def Let_def split: prod.split)

lemma report_hits_frame:
  "io_states (chaos_io_config_report_hits env counted lib) = io_states lib"
  "io_pool (chaos_io_config_report_hits env counted lib) = io_pool lib"
  "io_active_index (chaos_io_config_report_hits env counted lib) = io_active_index lib"
  "io_cached_mtime (chaos_io_config_report_hits env counted lib) = io_cached_mtime lib"
  by (simp_all add: chaos_io_config_report_hits_def Let_def)

lemma report_hits_ok: "io_lib_ok lib \<Longrightarrow> io_lib_ok (chaos_io_config_report_hits env counted lib)"
  by (simp add: io_lib_ok_def chaos_io_config_active_state_def report_hits_frame)

lemma io_refresh_ok: "io_lib_ok lib \<Longrightarrow> io_lib_ok (snd (chaos_io_config_refresh env lib))"
proof -
  assume ok: "io_lib_ok lib"
  obtain recent lib1 where c: "chaos_io_config_checked_recently env lib = (recent, lib1)" by fastforce
  have ok1: "io_lib_ok lib1"
    using c ok by (auto simp: chaos_io_config_checked_recently_def Let_def split: if_splits prod.splits)
  then have ok2: "io_lib_ok (if b then chaos_io_config_report_hits env False lib1 else lib1)" for b
    by (simp add: report_hits_ok)
  show ?thesis
    using ok1 ok2 by (auto simp: chaos_io_config_refresh_def c Let_def intro!: reload_ok report_hits_ok split: if_splits)
qed

lemma after_fork_used: "used_slots (chaos_hits_pool_after_fork pool active) = used_slots pool \<inter> {i. Some i \<in> set active}"
  unfolding used_slots_release [symmetric]
  by (auto simp: used_slots_def chaos_hits_pool_after_fork_def after_fork_slot_def)

lemma after_fork_ok:
  assumes "io_lib_ok lib"
  shows "io_lib_ok (chaos_io_config_after_fork env lib)"
proof -
  define pool slots where "pool = io_pool lib" and "slots = st_hits (chaos_io_config_active_state lib)"
  have ok: "snapshot_ok pool (chaos_io_config_active_state lib)" using assms by (simp add: io_lib_ok_def pool_def)
  then have p: "pool_ok pool slots" by (simp add: snapshot_ok_def slots_def)
  let ?fp = "chaos_hits_pool_after_fork pool slots"
  have p': "pool_ok ?fp slots" using p by (auto simp: pool_ok_def after_fork_used)
  have len: "length ?fp = length pool" by (simp add: chaos_hits_pool_after_fork_def)
  have "slot_generation (?fp ! i) = slot_generation (pool ! i)" if "Some i \<in> set slots" for i
  proof -
    have "i < length pool" using p that by (auto simp: pool_ok_def used_slots_def)
    with that show ?thesis by (simp add: chaos_hits_pool_after_fork_def after_fork_slot_def release_nth)
  qed
  then have "snapshot_ok ?fp (chaos_io_config_active_state lib)"
    using ok p' rules_attached_cong unfolding snapshot_ok_def slots_def by blast
  moreover have "chaos_io_config_active_state (chaos_io_config_after_fork env lib) = chaos_io_config_active_state lib"
    by (simp add: chaos_io_config_after_fork_def chaos_io_config_active_state_def)
  ultimately show ?thesis
    using assms ok len by (auto simp: io_lib_ok_def chaos_io_config_after_fork_def pool_def slots_def)
qed

lemma io_init_ok:
  assumes "length (io_states lib) = 2" "length (io_pool lib) = 2 * CHAOS_IO_MAX_RULES"
  shows "io_lib_ok (chaos_io_config_init env lib)"
proof -
  have "used_slots (chaos_hits_pool_reset (io_pool lib)) = {}"
    by (auto simp: used_slots_def chaos_hits_pool_reset_def reset_slot_def Let_def)
  moreover have "chaos_io_config_active_state (chaos_io_config_init env lib) =
      end_write (chaos_io_config_reset_state True (io_states lib ! 0))"
    using assms(1) by (simp add: chaos_io_config_init_def chaos_io_config_active_state_def)
  ultimately show ?thesis
    using assms
    by (simp add: io_lib_ok_def chaos_io_config_init_def snapshot_ok_def end_write_def write_end_even
        chaos_io_config_reset_state_def pool_ok_def rules_attached_def chaos_hits_pool_reset_def)
qed

section \<open>Reachable states\<close>

text \<open>A hit of any rule copy, stale ones included, goes through the slot pool.\<close>

definition io_hit :: "chaos_io_rule \<Rightarrow> io_lib \<Rightarrow> io_lib" where
  "io_hit rule lib = lib\<lparr>io_pool := fst (snd (fire_on_pool rule (io_pool lib)))\<rparr>"

text \<open>The library from its initialisation on: checks of the rule file, hits, reports, random draws, forks.\<close>

inductive io_reachable :: "io_lib \<Rightarrow> bool" where
  Init: "length (io_states lib) = 2 \<Longrightarrow> length (io_pool lib) = 2 * CHAOS_IO_MAX_RULES \<Longrightarrow>
    io_reachable (chaos_io_config_init env lib)"
| Prepare: "io_reachable lib \<Longrightarrow> io_reachable (snd (chaos_io_config_prepare env lib))"
| Hit: "io_reachable lib \<Longrightarrow> io_reachable (io_hit rule lib)"
| Report: "io_reachable lib \<Longrightarrow> io_reachable (chaos_io_config_report_hits env counted lib)"
| Draw: "io_reachable lib \<Longrightarrow> io_reachable (lib\<lparr>io_tls_prng := state\<rparr>)"
| Fork: "io_reachable lib \<Longrightarrow> io_reachable (chaos_io_config_after_fork env lib)"

lemma fire_slot_frame:
  "chaos_policy_fire p (Some s) g = (fired, Some t, hook) \<Longrightarrow>
     slot_generation t = slot_generation s \<and> slot_used t = slot_used s"
  by (auto simp: chaos_policy_fire_def chaos_hit_record_def Let_def split: if_splits)

lemma fire_on_pool_shape:
  assumes "fire_on_pool rule pool = (fired, pool', hook)"
  obtains "pool' = pool"
  | j t where "pool' = pool[j := t]" "slot_generation t = slot_generation (pool ! j)"
      "slot_used t = slot_used (pool ! j)"
proof (cases "rh_hit rule")
  case None
  with assms have "pool' = pool" by (simp add: fire_on_pool_def Let_def split: prod.splits)
  then show thesis by (rule that(1))
next
  case (Some j)
  obtain f slot h where fire: "chaos_policy_fire (rh_policy rule) (Some (pool ! j)) (rh_hit_generation rule) = (f, slot, h)"
    by (metis prod_cases3)
  show thesis
  proof (cases slot)
    case None
    with assms Some fire have "pool' = pool" by (simp add: fire_on_pool_def)
    then show thesis by (rule that(1))
  next
    case (Some t)
    with assms \<open>rh_hit rule = Some j\<close> fire have "pool' = pool[j := t]" by (simp add: fire_on_pool_def)
    moreover have "slot_generation t = slot_generation (pool ! j)" "slot_used t = slot_used (pool ! j)"
      using fire_slot_frame fire Some by blast+
    ultimately show thesis by (rule that(2))
  qed
qed

lemma nth_update_same: "g t = g (pool ! j) \<Longrightarrow> g (pool[j := t] ! i) = g (pool ! i)"
  by (cases "j < length pool \<and> i = j") (auto simp: list_update_beyond not_less)

lemma fire_pool_frame:
  assumes "fire_on_pool rule pool = (fired, pool', hook)"
  shows "length pool' = length pool" "slot_generation (pool' ! i) = slot_generation (pool ! i)"
    "slot_used (pool' ! i) = slot_used (pool ! i)"
  using assms by (cases rule: fire_on_pool_shape; simp add: nth_update_same)+

lemma io_hit_ok:
  assumes "io_lib_ok lib"
  shows "io_lib_ok (io_hit rule lib)"
proof -
  obtain fired pool' hook where f: "fire_on_pool rule (io_pool lib) = (fired, pool', hook)" by (metis prod_cases3)
  note fr = fire_pool_frame [OF f]
  have used: "used_slots pool' = used_slots (io_pool lib)" by (simp add: used_slots_def fr)
  have "snapshot_ok pool' (chaos_io_config_active_state lib)"
    using assms fr(2) rules_attached_cong used unfolding io_lib_ok_def snapshot_ok_def pool_ok_def by metis
  with assms show ?thesis by (simp add: io_hit_def f io_lib_ok_def fr(1))
qed

lemma io_reachable_ok: "io_reachable lib \<Longrightarrow> io_lib_ok lib"
  by (induction rule: io_reachable.induct)
    (simp_all add: io_init_ok io_refresh_ok io_hit_ok report_hits_ok after_fork_ok chaos_io_config_prepare_def)

definition io_lib_zero :: io_lib where
  "io_lib_zero =
     \<lparr>io_states = replicate 2 \<lparr>st_sequence = 0, st_rules = [], st_parse_ok = False, st_hits = [], st_text = [],
                                st_links = False, st_resolved_ms = 0\<rparr>,
      io_pool = replicate (2 * CHAOS_IO_MAX_RULES) idle_slot, io_pool_used = False, io_active_index = 0,
      io_cached_mtime = CHAOS_IO_MTIME_UNKNOWN, io_provisional = False, io_content = 0,
      io_error = \<lparr>err_line = 0, err_reason = None, err_text = []\<rparr>, io_texts = [], io_hits_writing = False,
      io_hits_pending = False, io_hits_total = 0, io_hits_last_ms = 0, io_hits_pid = 0, io_hits_file = 0,
      io_hits_owned = False, io_tls_prng = 0, io_atfork_registered = False, io_last_check_ns = 0,
      io_check_interval_ns = CHAOS_CHECK_INTERVAL_NS, io_fs = (\<lambda>p. None)\<rparr>"

definition demo_io_env :: io_env where
  "demo_io_env =
     \<lparr>ev_now_ms = 5000, ev_realtime_ms = 1000000, ev_vdso_ns = 0,
      ev_stat = Some \<lparr>fst_sec = 10, fst_nsec = 0, fst_size = 13, fst_ino = 3, fst_dev = 4\<rparr>, ev_opens = [EINTR],
      ev_reads = [Read_Data ''/a:read:EIO:1''],
      ev_fstat = Some \<lparr>fst_sec = 10, fst_nsec = 0, fst_size = 13, fst_ino = 3, fst_dev = 4\<rparr>,
      ev_realpath = (\<lambda>p. Some p), ev_pid = 42, ev_publish = quiet_env, ev_hits_publish = (\<lambda>k. quiet_env),
      ev_salts = (\<lambda>k. 0)\<rparr>"

lemma demo_reachable: "io_reachable (chaos_io_config_init demo_io_env io_lib_zero)"
  by (rule io_reachable.Init) (simp_all add: io_lib_zero_def)



section \<open>The outcome of a reload\<close>

lemma normalize_hash_no_sentinel:
  "chaos_io_config_normalize_mtime_hash v \<notin>
     {CHAOS_IO_MTIME_MISSING, CHAOS_IO_MTIME_RELOADING, CHAOS_IO_MTIME_UNKNOWN}"
proof (cases "v = CHAOS_IO_MTIME_MISSING \<or> v = CHAOS_IO_MTIME_RELOADING \<or> v = CHAOS_IO_MTIME_UNKNOWN")
  case True
  then show ?thesis
    by (elim disjE)
      (simp_all add: chaos_io_config_normalize_mtime_hash_def CHAOS_IO_MTIME_MISSING_def
        CHAOS_IO_MTIME_RELOADING_def CHAOS_IO_MTIME_UNKNOWN_def)
qed (simp add: chaos_io_config_normalize_mtime_hash_def)

lemma hash_no_sentinel:
  "chaos_io_config_hash_mtime (Some s) \<notin>
     {CHAOS_IO_MTIME_MISSING, CHAOS_IO_MTIME_RELOADING, CHAOS_IO_MTIME_UNKNOWN}"
  unfolding chaos_io_config_hash_mtime_def option.case Let_def by (rule normalize_hash_no_sentinel)

text \<open>The stamp of an existing file is never one of the reserved values: it cannot be taken for a missing
  file, for a reload in progress or for a file never looked at.\<close>

theorem stamp_never_sentinel:
  "chaos_io_config_hash_mtime (Some s) \<notin>
     {CHAOS_IO_MTIME_MISSING, CHAOS_IO_MTIME_RELOADING, CHAOS_IO_MTIME_UNKNOWN}"
  by (rule hash_no_sentinel)

definition status_outcome :: "io_env \<Rightarrow> io_lib \<Rightarrow> io_snapshot \<Rightarrow> file_system" where
  "status_outcome env lib st =
     (if st_parse_ok st
      then chaos_status_write (io_fs lib) (ev_publish env) CHAOS_IO_STATUS_PATH CHAOS_STATUS_OK (length (st_rules st)) None
      else chaos_status_write (io_fs lib) (ev_publish env) CHAOS_IO_STATUS_PATH CHAOS_STATUS_ERROR 0 (Some (io_error lib)))"

lemma finish_reload_fs:
  assumes "building i lib" "observed \<noteq> CHAOS_IO_MTIME_MISSING"
  shows "io_fs (finish_reload env i observed content lib) = status_outcome env lib (io_states lib ! i)"
proof -
  define lib1 where "lib1 = (update_state i (chaos_io_config_resolve_rules env) lib)\<lparr>io_content := content\<rparr>"
  define lib2 where "lib2 = chaos_io_config_attach_hits i lib1"
  have i: "i < length (io_states lib1)"
    using assms(1) other_index [of lib i] by (auto simp: building_def io_lib_ok_def lib1_def)
  have i0: "i < length (io_states lib)" using i by (simp add: lib1_def)
  have lib2: "io_fs lib2 = io_fs lib" "io_error lib2 = io_error lib"
    "st_parse_ok (io_states lib2 ! i) = st_parse_ok (io_states lib ! i)"
    using i i0
    by (simp_all add: lib2_def chaos_io_config_attach_hits_def lib1_def update_state_nth
        chaos_io_config_resolve_rules_def Let_def split: prod.split)
  have fin: "finish_reload env i observed content lib =
      chaos_io_config_publish i observed (release_to i (chaos_io_config_report env observed (io_states lib2 ! i) lib2))"
    by (simp add: finish_reload_def lib1_def lib2_def Let_def)
  have "map bare_rule (st_rules (chaos_io_config_active_state (finish_reload env i observed content lib))) =
      map (\<lambda>r. bare_rule (fst (resolve_rule (ev_realpath env) r))) (st_rules (io_states lib ! i))"
    by (rule finish_reload_ok(5) [OF assms(1)])
  then have "length (map bare_rule (st_rules (chaos_io_config_active_state (finish_reload env i observed content lib)))) =
      length (st_rules (io_states lib ! i))" by simp
  moreover have "st_rules (chaos_io_config_active_state (finish_reload env i observed content lib)) =
      st_rules (io_states lib2 ! i)"
  proof -
    have "length (io_states lib2) = length (io_states lib1)"
      by (simp add: lib2_def chaos_io_config_attach_hits_def Let_def split: prod.split)
    with i show ?thesis
      by (simp add: fin chaos_io_config_publish_def chaos_io_config_active_state_def update_state_nth
          release_to_def end_write_def)
  qed
  ultimately have "length (st_rules (io_states lib2 ! i)) = length (st_rules (io_states lib ! i))" by simp
  then show ?thesis
    using assms(2) lib2
    by (simp add: fin chaos_io_config_publish_def release_to_def chaos_io_config_report_def status_outcome_def)
qed

text \<open>The file the environment offers a reload: readable, with this stamp and these contents.\<close>

definition offers :: "io_env \<Rightarrow> u64 \<Rightarrow> string \<Rightarrow> bool" where
  "offers env observed data \<longleftrightarrow>
     open_loop (ev_opens env) = None \<and> read_loop (ev_reads env) [] = Read_Ok data \<and>
     (case ev_fstat env of None \<Rightarrow> False | Some s \<Rightarrow> observed = chaos_io_config_hash_mtime (Some s))"

lemma offers_read:
  "offers env observed data \<Longrightarrow>
     fst (chaos_io_config_read_file env observed lib) = Read_Ok data \<and> observed \<noteq> CHAOS_IO_MTIME_MISSING"
proof -
  assume o: "offers env observed data"
  then obtain s where s: "ev_fstat env = Some s" "observed = chaos_io_config_hash_mtime (Some s)"
    by (auto simp: offers_def split: option.splits)
  have "fst (chaos_io_config_read_file env observed lib) = Read_Ok data"
    using o s by (simp add: offers_def chaos_io_config_read_file_def)
  moreover have "observed \<noteq> CHAOS_IO_MTIME_MISSING" using hash_no_sentinel [of s] unfolding s(2) by (simp only: insert_iff simp_thms de_Morgan_disj)
  ultimately show ?thesis by simp
qed

lemma parse_into_result:
  assumes "io_lib_ok lib" "i = 1 - io_active_index lib"
    "result = chaos_io_config_parse_buffer chaos_io_rule_supported (io_error lib) data"
    "st_parse_ok (io_states lib ! i)"
  shows "st_rules (io_states (parse_into i data lib) ! i) = (if pr_ok result then pr_rules result else [])"
    and "st_parse_ok (io_states (parse_into i data lib) ! i) = pr_ok result"
    and "io_fs (parse_into i data lib) = io_fs lib" and "io_error (parse_into i data lib) = pr_error result"
proof -
  define lib' where "lib' = lib\<lparr>io_error := pr_error result, io_texts := pr_texts result\<rparr>"
  have ok: "io_lib_ok lib'" "i = 1 - io_active_index lib'" "io_states lib' = io_states lib"
    using assms(1,2) by (simp_all add: lib'_def)
  have pi: "parse_into i data lib =
      (if pr_ok result then update_state i (\<lambda>st. st\<lparr>st_rules := pr_rules result\<rparr>) lib'
       else update_state i (chaos_io_config_reset_state False) lib')"
    unfolding parse_into_def assms(3) [symmetric] Let_def lib'_def by simp
  have f: "io_fs lib' = io_fs lib" "io_error lib' = pr_error result" by (simp_all add: lib'_def)
  show "st_rules (io_states (parse_into i data lib) ! i) = (if pr_ok result then pr_rules result else [])"
    "st_parse_ok (io_states (parse_into i data lib) ! i) = pr_ok result"
    "io_fs (parse_into i data lib) = io_fs lib" "io_error (parse_into i data lib) = pr_error result"
    unfolding pi using update_other(3) [OF ok(1,2)] assms(4) ok(3) f by simp_all
qed

lemma reload_reads:
  assumes "io_lib_ok lib" "offers env observed data" "observed \<noteq> prev" "i = 1 - io_active_index lib"
  obtains lib1 where "io_lib_ok lib1" "i = 1 - io_active_index lib1" "io_fs lib1 = io_fs lib"
    "io_error lib1 = io_error lib" "st_parse_ok (io_states lib1 ! i)" "observed \<noteq> CHAOS_IO_MTIME_MISSING"
    "chaos_io_config_reload env observed prev lib =
       finish_reload env i observed (chaos_config_content_hash data)
         (if NUL \<in> set data then chaos_io_config_reject_file i REASON_NUL lib1 else parse_into i data lib1)"
proof -
  obtain rc lib1 where rd: "chaos_io_config_read_file env observed (update_state i (chaos_io_config_reset_state True) lib) = (rc, lib1)"
    by fastforce
  have rc: "rc = Read_Ok data" and m: "observed \<noteq> CHAOS_IO_MTIME_MISSING"
    using offers_read [OF assms(2)] rd by (metis fst_conv, blast)
  note r = reset_read [OF assms(1,4) rd]
  show thesis
  proof (rule that)
    show "i = 1 - io_active_index lib1" using r(2) assms(4) by simp
    show "st_parse_ok (io_states lib1 ! i)" unfolding r(8) by simp
    show "chaos_io_config_reload env observed prev lib =
       finish_reload env i observed (chaos_config_content_hash data)
         (if NUL \<in> set data then chaos_io_config_reject_file i REASON_NUL lib1 else parse_into i data lib1)"
      unfolding reload_cases [OF assms(1) m assms(4) rd] rc using assms(3) by simp
  qed (fact r m)+
qed

text \<open>C2. A changed rule file that parses is taken over completely: the active rules are those of the parser,
  in order, with their paths normalised and resolved, the new stamp is remembered and the status file
  says how many rules are active.\<close>

theorem io_reload_accepts:
  assumes "io_reachable lib" "offers env observed data" "observed \<noteq> prev" "NUL \<notin> set data"
    "pr_ok (chaos_io_config_parse_buffer chaos_io_rule_supported (io_error lib) data)"
  shows "map bare_rule (st_rules (chaos_io_config_active_state (chaos_io_config_reload env observed prev lib))) =
      map (\<lambda>r. bare_rule (fst (resolve_rule (ev_realpath env) r)))
        (pr_rules (chaos_io_config_parse_buffer chaos_io_rule_supported (io_error lib) data)) \<and>
    io_cached_mtime (chaos_io_config_reload env observed prev lib) = observed \<and>
    io_fs (chaos_io_config_reload env observed prev lib) =
      chaos_status_write (io_fs lib) (ev_publish env) CHAOS_IO_STATUS_PATH CHAOS_STATUS_OK
        (length (pr_rules (chaos_io_config_parse_buffer chaos_io_rule_supported (io_error lib) data))) None"
proof -
  define i where "i = 1 - io_active_index lib"
  obtain lib1 where r: "io_lib_ok lib1" "i = 1 - io_active_index lib1" "io_fs lib1 = io_fs lib"
    "io_error lib1 = io_error lib" "st_parse_ok (io_states lib1 ! i)" "observed \<noteq> CHAOS_IO_MTIME_MISSING"
    and rel: "chaos_io_config_reload env observed prev lib =
       finish_reload env i observed (chaos_config_content_hash data) (parse_into i data lib1)"
    using reload_reads [OF io_reachable_ok [OF assms(1)] assms(2,3) i_def] assms(4) by auto
  have b: "building i (parse_into i data lib1)" by (rule building_parse [OF r(1,2)])
  note p = parse_into_result [OF r(1,2) refl r(5), of data]
  show ?thesis
    unfolding rel using finish_reload_ok(3,5) [OF b] finish_reload_fs [OF b r(6)] p r(3,4) assms(5)
    by (simp add: status_outcome_def)
qed


text \<open>A read that fails for the moment changes nothing but the promise to try again: active rules, counters
  and files stay as they are, and the remembered stamp is put back so that the next check reads anew.\<close>

theorem io_reload_transient_keeps:
  assumes "io_reachable lib" "observed \<noteq> CHAOS_IO_MTIME_MISSING"
    "fst (chaos_io_config_read_file env observed lib) = Read_Retry"
  shows "chaos_io_config_active_state (chaos_io_config_reload env observed prev lib) = chaos_io_config_active_state lib \<and>
    io_pool (chaos_io_config_reload env observed prev lib) = io_pool lib \<and>
    io_fs (chaos_io_config_reload env observed prev lib) = io_fs lib \<and>
    io_cached_mtime (chaos_io_config_reload env observed prev lib) = prev"
proof -
  define i where "i = 1 - io_active_index lib"
  obtain rc lib1 where rd: "chaos_io_config_read_file env observed (update_state i (chaos_io_config_reset_state True) lib) = (rc, lib1)"
    by fastforce
  have "fst (chaos_io_config_read_file env observed l) = fst (chaos_io_config_read_file env observed lib)" for l
    by (simp add: chaos_io_config_read_file_def split: option.split read_result.split)
  then have rc: "rc = Read_Retry" using assms(3) rd by (metis fst_conv)
  note r = reset_read [OF io_reachable_ok [OF assms(1)] i_def rd]
  show ?thesis
    unfolding reload_cases [OF io_reachable_ok [OF assms(1)] assms(2) i_def rd] rc using r by simp
qed

section \<open>Witnesses of the reload properties\<close>

definition demo_lib :: io_lib where
  "demo_lib = chaos_io_config_init demo_io_env io_lib_zero"

definition demo_stamp :: u64 where
  "demo_stamp = chaos_io_config_hash_mtime (ev_fstat demo_io_env)"

lemma demo_lib_reachable: "io_reachable demo_lib"
  unfolding demo_lib_def by (rule demo_reachable)

lemma demo_error: "io_error demo_lib = \<lparr>err_line = 0, err_reason = None, err_text = []\<rparr>"
  by (simp add: demo_lib_def chaos_io_config_init_def io_lib_zero_def)

lemma demo_offers: "offers demo_io_env demo_stamp ''/a:read:EIO:1''"
  by (simp add: offers_def demo_stamp_def demo_io_env_def CHAOS_IO_MAX_CONFIG_BYTES_def CHAOS_IO_MAX_RULES_def
      CHAOS_IO_MAX_LINE_LENGTH_def)

lemma demo_offers_bad:
  "offers (demo_io_env\<lparr>ev_reads := [Read_Data ''/a:read'']\<rparr>) demo_stamp ''/a:read''"
  by (simp add: offers_def demo_stamp_def demo_io_env_def CHAOS_IO_MAX_CONFIG_BYTES_def CHAOS_IO_MAX_RULES_def
      CHAOS_IO_MAX_LINE_LENGTH_def)

lemma demo_stamp_neq: "demo_stamp \<noteq> CHAOS_IO_MTIME_UNKNOWN" "demo_stamp \<noteq> CHAOS_IO_MTIME_MISSING"
proof -
  obtain s where s: "ev_fstat demo_io_env = Some s" by (simp add: demo_io_env_def)
  show "demo_stamp \<noteq> CHAOS_IO_MTIME_UNKNOWN" "demo_stamp \<noteq> CHAOS_IO_MTIME_MISSING"
    using hash_no_sentinel [of s] unfolding demo_stamp_def s
    by (simp_all only: insert_iff simp_thms de_Morgan_disj)
qed

lemma demo_parses:
  "pr_ok (chaos_io_config_parse_buffer chaos_io_rule_supported (io_error demo_lib) ''/a:read:EIO:1'')"
  unfolding demo_error by code_simp

lemma demo_bad:
  "\<not> pr_ok (chaos_io_config_parse_buffer chaos_io_rule_supported (io_error demo_lib) ''/a:read'')"
  unfolding demo_error by code_simp

theorem io_reload_accepts_witness:
  "map bare_rule (st_rules (chaos_io_config_active_state
        (chaos_io_config_reload demo_io_env demo_stamp CHAOS_IO_MTIME_UNKNOWN demo_lib))) =
      map (\<lambda>r. bare_rule (fst (resolve_rule (ev_realpath demo_io_env) r)))
        (pr_rules (chaos_io_config_parse_buffer chaos_io_rule_supported (io_error demo_lib) ''/a:read:EIO:1'')) \<and>
    io_cached_mtime (chaos_io_config_reload demo_io_env demo_stamp CHAOS_IO_MTIME_UNKNOWN demo_lib) = demo_stamp \<and>
    io_fs (chaos_io_config_reload demo_io_env demo_stamp CHAOS_IO_MTIME_UNKNOWN demo_lib) =
      chaos_status_write (io_fs demo_lib) (ev_publish demo_io_env) CHAOS_IO_STATUS_PATH CHAOS_STATUS_OK
        (length (pr_rules (chaos_io_config_parse_buffer chaos_io_rule_supported (io_error demo_lib) ''/a:read:EIO:1''))) None"
  by (rule io_reload_accepts [OF demo_lib_reachable demo_offers demo_stamp_neq(1) _ demo_parses]) simp


theorem io_reload_transient_keeps_witness:
  "chaos_io_config_active_state (chaos_io_config_reload (demo_io_env\<lparr>ev_opens := [ENOENT]\<rparr>) demo_stamp 77 demo_lib) =
      chaos_io_config_active_state demo_lib \<and>
    io_pool (chaos_io_config_reload (demo_io_env\<lparr>ev_opens := [ENOENT]\<rparr>) demo_stamp 77 demo_lib) = io_pool demo_lib \<and>
    io_fs (chaos_io_config_reload (demo_io_env\<lparr>ev_opens := [ENOENT]\<rparr>) demo_stamp 77 demo_lib) = io_fs demo_lib \<and>
    io_cached_mtime (chaos_io_config_reload (demo_io_env\<lparr>ev_opens := [ENOENT]\<rparr>) demo_stamp 77 demo_lib) = 77"
  by (rule io_reload_transient_keeps [OF demo_lib_reachable demo_stamp_neq(2)])
    (simp add: chaos_io_config_read_file_def)

section \<open>The lookup\<close>

lemma match_loaded_sound:
  assumes "chaos_io_config_match_loaded lib s operation (Some path) = Some r"
  shows "r \<in> set (st_rules (chaos_io_config_active_state lib)) \<and> io_operation r = operation \<and>
    chaos_io_rule_prefix_matches r path"
proof -
  have "io_select_from None (st_rules (chaos_io_config_active_state lib)) operation path = Some r"
    using assms by (auto simp: chaos_io_config_match_loaded_def chaos_io_config_select_rule_def Let_def
        split: if_splits option.splits)
  with io_scan.select_matches [where q = "(operation, path)"] show ?thesis by (fastforce simp: io_rule_applies_def)
qed

text \<open>A lookup that finds a rule finds one of the snapshot active after the check of the file, for this
  operation and covering this path, and never for a path the library excludes.\<close>

theorem io_match_path_sound:
  assumes "chaos_io_config_match_path env operation (Some path) lib = (Some r, lib')"
  shows "\<not> chaos_io_is_excluded_path (Some path) \<and> r \<in> set (st_rules (chaos_io_config_active_state lib')) \<and>
    io_operation r = operation \<and> chaos_io_rule_prefix_matches r path"
proof -
  have ex: "\<not> chaos_io_is_excluded_path (Some path)"
    and ml: "chaos_io_config_match_loaded lib' (st_sequence (chaos_io_config_active_state lib')) operation (Some path) = Some r"
    using assms by (auto simp: chaos_io_config_match_path_def split: if_splits prod.splits)
  with match_loaded_sound [OF ml] show ?thesis by simp
qed

definition demo_loaded :: io_lib where
  "demo_loaded = io_lib_zero\<lparr>io_states := [(io_states io_lib_zero ! 0)\<lparr>st_rules := [demo_io_rule ''/a'']\<rparr>],
     io_cached_mtime := 7\<rparr>"

theorem io_match_path_sound_witness:
  "\<not> chaos_io_is_excluded_path (Some ''/a/b'') \<and>
    demo_io_rule ''/a'' \<in> set (st_rules (chaos_io_config_active_state demo_loaded)) \<and>
    io_operation (demo_io_rule ''/a'') = CHAOS_IO_OP_READ \<and> chaos_io_rule_prefix_matches (demo_io_rule ''/a'') ''/a/b''"
proof (rule io_match_path_sound)
  have ex: "\<not> chaos_io_is_excluded_path (Some ''/a/b'')"
    by (simp add: chaos_io_is_excluded_path_def chaos_io_is_control_path_def chaos_io_has_reserved_prefix_def
        CHAOS_IO_CONFIG_PATH_def CHAOS_IO_CONTROL_PREFIX_def)
  have prep: "chaos_io_config_prepare (demo_io_env\<lparr>ev_vdso_ns := 5\<rparr>) demo_loaded = (True, demo_loaded)"
    by (simp add: chaos_io_config_prepare_def chaos_io_config_refresh_def chaos_io_config_checked_recently_def
        demo_loaded_def io_lib_zero_def CHAOS_IO_MTIME_UNKNOWN_def CHAOS_IO_MTIME_RELOADING_def
        chaos_clock_checked_recently_def CHAOS_CHECK_INTERVAL_NS_def has_rules_def chaos_io_config_active_state_def)
  show "chaos_io_config_match_path (demo_io_env\<lparr>ev_vdso_ns := 5\<rparr>) CHAOS_IO_OP_READ (Some ''/a/b'') demo_loaded =
      (Some (demo_io_rule ''/a''), demo_loaded)"
    unfolding chaos_io_config_match_path_def prep using ex
    by (simp add: chaos_io_config_match_loaded_def demo_loaded_def io_lib_zero_def chaos_io_config_active_state_def
        chaos_snapshot_read_valid_def chaos_snapshot_read_begin_def chaos_io_config_select_rule_def demo_io_rule_def
        io_rule_zero_def chaos_io_rule_prefix_matches_def chaos_io_prefix_covers_def)
qed

text \<open>The library's own control files and the kernel's file systems are out of reach of any rule: for a path
  below \<open>/tmp/.chaos-\<close>, \<open>/proc\<close>, \<open>/sys\<close> or \<open>/dev\<close> the lookup finds nothing and does not even look at the
  rule file.\<close>

theorem io_reserved_paths_untouched:
  assumes "path \<in> {''/tmp/.chaos-'' @ rest, ''/proc'', ''/proc/'' @ rest, ''/sys'', ''/sys/'' @ rest, ''/dev'', ''/dev/'' @ rest}"
  shows "chaos_io_config_match_path env operation (Some path) lib = (None, lib)"
proof -
  have "chaos_io_is_excluded_path (Some path)"
    using assms by (auto simp: chaos_io_is_excluded_path_def chaos_io_is_control_path_def
        chaos_io_has_reserved_prefix_def CHAOS_IO_CONFIG_PATH_def CHAOS_IO_CONTROL_PREFIX_def)
  then show ?thesis by (simp add: chaos_io_config_match_path_def)
qed

theorem io_reserved_paths_untouched_witness:
  "chaos_io_config_match_path demo_io_env CHAOS_IO_OP_OPEN (Some ''/tmp/.chaos-io.conf'') demo_lib = (None, demo_lib)"
  by (rule io_reserved_paths_untouched [where rest = "''io.conf''"]) simp

text \<open>A fork in the middle of a reload cannot wedge the child: whatever the parent was doing, the child's
  next check of the rule file is not blocked by a reload or a report nobody will finish.\<close>

theorem io_after_fork_unblocks:
  "io_cached_mtime (chaos_io_config_after_fork env lib) \<noteq> CHAOS_IO_MTIME_RELOADING \<and>
   \<not> io_hits_writing (chaos_io_config_after_fork env lib) \<and>
   \<not> io_hits_pending (chaos_io_config_after_fork env lib) \<and>
   io_hits_pid (chaos_io_config_after_fork env lib) = ev_pid env \<and>
   chaos_io_config_active_state (chaos_io_config_after_fork env lib) = chaos_io_config_active_state lib"
  by (simp add: chaos_io_config_after_fork_def chaos_io_config_active_state_def CHAOS_IO_MTIME_UNKNOWN_def
      CHAOS_IO_MTIME_RELOADING_def)

end
