(* ===== verification/Io_Vectors.thy ===== *)
theory Io_Vectors
  imports Io_Actions
begin

text \<open>
  The vectors of buffers of \<open>src/wrappers/chaos_io_rw.c\<close>: the checked copy of the caller's array, its size, the
  shortened copy of a torn write, and the bit flipped in a scattered read. Memory is a function from addresses to
  bytes. What \<open>process_vm_readv\<close> answers is a parameter.
\<close>

section \<open>Arrays\<close>

record iovec =
  iov_base :: u64
  iov_len :: nat

definition CHAOS_IO_MAX_IOV :: int where "CHAOS_IO_MAX_IOV = 1024"
definition CHAOS_IO_TORN_MAX_IOV :: nat where "CHAOS_IO_TORN_MAX_IOV = 64"
definition SSIZE_MAX :: nat where "SSIZE_MAX = 2 ^ 63 - 1"

text \<open>The bytes copied, or the error.\<close>

datatype vm_outcome = Vm_Copied nat | Vm_Error errno

text \<open>The copy of the entries, when they could all be read; an entry has 16 bytes.\<close>

definition chaos_io_read_iovecs :: "vm_outcome \<Rightarrow> iovec list \<Rightarrow> iovec list option" where
  "chaos_io_read_iovecs outcome iov =
     (case outcome of
        Vm_Copied n \<Rightarrow> if n = 16 * length iov then Some iov else None
      | Vm_Error e \<Rightarrow> if e = ENOSYS \<or> e = EPERM then Some iov else None)"

fun total_loop :: "iovec list \<Rightarrow> nat \<Rightarrow> nat option" where
  "total_loop [] bytes = Some bytes"
| "total_loop (v # iov) bytes =
     (if SSIZE_MAX - bytes < iov_len v then None else total_loop iov (bytes + iov_len v))"

definition chaos_io_iovec_total_bytes :: "iovec list option \<Rightarrow> int \<Rightarrow> nat option" where
  "chaos_io_iovec_total_bytes iov iovcnt =
     (case iov of
        None \<Rightarrow> None
      | Some entries \<Rightarrow> if iovcnt \<le> 0 then None else total_loop (take (nat iovcnt) entries) 0)"

text \<open>The array read in pieces of 64 entries; \<open>vm\<close> is asked with the entries read so
  far and the entries to read.\<close>

function size_chunks :: "(nat \<Rightarrow> nat \<Rightarrow> vm_outcome) \<Rightarrow> iovec list \<Rightarrow> nat \<Rightarrow> nat \<Rightarrow> u64" where
  "size_chunks vm iov seen so_far =
     (if iov = [] then of_nat so_far
      else case chaos_io_read_iovecs (vm seen (length (take CHAOS_IO_TORN_MAX_IOV iov))) (take CHAOS_IO_TORN_MAX_IOV iov) of
             None \<Rightarrow> CHAOS_POLICY_NO_SIZE
           | Some chunk \<Rightarrow>
               (case chaos_io_iovec_total_bytes (Some chunk) (int (length chunk)) of
                  None \<Rightarrow> CHAOS_POLICY_NO_SIZE
                | Some part \<Rightarrow>
                    (if SSIZE_MAX - so_far < part then CHAOS_POLICY_NO_SIZE
                     else size_chunks vm (drop CHAOS_IO_TORN_MAX_IOV iov) (seen + length chunk) (so_far + part))))"
  by pat_completeness auto
termination
  by (relation "measure (\<lambda>(vm, iov, seen, so_far). length iov)") (auto simp: CHAOS_IO_TORN_MAX_IOV_def)

declare size_chunks.simps [simp del]

definition chaos_io_iovec_size :: "(nat \<Rightarrow> nat \<Rightarrow> vm_outcome) \<Rightarrow> iovec list option \<Rightarrow> int \<Rightarrow> u64" where
  "chaos_io_iovec_size vm iov iovcnt =
     (case iov of
        None \<Rightarrow> CHAOS_POLICY_NO_SIZE
      | Some entries \<Rightarrow>
          (if iovcnt < 0 \<or> CHAOS_IO_MAX_IOV < iovcnt then CHAOS_POLICY_NO_SIZE
           else size_chunks vm (take (nat iovcnt) entries) 0 0))"

section \<open>Torn copies\<close>

fun trim_loop :: "iovec list \<Rightarrow> nat \<Rightarrow> iovec list" where
  "trim_loop [] remaining = []"
| "trim_loop (v # source) remaining =
     (if remaining = 0 then []
      else let segment_len = (if remaining < iov_len v then remaining else iov_len v)
           in v\<lparr>iov_len := segment_len\<rparr> # trim_loop source (remaining - segment_len))"

definition chaos_io_trim_iovecs :: "iovec list option \<Rightarrow> int \<Rightarrow> nat \<Rightarrow> iovec list option" where
  "chaos_io_trim_iovecs source source_count limit =
     (case source of
        None \<Rightarrow> None
      | Some entries \<Rightarrow>
          (if source_count \<le> 0 then None
           else let target = trim_loop (take (nat source_count) entries) limit
                in if target = [] then None else Some target))"

definition chaos_io_build_torn_iovecs ::
  "prng_env \<Rightarrow> iovec list option \<Rightarrow> int \<Rightarrow> u64 \<Rightarrow> iovec list option \<times> u64" where
  "chaos_io_build_torn_iovecs env source source_count prng =
     (case chaos_io_iovec_total_bytes source source_count of
        None \<Rightarrow> (None, prng)
      | Some whole \<Rightarrow>
          (if whole = 0 then (None, prng)
           else let (torn_total, prng') = chaos_io_torn_count env whole prng
                in if torn_total = 0 \<or> whole \<le> torn_total then (None, prng')
                   else (chaos_io_trim_iovecs source source_count torn_total, prng')))"

definition chaos_io_tear_iovecs ::
  "prng_env \<Rightarrow> vm_outcome \<Rightarrow> iovec list option \<Rightarrow> int \<Rightarrow> u64 \<Rightarrow> iovec list option \<times> u64" where
  "chaos_io_tear_iovecs env outcome iov iovcnt prng =
     (case iov of
        None \<Rightarrow> (None, prng)
      | Some entries \<Rightarrow>
          (if iovcnt \<le> 0 \<or> int CHAOS_IO_TORN_MAX_IOV < iovcnt then (None, prng)
           else case chaos_io_read_iovecs outcome (take (nat iovcnt) entries) of
                  None \<Rightarrow> (None, prng)
                | Some copy \<Rightarrow> chaos_io_build_torn_iovecs env (Some copy) iovcnt prng))"

section \<open>Memory\<close>

type_synonym byte_memory = "u64 \<Rightarrow> u8"

definition mem_read :: "byte_memory \<Rightarrow> u64 \<Rightarrow> nat \<Rightarrow> u8 list" where
  "mem_read mem a n = map (\<lambda>i. mem (a + of_nat i)) [0..<n]"

definition mem_write :: "byte_memory \<Rightarrow> u64 \<Rightarrow> u8 list \<Rightarrow> byte_memory" where
  "mem_write mem a bytes = (\<lambda>p. if unat (p - a) < length bytes then bytes ! unat (p - a) else mem p)"

text \<open>A bit of the buffer at an address flipped in place; a null buffer stays alone.\<close>

definition corrupt_sample_at :: "u64 \<Rightarrow> nat \<Rightarrow> u32 \<Rightarrow> u32 \<Rightarrow> byte_memory \<Rightarrow> byte_memory" where
  "corrupt_sample_at a size' index_sample bit_sample mem =
     (case chaos_io_corrupt_buffer_sample (if a = 0 then None else Some (mem_read mem a size')) size' index_sample bit_sample of
        None \<Rightarrow> mem
      | Some bytes \<Rightarrow> mem_write mem a bytes)"

definition corrupt_at :: "prng_env \<Rightarrow> u64 \<Rightarrow> nat \<Rightarrow> byte_memory \<Rightarrow> u64 \<Rightarrow> byte_memory \<times> u64" where
  "corrupt_at env a size' mem prng =
     (let (bytes, prng') = chaos_io_corrupt_buffer env (if a = 0 then None else Some (mem_read mem a size')) size' prng
      in (case bytes of None \<Rightarrow> mem | Some bs \<Rightarrow> mem_write mem a bs, prng'))"

fun corrupt_entries :: "iovec list \<Rightarrow> nat \<Rightarrow> nat \<Rightarrow> u32 \<Rightarrow> byte_memory \<Rightarrow> byte_memory" where
  "corrupt_entries [] remaining index bit_sample mem = mem"
| "corrupt_entries (v # iov) remaining index bit_sample mem =
     (if remaining = 0 then mem
      else let segment_len = (if remaining < iov_len v then remaining else iov_len v)
           in if index < segment_len then corrupt_sample_at (iov_base v) segment_len (of_nat index) bit_sample mem
              else corrupt_entries iov (remaining - segment_len) (index - segment_len) bit_sample mem)"

definition chaos_io_corrupt_iovecs ::
  "prng_env \<Rightarrow> iovec list option \<Rightarrow> int \<Rightarrow> nat \<Rightarrow> byte_memory \<Rightarrow> u64 \<Rightarrow> byte_memory \<times> u64" where
  "chaos_io_corrupt_iovecs env iov iovcnt size' mem prng =
     (case iov of
        None \<Rightarrow> (mem, prng)
      | Some entries \<Rightarrow>
          (if iovcnt \<le> 0 \<or> size' = 0 then (mem, prng)
           else let (index_sample, prng1) = chaos_io_prng_next_u32 env prng;
                    (bit_sample, prng2) = chaos_io_prng_next_u32 env prng1
                in (corrupt_entries (take (nat iovcnt) entries) size' (unat index_sample mod size') bit_sample mem, prng2)))"

section \<open>The bytes of a vector\<close>

text \<open>The addresses a vector covers, in order.\<close>

definition entry_bytes :: "iovec \<Rightarrow> u64 list" where
  "entry_bytes v = map (\<lambda>i. iov_base v + of_nat i) [0..<iov_len v]"

definition stream :: "iovec list \<Rightarrow> u64 list" where
  "stream iov = concat (map entry_bytes iov)"

lemma stream_simps [simp]: "stream [] = []" "stream (v # iov) = entry_bytes v @ stream iov"
  by (simp_all add: stream_def)

lemma length_entry_bytes [simp]: "length (entry_bytes v) = iov_len v"
  by (simp add: entry_bytes_def)

lemma length_stream: "length (stream iov) = sum_list (map iov_len iov)"
  by (induction iov) simp_all

lemma take_entry_bytes: "n \<le> iov_len v \<Longrightarrow> entry_bytes (v\<lparr>iov_len := n\<rparr>) = take n (entry_bytes v)"
  by (simp add: entry_bytes_def take_map take_upt)

lemma trim_loop_stream: "stream (trim_loop iov limit) = take limit (stream iov)"
  by (induction iov arbitrary: limit) (auto simp: Let_def take_entry_bytes [OF less_imp_le])

lemma trim_loop_length: "length (trim_loop iov limit) \<le> length iov"
  by (induction iov arbitrary: limit) (auto simp: Let_def)

lemma total_loop_eq:
  "bytes \<le> SSIZE_MAX \<Longrightarrow> total_loop iov bytes =
     (if bytes + length (stream iov) \<le> SSIZE_MAX then Some (bytes + length (stream iov)) else None)"
  by (induction iov arbitrary: bytes) auto

lemma read_iovecs_same: "chaos_io_read_iovecs outcome iov = Some copy \<Longrightarrow> copy = iov"
  by (auto simp: chaos_io_read_iovecs_def split: vm_outcome.splits if_splits)

lemma size_chunks_eq:
  assumes "\<And>s n. vm s n = Vm_Copied (16 * n)" "so_far \<le> SSIZE_MAX"
  shows "size_chunks vm iov seen so_far =
    (if so_far + length (stream iov) \<le> SSIZE_MAX then of_nat (so_far + length (stream iov)) else CHAOS_POLICY_NO_SIZE)"
  using assms
proof (induction vm iov seen so_far rule: size_chunks.induct)
  case (1 vm iov seen so_far)
  show ?case
  proof (cases "iov = []")
    case True
    with 1(3) show ?thesis by (simp add: size_chunks.simps)
  next
    case False
    define chunk rest where "chunk = take CHAOS_IO_TORN_MAX_IOV iov" and "rest = drop CHAOS_IO_TORN_MAX_IOV iov"
    have iov: "iov = chunk @ rest" by (simp add: chunk_def rest_def)
    have pos: "0 < length chunk" using False by (simp add: chunk_def CHAOS_IO_TORN_MAX_IOV_def)
    have len: "length (stream iov) = length (stream chunk) + length (stream rest)"
      by (simp add: iov stream_def)
    have part: "chaos_io_iovec_total_bytes (Some chunk) (int (length chunk)) =
        (if length (stream chunk) \<le> SSIZE_MAX then Some (length (stream chunk)) else None)"
      using pos total_loop_eq [of 0 chunk] by (simp add: chaos_io_iovec_total_bytes_def)
    have unfold: "size_chunks vm iov seen so_far = (if length (stream chunk) \<le> SSIZE_MAX then
        (if SSIZE_MAX - so_far < length (stream chunk) then CHAOS_POLICY_NO_SIZE
         else size_chunks vm rest (seen + length chunk) (so_far + length (stream chunk))) else CHAOS_POLICY_NO_SIZE)"
      using False by (subst size_chunks.simps) (simp add: chunk_def [symmetric] rest_def [symmetric] chaos_io_read_iovecs_def 1(2) part)
    show ?thesis
    proof (cases "length (stream chunk) \<le> SSIZE_MAX - so_far")
      case True
      have "size_chunks vm rest (seen + length chunk) (so_far + length (stream chunk)) =
          (if so_far + length (stream chunk) + length (stream rest) \<le> SSIZE_MAX
           then of_nat (so_far + length (stream chunk) + length (stream rest)) else CHAOS_POLICY_NO_SIZE)"
        unfolding rest_def
        by (rule 1(1) [OF False, of chunk]) (use 1(2,3) part True in \<open>simp_all add: chunk_def [symmetric] chaos_io_read_iovecs_def\<close>)
      with True unfold len 1(3) show ?thesis by (simp add: add.assoc)
    next
      case False
      with unfold len 1(3) show ?thesis by auto
    qed
  qed
qed

section \<open>What the vectors keep\<close>

text \<open>The size of an array that can be read whole of up to 1024 entries is the sum of its lengths as long as a call could return it;
  any other array has no size, so that no size qualifier of a rule holds for it.\<close>

theorem iovec_size_exact:
  assumes "\<And>s n. vm s n = Vm_Copied (16 * n)" "0 \<le> iovcnt" "nat iovcnt \<le> length entries"
  shows "chaos_io_iovec_size vm (Some entries) iovcnt =
    (if iovcnt \<le> CHAOS_IO_MAX_IOV \<and> length (stream (take (nat iovcnt) entries)) \<le> SSIZE_MAX
     then of_nat (length (stream (take (nat iovcnt) entries))) else CHAOS_POLICY_NO_SIZE)"
  using size_chunks_eq [OF assms(1), where so_far = 0 and iov = "take (nat iovcnt) entries" and seen = 0] assms(2)
  by (simp add: chaos_io_iovec_size_def not_less)

theorem iovec_size_exact_witness:
  "chaos_io_iovec_size (\<lambda>s n. Vm_Copied (16 * n)) (Some [\<lparr>iov_base = 4096, iov_len = 10\<rparr>, \<lparr>iov_base = 0, iov_len = 5\<rparr>]) 2 = 15"
  by (subst iovec_size_exact)
    (simp_all add: chaos_io_read_iovecs_def CHAOS_IO_MAX_IOV_def SSIZE_MAX_def length_stream)

lemma torn_count_range:
  assumes "chaos_io_torn_count env requested prng = (n, prng')" "n \<noteq> 0" "n < requested"
  shows "0 < n \<and> n < requested"
  using assms by simp

lemma tear_prefix:
  assumes "chaos_io_tear_iovecs env outcome (Some entries) iovcnt prng = (Some torn, prng')"
  shows "\<exists>k. 0 < k \<and> k < length (stream (take (nat iovcnt) entries)) \<and>
    stream torn = take k (stream (take (nat iovcnt) entries)) \<and> length torn \<le> length (take (nat iovcnt) entries)"
proof -
  define source where "source = take (nat iovcnt) entries"
  from assms have pos: "0 < iovcnt" and b: "chaos_io_build_torn_iovecs env (Some source) iovcnt prng = (Some torn, prng')"
    by (auto simp: chaos_io_tear_iovecs_def source_def dest: read_iovecs_same split: if_splits option.splits)
  have same: "take (nat iovcnt) source = source" by (simp add: source_def)
  from b obtain whole k where w: "chaos_io_iovec_total_bytes (Some source) iovcnt = Some whole"
    and k: "k \<noteq> 0" "k < whole" and t: "chaos_io_trim_iovecs (Some source) iovcnt k = Some torn"
    by (auto simp: chaos_io_build_torn_iovecs_def not_le split: option.splits if_splits prod.splits)
  have "whole = length (stream source)"
    using w total_loop_eq [of 0 source] by (auto simp: chaos_io_iovec_total_bytes_def same split: if_splits)
  moreover have "torn = trim_loop source k"
    using t by (auto simp: chaos_io_trim_iovecs_def same Let_def split: if_splits)
  ultimately show ?thesis
    using k trim_loop_stream [of source k] trim_loop_length [of source k] unfolding source_def [symmetric] by auto
qed

text \<open>A torn vector covers a nonempty proper prefix of the bytes of the caller, in order, and no more entries.\<close>

theorem torn_vector_prefix:
  assumes "chaos_io_tear_iovecs env outcome (Some entries) iovcnt prng = (Some torn, prng')"
  shows "\<exists>k. 0 < k \<and> k < length (stream (take (nat iovcnt) entries)) \<and>
    stream torn = take k (stream (take (nat iovcnt) entries)) \<and> length torn \<le> length (take (nat iovcnt) entries)"
  by (rule tear_prefix [OF assms])

lemma unat_u32_range: "unat (x :: u32) < 2 ^ 32"
  using unsigned_less [of x] by simp

lemma u64_sub_of_nat: "unat ((a :: u64) + of_nat i - a) = i" if "i < 2 ^ 64"
  using that by (simp add: unat_of_nat)

lemma corrupt_sample_flips:
  assumes "a \<noteq> 0" "index < n" "index < 2 ^ 32"
  shows "\<exists>b < 8. corrupt_sample_at a n (of_nat index) bit_sample mem =
    mem(a + of_nat index := flip_bit b (mem (a + of_nat index)))"
proof -
  define b where "b = unat (bit_sample AND 7)"
  have "bit_sample AND 7 \<le> 7" by (rule word_and_le1)
  then have b: "b < 8" by (simp add: b_def word_le_nat_alt)
  have idx: "unat (of_nat index :: u32) mod n = index" using assms(2,3) by (simp add: unat_of_nat)
  let ?bytes = "mem_read mem a n"
  have form: "corrupt_sample_at a n (of_nat index) bit_sample mem =
      mem_write mem a (?bytes[index := flip_bit b (?bytes ! index)])"
    using assms(1,2) by (simp add: corrupt_sample_at_def chaos_io_corrupt_buffer_sample_def idx Let_def b_def flip_bit_eq_xor)
  have len: "length ?bytes = n" by (simp add: mem_read_def)
  have nth: "?bytes ! i = mem (a + of_nat i)" if "i < n" for i using that by (simp add: mem_read_def)
  have home: "a + of_nat (unat (p - a)) = p" for p by simp
  have "mem_write mem a (?bytes[index := flip_bit b (?bytes ! index)]) p =
      (mem(a + of_nat index := flip_bit b (mem (a + of_nat index)))) p" for p
  proof (cases "p = a + of_nat index")
    case True
    have "unat (p - a) = index" using True assms(2,3) u64_sub_of_nat by simp
    with True assms(2) len nth show ?thesis by (simp add: mem_write_def)
  next
    case False
    then have "unat (p - a) \<noteq> index" using home [of p] by metis
    with False len nth home show ?thesis by (simp add: mem_write_def)
  qed
  then have "mem_write mem a (?bytes[index := flip_bit b (?bytes ! index)]) =
      mem(a + of_nat index := flip_bit b (mem (a + of_nat index)))" ..
  then show ?thesis using b form by auto
qed

lemma corrupt_entries_flips:
  assumes "index < remaining" "remaining \<le> length (stream iov)" "index < 2 ^ 32" "\<forall>v \<in> set iov. iov_base v \<noteq> 0"
  shows "\<exists>b < 8. corrupt_entries iov remaining index bit_sample mem =
    mem(stream iov ! index := flip_bit b (mem (stream iov ! index)))"
  using assms
proof (induction iov arbitrary: remaining index)
  case (Cons v iov)
  define segment where "segment = (if remaining < iov_len v then remaining else iov_len v)"
  show ?case
  proof (cases "index < segment")
    case True
    then have addr: "stream (v # iov) ! index = iov_base v + of_nat index"
      by (simp add: nth_append entry_bytes_def segment_def split: if_splits)
    from corrupt_sample_flips [OF _ True Cons.prems(3), of "iov_base v" bit_sample mem] Cons.prems(4)
    obtain b where "b < 8" "corrupt_sample_at (iov_base v) segment (of_nat index) bit_sample mem =
        mem(iov_base v + of_nat index := flip_bit b (mem (iov_base v + of_nat index)))" by auto
    moreover have "corrupt_entries (v # iov) remaining index bit_sample mem =
        corrupt_sample_at (iov_base v) segment (of_nat index) bit_sample mem"
      using Cons.prems(1) True by (simp add: segment_def [symmetric])
    ultimately show ?thesis unfolding addr by auto
  next
    case False
    then have seg: "segment = iov_len v" using Cons.prems(1) by (simp add: segment_def split: if_splits)
    with False have addr: "stream (v # iov) ! index = stream iov ! (index - iov_len v)" by (simp add: nth_append)
    have "index - iov_len v < remaining - iov_len v" "remaining - iov_len v \<le> length (stream iov)"
      "index - iov_len v < 2 ^ 32" using Cons.prems(1-3) False seg by auto
    from Cons.IH [OF this] Cons.prems(1,4) False show ?thesis
      unfolding addr by (simp add: segment_def [symmetric] seg Let_def)
  qed
qed simp

text \<open>Whatever a caller passes, at most one bit changes, in one of the bytes the call returned.\<close>

definition flipped_in :: "u64 list \<Rightarrow> byte_memory \<Rightarrow> byte_memory \<Rightarrow> bool" where
  "flipped_in bytes mem mem' \<longleftrightarrow> mem' = mem \<or> (\<exists>p \<in> set bytes. \<exists>b < 8. mem' = mem(p := flip_bit b (mem p)))"

lemma flipped_in_refl [simp]: "flipped_in bytes mem mem"
  by (simp add: flipped_in_def)

lemma flipped_in_mono: "flipped_in bytes mem mem' \<Longrightarrow> set bytes \<subseteq> set bytes' \<Longrightarrow> flipped_in bytes' mem mem'"
  by (auto simp: flipped_in_def)

lemma corrupt_sample_flipped:
  assumes "index < n" "index < 2 ^ 32"
  shows "flipped_in [a + of_nat index] mem (corrupt_sample_at a n (of_nat index) bit_sample mem)"
  using corrupt_sample_flips [OF _ assms, of a bit_sample mem]
  by (cases "a = 0") (auto simp: flipped_in_def corrupt_sample_at_def chaos_io_corrupt_buffer_sample_def)

lemma corrupt_entries_flipped:
  "index < 2 ^ 32 \<Longrightarrow> flipped_in (take remaining (stream iov)) mem (corrupt_entries iov remaining index bit_sample mem)"
proof (induction iov arbitrary: remaining index)
  case (Cons v iov)
  define segment where "segment = (if remaining < iov_len v then remaining else iov_len v)"
  have seg: "segment \<le> iov_len v" "segment \<le> remaining" by (simp_all add: segment_def)
  show ?case
  proof (cases "index < segment")
    case True
    then have i: "index < iov_len v" "index < remaining" using seg by simp_all
    then have "take remaining (entry_bytes v) ! index \<in> set (take remaining (entry_bytes v))" by (intro nth_mem) simp
    then have "iov_base v + of_nat index \<in> set (take remaining (stream (v # iov)))"
      using i by (simp add: entry_bytes_def)
    moreover have "corrupt_entries (v # iov) remaining index bit_sample mem =
        corrupt_sample_at (iov_base v) segment (of_nat index) bit_sample mem"
      using True seg by (simp add: segment_def [symmetric])
    ultimately show ?thesis using flipped_in_mono [OF corrupt_sample_flipped [OF True Cons.prems]] by simp
  next
    case False
    have "set (take (remaining - segment) (stream iov)) \<subseteq> set (take remaining (stream (v # iov)))"
      by (auto simp: segment_def)
    moreover have "index - segment < 2 ^ 32" using Cons.prems by simp
    ultimately show ?thesis
      using flipped_in_mono [OF Cons.IH] False by (simp add: segment_def [symmetric] Let_def)
  qed
qed simp

lemma corrupt_iovecs_flipped:
  assumes "chaos_io_corrupt_iovecs env (Some entries) iovcnt size' mem prng = (mem', prng')"
  shows "flipped_in (take size' (stream (take (nat iovcnt) entries))) mem mem'"
proof -
  have "unat s mod size' < 2 ^ 32" for s :: u32
    using unat_u32_range [of s] le_less_trans [OF mod_less_eq_dividend] by blast
  then show ?thesis
    using assms corrupt_entries_flipped
    by (auto simp: chaos_io_corrupt_iovecs_def split: if_splits prod.splits)
qed

lemma corrupt_at_flipped:
  assumes "corrupt_at env a size' mem prng = (mem', prng')"
  shows "flipped_in (map (\<lambda>i. a + of_nat i) [0..<size']) mem mem'"
proof (cases "a = 0 \<or> size' = 0")
  case True
  with assms show ?thesis
    by (auto simp: corrupt_at_def chaos_io_corrupt_buffer_def chaos_io_corrupt_buffer_sample_def mem_write_def
        mem_read_def split: prod.splits if_splits)
next
  case False
  obtain s1 prng1 where s1: "chaos_io_prng_next_u32 env prng = (s1, prng1)" by fastforce
  obtain s2 prng2 where s2: "chaos_io_prng_next_u32 env prng1 = (s2, prng2)" by fastforce
  define index where "index = unat s1 mod size'"
  have i: "index < size'" "index < 2 ^ 32"
    using False unat_u32_range [of s1] le_less_trans [OF mod_less_eq_dividend] by (auto simp: index_def)
  have "unat (of_nat index :: u32) mod size' = index" using i by (simp add: unat_of_nat)
  then have "corrupt_sample_at a size' (of_nat index) s2 mem = mem'"
    using assms False by (simp add: corrupt_at_def corrupt_sample_at_def chaos_io_corrupt_buffer_def s1 s2
        chaos_io_corrupt_buffer_sample_def index_def [symmetric] Let_def split: prod.splits)
  moreover have "a + of_nat index \<in> set (map (\<lambda>i. a + of_nat i) [0..<size'])" using i by auto
  ultimately show ?thesis using flipped_in_mono [OF corrupt_sample_flipped [OF i]] by fastforce
qed

text \<open>A scattered read is corrupted in exactly one bit, in one of the bytes the call returned.\<close>

theorem corrupt_vector_one_bit:
  assumes "0 < size'" "size' \<le> length (stream (take (nat iovcnt) entries))" "0 < iovcnt"
    "\<forall>v \<in> set (take (nat iovcnt) entries). iov_base v \<noteq> 0"
  shows "\<exists>p b. p \<in> set (take size' (stream (take (nat iovcnt) entries))) \<and> b < 8 \<and>
    fst (chaos_io_corrupt_iovecs env (Some entries) iovcnt size' mem prng) = mem(p := flip_bit b (mem p)) \<and>
    flip_bit b (mem p) \<noteq> mem p"
proof -
  define source where "source = take (nat iovcnt) entries"
  obtain index_sample prng1 where s1: "chaos_io_prng_next_u32 env prng = (index_sample, prng1)" by fastforce
  obtain bit_sample prng2 where s2: "chaos_io_prng_next_u32 env prng1 = (bit_sample, prng2)" by fastforce
  define index where "index = unat index_sample mod size'"
  have i: "index < size'" using assms(1) by (simp add: index_def)
  have "index \<le> unat index_sample" by (simp add: index_def)
  then have i32: "index < 2 ^ 32" using unat_u32_range [of index_sample] by simp
  obtain b where b: "b < 8" "corrupt_entries source size' index bit_sample mem =
      mem(stream source ! index := flip_bit b (mem (stream source ! index)))"
    using corrupt_entries_flips [OF i assms(2) [folded source_def] i32 assms(4) [folded source_def]] by blast
  have "stream source ! index \<in> set (take size' (stream source))"
    using i assms(2) [folded source_def] by (metis length_take min_absorb2 nth_mem nth_take)
  moreover have "fst (chaos_io_corrupt_iovecs env (Some entries) iovcnt size' mem prng) =
      mem(stream source ! index := flip_bit b (mem (stream source ! index)))"
    using assms(1,3) by (simp add: chaos_io_corrupt_iovecs_def s1 s2 b(2) source_def [symmetric] index_def [symmetric])
  moreover have "flip_bit b x \<noteq> x" for x :: u8
  proof -
    have "bit (flip_bit b x) b \<noteq> bit x b" using b(1) by (simp add: bit_flip_bit_iff)
    then show ?thesis by auto
  qed
  ultimately show ?thesis using b(1) unfolding source_def by blast
qed

section \<open>Examples\<close>

definition demo_vector :: "iovec list" where
  "demo_vector = [\<lparr>iov_base = 4096, iov_len = 3\<rparr>, \<lparr>iov_base = 8192, iov_len = 0\<rparr>, \<lparr>iov_base = 12288, iov_len = 4\<rparr>]"

definition demo_seed :: prng_env where
  "demo_seed = \<lparr>pe_process_seed = 1, pe_tid = 2, pe_stack_address = 3\<rparr>"

theorem corrupt_vector_one_bit_witness:
  "\<exists>p b. p \<in> {4096, 4097, 4098, 12288, 12289} \<and> b < 8 \<and>
    fst (chaos_io_corrupt_iovecs demo_seed (Some demo_vector) 3 5 (\<lambda>p. 0) 7) = (\<lambda>p. 0)(p := flip_bit b 0)"
proof -
  have s: "take (nat 3) demo_vector = demo_vector" by (simp add: demo_vector_def)
  have "take 5 (stream demo_vector) = [4096, 4097, 4098, 12288, 12289]"
    by (simp add: demo_vector_def entry_bytes_def upt_rec)
  moreover have "0 < (5 :: nat)" "5 \<le> length (stream (take (nat 3) demo_vector))" "0 < (3 :: int)"
    "\<forall>v \<in> set (take (nat 3) demo_vector). iov_base v \<noteq> 0"
    by (simp_all add: s) (simp_all add: demo_vector_def length_stream)
  ultimately show ?thesis
    using corrupt_vector_one_bit [of 5 3 demo_vector demo_seed "\<lambda>p. 0" 7] unfolding s by fastforce
qed

definition torn_demo :: "iovec list option" where
  "torn_demo = fst (chaos_io_tear_iovecs demo_seed (Vm_Copied 48) (Some demo_vector) 3 7)"

theorem torn_vector_prefix_witness:
  "\<forall>torn. torn_demo = Some torn \<longrightarrow> 0 < length (stream torn) \<and> length (stream torn) < 7"
proof -
  have s: "take (nat 3) demo_vector = demo_vector" by (simp add: demo_vector_def)
  have "0 < length (stream torn) \<and> length (stream torn) < 7" if "torn_demo = Some torn" for torn
  proof -
    have "chaos_io_tear_iovecs demo_seed (Vm_Copied 48) (Some demo_vector) 3 7 =
        (Some torn, snd (chaos_io_tear_iovecs demo_seed (Vm_Copied 48) (Some demo_vector) 3 7))"
      using that by (simp add: torn_demo_def prod_eq_iff)
    from torn_vector_prefix [OF this] obtain k where "0 < k" "k < length (stream demo_vector)" "stream torn = take k (stream demo_vector)"
      unfolding s by auto
    then have "0 < length (stream torn) \<and> length (stream torn) < length (stream demo_vector)" by auto
    then show ?thesis by (simp add: demo_vector_def length_stream)
  qed
  then show ?thesis by blast
qed

end
