(* ===== verification/Io_Fdcache.thy ===== *)
theory Io_Fdcache
  imports Io_Internal
begin

text \<open>
  \<open>src/config/chaos_io_fdcache.c\<close>: the cache of descriptor paths. The mapping of the table can fail
  and \<open>readlink\<close> answers from outside, so both are arguments. The second half models the race the
  generations are there for: a resolution reads the generation, then the link, then stores, and
  descriptors are closed and reused in between.
\<close>

section \<open>State and operations\<close>

record fd_entry =
  fde_sequence :: u32
  fde_generation :: u32
  fde_fd_plus_one :: int
  fde_path :: string

record fd_cache =
  fdc_table :: "fd_entry list option"
  fdc_generation :: "u32 list"

definition zero_entry :: fd_entry where
  "zero_entry = \<lparr>fde_sequence = 0, fde_generation = 0, fde_fd_plus_one = 0, fde_path = []\<rparr>"

definition chaos_io_fdcache_table :: "bool \<Rightarrow> bool \<Rightarrow> fd_cache \<Rightarrow> fd_cache" where
  "chaos_io_fdcache_table map_ok create c =
     (if fdc_table c \<noteq> None \<or> \<not> create then c
      else if \<not> map_ok then c
      else c\<lparr>fdc_table := Some (replicate CHAOS_IO_FD_CACHE_SLOTS zero_entry)\<rparr>)"

definition chaos_io_fdcache_slot :: "int \<Rightarrow> nat" where
  "chaos_io_fdcache_slot fd = nat (fd mod 32)"

definition chaos_io_fdcache_generation :: "fd_cache \<Rightarrow> nat \<Rightarrow> u32" where
  "chaos_io_fdcache_generation c slot = fdc_generation c ! slot"

definition chaos_io_fdcache_store_at :: "bool \<Rightarrow> int \<Rightarrow> string option \<Rightarrow> u32 \<Rightarrow> fd_cache \<Rightarrow> fd_cache" where
  "chaos_io_fdcache_store_at map_ok fd path generation c0 =
     (if fd < 0 \<or> path = None \<or> chaos_io_is_excluded_path path then c0
      else if CHAOS_IO_MAX_PATH \<le> length (the path) then c0
      else let c = chaos_io_fdcache_table map_ok True c0
           in case fdc_table c of
                None \<Rightarrow> c
              | Some table \<Rightarrow>
                  (let slot = chaos_io_fdcache_slot fd;
                       entry = table ! slot
                   in if fde_sequence entry AND 1 \<noteq> 0 then c
                      else c\<lparr>fdc_table := Some (table[slot :=
                              \<lparr>fde_sequence = fde_sequence entry + 2, fde_generation = generation,
                               fde_fd_plus_one = fd + 1, fde_path = the path\<rparr>])\<rparr>))"

definition chaos_io_fdcache_reset :: "fd_cache \<Rightarrow> fd_cache" where
  "chaos_io_fdcache_reset c = c\<lparr>fdc_generation := map (\<lambda>g. g + 1) (fdc_generation c)\<rparr>"

text \<open>The path when the lookup succeeds.\<close>

definition chaos_io_fdcache_lookup :: "int \<Rightarrow> nat \<Rightarrow> fd_cache \<Rightarrow> string option" where
  "chaos_io_fdcache_lookup fd path_size c =
     (if fd < 0 \<or> path_size = 0 then None
      else case fdc_table c of
             None \<Rightarrow> None
           | Some table \<Rightarrow>
               (let slot = chaos_io_fdcache_slot fd;
                    entry = table ! slot
                in if fde_sequence entry AND 1 \<noteq> 0 \<or> fde_fd_plus_one entry \<noteq> fd + 1 then None
                   else if path_size < length (fde_path entry) + 1 then None
                   else if fde_generation entry \<noteq> chaos_io_fdcache_generation c slot then None
                   else Some (fde_path entry)))"

definition chaos_io_fdcache_store :: "bool \<Rightarrow> int \<Rightarrow> string option \<Rightarrow> fd_cache \<Rightarrow> fd_cache" where
  "chaos_io_fdcache_store map_ok fd path c =
     (if fd < 0 then c
      else chaos_io_fdcache_store_at map_ok fd path
             (chaos_io_fdcache_generation c (chaos_io_fdcache_slot fd)) c)"

definition chaos_io_fdcache_invalidate :: "int \<Rightarrow> fd_cache \<Rightarrow> fd_cache" where
  "chaos_io_fdcache_invalidate fd c =
     (if fd < 0 then c
      else let slot = chaos_io_fdcache_slot fd
           in c\<lparr>fdc_generation := (fdc_generation c)[slot := fdc_generation c ! slot + 1]\<rparr>)"

text \<open>\<open>link\<close> is what \<open>readlink\<close> reads of \<open>/proc/self/fd\<close>, cut to the buffer; no other thread runs.\<close>

definition chaos_io_fdcache_resolve ::
  "bool \<Rightarrow> string option \<Rightarrow> int \<Rightarrow> nat \<Rightarrow> fd_cache \<Rightarrow> string option \<times> fd_cache" where
  "chaos_io_fdcache_resolve map_ok link fd path_size c =
     (if fd \<le> 2 \<or> path_size < 2 then (None, c)
      else case chaos_io_fdcache_lookup fd path_size c of
             Some path \<Rightarrow> (Some path, c)
           | None \<Rightarrow>
               (let generation = chaos_io_fdcache_generation c (chaos_io_fdcache_slot fd)
                in case map_option (take (path_size - 1)) link of
                     None \<Rightarrow> (None, c)
                   | Some path \<Rightarrow>
                       (if path = [] then (None, c)
                        else if chaos_io_is_excluded_path (Some path) then (None, c)
                        else (Some path, chaos_io_fdcache_store_at map_ok fd (Some path) generation c))))"

section \<open>Races with close and reuse\<close>

text \<open>
  The kernel's view \<open>fk_path\<close> says what each descriptor names now. A close or reuse changes it for one
  descriptor and invalidates it; a rename may change all of them and resets the cache. Resolutions
  in flight have sampled the generation (\<open>None\<close> for a link not read yet). \<open>fk_bumps\<close> counts, per
  slot, the increments of the generation, which is a 32-bit word.
\<close>

record fd_world =
  fk_cache :: fd_cache
  fk_path :: "int \<Rightarrow> string"
  fk_flight :: "(int \<times> u32 \<times> string option) list"
  fk_bumps :: "nat \<Rightarrow> nat"

inductive fd_step :: "fd_world \<Rightarrow> fd_world \<Rightarrow> bool" where
  Sample: "0 \<le> fd \<Longrightarrow>
    fd_step w (w\<lparr>fk_flight := (fd, chaos_io_fdcache_generation (fk_cache w) (chaos_io_fdcache_slot fd), None) # fk_flight w\<rparr>)"
| Read_Link: "fk_flight w = before @ (fd, g, None) # after \<Longrightarrow>
    fd_step w (w\<lparr>fk_flight := before @ (fd, g, Some (fk_path w fd)) # after\<rparr>)"
| Keep: "fk_flight w = before @ (fd, g, Some path) # after \<Longrightarrow>
    fd_step w (w\<lparr>fk_flight := before @ after,
                 fk_cache := chaos_io_fdcache_store_at map_ok fd (Some path) g (fk_cache w)\<rparr>)"
| Store: "fd_step w (w\<lparr>fk_cache := chaos_io_fdcache_store map_ok fd (Some (fk_path w fd)) (fk_cache w)\<rparr>)"
| Reuse: "0 \<le> fd \<Longrightarrow>
    fd_step w (w\<lparr>fk_path := (fk_path w)(fd := path),
                 fk_cache := chaos_io_fdcache_invalidate fd (fk_cache w),
                 fk_bumps := (fk_bumps w)(chaos_io_fdcache_slot fd := Suc (fk_bumps w (chaos_io_fdcache_slot fd)))\<rparr>)"
| Rename: "fd_step w (w\<lparr>fk_path := paths,
                        fk_cache := chaos_io_fdcache_reset (fk_cache w),
                        fk_bumps := (\<lambda>slot. Suc (fk_bumps w slot))\<rparr>)"

definition fd_start :: "fd_world \<Rightarrow> bool" where
  "fd_start w \<longleftrightarrow>
     fk_cache w = \<lparr>fdc_table = None, fdc_generation = replicate CHAOS_IO_FD_CACHE_SLOTS 0\<rparr> \<and>
     fk_flight w = [] \<and> fk_bumps w = (\<lambda>slot. 0)"

inductive fd_reachable :: "fd_world \<Rightarrow> bool" where
  Start: "fd_start w \<Longrightarrow> fd_reachable w"
| Step: "fd_reachable w \<Longrightarrow> fd_step w w' \<Longrightarrow> fd_reachable w'"

text \<open>A path tagged with a generation: it was read after some bump, and if there was none since, it is
  what the descriptor names.\<close>

definition fd_tagged :: "fd_world \<Rightarrow> int \<Rightarrow> u32 \<Rightarrow> string option \<Rightarrow> bool" where
  "fd_tagged w fd g path \<longleftrightarrow>
     (\<exists>n \<le> fk_bumps w (chaos_io_fdcache_slot fd). g = of_nat n \<and>
       (n = fk_bumps w (chaos_io_fdcache_slot fd) \<longrightarrow> path = None \<or> path = Some (fk_path w fd)))"

definition fd_inv :: "fd_world \<Rightarrow> bool" where
  "fd_inv w \<longleftrightarrow>
     fdc_generation (fk_cache w) = map (\<lambda>slot. of_nat (fk_bumps w slot)) [0..<CHAOS_IO_FD_CACHE_SLOTS] \<and>
     (\<forall>(fd, g, path) \<in> set (fk_flight w). 0 \<le> fd \<and> fd_tagged w fd g path) \<and>
     (case fdc_table (fk_cache w) of
        None \<Rightarrow> True
      | Some table \<Rightarrow> length table = CHAOS_IO_FD_CACHE_SLOTS \<and>
          (\<forall>fd \<ge> 0. fde_fd_plus_one (table ! chaos_io_fdcache_slot fd) = fd + 1 \<longrightarrow>
             fd_tagged w fd (fde_generation (table ! chaos_io_fdcache_slot fd))
               (Some (fde_path (table ! chaos_io_fdcache_slot fd)))))"

lemma slot_bound [simp]: "chaos_io_fdcache_slot fd < CHAOS_IO_FD_CACHE_SLOTS"
  by (simp add: chaos_io_fdcache_slot_def CHAOS_IO_FD_CACHE_SLOTS_def)

lemma generation_now:
  "fd_inv w \<Longrightarrow> chaos_io_fdcache_generation (fk_cache w) (chaos_io_fdcache_slot fd) =
     of_nat (fk_bumps w (chaos_io_fdcache_slot fd))"
  by (simp add: fd_inv_def chaos_io_fdcache_generation_def)

lemma fd_tagged_cache [simp]:
  "fd_tagged (w\<lparr>fk_cache := c\<rparr>) fd g path = fd_tagged w fd g path"
  "fd_tagged (w\<lparr>fk_flight := fl\<rparr>) fd g path = fd_tagged w fd g path"
  "fd_tagged (w\<lparr>fk_flight := fl, fk_cache := c\<rparr>) fd g path = fd_tagged w fd g path"
  by (simp_all add: fd_tagged_def)

lemma fd_tagged_mono:
  assumes "fd_tagged w fd g path"
    "fk_bumps w (chaos_io_fdcache_slot fd) < fk_bumps w' (chaos_io_fdcache_slot fd) \<or>
     fk_bumps w (chaos_io_fdcache_slot fd) = fk_bumps w' (chaos_io_fdcache_slot fd) \<and> fk_path w' fd = fk_path w fd"
  shows "fd_tagged w' fd g path"
proof -
  from assms(1) obtain n where n: "n \<le> fk_bumps w (chaos_io_fdcache_slot fd)" "g = of_nat n"
    "n = fk_bumps w (chaos_io_fdcache_slot fd) \<longrightarrow> path = None \<or> path = Some (fk_path w fd)"
    by (auto simp: fd_tagged_def)
  show ?thesis
    unfolding fd_tagged_def using n assms(2) by (intro exI [of _ n]) auto
qed

text \<open>The entries of a table, apart from the rest of the invariant.\<close>

definition entries_ok :: "fd_world \<Rightarrow> fd_entry list option \<Rightarrow> bool" where
  "entries_ok w t \<longleftrightarrow>
     (case t of
        None \<Rightarrow> True
      | Some table \<Rightarrow> length table = CHAOS_IO_FD_CACHE_SLOTS \<and>
          (\<forall>fd \<ge> 0. fde_fd_plus_one (table ! chaos_io_fdcache_slot fd) = fd + 1 \<longrightarrow>
             fd_tagged w fd (fde_generation (table ! chaos_io_fdcache_slot fd))
               (Some (fde_path (table ! chaos_io_fdcache_slot fd)))))"

lemma fd_inv_iff:
  "fd_inv w \<longleftrightarrow>
     fdc_generation (fk_cache w) = map (\<lambda>slot. of_nat (fk_bumps w slot)) [0..<CHAOS_IO_FD_CACHE_SLOTS] \<and>
     (\<forall>(fd, g, path) \<in> set (fk_flight w). 0 \<le> fd \<and> fd_tagged w fd g path) \<and>
     entries_ok w (fdc_table (fk_cache w))"
  by (simp add: fd_inv_def entries_ok_def)

lemma entries_ok_cache [simp]:
  "entries_ok (w\<lparr>fk_cache := c\<rparr>) t = entries_ok w t" "entries_ok (w\<lparr>fk_flight := fl\<rparr>) t = entries_ok w t"
  "entries_ok (w\<lparr>fk_flight := fl, fk_cache := c\<rparr>) t = entries_ok w t"
  by (simp_all add: entries_ok_def split: option.split)

lemma entries_ok_None [simp]: "entries_ok w None"
  by (simp add: entries_ok_def)

lemma entries_ok_zero: "entries_ok w (Some (replicate CHAOS_IO_FD_CACHE_SLOTS zero_entry))"
  by (simp add: entries_ok_def zero_entry_def)

lemma entries_ok_update:
  assumes "entries_ok w (Some table)" "fd_tagged w fd g (Some path)"
  shows "entries_ok w (Some (table[chaos_io_fdcache_slot fd :=
    \<lparr>fde_sequence = s, fde_generation = g, fde_fd_plus_one = fd + 1, fde_path = path\<rparr>]))"
proof -
  have len: "length table = CHAOS_IO_FD_CACHE_SLOTS" using assms(1) by (simp add: entries_ok_def)
  show ?thesis
    unfolding entries_ok_def option.case
  proof (intro conjI allI impI)
    fix fd' :: int
    let ?t = "table[chaos_io_fdcache_slot fd :=
      \<lparr>fde_sequence = s, fde_generation = g, fde_fd_plus_one = fd + 1, fde_path = path\<rparr>]"
    assume fd': "0 \<le> fd'" "fde_fd_plus_one (?t ! chaos_io_fdcache_slot fd') = fd' + 1"
    show "fd_tagged w fd' (fde_generation (?t ! chaos_io_fdcache_slot fd'))
        (Some (fde_path (?t ! chaos_io_fdcache_slot fd')))"
    proof (cases "chaos_io_fdcache_slot fd' = chaos_io_fdcache_slot fd")
      case True
      then have "fd' = fd" using fd'(2) len by simp
      then show ?thesis using assms(2) len by simp
    next
      case False
      then show ?thesis using assms(1) fd' by (simp add: entries_ok_def)
    qed
  qed (simp add: len)
qed

lemma store_at_entries:
  assumes "entries_ok w (fdc_table c)" "fd_tagged w fd g path"
  shows "entries_ok w (fdc_table (chaos_io_fdcache_store_at map_ok fd path g c))"
    and "fdc_generation (chaos_io_fdcache_store_at map_ok fd path g c) = fdc_generation c"
proof -
  define d where "d = chaos_io_fdcache_table map_ok True c"
  have d: "entries_ok w (fdc_table d)" "fdc_generation d = fdc_generation c"
    using assms(1) entries_ok_zero by (simp_all add: d_def chaos_io_fdcache_table_def)
  show "fdc_generation (chaos_io_fdcache_store_at map_ok fd path g c) = fdc_generation c"
    by (simp add: chaos_io_fdcache_store_at_def d_def [symmetric] d(2) Let_def split: option.split)
  show "entries_ok w (fdc_table (chaos_io_fdcache_store_at map_ok fd path g c))"
  proof (cases "path = None")
    case True
    then show ?thesis using assms(1) by (simp add: chaos_io_fdcache_store_at_def)
  next
    case False
    then obtain p where p: "path = Some p" by blast
    show ?thesis
    proof (cases "fdc_table d")
      case None
      then show ?thesis using assms(1) d(1)
        by (simp add: chaos_io_fdcache_store_at_def d_def [symmetric] Let_def)
    next
      case (Some table)
      then have "entries_ok w (Some table)" using d(1) by simp
      from entries_ok_update [OF this] assms(2) p Some d(1) assms(1) show ?thesis
        by (simp add: chaos_io_fdcache_store_at_def d_def [symmetric] Let_def)
    qed
  qed
qed

lemma store_at_inv:
  assumes "fd_inv w" "fd_tagged w fd g path"
  shows "fd_inv (w\<lparr>fk_cache := chaos_io_fdcache_store_at map_ok fd path g (fk_cache w)\<rparr>)"
  using assms store_at_entries [OF _ assms(2)] by (simp add: fd_inv_iff)

lemma entries_ok_mono:
  assumes "entries_ok w t" "\<And>fd g path. 0 \<le> fd \<Longrightarrow> fd_tagged w fd g path \<Longrightarrow> fd_tagged w' fd g path"
  shows "entries_ok w' t"
  using assms by (auto simp: entries_ok_def split: option.splits)

lemma fd_step_inv: "fd_step w w' \<Longrightarrow> fd_inv w \<Longrightarrow> fd_inv w'"
proof (induction rule: fd_step.induct)
  case (Sample fd w)
  have "fd_tagged w fd (chaos_io_fdcache_generation (fk_cache w) (chaos_io_fdcache_slot fd)) None"
    unfolding generation_now [OF Sample(2)] by (auto simp: fd_tagged_def)
  with Sample show ?case by (simp add: fd_inv_iff)
next
  case (Read_Link w before fd g after)
  then have "fd_tagged w fd g None" "0 \<le> fd" by (auto simp: fd_inv_iff)
  then have "fd_tagged w fd g (Some (fk_path w fd))" by (auto simp: fd_tagged_def)
  with Read_Link \<open>0 \<le> fd\<close> show ?case by (auto simp: fd_inv_iff)
next
  case (Keep w before fd g path after map_ok)
  then have "fd_tagged w fd g (Some path)" by (auto simp: fd_inv_iff)
  moreover have "fd_inv (w\<lparr>fk_flight := before @ after\<rparr>)" using Keep by (auto simp: fd_inv_iff)
  ultimately show ?case using store_at_inv [of "w\<lparr>fk_flight := before @ after\<rparr>" fd g "Some path"] by simp
next
  case (Store w map_ok fd)
  have "fd_tagged w fd (chaos_io_fdcache_generation (fk_cache w) (chaos_io_fdcache_slot fd)) (Some (fk_path w fd))"
    unfolding generation_now [OF Store] by (auto simp: fd_tagged_def)
  with Store show ?case by (simp add: chaos_io_fdcache_store_def store_at_inv)
next
  case (Reuse fd w path)
  define slot where "slot = chaos_io_fdcache_slot fd"
  define w' where "w' = w\<lparr>fk_path := (fk_path w)(fd := path),
      fk_cache := chaos_io_fdcache_invalidate fd (fk_cache w), fk_bumps := (fk_bumps w)(slot := Suc (fk_bumps w slot))\<rparr>"
  have mono: "fd_tagged w' fd' g p" if "fd_tagged w fd' g p" for fd' g p
    using that by (rule fd_tagged_mono) (auto simp: w'_def slot_def)
  have "fdc_generation (fk_cache w') = map (\<lambda>s. of_nat (fk_bumps w' s)) [0..<CHAOS_IO_FD_CACHE_SLOTS]"
  proof (rule nth_equalityI)
    have g: "fdc_generation (fk_cache w) = map (\<lambda>s. of_nat (fk_bumps w s)) [0..<CHAOS_IO_FD_CACHE_SLOTS]"
      using Reuse(2) by (simp add: fd_inv_iff)
    show "length (fdc_generation (fk_cache w')) = length (map (\<lambda>s. of_nat (fk_bumps w' s) :: u32) [0..<CHAOS_IO_FD_CACHE_SLOTS])"
      using g Reuse(1) by (simp add: w'_def chaos_io_fdcache_invalidate_def Let_def)
    fix i assume "i < length (fdc_generation (fk_cache w'))"
    then have i: "i < CHAOS_IO_FD_CACHE_SLOTS"
      using g Reuse(1) by (simp add: w'_def chaos_io_fdcache_invalidate_def Let_def)
    have s: "slot < CHAOS_IO_FD_CACHE_SLOTS" by (simp add: slot_def)
    show "fdc_generation (fk_cache w') ! i = map (\<lambda>s. of_nat (fk_bumps w' s)) [0..<CHAOS_IO_FD_CACHE_SLOTS] ! i"
      using g Reuse(1) i s
      by (cases "i = slot") (simp_all add: w'_def chaos_io_fdcache_invalidate_def Let_def slot_def [symmetric] add.commute)
  qed
  moreover have "\<forall>(fd, g, path) \<in> set (fk_flight w'). 0 \<le> fd \<and> fd_tagged w' fd g path"
    using Reuse(2) mono by (auto simp: fd_inv_iff w'_def)
  moreover have "fdc_table (fk_cache w') = fdc_table (fk_cache w)"
    by (simp add: w'_def chaos_io_fdcache_invalidate_def Let_def)
  then have "entries_ok w' (fdc_table (fk_cache w'))"
    using Reuse(2) mono entries_ok_mono [of w _ w'] by (simp add: fd_inv_iff)
  ultimately have "fd_inv w'" unfolding fd_inv_iff by blast
  then show ?case by (simp add: w'_def slot_def)
next
  case (Rename w paths)
  define w' where "w' = w\<lparr>fk_path := paths, fk_cache := chaos_io_fdcache_reset (fk_cache w),
      fk_bumps := (\<lambda>slot. Suc (fk_bumps w slot))\<rparr>"
  have mono: "fd_tagged w' fd g p" if "fd_tagged w fd g p" for fd g p
    using that by (rule fd_tagged_mono) (simp add: w'_def)
  have "fdc_generation (fk_cache w') = map (\<lambda>s. of_nat (fk_bumps w' s)) [0..<CHAOS_IO_FD_CACHE_SLOTS]"
    using Rename by (simp add: fd_inv_iff w'_def chaos_io_fdcache_reset_def add.commute comp_def)
  moreover have "\<forall>(fd, g, path) \<in> set (fk_flight w'). 0 \<le> fd \<and> fd_tagged w' fd g path"
    using Rename mono by (auto simp: fd_inv_iff w'_def)
  moreover have "entries_ok w' (fdc_table (fk_cache w'))"
    using Rename mono entries_ok_mono [of w _ w'] by (simp add: fd_inv_iff w'_def chaos_io_fdcache_reset_def)
  ultimately have "fd_inv w'" unfolding fd_inv_iff by blast
  then show ?case by (simp add: w'_def)
qed

lemma fd_reachable_inv: "fd_reachable w \<Longrightarrow> fd_inv w"
proof (induction rule: fd_reachable.induct)
  case (Start w)
  have "replicate CHAOS_IO_FD_CACHE_SLOTS (0::u32) = map (\<lambda>s. of_nat 0) [0..<CHAOS_IO_FD_CACHE_SLOTS]"
    by (rule nth_equalityI) simp_all
  with Start show ?case by (simp add: fd_inv_iff fd_start_def entries_ok_def)
qed (rule fd_step_inv)


definition demo_world :: fd_world where
  "demo_world =
     \<lparr>fk_cache = \<lparr>fdc_table = None, fdc_generation = replicate CHAOS_IO_FD_CACHE_SLOTS 0\<rparr>,
      fk_path = (\<lambda>fd. ''/a''), fk_flight = [], fk_bumps = (\<lambda>slot. 0)\<rparr>"


end
