(* ===== verification/Rule_Reload.thy ===== *)
theory Rule_Reload
  imports Io_Reload
begin

text \<open>
  The life of a rule file as the network, resolver, clock, memory and process libraries have it, each with a copy
  of the same code in its \<open>chaos_*_config.c\<close>: reading and stamping the file, building and publishing a snapshot,
  the throttled refresh, the report of hits and the fork handler. It is the code of the file library without the
  links in rule paths. What differs between the copies is a record of parameters; each library's theory gives its
  functions as instances. The reserved stamps are the same numbers everywhere, those of \<open>chaos_io_internal.h\<close>.
\<close>

section \<open>State\<close>

record 'r rule_state =
  rs_sequence :: u64
  rs_rules :: "'r list"
  rs_parse_ok :: bool
  rs_hits :: "nat option list"
  rs_text :: "string list"

text \<open>\<open>rl_counters\<close> are the counters of calls the process library keeps beside its snapshots.\<close>

record 'r rule_lib =
  rl_states :: "'r rule_state list"
  rl_pool :: "chaos_hit_slot list"
  rl_pool_used :: bool
  rl_active_index :: nat
  rl_cached_mtime :: u64
  rl_provisional :: bool
  rl_content :: u64
  rl_error :: chaos_status_error
  rl_texts :: "string list"
  rl_hits_writing :: bool
  rl_hits_pending :: bool
  rl_hits_total :: u64
  rl_hits_last_ms :: u64
  rl_hits_pid :: int
  rl_hits_file :: int
  rl_hits_owned :: bool
  rl_tls_prng :: u64
  rl_atfork_registered :: bool
  rl_last_check_ns :: u64
  rl_check_interval_ns :: u64
  rl_counters :: "u64 list"
  rl_fs :: file_system

record 'r reload_params =
  rp_normalize :: "u64 \<Rightarrow> u64"
  rp_parse :: "chaos_status_error \<Rightarrow> string \<Rightarrow> 'r parse_result"
  rp_max_rules :: nat
  rp_max_bytes :: nat
  rp_status_path :: string
  rp_hits_prefix :: string
  rp_reset_counters :: "u64 list \<Rightarrow> u64 list"

definition reload_reset_state :: "bool \<Rightarrow> 'r rule_state \<Rightarrow> 'r rule_state" where
  "reload_reset_state parse_ok st =
     \<lparr>rs_sequence = chaos_snapshot_write_begin (rs_sequence st), rs_rules = [], rs_parse_ok = parse_ok,
      rs_hits = [], rs_text = []\<rparr>"

definition reload_active_state :: "'r rule_lib \<Rightarrow> 'r rule_state" where
  "reload_active_state lib = rl_states lib ! rl_active_index lib"

definition set_state :: "nat \<Rightarrow> ('r rule_state \<Rightarrow> 'r rule_state) \<Rightarrow> 'r rule_lib \<Rightarrow> 'r rule_lib" where
  "set_state i f lib = lib\<lparr>rl_states := (rl_states lib)[i := f (rl_states lib ! i)]\<rparr>"

definition finish_write :: "'r rule_state \<Rightarrow> 'r rule_state" where
  "finish_write st = st\<lparr>rs_sequence := chaos_snapshot_write_end (rs_sequence st)\<rparr>"

definition reload_publish :: "'r reload_params \<Rightarrow> nat \<Rightarrow> u64 \<Rightarrow> 'r rule_lib \<Rightarrow> 'r rule_lib" where
  "reload_publish rp next_index observed_mtime lib =
     (set_state next_index finish_write lib)
       \<lparr>rl_counters := rp_reset_counters rp (rl_counters lib), rl_active_index := next_index,
        rl_cached_mtime := observed_mtime\<rparr>"

section \<open>Stamps and reading\<close>

definition reload_hash_mtime :: "'r reload_params \<Rightarrow> file_stamp option \<Rightarrow> u64" where
  "reload_hash_mtime rp st =
     (case st of
        None \<Rightarrow> CHAOS_IO_MTIME_MISSING
      | Some s \<Rightarrow>
          (let v1 = (1469598103934665603 XOR of_int (fst_sec s)) * 1099511628211;
               v2 = (v1 XOR of_int (fst_nsec s)) * 1099511628211;
               v3 = (v2 XOR of_int (fst_size s)) * 1099511628211;
               v4 = (v3 XOR fst_ino s) * 1099511628211;
               v5 = (v4 XOR fst_dev s) * 1099511628211
           in rp_normalize rp v5))"

definition reload_observed_mtime :: "'r reload_params \<Rightarrow> io_env \<Rightarrow> u64" where
  "reload_observed_mtime rp env =
     (case ev_stat env of None \<Rightarrow> CHAOS_IO_MTIME_MISSING | Some s \<Rightarrow> reload_hash_mtime rp (Some s))"

fun read_all :: "nat \<Rightarrow> read_outcome list \<Rightarrow> string \<Rightarrow> read_result" where
  "read_all limit [] got = Read_Ok got"
| "read_all limit (Read_Error e # rest) got =
     (if e = EINTR then read_all limit rest got
      else if e = EISDIR then Read_Unreadable else Read_Retry)"
| "read_all limit (Read_Data d # rest) got =
     (let part = take (limit - length got) d
      in if part = [] then Read_Ok got
         else if length (got @ part) = limit then Read_Too_Large
         else read_all limit rest (got @ part))"

definition reload_read_file :: "'r reload_params \<Rightarrow> io_env \<Rightarrow> u64 \<Rightarrow> 'r rule_lib \<Rightarrow> read_result \<times> 'r rule_lib" where
  "reload_read_file rp env expected_stamp lib =
     (case open_loop (ev_opens env) of
        Some e \<Rightarrow> (if e = EACCES \<or> e = EPERM then Read_Unreadable else Read_Retry, lib)
      | None \<Rightarrow>
          (case read_all (rp_max_bytes rp) (ev_reads env) [] of
             Read_Ok data \<Rightarrow>
               (case ev_fstat env of
                  None \<Rightarrow> (Read_Retry, lib)
                | Some s \<Rightarrow>
                    (if reload_hash_mtime rp (Some s) \<noteq> expected_stamp then (Read_Retry, lib)
                     else (Read_Ok data,
                           lib\<lparr>rl_provisional :=
                             chaos_clock_stamp_is_recent (ev_realtime_ms env) (fst_sec s) (fst_nsec s)\<rparr>)))
           | failed \<Rightarrow> (failed, lib)))"

definition reload_reject_file :: "nat \<Rightarrow> status_reason \<Rightarrow> 'r rule_lib \<Rightarrow> 'r rule_lib" where
  "reload_reject_file i reason lib =
     (set_state i (reload_reset_state False) lib)
       \<lparr>rl_error := chaos_status_reject (chaos_status_clear (rl_error lib)) reason\<rparr>"

section \<open>Counters of a snapshot\<close>

definition attach_head :: "chaos_hit_slot list \<Rightarrow> nat option \<Rightarrow> 'a rule_head_scheme \<Rightarrow> 'a rule_head_scheme" where
  "attach_head pool slot rule =
     rule\<lparr>rh_hit := slot,
          rh_hit_generation := (case slot of None \<Rightarrow> 0 | Some i \<Rightarrow> slot_generation (pool ! i))\<rparr>"

text \<open>The snapshot being built is never the active one.\<close>

definition reload_attach_hits :: "nat \<Rightarrow> ('a rule_head_scheme) rule_lib \<Rightarrow> ('a rule_head_scheme) rule_lib" where
  "reload_attach_hits next_index lib =
     (let active = reload_active_state lib;
          next_state = rl_states lib ! next_index;
          n = length (rs_rules next_state);
          texts = take n (rl_texts lib);
          (pool, slots) = chaos_hits_assign (rl_pool lib) (rs_hits active) (rs_text active)
                            (length (rs_rules active)) texts
      in (set_state next_index
            (\<lambda>st. st\<lparr>rs_text := texts, rs_hits := slots,
                    rs_rules := map2 (attach_head pool) slots (rs_rules st)\<rparr>) lib)
         \<lparr>rl_pool := pool, rl_pool_used := (0 < n \<or> rl_pool_used lib)\<rparr>)"

section \<open>Reload\<close>

definition reload_report ::
  "'r reload_params \<Rightarrow> io_env \<Rightarrow> u64 \<Rightarrow> 'r rule_state \<Rightarrow> 'r rule_lib \<Rightarrow> 'r rule_lib" where
  "reload_report rp env observed_mtime st lib =
     (if observed_mtime = CHAOS_IO_MTIME_MISSING
      then lib\<lparr>rl_fs := chaos_status_remove (rl_fs lib) (rp_status_path rp)\<rparr>
      else if \<not> rs_parse_ok st
      then lib\<lparr>rl_fs := chaos_status_write (rl_fs lib) (ev_publish env) (rp_status_path rp)
                          CHAOS_STATUS_ERROR 0 (Some (rl_error lib))\<rparr>
      else lib\<lparr>rl_fs := chaos_status_write (rl_fs lib) (ev_publish env) (rp_status_path rp)
                          CHAOS_STATUS_OK (length (rs_rules st)) None\<rparr>)"

definition release_state :: "nat \<Rightarrow> 'r rule_lib \<Rightarrow> 'r rule_lib" where
  "release_state i lib = lib\<lparr>rl_pool := chaos_hits_release (rl_pool lib) (rs_hits (rl_states lib ! i))\<rparr>"

text \<open>The parse of the contents into the snapshot at \<open>i\<close>; an empty file is not parsed.\<close>

definition parse_state :: "'r reload_params \<Rightarrow> nat \<Rightarrow> string \<Rightarrow> 'r rule_lib \<Rightarrow> 'r rule_lib" where
  "parse_state rp i data lib =
     (if data = [] then lib
      else let result = rp_parse rp (rl_error lib) data;
               lib' = lib\<lparr>rl_error := pr_error result, rl_texts := pr_texts result\<rparr>
           in if pr_ok result then set_state i (\<lambda>st. st\<lparr>rs_rules := pr_rules result\<rparr>) lib'
              else set_state i (reload_reset_state False) lib')"

text \<open>The end of a reload once the snapshot at \<open>i\<close> holds the outcome of the file.\<close>

definition finish_state ::
  "('a rule_head_scheme) reload_params \<Rightarrow> io_env \<Rightarrow> nat \<Rightarrow> u64 \<Rightarrow> u64 \<Rightarrow> ('a rule_head_scheme) rule_lib
     \<Rightarrow> ('a rule_head_scheme) rule_lib" where
  "finish_state rp env i observed_mtime content lib =
     (let lib1 = reload_attach_hits i (lib\<lparr>rl_content := content\<rparr>);
          lib2 = reload_report rp env observed_mtime (rl_states lib1 ! i) lib1
      in reload_publish rp i observed_mtime (release_state i lib2))"

text \<open>The part of the refresh after the claim. A file read again with the same contents keeps its snapshot.\<close>

definition reload_run ::
  "('a rule_head_scheme) reload_params \<Rightarrow> io_env \<Rightarrow> u64 \<Rightarrow> u64 \<Rightarrow> ('a rule_head_scheme) rule_lib
     \<Rightarrow> ('a rule_head_scheme) rule_lib" where
  "reload_run rp env observed_mtime previous_mtime lib =
     (let i = 1 - rl_active_index lib;
          lib0 = set_state i (reload_reset_state True) lib
      in if observed_mtime = CHAOS_IO_MTIME_MISSING then finish_state rp env i observed_mtime 0 lib0
         else let (read_rc, lib1) = reload_read_file rp env observed_mtime lib0
              in case read_rc of
                   Read_Too_Large \<Rightarrow>
                     finish_state rp env i observed_mtime 0 (reload_reject_file i REASON_TOO_LARGE lib1)
                 | Read_Unreadable \<Rightarrow>
                     finish_state rp env i observed_mtime 0 (reload_reject_file i REASON_UNREADABLE lib1)
                 | Read_Retry \<Rightarrow> lib1\<lparr>rl_cached_mtime := previous_mtime\<rparr>
                 | Read_Ok data \<Rightarrow>
                     (if observed_mtime = previous_mtime \<and> chaos_config_content_hash data = rl_content lib1
                      then lib1\<lparr>rl_cached_mtime := previous_mtime\<rparr>
                      else finish_state rp env i observed_mtime (chaos_config_content_hash data)
                             (if NUL \<in> set data then reload_reject_file i REASON_NUL lib1
                              else parse_state rp i data lib1)))"

section \<open>The hits file\<close>

definition store_hits :: "'r reload_params \<Rightarrow> io_env \<Rightarrow> 'r rule_lib \<Rightarrow> 'r rule_lib" where
  "store_hits rp env lib =
     (let active = reload_active_state lib;
          (fs, number, owned) =
            chaos_hits_write_for (ev_hits_publish env) (ev_salts env) (rl_fs lib) (rp_hits_prefix rp) (ev_pid env)
              (rl_hits_file lib) (rl_hits_owned lib) (rl_pool lib) (rs_hits active) (rs_text active)
              (rp_max_rules rp * CHAOS_HITS_LINE_MAX + 1)
      in lib\<lparr>rl_fs := fs, rl_hits_file := number, rl_hits_owned := owned\<rparr>)"

text \<open>\<open>counted\<close> says whether the call comes from a hit (a non-NULL slot). No other thread runs, so the loops end as
  soon as nothing is pending.\<close>

definition reload_report_hits :: "'r reload_params \<Rightarrow> io_env \<Rightarrow> bool \<Rightarrow> 'r rule_lib \<Rightarrow> 'r rule_lib" where
  "reload_report_hits rp env counted lib0 =
     (let now = ev_now_ms env;
          lib = (if counted then lib0\<lparr>rl_hits_total := rl_hits_total lib0 + 1, rl_hits_pending := True\<rparr> else lib0)
      in if counted \<and> CHAOS_HITS_EAGER < rl_hits_total lib \<and> now - rl_hits_last_ms lib < CHAOS_HITS_INTERVAL_MS
         then lib
         else if \<not> counted \<and> \<not> rl_hits_pending lib then lib
         else if ev_pid env \<noteq> rl_hits_pid lib then lib
         else if rl_hits_writing lib then lib
         else let lib1 = (if rl_hits_pending lib then store_hits rp env (lib\<lparr>rl_hits_pending := False\<rparr>) else lib)
              in lib1\<lparr>rl_hits_last_ms := now\<rparr>)"

section \<open>Fork, initialisation, refresh\<close>

definition reload_after_fork :: "'r reload_params \<Rightarrow> io_env \<Rightarrow> 'r rule_lib \<Rightarrow> 'r rule_lib" where
  "reload_after_fork rp env lib =
     lib\<lparr>rl_cached_mtime :=
           (if rl_cached_mtime lib = CHAOS_IO_MTIME_RELOADING then CHAOS_IO_MTIME_UNKNOWN
            else rl_cached_mtime lib),
         rl_hits_writing := False, rl_hits_pending := False, rl_hits_total := 0, rl_hits_last_ms := 0,
         rl_hits_pid := ev_pid env, rl_hits_file := ev_pid env, rl_hits_owned := False, rl_tls_prng := 0,
         rl_counters := rp_reset_counters rp (rl_counters lib),
         rl_pool := (if rl_pool_used lib
                     then chaos_hits_pool_after_fork (rl_pool lib) (rs_hits (reload_active_state lib))
                     else rl_pool lib)\<rparr>"

definition reload_init :: "'r reload_params \<Rightarrow> io_env \<Rightarrow> 'r rule_lib \<Rightarrow> 'r rule_lib" where
  "reload_init rp env lib =
     lib\<lparr>rl_hits_pid := ev_pid env,
         rl_hits_file := chaos_hits_file_number_for (\<lambda>p. rl_fs lib p \<noteq> None) (ev_vdso_ns env)
                           (rp_hits_prefix rp) (ev_pid env),
         rl_hits_owned := False, rl_pool := chaos_hits_pool_reset (rl_pool lib),
         rl_atfork_registered := True, rl_counters := rp_reset_counters rp (rl_counters lib),
         rl_states := map (\<lambda>st. finish_write (reload_reset_state True st)) (rl_states lib),
         rl_active_index := 0, rl_cached_mtime := CHAOS_IO_MTIME_UNKNOWN\<rparr>"

definition reload_checked_recently :: "io_env \<Rightarrow> 'r rule_lib \<Rightarrow> bool \<times> 'r rule_lib" where
  "reload_checked_recently env lib =
     (if rl_cached_mtime lib = CHAOS_IO_MTIME_UNKNOWN \<or> rl_cached_mtime lib = CHAOS_IO_MTIME_RELOADING
      then (False, lib)
      else let (recent, last_check) =
                 chaos_clock_checked_recently (ev_vdso_ns env) (rl_last_check_ns lib) (rl_check_interval_ns lib)
           in (recent, lib\<lparr>rl_last_check_ns := last_check\<rparr>))"

definition any_rules :: "'r rule_lib \<Rightarrow> bool" where
  "any_rules lib \<longleftrightarrow> rs_rules (reload_active_state lib) \<noteq> []"

definition reload_refresh ::
  "('a rule_head_scheme) reload_params \<Rightarrow> io_env \<Rightarrow> ('a rule_head_scheme) rule_lib
     \<Rightarrow> bool \<times> ('a rule_head_scheme) rule_lib" where
  "reload_refresh rp env lib0 =
     (let (recent, lib1) = reload_checked_recently env lib0
      in if recent then (any_rules lib1, lib1)
         else let lib2 = (if rl_hits_pending lib1 \<and> CHAOS_HITS_INTERVAL_MS \<le> ev_now_ms env - rl_hits_last_ms lib1
                          then reload_report_hits rp env False lib1 else lib1);
                  observed = reload_observed_mtime rp env;
                  cached = rl_cached_mtime lib2
              in if observed = cached \<and> \<not> rl_provisional lib2 then (any_rules lib2, lib2)
                 else if cached = CHAOS_IO_MTIME_RELOADING then (any_rules lib2, lib2)
                 else let lib3 = reload_run rp env observed cached
                                   (lib2\<lparr>rl_cached_mtime := CHAOS_IO_MTIME_RELOADING, rl_provisional := False\<rparr>)
                      in (any_rules lib3, lib3))"

section \<open>The invariant\<close>

definition heads_attached :: "chaos_hit_slot list \<Rightarrow> nat option list \<Rightarrow> ('a rule_head_scheme) list \<Rightarrow> bool" where
  "heads_attached pool slots rules \<longleftrightarrow>
     list_all2 (\<lambda>slot r. rh_hit r = slot \<and>
       (case slot of None \<Rightarrow> False | Some i \<Rightarrow> slot_generation (pool ! i) = rh_hit_generation r)) slots rules"

definition state_ok :: "nat \<Rightarrow> chaos_hit_slot list \<Rightarrow> ('a rule_head_scheme) rule_state \<Rightarrow> bool" where
  "state_ok max_rules pool st \<longleftrightarrow>
     length (rs_rules st) \<le> max_rules \<and> length (rs_text st) = length (rs_rules st) \<and>
     pool_ok pool (rs_hits st) \<and> heads_attached pool (rs_hits st) (rs_rules st) \<and>
     rs_sequence st AND 1 = 0"

definition rule_lib_ok :: "nat \<Rightarrow> ('a rule_head_scheme) rule_lib \<Rightarrow> bool" where
  "rule_lib_ok max_rules lib \<longleftrightarrow>
     length (rl_states lib) = 2 \<and> rl_active_index lib < 2 \<and> length (rl_pool lib) = 2 * max_rules \<and>
     state_ok max_rules (rl_pool lib) (reload_active_state lib)"

text \<open>During a reload: the active snapshot is sound, the one at \<open>i\<close> is being built.\<close>

definition state_building :: "nat \<Rightarrow> nat \<Rightarrow> ('a rule_head_scheme) rule_lib \<Rightarrow> bool" where
  "state_building max_rules i lib \<longleftrightarrow>
     rule_lib_ok max_rules lib \<and> i = 1 - rl_active_index lib \<and>
     length (rs_rules (rl_states lib ! i)) \<le> max_rules \<and>
     length (rs_rules (rl_states lib ! i)) \<le> length (rl_texts lib)"

text \<open>A rule without the counters it is attached to.\<close>

definition bare_head :: "'a rule_head_scheme \<Rightarrow> 'a rule_head_scheme" where
  "bare_head r = r\<lparr>rh_hit := None, rh_hit_generation := 0\<rparr>"

lemma bare_head_attach [simp]: "bare_head (attach_head pool slot r) = bare_head r"
  by (simp add: bare_head_def attach_head_def)

lemma heads_attached_length: "heads_attached pool slots rules \<Longrightarrow> length slots = length rules"
  by (simp add: heads_attached_def list_all2_lengthD)

lemma heads_attached_cong:
  assumes "heads_attached pool slots rules"
    "\<forall>i. Some i \<in> set slots \<longrightarrow> slot_generation (pool' ! i) = slot_generation (pool ! i)"
  shows "heads_attached pool' slots rules"
proof -
  note att = assms(1) [unfolded heads_attached_def]
  show ?thesis
    unfolding heads_attached_def
    by (rule list.rel_mono_strong [OF att]) (use assms(2) in \<open>auto split: option.splits\<close>)
qed

lemma heads_attached_map2:
  assumes "length slots = length rules" "None \<notin> set slots"
    "\<forall>i. Some i \<in> set slots \<longrightarrow> slot_generation (pool' ! i) = slot_generation (pool ! i)"
  shows "heads_attached pool' slots (map2 (attach_head pool) slots rules)"
proof (rule heads_attached_cong)
  show "heads_attached pool slots (map2 (attach_head pool) slots rules)"
    unfolding heads_attached_def
  proof (rule list_all2_all_nthI)
    fix n assume n: "n < length slots"
    then obtain i where "slots ! n = Some i" using assms(2) nth_mem [of n slots] by (cases "slots ! n") auto
    with n assms(1) show "rh_hit (map2 (attach_head pool) slots rules ! n) = slots ! n \<and>
        (case slots ! n of None \<Rightarrow> False
         | Some i \<Rightarrow> slot_generation (pool ! i) = rh_hit_generation (map2 (attach_head pool) slots rules ! n))"
      by (simp add: attach_head_def)
  qed (simp add: assms(1))
qed (rule assms(3))

lemma set_state_simps [simp]:
  "rl_pool (set_state i f lib) = rl_pool lib" "rl_active_index (set_state i f lib) = rl_active_index lib"
  "rl_fs (set_state i f lib) = rl_fs lib" "rl_texts (set_state i f lib) = rl_texts lib"
  "rl_error (set_state i f lib) = rl_error lib" "rl_cached_mtime (set_state i f lib) = rl_cached_mtime lib"
  "rl_content (set_state i f lib) = rl_content lib" "rl_provisional (set_state i f lib) = rl_provisional lib"
  "rl_pool_used (set_state i f lib) = rl_pool_used lib" "rl_counters (set_state i f lib) = rl_counters lib"
  "rl_hits_pending (set_state i f lib) = rl_hits_pending lib"
  "length (rl_states (set_state i f lib)) = length (rl_states lib)"
  by (simp_all add: set_state_def)

lemma set_state_nth [simp]:
  "j < length (rl_states lib) \<Longrightarrow>
     rl_states (set_state i f lib) ! j = (if i = j then f (rl_states lib ! j) else rl_states lib ! j)"
  by (auto simp: set_state_def nth_list_update)

lemma reload_reset_simps [simp]:
  "rs_rules (reload_reset_state ok st) = []" "rs_parse_ok (reload_reset_state ok st) = ok"
  "rs_hits (reload_reset_state ok st) = []"
  by (simp_all add: reload_reset_state_def)

lemma active_lib_simps [simp]:
  "reload_active_state (lib\<lparr>rl_error := e\<rparr>) = reload_active_state lib"
  "reload_active_state (lib\<lparr>rl_texts := t\<rparr>) = reload_active_state lib"
  "reload_active_state (lib\<lparr>rl_content := c\<rparr>) = reload_active_state lib"
  "reload_active_state (lib\<lparr>rl_provisional := b\<rparr>) = reload_active_state lib"
  "reload_active_state (lib\<lparr>rl_cached_mtime := m\<rparr>) = reload_active_state lib"
  "reload_active_state (lib\<lparr>rl_fs := fs\<rparr>) = reload_active_state lib"
  "reload_active_state (lib\<lparr>rl_pool := p\<rparr>) = reload_active_state lib"
  "reload_active_state (lib\<lparr>rl_last_check_ns := n\<rparr>) = reload_active_state lib"
  by (simp_all add: reload_active_state_def)

lemma rule_lib_ok_simps [simp]:
  "rule_lib_ok m (lib\<lparr>rl_error := e\<rparr>) = rule_lib_ok m lib" "rule_lib_ok m (lib\<lparr>rl_texts := t\<rparr>) = rule_lib_ok m lib"
  "rule_lib_ok m (lib\<lparr>rl_content := c\<rparr>) = rule_lib_ok m lib"
  "rule_lib_ok m (lib\<lparr>rl_provisional := b\<rparr>) = rule_lib_ok m lib"
  "rule_lib_ok m (lib\<lparr>rl_cached_mtime := u\<rparr>) = rule_lib_ok m lib" "rule_lib_ok m (lib\<lparr>rl_fs := fs\<rparr>) = rule_lib_ok m lib"
  "rule_lib_ok m (lib\<lparr>rl_last_check_ns := n\<rparr>) = rule_lib_ok m lib"
  by (simp_all add: rule_lib_ok_def)

lemma reload_read_frame:
  "reload_read_file rp env stamp lib = (rc, lib') \<Longrightarrow> \<exists>b. lib' = lib\<lparr>rl_provisional := b\<rparr>"
proof -
  assume "reload_read_file rp env stamp lib = (rc, lib')"
  then have "lib' = lib \<or> (\<exists>b. lib' = lib\<lparr>rl_provisional := b\<rparr>)"
    by (auto simp: reload_read_file_def split: option.splits read_result.splits if_splits)
  moreover have "lib = lib\<lparr>rl_provisional := rl_provisional lib\<rparr>" by simp
  ultimately show ?thesis by metis
qed

lemma reload_report_simps [simp]:
  "rl_states (reload_report rp env m st lib) = rl_states lib"
  "rl_pool (reload_report rp env m st lib) = rl_pool lib"
  "rl_active_index (reload_report rp env m st lib) = rl_active_index lib"
  "rl_content (reload_report rp env m st lib) = rl_content lib"
  "rl_counters (reload_report rp env m st lib) = rl_counters lib"
  by (simp_all add: reload_report_def)

lemma store_hits_simps [simp]:
  "rl_states (store_hits rp env lib) = rl_states lib" "rl_pool (store_hits rp env lib) = rl_pool lib"
  "rl_active_index (store_hits rp env lib) = rl_active_index lib"
  "rl_cached_mtime (store_hits rp env lib) = rl_cached_mtime lib"
  "rl_provisional (store_hits rp env lib) = rl_provisional lib"
  "rl_counters (store_hits rp env lib) = rl_counters lib"
  by (simp_all add: store_hits_def Let_def split: prod.split)

lemma reload_report_hits_frame [simp]:
  "rl_states (reload_report_hits rp env counted lib) = rl_states lib"
  "rl_pool (reload_report_hits rp env counted lib) = rl_pool lib"
  "rl_active_index (reload_report_hits rp env counted lib) = rl_active_index lib"
  "rl_cached_mtime (reload_report_hits rp env counted lib) = rl_cached_mtime lib"
  "rl_provisional (reload_report_hits rp env counted lib) = rl_provisional lib"
  "rl_counters (reload_report_hits rp env counted lib) = rl_counters lib"
  by (simp_all add: reload_report_hits_def Let_def)

lemma reload_report_hits_ok [simp]: "rule_lib_ok m (reload_report_hits rp env counted lib) = rule_lib_ok m lib"
  by (simp add: rule_lib_ok_def reload_active_state_def)

lemma checked_recently_frame:
  "reload_checked_recently env lib = (recent, lib') \<Longrightarrow> \<exists>n. lib' = lib\<lparr>rl_last_check_ns := n\<rparr>"
proof -
  assume "reload_checked_recently env lib = (recent, lib')"
  then have "lib' = lib \<or> (\<exists>n. lib' = lib\<lparr>rl_last_check_ns := n\<rparr>)"
    by (auto simp: reload_checked_recently_def Let_def split: if_splits prod.splits)
  moreover have "lib = lib\<lparr>rl_last_check_ns := rl_last_check_ns lib\<rparr>" by simp
  ultimately show ?thesis by metis
qed

lemma other_snapshot: "a < 2 \<Longrightarrow> 1 - a < (2::nat) \<and> 1 - a \<noteq> a"
  by arith

lemma set_other_state:
  assumes "rule_lib_ok m lib" "i = 1 - rl_active_index lib"
  shows "reload_active_state (set_state i f lib) = reload_active_state lib"
    "rule_lib_ok m (set_state i f lib)" "rl_states (set_state i f lib) ! i = f (rl_states lib ! i)"
proof -
  have i: "i < 2" "i \<noteq> rl_active_index lib" "length (rl_states lib) = 2" "rl_active_index lib < 2"
    using assms other_snapshot [of "rl_active_index lib"] by (auto simp: rule_lib_ok_def)
  then show a: "reload_active_state (set_state i f lib) = reload_active_state lib"
    by (simp add: reload_active_state_def)
  show "rule_lib_ok m (set_state i f lib)"
    using assms(1) unfolding rule_lib_ok_def a by simp
  show "rl_states (set_state i f lib) ! i = f (rl_states lib ! i)" using i by simp
qed

lemma building_set:
  assumes "rule_lib_ok m lib" "i = 1 - rl_active_index lib"
    "length (rs_rules (f (rl_states lib ! i))) \<le> m" "length (rs_rules (f (rl_states lib ! i))) \<le> length (rl_texts lib)"
  shows "state_building m i (set_state i f lib)"
  using assms set_other_state [OF assms(1,2)] by (simp add: state_building_def)

lemma building_reset_state:
  "rule_lib_ok m lib \<Longrightarrow> i = 1 - rl_active_index lib \<Longrightarrow> state_building m i (set_state i (reload_reset_state ok) lib)"
  by (rule building_set) simp_all

lemma building_reject_file:
  "rule_lib_ok m lib \<Longrightarrow> i = 1 - rl_active_index lib \<Longrightarrow> state_building m i (reload_reject_file i reason lib)"
  using building_reset_state [of m lib i False] by (simp add: reload_reject_file_def state_building_def)

text \<open>A hit of any rule copy, stale ones included, goes through the slot pool.\<close>

definition count_hit :: "'a rule_head_scheme \<Rightarrow> ('a rule_head_scheme) rule_lib \<Rightarrow> ('a rule_head_scheme) rule_lib" where
  "count_hit rule lib = lib\<lparr>rl_pool := fst (snd (fire_on_pool rule (rl_pool lib)))\<rparr>"

text \<open>The library from its initialisation on: checks of the rule file, hits, reports, forks, and whatever the
  calls counted.\<close>

inductive reload_reachable ::
  "('a rule_head_scheme) reload_params \<Rightarrow> ('a rule_head_scheme) rule_lib \<Rightarrow> bool"
  for rp :: "('a rule_head_scheme) reload_params" where
  Lib_Init: "length (rl_states lib) = 2 \<Longrightarrow> length (rl_pool lib) = 2 * rp_max_rules rp \<Longrightarrow>
    reload_reachable rp (reload_init rp env lib)"
| Lib_Refresh: "reload_reachable rp lib \<Longrightarrow> reload_reachable rp (snd (reload_refresh rp env lib))"
| Lib_Hit: "reload_reachable rp lib \<Longrightarrow> reload_reachable rp (count_hit rule lib)"
| Lib_Calls: "reload_reachable rp lib \<Longrightarrow> reload_reachable rp (lib\<lparr>rl_counters := cs, rl_tls_prng := prng\<rparr>)"
| Lib_Report: "reload_reachable rp lib \<Longrightarrow> reload_reachable rp (reload_report_hits rp env counted lib)"
| Lib_Fork: "reload_reachable rp lib \<Longrightarrow> reload_reachable rp (reload_after_fork rp env lib)"

text \<open>The file the environment offers a reload: readable, with this stamp and these contents.\<close>

definition reload_offers :: "'r reload_params \<Rightarrow> io_env \<Rightarrow> u64 \<Rightarrow> string \<Rightarrow> bool" where
  "reload_offers rp env observed data \<longleftrightarrow>
     open_loop (ev_opens env) = None \<and> read_all (rp_max_bytes rp) (ev_reads env) [] = Read_Ok data \<and>
     (case ev_fstat env of None \<Rightarrow> False | Some s \<Rightarrow> observed = reload_hash_mtime rp (Some s))"

text \<open>What the reload relies on: the parser of the library keeps the limits of the arrays and gives a reason for
  every refusal.\<close>

locale reload_library =
  fixes rp :: "('a rule_head_scheme) reload_params"
  assumes parsed_fits: "pr_ok (rp_parse rp err data) \<Longrightarrow> length (pr_rules (rp_parse rp err data)) \<le> rp_max_rules rp"
    and parsed_texts: "pr_ok (rp_parse rp err data) \<Longrightarrow>
      length (pr_texts (rp_parse rp err data)) = length (pr_rules (rp_parse rp err data))"
    and refused_reason: "\<not> pr_ok (rp_parse rp err data) \<Longrightarrow> err_reason (pr_error (rp_parse rp err data)) \<noteq> None"
begin

lemma parse_state_unfold:
  "data \<noteq> [] \<Longrightarrow> result = rp_parse rp (rl_error lib) data \<Longrightarrow> parse_state rp i data lib =
    set_state i (if pr_ok result then \<lambda>st. st\<lparr>rs_rules := pr_rules result\<rparr> else reload_reset_state False)
      (lib\<lparr>rl_error := pr_error result, rl_texts := pr_texts result\<rparr>)"
  by (simp add: parse_state_def Let_def)

lemma building_parse_state:
  assumes "rule_lib_ok (rp_max_rules rp) lib" "i = 1 - rl_active_index lib" "rs_rules (rl_states lib ! i) = []"
  shows "state_building (rp_max_rules rp) i (parse_state rp i data lib)"
proof (cases "data = []")
  case True
  then show ?thesis using assms by (simp add: parse_state_def state_building_def)
next
  case False
  show ?thesis
    unfolding parse_state_unfold [OF False refl]
    by (rule building_set) (use assms parsed_fits parsed_texts in \<open>simp_all add: if_distrib if_distribR\<close>)
qed

text \<open>Attaching and releasing: the snapshot being built gets its texts and slots, and with the release of all other
  slots it is sound but for its sequence.\<close>

lemma attach_hits_sound:
  assumes "state_building (rp_max_rules rp) i lib"
  obtains pool slots texts where
    "rl_states (reload_attach_hits i lib) = (rl_states lib)[i := (rl_states lib ! i)\<lparr>rs_text := texts,
       rs_hits := slots, rs_rules := map2 (attach_head pool) slots (rs_rules (rl_states lib ! i))\<rparr>]"
    "rl_pool (reload_attach_hits i lib) = pool" "length pool = length (rl_pool lib)"
    "length slots = length (rs_rules (rl_states lib ! i))" "length texts = length (rs_rules (rl_states lib ! i))"
    "pool_ok (chaos_hits_release pool slots) slots"
    "heads_attached (chaos_hits_release pool slots) slots (map2 (attach_head pool) slots (rs_rules (rl_states lib ! i)))"
proof -
  define rules where "rules = rs_rules (rl_states lib ! i)"
  define active where "active = reload_active_state lib"
  define texts where "texts = take (length rules) (rl_texts lib)"
  have a: "length (rl_pool lib) = 2 * rp_max_rules rp" "state_ok (rp_max_rules rp) (rl_pool lib) active"
    "length rules \<le> rp_max_rules rp" "length texts = length rules"
    using assms by (auto simp: state_building_def rule_lib_ok_def active_def rules_def texts_def)
  obtain pool slots where asg: "chaos_hits_assign (rl_pool lib) (rs_hits active) (rs_text active)
      (length (rs_rules active)) texts = (pool, slots)" by fastforce
  have hits: "length (rs_hits active) = length (rs_rules active)"
    using a(2) heads_attached_length by (auto simp: state_ok_def)
  have pre: "pool_ok (rl_pool lib) (take (length (rs_rules active)) (rs_hits active))"
    "length (rs_rules active) \<le> length (rs_hits active)" "2 * rp_max_rules rp \<le> length (rl_pool lib)"
    "length (rs_rules active) \<le> rp_max_rules rp" "length texts \<le> rp_max_rules rp"
    using a hits by (simp_all add: state_ok_def)
  note rel = assign_release [OF pre asg]
  have slots: "length slots = length rules" using rel a(4) by simp
  have gen: "\<forall>j. Some j \<in> set slots \<longrightarrow>
      slot_generation (chaos_hits_release pool slots ! j) = slot_generation (pool ! j)"
  proof (intro allI impI)
    fix j assume j: "Some j \<in> set slots"
    then have "j < length pool" using rel by (auto simp: pool_ok_def used_slots_def)
    with j show "slot_generation (chaos_hits_release pool slots ! j) = slot_generation (pool ! j)"
      by (simp add: release_nth)
  qed
  have attached: "reload_attach_hits i lib = (set_state i (\<lambda>st. st\<lparr>rs_text := texts, rs_hits := slots,
      rs_rules := map2 (attach_head pool) slots (rs_rules st)\<rparr>) lib)
        \<lparr>rl_pool := pool, rl_pool_used := (0 < length rules \<or> rl_pool_used lib)\<rparr>"
    unfolding reload_attach_hits_def Let_def active_def [symmetric] rules_def [symmetric] texts_def [symmetric] asg
    by simp
  show thesis
  proof (rule that)
    show "length pool = length (rl_pool lib)" by (rule assign_specD(1) [OF assign_spec_of [OF pre asg]])
    show "length slots = length (rs_rules (rl_states lib ! i))" using slots by (simp add: rules_def)
    show "length texts = length (rs_rules (rl_states lib ! i))" using a(4) by (simp add: rules_def)
    show "pool_ok (chaos_hits_release pool slots) slots" using rel by simp
    show "heads_attached (chaos_hits_release pool slots) slots (map2 (attach_head pool) slots (rs_rules (rl_states lib ! i)))"
      using heads_attached_map2 [OF slots _ gen] rel by (simp add: pool_ok_def rules_def)
    show "rl_states (reload_attach_hits i lib) = (rl_states lib)[i := (rl_states lib ! i)\<lparr>rs_text := texts,
       rs_hits := slots, rs_rules := map2 (attach_head pool) slots (rs_rules (rl_states lib ! i))\<rparr>]"
      "rl_pool (reload_attach_hits i lib) = pool"
      by (simp_all add: attached set_state_def)
  qed
qed

lemma finish_state_ok:
  assumes "state_building (rp_max_rules rp) i lib"
  shows "rule_lib_ok (rp_max_rules rp) (finish_state rp env i observed content lib)" (is "?ok")
    and "map bare_head (rs_rules (reload_active_state (finish_state rp env i observed content lib))) =
      map bare_head (rs_rules (rl_states lib ! i))" (is "?rules")
    and "rl_cached_mtime (finish_state rp env i observed content lib) = observed"
    and "rl_content (finish_state rp env i observed content lib) = content"
    and "rl_counters (finish_state rp env i observed content lib) = rp_reset_counters rp (rl_counters lib)"
    and "rl_fs (finish_state rp env i observed content lib) = rl_fs (reload_report rp env observed (rl_states lib ! i) lib)"
proof -
  define lib1 where "lib1 = lib\<lparr>rl_content := content\<rparr>"
  have b: "state_building (rp_max_rules rp) i lib1" using assms by (auto simp: lib1_def state_building_def)
  have same: "rl_states lib1 = rl_states lib" "rl_pool lib1 = rl_pool lib" by (simp_all add: lib1_def)
  obtain pool slots texts where att:
    "rl_states (reload_attach_hits i lib1) = (rl_states lib)[i := (rl_states lib ! i)\<lparr>rs_text := texts,
       rs_hits := slots, rs_rules := map2 (attach_head pool) slots (rs_rules (rl_states lib ! i))\<rparr>]"
    "rl_pool (reload_attach_hits i lib1) = pool" "length pool = length (rl_pool lib)"
    "length slots = length (rs_rules (rl_states lib ! i))" "length texts = length (rs_rules (rl_states lib ! i))"
    "pool_ok (chaos_hits_release pool slots) slots"
    "heads_attached (chaos_hits_release pool slots) slots (map2 (attach_head pool) slots (rs_rules (rl_states lib ! i)))"
    using attach_hits_sound [OF b] unfolding same by blast
  define st where "st = (rl_states lib ! i)\<lparr>rs_text := texts, rs_hits := slots,
    rs_rules := map2 (attach_head pool) slots (rs_rules (rl_states lib ! i))\<rparr>"
  have a: "i < 2" "length (rl_states lib) = 2" "length (rl_pool lib) = 2 * rp_max_rules rp"
    "length (rs_rules (rl_states lib ! i)) \<le> rp_max_rules rp"
    using assms by (auto simp: state_building_def rule_lib_ok_def)
  have frame: "rl_content (reload_attach_hits i lib1) = content" "rl_fs (reload_attach_hits i lib1) = rl_fs lib"
    "rl_error (reload_attach_hits i lib1) = rl_error lib" "rl_counters (reload_attach_hits i lib1) = rl_counters lib"
    by (simp_all add: reload_attach_hits_def lib1_def Let_def split: prod.split)
  define lib2 where "lib2 = release_state i (reload_report rp env observed st (reload_attach_hits i lib1))"
  have fin: "finish_state rp env i observed content lib = reload_publish rp i observed lib2"
    using a(1,2) by (simp add: finish_state_def lib1_def [symmetric] lib2_def att(1) st_def Let_def)
  have lib2: "rl_states lib2 = (rl_states lib)[i := st]" "rl_pool lib2 = chaos_hits_release pool slots"
    using a(1,2) by (simp_all add: lib2_def release_state_def att(1,2) st_def)
  have fs: "rl_fs lib2 = rl_fs (reload_report rp env observed (rl_states lib ! i) lib)"
    using att(4) by (simp add: lib2_def release_state_def reload_report_def frame st_def)
  have new: "reload_active_state (finish_state rp env i observed content lib) = finish_write st"
    using a(1,2) by (simp add: fin reload_publish_def reload_active_state_def set_state_def lib2)
  have "state_ok (rp_max_rules rp) (chaos_hits_release pool slots) (finish_write st)"
    using att a(4) by (simp add: state_ok_def finish_write_def st_def write_end_even)
  then show ?ok
    using a att(3) lib2 unfolding rule_lib_ok_def new by (simp add: fin reload_publish_def)
  have "map bare_head (map2 (attach_head pool) slots (rs_rules (rl_states lib ! i))) = map bare_head (rs_rules (rl_states lib ! i))"
    using att(4) by (intro nth_equalityI) simp_all
  then show ?rules unfolding new by (simp add: finish_write_def st_def)
  have "rl_content lib2 = content" "rl_counters lib2 = rl_counters lib" by (simp_all add: lib2_def release_state_def frame)
  then show "rl_cached_mtime (finish_state rp env i observed content lib) = observed"
    "rl_content (finish_state rp env i observed content lib) = content"
    "rl_counters (finish_state rp env i observed content lib) = rp_reset_counters rp (rl_counters lib)"
    "rl_fs (finish_state rp env i observed content lib) = rl_fs (reload_report rp env observed (rl_states lib ! i) lib)"
    by (simp_all add: fin reload_publish_def fs)
qed

text \<open>The library as the read leaves it, with the snapshot at \<open>i\<close> reset.\<close>

lemma reset_then_read:
  assumes "rule_lib_ok m lib" "i = 1 - rl_active_index lib"
    "reload_read_file rp env observed (set_state i (reload_reset_state True) lib) = (rc, lib1)"
  shows "rule_lib_ok m lib1" "rl_active_index lib1 = rl_active_index lib" "rl_pool lib1 = rl_pool lib"
    "rl_fs lib1 = rl_fs lib" "reload_active_state lib1 = reload_active_state lib" "rl_content lib1 = rl_content lib"
    "rl_error lib1 = rl_error lib" "rl_counters lib1 = rl_counters lib"
    "rl_states lib1 ! i = reload_reset_state True (rl_states lib ! i)"
proof -
  obtain b where b: "lib1 = (set_state i (reload_reset_state True) lib)\<lparr>rl_provisional := b\<rparr>"
    using reload_read_frame [OF assms(3)] by blast
  note u = set_other_state [OF assms(1,2), of "reload_reset_state True"]
  show "rule_lib_ok m lib1" "rl_active_index lib1 = rl_active_index lib" "rl_pool lib1 = rl_pool lib"
    "rl_fs lib1 = rl_fs lib" "reload_active_state lib1 = reload_active_state lib" "rl_content lib1 = rl_content lib"
    "rl_error lib1 = rl_error lib" "rl_counters lib1 = rl_counters lib"
    "rl_states lib1 ! i = reload_reset_state True (rl_states lib ! i)"
    unfolding b using u by simp_all
qed

lemma reload_run_at:
  assumes "i = 1 - rl_active_index lib"
    "reload_read_file rp env observed (set_state i (reload_reset_state True) lib) = (rc, lib1)"
  shows "reload_run rp env observed prev lib =
    (if observed = CHAOS_IO_MTIME_MISSING
     then finish_state rp env i observed 0 (set_state i (reload_reset_state True) lib)
     else case rc of
            Read_Too_Large \<Rightarrow> finish_state rp env i observed 0 (reload_reject_file i REASON_TOO_LARGE lib1)
          | Read_Unreadable \<Rightarrow> finish_state rp env i observed 0 (reload_reject_file i REASON_UNREADABLE lib1)
          | Read_Retry \<Rightarrow> lib1\<lparr>rl_cached_mtime := prev\<rparr>
          | Read_Ok data \<Rightarrow>
              (if observed = prev \<and> chaos_config_content_hash data = rl_content lib1
               then lib1\<lparr>rl_cached_mtime := prev\<rparr>
               else finish_state rp env i observed (chaos_config_content_hash data)
                      (if NUL \<in> set data then reload_reject_file i REASON_NUL lib1
                       else parse_state rp i data lib1)))"
  unfolding reload_run_def Let_def assms(1) [symmetric] assms(2) prod.case by (rule refl)

lemma reload_run_read:
  assumes "observed \<noteq> CHAOS_IO_MTIME_MISSING" "i = 1 - rl_active_index lib"
    "reload_read_file rp env observed (set_state i (reload_reset_state True) lib) = (Read_Ok data, lib1)"
    "observed \<noteq> prev \<or> chaos_config_content_hash data \<noteq> rl_content lib1"
  shows "reload_run rp env observed prev lib = finish_state rp env i observed (chaos_config_content_hash data)
    (if NUL \<in> set data then reload_reject_file i REASON_NUL lib1 else parse_state rp i data lib1)"
  using assms(1,4) by (simp only: reload_run_at [OF assms(2,3)]) auto

lemma reload_run_retry:
  assumes "observed \<noteq> CHAOS_IO_MTIME_MISSING" "i = 1 - rl_active_index lib"
    "reload_read_file rp env observed (set_state i (reload_reset_state True) lib) = (Read_Retry, lib1)"
  shows "reload_run rp env observed prev lib = lib1\<lparr>rl_cached_mtime := prev\<rparr>"
  using assms(1) by (simp only: reload_run_at [OF assms(2,3)]) simp

lemma reload_run_ok:
  assumes "rule_lib_ok (rp_max_rules rp) lib"
  shows "rule_lib_ok (rp_max_rules rp) (reload_run rp env observed prev lib)"
proof -
  define i where "i = 1 - rl_active_index lib"
  obtain rc lib1 where rd: "reload_read_file rp env observed (set_state i (reload_reset_state True) lib) = (rc, lib1)"
    by fastforce
  note r = reset_then_read [OF assms i_def rd]
  have i1: "i = 1 - rl_active_index lib1" using r(2) by (simp add: i_def)
  have missing: "rule_lib_ok (rp_max_rules rp)
      (finish_state rp env i c 0 (set_state i (reload_reset_state True) lib))" for c
    by (rule finish_state_ok(1)) (rule building_reset_state [OF assms i_def])
  have reject: "rule_lib_ok (rp_max_rules rp) (finish_state rp env i observed c (reload_reject_file i reason lib1))" for c reason
    by (rule finish_state_ok(1)) (rule building_reject_file [OF r(1) i1])
  have parse: "rule_lib_ok (rp_max_rules rp) (finish_state rp env i observed c (parse_state rp i data lib1))" for c data
    by (rule finish_state_ok(1)) (rule building_parse_state [OF r(1) i1], simp add: r(9))
  show ?thesis
    unfolding reload_run_at [OF i_def rd]
    using missing reject parse r(1) by (auto split: read_result.split)
qed

lemma refresh_ok:
  assumes "rule_lib_ok (rp_max_rules rp) lib"
  shows "rule_lib_ok (rp_max_rules rp) (snd (reload_refresh rp env lib))"
proof -
  obtain recent lib1 where c: "reload_checked_recently env lib = (recent, lib1)" by fastforce
  then have ok1: "rule_lib_ok (rp_max_rules rp) lib1" using checked_recently_frame assms by fastforce
  show ?thesis
    using ok1 by (auto simp: reload_refresh_def c Let_def intro!: reload_run_ok)
qed

lemma hit_ok:
  assumes "rule_lib_ok m lib"
  shows "rule_lib_ok m (count_hit rule lib)"
proof -
  obtain fired pool' hook where f: "fire_on_pool rule (rl_pool lib) = (fired, pool', hook)" by (metis prod_cases3)
  note fr = fire_pool_frame [OF f]
  have used: "used_slots pool' = used_slots (rl_pool lib)" by (simp add: used_slots_def fr)
  have "state_ok m pool' (reload_active_state lib)"
    using assms fr(2) heads_attached_cong used unfolding rule_lib_ok_def state_ok_def pool_ok_def by metis
  with assms show ?thesis by (simp add: count_hit_def f rule_lib_ok_def fr(1))
qed

lemma fork_ok:
  assumes "rule_lib_ok m lib"
  shows "rule_lib_ok m (reload_after_fork rp env lib)"
proof -
  define pool slots where "pool = rl_pool lib" and "slots = rs_hits (reload_active_state lib)"
  have ok: "state_ok m pool (reload_active_state lib)" using assms by (simp add: rule_lib_ok_def pool_def)
  then have p: "pool_ok pool slots" by (simp add: state_ok_def slots_def)
  let ?fp = "chaos_hits_pool_after_fork pool slots"
  have p': "pool_ok ?fp slots" using p by (auto simp: pool_ok_def after_fork_used)
  have len: "length ?fp = length pool" by (simp add: chaos_hits_pool_after_fork_def)
  have "slot_generation (?fp ! i) = slot_generation (pool ! i)" if "Some i \<in> set slots" for i
  proof -
    have "i < length pool" using p that by (auto simp: pool_ok_def used_slots_def)
    with that show ?thesis by (simp add: chaos_hits_pool_after_fork_def after_fork_slot_def release_nth)
  qed
  then have "state_ok m ?fp (reload_active_state lib)"
    using ok p' heads_attached_cong unfolding state_ok_def slots_def by blast
  moreover have "reload_active_state (reload_after_fork rp env lib) = reload_active_state lib"
    by (simp add: reload_after_fork_def reload_active_state_def)
  ultimately show ?thesis
    using assms ok len by (auto simp: rule_lib_ok_def reload_after_fork_def pool_def slots_def)
qed

lemma init_ok:
  assumes "length (rl_states lib) = 2" "length (rl_pool lib) = 2 * rp_max_rules rp"
  shows "rule_lib_ok (rp_max_rules rp) (reload_init rp env lib)"
proof -
  have "used_slots (chaos_hits_pool_reset (rl_pool lib)) = {}"
    by (auto simp: used_slots_def chaos_hits_pool_reset_def reset_slot_def Let_def)
  moreover have "reload_active_state (reload_init rp env lib) = finish_write (reload_reset_state True (rl_states lib ! 0))"
    using assms(1) by (simp add: reload_init_def reload_active_state_def)
  ultimately show ?thesis
    using assms
    by (simp add: rule_lib_ok_def reload_init_def state_ok_def finish_write_def write_end_even
        reload_reset_state_def pool_ok_def heads_attached_def chaos_hits_pool_reset_def)
qed

lemma calls_ok: "rule_lib_ok m (lib\<lparr>rl_counters := cs, rl_tls_prng := prng\<rparr>) = rule_lib_ok m lib"
  by (simp add: rule_lib_ok_def reload_active_state_def)

lemma reachable_ok: "reload_reachable rp lib \<Longrightarrow> rule_lib_ok (rp_max_rules rp) lib"
  by (induction rule: reload_reachable.induct)
    (simp_all add: init_ok refresh_ok hit_ok calls_ok fork_ok)

text \<open>The active snapshot of a reachable library is sound and no reader sees it half written.\<close>

lemma reachable_sound:
  assumes "reload_reachable rp lib"
  shows "length (rs_rules (reload_active_state lib)) \<le> rp_max_rules rp \<and>
    length (rs_text (reload_active_state lib)) = length (rs_rules (reload_active_state lib)) \<and>
    pool_ok (rl_pool lib) (rs_hits (reload_active_state lib)) \<and>
    heads_attached (rl_pool lib) (rs_hits (reload_active_state lib)) (rs_rules (reload_active_state lib)) \<and>
    chaos_snapshot_read_valid (rs_sequence (reload_active_state lib))
      (chaos_snapshot_read_begin (rs_sequence (reload_active_state lib)))"
  using reachable_ok [OF assms]
  by (simp add: rule_lib_ok_def state_ok_def chaos_snapshot_read_valid_def chaos_snapshot_read_begin_def)

text \<open>A read of a file with these contents.\<close>

lemma read_offers:
  assumes "reload_offers rp env observed data"
  shows "fst (reload_read_file rp env observed lib) = Read_Ok data"
  using assms by (auto simp: reload_offers_def reload_read_file_def split: option.splits)

text \<open>A changed file is taken whole or refused whole: the outcome in the active snapshot, the stamp, the status
  file and the counters.\<close>

lemma changed_file:
  assumes "reload_reachable rp lib" "reload_offers rp env observed data" "observed \<noteq> CHAOS_IO_MTIME_MISSING"
    "observed \<noteq> prev \<or> chaos_config_content_hash data \<noteq> rl_content lib" "data \<noteq> []"
  shows "let lib' = reload_run rp env observed prev lib; result = rp_parse rp (rl_error lib) data;
      write = chaos_status_write (rl_fs lib) (ev_publish env) (rp_status_path rp) in
    rl_cached_mtime lib' = observed \<and> rl_counters lib' = rp_reset_counters rp (rl_counters lib) \<and>
    (if NUL \<notin> set data \<and> pr_ok result
     then map bare_head (rs_rules (reload_active_state lib')) = map bare_head (pr_rules result) \<and>
       rl_fs lib' = write CHAOS_STATUS_OK (length (pr_rules result)) None
     else rs_rules (reload_active_state lib') = [] \<and>
       (\<exists>e. err_reason e \<noteq> None \<and> rl_fs lib' = write CHAOS_STATUS_ERROR 0 (Some e)))"
proof -
  define i where "i = 1 - rl_active_index lib"
  define result where "result = rp_parse rp (rl_error lib) data"
  have ok: "rule_lib_ok (rp_max_rules rp) lib" by (rule reachable_ok [OF assms(1)])
  obtain lib1 where rd: "reload_read_file rp env observed (set_state i (reload_reset_state True) lib) = (Read_Ok data, lib1)"
    using read_offers [OF assms(2)] by (metis prod.collapse)
  note r = reset_then_read [OF ok i_def rd]
  have i1: "i = 1 - rl_active_index lib1" using r(2) by (simp add: i_def)
  define lib2 where "lib2 = (if NUL \<in> set data then reload_reject_file i REASON_NUL lib1 else parse_state rp i data lib1)"
  have run: "reload_run rp env observed prev lib = finish_state rp env i observed (chaos_config_content_hash data) lib2"
    using reload_run_read [OF assms(3) i_def rd] assms(4) r(6) by (simp add: lib2_def)
  have b: "state_building (rp_max_rules rp) i lib2"
    using building_reject_file [OF r(1) i1] building_parse_state [OF r(1) i1] r(9) by (simp add: lib2_def)
  define lib' where "lib' = lib1\<lparr>rl_error := pr_error result, rl_texts := pr_texts result\<rparr>"
  have ok': "rule_lib_ok (rp_max_rules rp) lib'" "i = 1 - rl_active_index lib'" "rl_states lib' = rl_states lib1"
    using r(1) i1 by (simp_all add: lib'_def)
  note p = parse_state_unfold [OF assms(5), of result lib1 i, unfolded r(7), OF result_def, folded lib'_def]
  note at = set_other_state(3) [OF ok'(1,2)] set_other_state(3) [OF r(1) i1]
  have st: "rl_states lib2 ! i = (if NUL \<notin> set data \<and> pr_ok result
      then (rl_states lib1 ! i)\<lparr>rs_rules := pr_rules result\<rparr> else reload_reset_state False (rl_states lib1 ! i))"
    by (simp add: lib2_def p reload_reject_file_def at ok'(3))
  have frame: "rl_fs lib2 = rl_fs lib" "rl_counters lib2 = rl_counters lib"
    "rl_error lib2 = (if NUL \<in> set data then chaos_status_reject (chaos_status_clear (rl_error lib)) REASON_NUL else pr_error result)"
    using r(4,7,8) by (simp_all add: lib2_def p lib'_def reload_reject_file_def)
  have reason: "\<not> (NUL \<notin> set data \<and> pr_ok result) \<Longrightarrow> err_reason (rl_error lib2) \<noteq> None"
    using refused_reason unfolding frame(3) result_def by (auto simp: chaos_status_reject_def)
  have none: "map bare_head rs = [] \<Longrightarrow> rs = []" for rs :: "'a rule_head_scheme list" by simp
  show ?thesis
    unfolding Let_def result_def [symmetric] run
    using finish_state_ok(2-6) [OF b] st frame(1,2) reason assms(3)
    by (auto simp: reload_report_def r(9) intro: none)
qed

text \<open>A missing file deactivates everything and removes the status file.\<close>

lemma missing_file:
  assumes "reload_reachable rp lib"
  shows "rs_rules (reload_active_state (reload_run rp env CHAOS_IO_MTIME_MISSING prev lib)) = [] \<and>
    rl_fs (reload_run rp env CHAOS_IO_MTIME_MISSING prev lib) = (rl_fs lib)(rp_status_path rp := None)"
proof -
  define i where "i = 1 - rl_active_index lib"
  have ok: "rule_lib_ok (rp_max_rules rp) lib" by (rule reachable_ok [OF assms])
  note f = finish_state_ok(2,6) [OF building_reset_state [OF ok i_def, of True], of env CHAOS_IO_MTIME_MISSING 0]
  note s = set_other_state(3) [OF ok i_def, of "reload_reset_state True"]
  obtain rc lib1 where rd: "reload_read_file rp env CHAOS_IO_MTIME_MISSING (set_state i (reload_reset_state True) lib) = (rc, lib1)"
    by fastforce
  show ?thesis
    unfolding reload_run_at [OF i_def rd] using f by (simp add: s reload_report_def chaos_status_remove_def)
qed

text \<open>A file read again, with the same stamp and the same contents, keeps snapshot, counters and files.\<close>

lemma unchanged_file:
  assumes "reload_reachable rp lib" "reload_offers rp env observed data" "observed \<noteq> CHAOS_IO_MTIME_MISSING"
    "chaos_config_content_hash data = rl_content lib"
  shows "let lib' = reload_run rp env observed observed lib in
    reload_active_state lib' = reload_active_state lib \<and> rl_pool lib' = rl_pool lib \<and> rl_fs lib' = rl_fs lib \<and>
    rl_counters lib' = rl_counters lib \<and> rl_cached_mtime lib' = observed"
proof -
  define i where "i = 1 - rl_active_index lib"
  have ok: "rule_lib_ok (rp_max_rules rp) lib" by (rule reachable_ok [OF assms(1)])
  obtain lib1 where rd: "reload_read_file rp env observed (set_state i (reload_reset_state True) lib) = (Read_Ok data, lib1)"
    using read_offers [OF assms(2)] by (metis prod.collapse)
  note r = reset_then_read [OF ok i_def rd]
  have "reload_run rp env observed observed lib = lib1\<lparr>rl_cached_mtime := observed\<rparr>"
    unfolding reload_run_at [OF i_def rd] using assms(3,4) r(6) by simp
  with r show ?thesis by simp
qed

text \<open>A check that sees the stamp remembered and trusts it looks no further.\<close>

lemma trusted_stamp:
  assumes "\<not> rl_provisional lib" "reload_observed_mtime rp env = rl_cached_mtime lib"
  shows "reload_active_state (snd (reload_refresh rp env lib)) = reload_active_state lib"
proof -
  obtain recent lib1 where c: "reload_checked_recently env lib = (recent, lib1)" by fastforce
  then obtain n where n: "lib1 = lib\<lparr>rl_last_check_ns := n\<rparr>" using checked_recently_frame by blast
  have "reload_active_state (reload_report_hits rp env False lib1) = reload_active_state lib1"
    by (simp add: reload_active_state_def)
  then show ?thesis
    using assms by (simp add: reload_refresh_def c Let_def n)
qed

text \<open>A load whose stamp could not be trusted is to be read again; when that reading fails for the moment, the
  mistrust is forgotten although the stamp is put back, and no later check with this stamp reads the file.\<close>

lemma mistrust_forgotten:
  assumes "reload_reachable rp lib" "rl_provisional lib" "rl_cached_mtime lib = reload_observed_mtime rp env"
    "rl_cached_mtime lib \<noteq> CHAOS_IO_MTIME_MISSING" "rl_cached_mtime lib \<noteq> CHAOS_IO_MTIME_RELOADING"
    "fst (reload_read_file rp env (rl_cached_mtime lib) lib) = Read_Retry"
    "\<not> fst (reload_checked_recently env lib)" "reload_observed_mtime rp later = rl_cached_mtime lib"
  shows "let lib' = snd (reload_refresh rp env lib) in \<not> rl_provisional lib' \<and> rl_cached_mtime lib' = rl_cached_mtime lib \<and>
    reload_active_state (snd (reload_refresh rp later lib')) = reload_active_state lib"
proof -
  define m where "m = rl_cached_mtime lib"
  obtain lib1 where c: "reload_checked_recently env lib = (False, lib1)" using assms(7) by (metis prod.collapse)
  then obtain n where n: "lib1 = lib\<lparr>rl_last_check_ns := n\<rparr>" using checked_recently_frame by blast
  define lib2 where "lib2 = (if rl_hits_pending lib1 \<and> CHAOS_HITS_INTERVAL_MS \<le> ev_now_ms env - rl_hits_last_ms lib1
    then reload_report_hits rp env False lib1 else lib1)"
  have l2: "rl_cached_mtime lib2 = m" "rl_provisional lib2" "rl_states lib2 = rl_states lib"
    "rl_active_index lib2 = rl_active_index lib" "rule_lib_ok (rp_max_rules rp) lib2"
    using assms(2) reachable_ok [OF assms(1)] by (simp_all add: lib2_def n m_def)
  define lib3 where "lib3 = lib2\<lparr>rl_cached_mtime := CHAOS_IO_MTIME_RELOADING, rl_provisional := False\<rparr>"
  define i where "i = 1 - rl_active_index lib3"
  have l3: "rule_lib_ok (rp_max_rules rp) lib3" "reload_active_state lib3 = reload_active_state lib" "\<not> rl_provisional lib3"
    using l2(3-5) by (simp_all add: lib3_def reload_active_state_def)
  have refresh: "snd (reload_refresh rp env lib) = reload_run rp env m m lib3"
    using assms(3,5) l2(1,2) by (simp add: reload_refresh_def c Let_def lib2_def [symmetric] lib3_def m_def)
  obtain rc lib4 where rd: "reload_read_file rp env m (set_state i (reload_reset_state True) lib3) = (rc, lib4)" by fastforce
  have same: "fst (reload_read_file rp env m l) = fst (reload_read_file rp env m lib)" for l
    by (simp add: reload_read_file_def split: option.split read_result.split)
  have rc: "rc = Read_Retry" using same assms(6) rd by (metis fst_conv m_def)
  have prov: "\<not> rl_provisional lib4"
    using rd l3(3) unfolding rc by (auto simp: reload_read_file_def split: option.splits read_result.splits if_splits)
  have run: "reload_run rp env m m lib3 = lib4\<lparr>rl_cached_mtime := m\<rparr>"
    using assms(4) rd unfolding rc m_def by (intro reload_run_retry [OF _ i_def]) simp_all
  have act: "reload_active_state lib4 = reload_active_state lib"
    using reset_then_read(5) [OF l3(1) i_def rd] l3(2) by simp
  show ?thesis
    unfolding Let_def refresh run
    using prov act trusted_stamp [of "lib4\<lparr>rl_cached_mtime := m\<rparr>" later] assms(8) by (simp add: m_def)
qed

end

text \<open>Every line grammar gives such a parser.\<close>

lemma grammar_reload_library:
  assumes "line_grammar parse_line well_formed"
    "rp_parse rp = parse_rule_buffer parse_line supported max_rules" "rp_max_rules rp = max_rules"
  shows "reload_library rp"
proof
  fix err data
  note g = line_grammar.parsed_rules(1) [OF assms(1)] line_grammar.rejected_file(2) [OF assms(1)]
  show "pr_ok (rp_parse rp err data) \<Longrightarrow> length (pr_rules (rp_parse rp err data)) \<le> rp_max_rules rp"
    using g(1) assms(2,3) by simp
  show "pr_ok (rp_parse rp err data) \<Longrightarrow>
      length (pr_texts (rp_parse rp err data)) = length (pr_rules (rp_parse rp err data))"
    using parse_rule_buffer_texts assms(2) by simp
  show "\<not> pr_ok (rp_parse rp err data) \<Longrightarrow> err_reason (pr_error (rp_parse rp err data)) \<noteq> None"
    using g(2) assms(2) by simp
qed

section \<open>A library for examples\<close>

definition demo_rule_lib :: "nat \<Rightarrow> u64 \<Rightarrow> u64 list \<Rightarrow> 'r rule_lib" where
  "demo_rule_lib max_rules content counters =
     \<lparr>rl_states = replicate 2 \<lparr>rs_sequence = 0, rs_rules = [], rs_parse_ok = False, rs_hits = [], rs_text = []\<rparr>,
      rl_pool = replicate (2 * max_rules) idle_slot, rl_pool_used = False, rl_active_index = 0,
      rl_cached_mtime = CHAOS_IO_MTIME_UNKNOWN, rl_provisional = False, rl_content = content,
      rl_error = \<lparr>err_line = 0, err_reason = None, err_text = []\<rparr>, rl_texts = [], rl_hits_writing = False,
      rl_hits_pending = False, rl_hits_total = 0, rl_hits_last_ms = 0, rl_hits_pid = 0, rl_hits_file = 0,
      rl_hits_owned = False, rl_tls_prng = 0, rl_atfork_registered = False, rl_last_check_ns = 0,
      rl_check_interval_ns = CHAOS_CHECK_INTERVAL_NS, rl_counters = counters, rl_fs = (\<lambda>p. None)\<rparr>"

definition demo_started :: "('a rule_head_scheme) reload_params \<Rightarrow> u64 \<Rightarrow> ('a rule_head_scheme) rule_lib" where
  "demo_started rp content = reload_init rp demo_io_env (demo_rule_lib (rp_max_rules rp) content [])"

lemma demo_started_reachable: "reload_reachable rp (demo_started rp content)"
  unfolding demo_started_def by (rule Lib_Init) (simp_all add: demo_rule_lib_def)

lemma demo_started_simps [simp]:
  "rl_content (demo_started rp content) = content" "rl_counters (demo_started rp content) = rp_reset_counters rp []"
  "rl_error (demo_started rp content) = \<lparr>err_line = 0, err_reason = None, err_text = []\<rparr>"
  "rl_cached_mtime (demo_started rp content) = CHAOS_IO_MTIME_UNKNOWN" "rl_fs (demo_started rp content) = (\<lambda>p. None)"
  by (simp_all add: demo_started_def reload_init_def demo_rule_lib_def)

lemma demo_started_pending: "\<not> rl_hits_pending (demo_started rp content)"
  by (simp add: demo_started_def reload_init_def demo_rule_lib_def)

text \<open>The environment of the examples with other contents of the file.\<close>

definition demo_reading :: "string \<Rightarrow> io_env" where
  "demo_reading data = demo_io_env\<lparr>ev_reads := [Read_Data data]\<rparr>"

lemma demo_reading_offers:
  assumes "length data < rp_max_bytes rp" "data \<noteq> []"
  shows "reload_offers rp (demo_reading data) (reload_hash_mtime rp (ev_fstat demo_io_env)) data"
  using assms by (auto simp: reload_offers_def demo_reading_def demo_io_env_def)

text \<open>A first load keeps what the read found about the stamp.\<close>

lemma finish_state_frame [simp]:
  "rl_provisional (finish_state rp env i observed content lib) = rl_provisional lib"
  "rl_cached_mtime (finish_state rp env i observed content lib) = observed"
  by (simp_all add: finish_state_def Let_def reload_attach_hits_def reload_publish_def release_state_def reload_report_def
      split: prod.split)

lemma parse_state_provisional [simp]:
  "rl_provisional (parse_state rp i data lib) = rl_provisional lib"
  "rl_provisional (reload_reject_file i reason lib) = rl_provisional lib"
  by (simp_all add: parse_state_def Let_def reload_reject_file_def)

lemma first_load:
  assumes "reload_offers rp env observed data" "observed = reload_observed_mtime rp env" "ev_fstat env = Some s"
    "observed \<noteq> CHAOS_IO_MTIME_MISSING" "observed \<noteq> CHAOS_IO_MTIME_UNKNOWN" "rl_cached_mtime lib = CHAOS_IO_MTIME_UNKNOWN"
    "\<not> rl_hits_pending lib"
  shows "rl_cached_mtime (snd (reload_refresh rp env lib)) = observed \<and>
    rl_provisional (snd (reload_refresh rp env lib)) =
      chaos_clock_stamp_is_recent (ev_realtime_ms env) (fst_sec s) (fst_nsec s)"
proof -
  have read: "reload_read_file rp env observed l =
      (Read_Ok data, l\<lparr>rl_provisional := chaos_clock_stamp_is_recent (ev_realtime_ms env) (fst_sec s) (fst_nsec s)\<rparr>)" for l
    using assms(1,3) by (simp add: reload_offers_def reload_read_file_def)
  have "reload_checked_recently env lib = (False, lib)" using assms(6) by (simp add: reload_checked_recently_def)
  then have "snd (reload_refresh rp env lib) = reload_run rp env observed CHAOS_IO_MTIME_UNKNOWN
      (lib\<lparr>rl_cached_mtime := CHAOS_IO_MTIME_RELOADING, rl_provisional := False\<rparr>)"
    using assms(2,5,6,7)
    by (simp add: reload_refresh_def Let_def CHAOS_IO_MTIME_UNKNOWN_def CHAOS_IO_MTIME_RELOADING_def)
  then show ?thesis
    using assms(4,5) by (simp add: reload_run_def Let_def read)
qed

end
