(* ===== verification/Rule_Values.thy ===== *)
theory Rule_Values
  imports Rule_File
begin

text \<open>
  What the value parsers of the time, memory and process libraries share: signed conversion, error numbers, the
  fields between the first two colons, and a payload with a probability after its last \<open>@\<close>. Each library
  writes these helpers out for itself; its theory shows that they are the functions below.
\<close>

section \<open>strtol and strtoull\<close>

text \<open>
  \<open>strtol\<close> and \<open>strtoll\<close> in base 10 with 64 bits: the value, cut to the range of the type, the text at
  \<open>end\<close>, whether anything was converted, and whether \<open>errno\<close> becomes \<open>ERANGE\<close>.
\<close>

definition LONG_MAX :: int where "LONG_MAX = 9223372036854775807"
definition LONG_MIN :: int where "LONG_MIN = - 9223372036854775808"

definition strtol :: "string \<Rightarrow> int \<times> string \<times> bool \<times> bool" where
  "strtol s =
     (let (neg, body) = strtoul_sign (dropWhile c_isspace s);
          digits = takeWhile is_digit body;
          magnitude = int (decimal digits);
          value = (if neg then - magnitude else magnitude)
      in if digits = [] then (0, s, False, False)
         else if LONG_MAX < value then (LONG_MAX, dropWhile is_digit body, True, True)
         else if value < LONG_MIN then (LONG_MIN, dropWhile is_digit body, True, True)
         else (value, dropWhile is_digit body, True, False))"

text \<open>\<open>strtoull\<close> reads like \<open>strtoul\<close>; it leaves \<open>ERANGE\<close> for a magnitude of more than 64 bits.\<close>

definition strtoull_range :: "string \<Rightarrow> bool" where
  "strtoull_range s =
     (let (neg, body) = strtoul_sign (dropWhile c_isspace s) in ulong_max < decimal (takeWhile is_digit body))"

lemma strtol_range: "LONG_MIN \<le> fst (strtol s) \<and> fst (strtol s) \<le> LONG_MAX"
  by (auto simp: strtol_def LONG_MIN_def LONG_MAX_def Let_def split: prod.splits)

lemma print_nat_head: "\<exists>c cs. print_nat n = c # cs \<and> is_digit c"
  using print_nat_digits [of _ n] by (cases "print_nat n") auto

lemma print_nat_spans [simp]: "takeWhile is_digit (print_nat n) = print_nat n" "dropWhile is_digit (print_nat n) = []"
  using print_nat_digits [of _ n] by (simp_all add: takeWhile_all)

lemma strtol_print_int:
  assumes "LONG_MIN \<le> i" "i \<le> LONG_MAX"
  shows "strtol (print_int i) = (i, [], True, False)"
proof (cases "i < 0")
  case True
  have "strtoul_sign (dropWhile c_isspace (print_int i)) = (True, print_nat (nat (- i)))"
    using True by (simp add: print_int_def strtoul_sign_def c_isspace_def)
  with True assms show ?thesis by (simp add: strtol_def)
next
  case False
  obtain c cs where p: "print_nat (nat i) = c # cs" "is_digit c" using print_nat_head by blast
  then have "\<not> c_isspace c" "c \<noteq> CHR ''-''" "c \<noteq> CHR ''+''" by (auto simp: is_digit_def c_isspace_def)
  with p False have "strtoul_sign (dropWhile c_isspace (print_int i)) = (False, print_nat (nat i))"
    by (simp add: print_int_def strtoul_sign_def)
  with False assms show ?thesis by (simp add: strtol_def)
qed

lemma plain_print_int: "plain_field (print_int i)"
proof (cases "i < 0")
  case True
  have "plain_field (print_nat (nat (- i)))" by (rule plain_print_nat)
  with True show ?thesis by (auto simp: plain_field_def trimmed_def print_int_def is_blank_char_def)
next
  case False
  then show ?thesis using plain_print_nat [of "nat i"] by (simp add: print_int_def)
qed

lemma strtoul_print_nat_full: "n \<le> ulong_max \<Longrightarrow> strtoul (print_nat n) = (n, [], True)"
  using strtoul_digits [of "print_nat n"] print_nat_digits [of _ n] by simp

lemma strtoull_range_print: "strtoull_range (print_nat n) \<longleftrightarrow> ulong_max < n"
proof -
  obtain c cs where p: "print_nat n = c # cs" "is_digit c" using print_nat_head by blast
  then have "\<not> c_isspace c" "c \<noteq> CHR ''-''" "c \<noteq> CHR ''+''" by (auto simp: is_digit_def c_isspace_def)
  with p have "strtoul_sign (dropWhile c_isspace (print_nat n)) = (False, print_nat n)"
    by (simp add: strtoul_sign_def)
  then show ?thesis by (simp add: strtoull_range_def)
qed

section \<open>Error numbers\<close>

text \<open>An error given by one of the names a library knows, or by its number.\<close>

datatype errnum = Errno_Name errno | Errno_Number int

definition errnum_ok :: "errnum \<Rightarrow> bool" where
  "errnum_ok e = (case e of Errno_Name n \<Rightarrow> True | Errno_Number i \<Rightarrow> 0 < i \<and> i \<le> 0x7fffffff)"

text \<open>The number that the libraries fall back to when no name fits.\<close>

definition errno_number :: "string \<Rightarrow> errnum option" where
  "errno_number s =
     (let (value, rest, converted, _) = strtol s
      in if \<not> converted \<or> trim_blanks rest \<noteq> [] \<or> value \<le> 0 \<or> 0x7fffffff < value then None
         else Some (Errno_Number value))"

lemma errno_number_ok: "errno_number s = Some e \<Longrightarrow> errnum_ok e"
  by (auto simp: errno_number_def errnum_ok_def split: prod.splits if_splits)

lemma errno_number_print: "0 < i \<Longrightarrow> i \<le> 0x7fffffff \<Longrightarrow> errno_number (print_int i) = Some (Errno_Number i)"
  using strtol_print_int [of i] by (simp add: errno_number_def LONG_MIN_def LONG_MAX_def trim_blanks_def)

section \<open>Fields\<close>

definition split_fields :: "string \<Rightarrow> (string \<times> string \<times> string) option" where
  "split_fields line =
     (case split_first CHR '':'' line of
        None \<Rightarrow> None
      | Some (selector, rest) \<Rightarrow>
          (case split_first CHR '':'' rest of
             None \<Rightarrow> None
           | Some (effect, payload) \<Rightarrow> Some (trim_blanks selector, trim_blanks effect, trim_blanks payload)))"

lemma split_fields_print:
  assumes "trimmed a" "trimmed b" "trimmed c" "CHR '':'' \<notin> set a" "CHR '':'' \<notin> set b"
  shows "split_fields (a @ CHR '':'' # b @ CHR '':'' # c) = Some (a, b, c)"
proof -
  have "split_first CHR '':'' (a @ CHR '':'' # b @ CHR '':'' # c) = Some (a, b @ CHR '':'' # c)"
    "split_first CHR '':'' (b @ CHR '':'' # c) = Some (b, c)"
    using assms by (simp_all only: split_first_Some_iff) simp_all
  with assms show ?thesis by (simp add: split_fields_def)
qed

section \<open>Payload and probability\<close>

definition copy_text :: "string \<Rightarrow> nat \<Rightarrow> string option" where
  "copy_text s room = (if s = [] \<or> room \<le> length s then None else Some s)"

definition payload_probability :: "string \<Rightarrow> nat \<Rightarrow> (string \<times> rat) option" where
  "payload_probability s room =
     (case split_last CHR ''@'' s of
        None \<Rightarrow> map_option (\<lambda>payload. (payload, 1)) (copy_text s room)
      | Some (before, after) \<Rightarrow>
          (if before = [] \<or> room \<le> length before then None
           else map_option (\<lambda>p. (before, p)) (chaos_policy_parse_probability (Some after))))"

lemma payload_probability_range: "payload_probability s n = Some (payload, p) \<Longrightarrow> 0 \<le> p \<and> p \<le> 1"
  by (auto simp: payload_probability_def split: option.splits prod.splits if_splits dest: parse_probability_range)

lemma payload_probability_print:
  assumes "payload \<noteq> []" "length payload < n" "CHR ''@'' \<notin> set q" "chaos_policy_parse_probability (Some q) = Some p"
  shows "payload_probability (payload @ CHR ''@'' # q) n = Some (payload, p)"
proof -
  have "split_last CHR ''@'' (payload @ CHR ''@'' # q) = Some (payload, q)"
    using assms(3) by (simp add: split_last_Some_iff)
  with assms show ?thesis by (simp add: payload_probability_def)
qed

lemma length_print_nat: "n < 10 ^ Suc k \<Longrightarrow> length (print_nat n) \<le> Suc k"
proof (induction k arbitrary: n)
  case 0
  then show ?case by (simp add: print_nat.simps [of n])
next
  case (Suc k)
  show ?case
  proof (cases "n < 10")
    case False
    have "n div 10 < 10 ^ Suc k" using Suc.prems by (simp add: less_mult_imp_div_less)
    from Suc.IH [OF this] False show ?thesis by (simp add: print_nat.simps [of n])
  qed (simp add: print_nat.simps [of n])
qed

text \<open>A delay in milliseconds that fits 32 bits.\<close>

definition latency_value :: "string \<Rightarrow> nat option" where
  "latency_value s =
     (let (value, rest, converted) = strtoul s
      in if \<not> converted \<or> trim_blanks rest \<noteq> [] \<or> 0xffffffff < value then None else Some value)"

lemma latency_value_bound: "latency_value s = Some ms \<Longrightarrow> ms \<le> 0xffffffff"
  by (auto simp: latency_value_def split: prod.splits if_splits)

lemma latency_value_print: "ms \<le> 0xffffffff \<Longrightarrow> latency_value (print_nat ms) = Some ms"
  by (simp add: latency_value_def strtoul_print_nat trim_blanks_def)

section \<open>Printed lines\<close>

definition print_rule :: "string \<Rightarrow> string \<Rightarrow> string \<Rightarrow> string \<Rightarrow> string" where
  "print_rule selector effect payload probability =
     selector @ CHR '':'' # effect @ CHR '':'' # payload @ CHR ''@'' # probability"

text \<open>The fields a printed line can carry.\<close>

definition printable :: "string \<Rightarrow> string \<Rightarrow> string \<Rightarrow> string \<Rightarrow> bool" where
  "printable selector effect payload probability \<longleftrightarrow>
     plain_field selector \<and> plain_field effect \<and> trimmed payload \<and> CHR ''#'' \<notin> set payload \<and>
     CHR ''@'' \<notin> set payload \<and> plain_field probability"

lemma printed_line:
  assumes "printable sel eff payload q"
  shows "trimmed (print_rule sel eff payload q)" "CHR ''#'' \<notin> set (print_rule sel eff payload q)"
    "no_qualifier (print_rule sel eff payload q)" "split_fields (print_rule sel eff payload q) = Some (sel, eff, payload @ CHR ''@'' # q)"
proof -
  note p = assms [unfolded printable_def plain_field_def]
  have q: "q \<noteq> []" "payload \<noteq> []" "sel \<noteq> []" using p by (auto simp: trimmed_def)
  have val: "trimmed (payload @ CHR ''@'' # q)" using p q by (auto simp: trimmed_def hd_append)
  show "trimmed (print_rule sel eff payload q)" using p val q by (auto simp: trimmed_def print_rule_def hd_append)
  show "CHR ''#'' \<notin> set (print_rule sel eff payload q)" using p by (simp add: print_rule_def)
  have "\<not> starts_word (last payload)" using p by (auto simp: trimmed_def starts_word_def is_blank_char_def)
  then show "no_qualifier (print_rule sel eff payload q)"
    using no_qualifier_payload [of "sel @ CHR '':'' # eff @ CHR '':'' # payload" q] p q by (simp add: print_rule_def)
  show "split_fields (print_rule sel eff payload q) = Some (sel, eff, payload @ CHR ''@'' # q)"
    unfolding print_rule_def using p val by (intro split_fields_print) simp_all
qed

text \<open>A body that parses the printed fields gives the printed rule with its qualifiers.\<close>

lemma printed_rule:
  assumes "printable sel eff payload q" "policy_ok p"
    "\<And>line. split_fields line = Some (sel, eff, payload @ CHR ''@'' # q) \<Longrightarrow> body line = Line_Rule r"
  shows "line_rule (trimmed_line body) (print_rule sel eff payload q @ print_qualifiers p) =
    Inr (Some (r\<lparr>rh_policy := p, rh_call_size := CHAOS_POLICY_NO_SIZE\<rparr>))"
  by (rule line_rule_print [OF printed_line(1-3) [OF assms(1)] assms(2)])
    (rule assms(3) [OF printed_line(4) [OF assms(1)]])

end
