(* ===== verification/Rule_Calls.thy ===== *)
theory Rule_Calls
  imports Rule_Reload Rule_Values
begin

text \<open>
  What an interposed call does with the rules of its library, as the memory and process libraries have it: a look at
  the rule file with the lookup in the snapshot it leaves active, and the decision whether the rule found takes
  effect, on the state of the whole library: generator, counters, hits file. One thread runs.
\<close>

section \<open>Surroundings\<close>

text \<open>What one look and the decision after it meet: the files at the look, the clock for the window, the thread's
  seed material, the files when a hit is reported, and how a delay is interrupted.\<close>

record look_env =
  le_look :: io_env
  le_now :: int
  le_prng :: prng_env
  le_hit :: io_env
  le_sleeps :: "sleep_outcome list"

section \<open>Looking up\<close>

definition snapshot_of :: "'r rule_state \<Rightarrow> 'r rule_snapshot" where
  "snapshot_of st = \<lparr>snap_sequence = rs_sequence st, snap_rules = rs_rules st, snap_parse_ok = rs_parse_ok st\<rparr>"

definition look_up ::
  "('a rule_head_scheme) reload_params \<Rightarrow> io_env \<Rightarrow> (('a rule_head_scheme) list \<Rightarrow> 'a rule_head_scheme option)
     \<Rightarrow> ('a rule_head_scheme) rule_lib \<Rightarrow> 'a rule_head_scheme option \<times> ('a rule_head_scheme) rule_lib" where
  "look_up rp env select lib =
     (let (loaded, lib') = reload_refresh rp env lib; st = reload_active_state lib'
      in (if \<not> loaded then None else match_snapshot select (snapshot_of st) (rs_sequence st), lib'))"

section \<open>Deciding\<close>

text \<open>The claim and the count of a hit, with the report it triggers.\<close>

definition grant ::
  "('a rule_head_scheme) reload_params \<Rightarrow> io_env \<Rightarrow> 'a rule_head_scheme \<Rightarrow> ('a rule_head_scheme) rule_lib
     \<Rightarrow> bool \<times> ('a rule_head_scheme) rule_lib" where
  "grant rp env rule lib =
     (let (fired, pool, hook) = fire_on_pool rule (rl_pool lib);
          lib' = lib\<lparr>rl_pool := pool\<rparr>
      in (fired, if hook then reload_report_hits rp env True lib' else lib'))"

definition gate ::
  "('a rule_head_scheme) reload_params \<Rightarrow> look_env \<Rightarrow> rat \<Rightarrow> 'a rule_head_scheme \<Rightarrow> ('a rule_head_scheme) rule_lib
     \<Rightarrow> bool \<times> ('a rule_head_scheme) rule_lib" where
  "gate rp le probability rule lib =
     (if \<not> chaos_policy_window_open (le_now le) (rh_policy rule) \<or>
         \<not> chaos_policy_size_ok (rh_policy rule) (rh_call_size rule) then (False, lib)
      else let (hit, prng) = chaos_io_probability_hit (le_prng le) probability (rl_tls_prng lib);
               lib' = lib\<lparr>rl_tls_prng := prng\<rparr>
           in if \<not> hit then (False, lib') else grant rp (le_hit le) rule lib')"

section \<open>Calls\<close>

text \<open>A real function gives a value, or fails with an errno; it is given the number of the call. What a wrapper
  returns: a value, or, where that is the convention of the function, an error number.\<close>

type_synonym real_call = "nat \<Rightarrow> errno + int"

datatype call_result = Returned int | Error_Number errnum

definition number_answer :: "errno + int \<Rightarrow> call_result" where
  "number_answer outcome = (case outcome of Inl e \<Rightarrow> Error_Number (Errno_Name e) | Inr v \<Rightarrow> Returned 0)"

definition number_result :: "errnum option \<Rightarrow> call_result" where
  "number_result code = (case code of None \<Rightarrow> Returned 0 | Some e \<Rightarrow> Error_Number e)"

section \<open>What stays\<close>

text \<open>The rules a call sees stay the rules of the library.\<close>

definition same_rules :: "('a rule_head_scheme) rule_lib \<Rightarrow> ('a rule_head_scheme) rule_lib \<Rightarrow> bool" where
  "same_rules lib lib' \<longleftrightarrow>
     rl_states lib' = rl_states lib \<and> rl_active_index lib' = rl_active_index lib \<and>
     rl_cached_mtime lib' = rl_cached_mtime lib \<and> rl_provisional lib' = rl_provisional lib \<and>
     length (rl_pool lib') = length (rl_pool lib) \<and>
     (\<forall>i. slot_generation (rl_pool lib' ! i) = slot_generation (rl_pool lib ! i))"

lemma same_rules_refl [simp]: "same_rules lib lib"
  by (simp add: same_rules_def)

lemma same_rules_trans: "same_rules lib lib' \<Longrightarrow> same_rules lib' lib'' \<Longrightarrow> same_rules lib lib''"
  by (simp add: same_rules_def)

lemma same_rules_active: "same_rules lib lib' \<Longrightarrow> reload_active_state lib' = reload_active_state lib"
  by (simp add: same_rules_def reload_active_state_def)

lemma same_rules_updates [simp]:
  "same_rules lib (lib\<lparr>rl_tls_prng := p\<rparr>)" "same_rules lib (lib\<lparr>rl_counters := c\<rparr>)"
  by (simp_all add: same_rules_def)

lemma report_hits_prng [simp]: "rl_tls_prng (reload_report_hits rp env counted lib) = rl_tls_prng lib"
  by (simp add: reload_report_hits_def store_hits_def Let_def split: prod.split)

lemma grant_frame:
  assumes "grant rp env rule lib = (fired, lib')"
  shows "same_rules lib lib'" "rl_counters lib' = rl_counters lib"
    "fired \<Longrightarrow> case rh_hit rule of None \<Rightarrow> True | Some i \<Rightarrow> slot_generation (rl_pool lib ! i) = rh_hit_generation rule"
proof -
  obtain f pool hook where p: "fire_on_pool rule (rl_pool lib) = (f, pool, hook)" by (metis prod_cases3)
  note fr = fire_pool_frame [OF p]
  show "same_rules lib lib'" "rl_counters lib' = rl_counters lib"
    using assms fr by (auto simp: grant_def p Let_def same_rules_def split: if_splits)
  show "fired \<Longrightarrow> case rh_hit rule of None \<Rightarrow> True | Some i \<Rightarrow> slot_generation (rl_pool lib ! i) = rh_hit_generation rule"
    using assms fire_on_pool_current p by (auto simp: grant_def Let_def)
qed

lemma grant_reachable:
  assumes "reload_reachable rp lib" "grant rp env rule lib = (fired, lib')"
  shows "reload_reachable rp lib'"
proof -
  obtain f pool hook where p: "fire_on_pool rule (rl_pool lib) = (f, pool, hook)" by (metis prod_cases3)
  have h: "reload_reachable rp (lib\<lparr>rl_pool := pool\<rparr>)"
    using Lib_Hit [OF assms(1), of rule] by (simp add: count_hit_def p)
  with Lib_Report [OF h, of env True] assms(2) show ?thesis by (auto simp: grant_def p Let_def split: if_splits)
qed

text \<open>A rule without \<open>@first\<close> whose slot is its own fires.\<close>

lemma grant_unlimited:
  assumes "pol_first (rh_policy rule) = 0"
    "case rh_hit rule of None \<Rightarrow> True | Some i \<Rightarrow> slot_generation (rl_pool lib ! i) = rh_hit_generation rule"
  shows "fst (grant rp env rule lib)"
proof -
  have "fst (fire_on_pool rule (rl_pool lib))"
    using assms by (auto simp: fire_on_pool_def chaos_policy_fire_def chaos_hit_slot_current_def Let_def
        split: option.splits prod.splits)
  then show ?thesis by (auto simp: grant_def Let_def split: prod.splits)
qed

lemma gate_frame:
  assumes "gate rp le probability rule lib = (fired, lib')"
  shows "same_rules lib lib'" "rl_counters lib' = rl_counters lib"
    "fired \<Longrightarrow> chaos_policy_window_open (le_now le) (rh_policy rule) \<and>
       chaos_policy_size_ok (rh_policy rule) (rh_call_size rule) \<and> 0 < probability \<and>
       (case rh_hit rule of None \<Rightarrow> True | Some i \<Rightarrow> slot_generation (rl_pool lib ! i) = rh_hit_generation rule)"
proof -
  obtain hit prng where h: "chaos_io_probability_hit (le_prng le) probability (rl_tls_prng lib) = (hit, prng)" by fastforce
  have pos: "hit \<Longrightarrow> 0 < probability"
    using h by (auto simp: chaos_io_probability_hit_def chaos_io_probability_hit_sample_def split: prod.splits if_splits)
  define lib1 where "lib1 = lib\<lparr>rl_tls_prng := prng\<rparr>"
  have l1: "same_rules lib lib1" "rl_counters lib1 = rl_counters lib" "rl_pool lib1 = rl_pool lib" by (simp_all add: lib1_def)
  define opened where "opened \<longleftrightarrow> chaos_policy_window_open (le_now le) (rh_policy rule) \<and>
    chaos_policy_size_ok (rh_policy rule) (rh_call_size rule)"
  have form: "(fired, lib') = (if \<not> opened then (False, lib) else if \<not> hit then (False, lib1)
      else grant rp (le_hit le) rule lib1)"
    using assms unfolding gate_def h Let_def lib1_def opened_def prod.case by (metis (full_types))
  consider "\<not> fired" "lib' = lib" | "\<not> fired" "lib' = lib1"
    | "opened" "hit" "grant rp (le_hit le) rule lib1 = (fired, lib')"
    using form by (cases opened; cases hit) simp_all
  then have "same_rules lib lib' \<and> rl_counters lib' = rl_counters lib \<and> (fired \<longrightarrow>
      chaos_policy_window_open (le_now le) (rh_policy rule) \<and>
       chaos_policy_size_ok (rh_policy rule) (rh_call_size rule) \<and> 0 < probability \<and>
       (case rh_hit rule of None \<Rightarrow> True | Some i \<Rightarrow> slot_generation (rl_pool lib ! i) = rh_hit_generation rule))"
  proof cases
    case 3
    note g = grant_frame [OF 3(3)]
    show ?thesis using same_rules_trans [OF l1(1) g(1)] g(2) g(3) [unfolded l1(3)] l1(2) 3 pos by (simp add: opened_def)
  qed (simp_all add: l1)
  then show "same_rules lib lib'" "rl_counters lib' = rl_counters lib"
    "fired \<Longrightarrow> chaos_policy_window_open (le_now le) (rh_policy rule) \<and>
       chaos_policy_size_ok (rh_policy rule) (rh_call_size rule) \<and> 0 < probability \<and>
       (case rh_hit rule of None \<Rightarrow> True | Some i \<Rightarrow> slot_generation (rl_pool lib ! i) = rh_hit_generation rule)"
    by blast+
qed

lemma gate_reachable:
  assumes "reload_reachable rp lib" "gate rp le probability rule lib = (fired, lib')"
  shows "reload_reachable rp lib'"
proof -
  have p: "reload_reachable rp (lib\<lparr>rl_tls_prng := prng\<rparr>)" for prng
    using Lib_Calls [OF assms(1), where cs = "rl_counters lib" and prng = prng] by simp
  with assms show ?thesis by (auto simp: gate_def Let_def split: if_splits prod.splits intro: grant_reachable)
qed

section \<open>Rules of a sound library\<close>

text \<open>A parser whose rules are well formed, whatever slot they are attached to.\<close>

locale typed_rules = reload_library rp
  for rp :: "('a rule_head_scheme) reload_params" +
  fixes well_formed :: "'a rule_head_scheme \<Rightarrow> bool"
  assumes parsed_well: "pr_ok (rp_parse rp err data) \<Longrightarrow> list_all well_formed (pr_rules (rp_parse rp err data))"
    and well_bare: "well_formed (bare_head r) = well_formed r"
begin

lemma well_bare_list:
  assumes "map bare_head rs = map bare_head rs'" "list_all well_formed rs'"
  shows "list_all well_formed rs"
proof -
  have "list_all (\<lambda>r. well_formed (bare_head r)) rs'" using assms(2) by (simp add: well_bare)
  then have "list_all well_formed (map bare_head rs')" by (simp add: list.pred_map o_def)
  then have "list_all well_formed (map bare_head rs)" by (simp add: assms(1))
  then show ?thesis by (simp add: list.pred_map o_def well_bare)
qed

lemma parse_state_well:
  assumes "rs_rules (rl_states lib ! i) = []" "rule_lib_ok (rp_max_rules rp) lib" "i = 1 - rl_active_index lib"
  shows "list_all well_formed (rs_rules (rl_states (parse_state rp i data lib) ! i))"
proof (cases "data = []")
  case False
  define result lib' where "result = rp_parse rp (rl_error lib) data"
    and "lib' = lib\<lparr>rl_error := pr_error result, rl_texts := pr_texts result\<rparr>"
  have ok': "rule_lib_ok (rp_max_rules rp) lib'" "i = 1 - rl_active_index lib'" using assms(2,3) by (simp_all add: lib'_def)
  show ?thesis
    unfolding parse_state_unfold [OF False, of result lib i, OF result_def, folded lib'_def]
    using parsed_well [of "rl_error lib" data] by (simp add: set_other_state(3) [OF ok'] result_def)
qed (simp add: parse_state_def assms(1))

lemma reload_run_well:
  assumes "rule_lib_ok (rp_max_rules rp) lib" "list_all well_formed (rs_rules (reload_active_state lib))"
  shows "list_all well_formed (rs_rules (reload_active_state (reload_run rp env observed prev lib)))"
proof -
  define i where "i = 1 - rl_active_index lib"
  obtain rc lib1 where rd: "reload_read_file rp env observed (set_state i (reload_reset_state True) lib) = (rc, lib1)"
    by fastforce
  note r = reset_then_read [OF assms(1) i_def rd]
  have i1: "i = 1 - rl_active_index lib1" using r(2) by (simp add: i_def)
  have empty: "rs_rules (rl_states lib1 ! i) = []" by (simp add: r(9))
  have finish: "list_all well_formed (rs_rules (reload_active_state (finish_state rp env i c n l)))"
    if "state_building (rp_max_rules rp) i l" "list_all well_formed (rs_rules (rl_states l ! i))" for c n l
    using well_bare_list [OF finish_state_ok(2) [OF that(1)] that(2)] .
  have missing: "list_all well_formed (rs_rules (reload_active_state
      (finish_state rp env i c n (set_state i (reload_reset_state True) lib))))" for c n
    by (rule finish) (rule building_reset_state [OF assms(1) i_def], simp add: set_other_state(3) [OF assms(1) i_def])
  have reject: "list_all well_formed (rs_rules (reload_active_state (finish_state rp env i c n (reload_reject_file i reason lib1))))"
    for c n reason
    by (rule finish) (rule building_reject_file [OF r(1) i1],
      simp add: reload_reject_file_def set_other_state(3) [OF r(1) i1])
  have parse: "list_all well_formed (rs_rules (reload_active_state (finish_state rp env i c n (parse_state rp i data lib1))))"
    for c n data
    by (rule finish) (rule building_parse_state [OF r(1) i1 empty], rule parse_state_well [OF empty r(1) i1])
  show ?thesis
    unfolding reload_run_at [OF i_def rd]
    using missing reject parse assms(2) r(5) by (auto split: read_result.split)
qed

lemma refresh_well:
  assumes "rule_lib_ok (rp_max_rules rp) lib" "list_all well_formed (rs_rules (reload_active_state lib))"
  shows "list_all well_formed (rs_rules (reload_active_state (snd (reload_refresh rp env lib))))"
proof -
  obtain recent lib1 where c: "reload_checked_recently env lib = (recent, lib1)" by fastforce
  then obtain n where n: "lib1 = lib\<lparr>rl_last_check_ns := n\<rparr>" using checked_recently_frame by blast
  define lib2 where "lib2 = (if rl_hits_pending lib1 \<and> CHAOS_HITS_INTERVAL_MS \<le> ev_now_ms env - rl_hits_last_ms lib1
    then reload_report_hits rp env False lib1 else lib1)"
  have l2: "reload_active_state lib2 = reload_active_state lib" "rule_lib_ok (rp_max_rules rp) lib2"
    using assms(1) by (simp_all add: lib2_def n reload_active_state_def)
  define lib3 where "lib3 = lib2\<lparr>rl_cached_mtime := CHAOS_IO_MTIME_RELOADING, rl_provisional := False\<rparr>"
  have l3: "reload_active_state lib3 = reload_active_state lib" "rule_lib_ok (rp_max_rules rp) lib3"
    using l2 by (simp_all add: lib3_def)
  have run: "list_all well_formed (rs_rules (reload_active_state (reload_run rp env m p lib3)))" for m p
    using reload_run_well [OF l3(2)] assms(2) by (simp add: l3(1))
  have act1: "reload_active_state lib1 = reload_active_state lib" by (simp add: n)
  show ?thesis
    using run assms(2) l2(1) act1 unfolding reload_refresh_def c Let_def prod.case lib2_def [symmetric] lib3_def
    by simp
qed

lemma reachable_well: "reload_reachable rp lib \<Longrightarrow> list_all well_formed (rs_rules (reload_active_state lib))"
proof (induction rule: reload_reachable.induct)
  case (Lib_Init lib env)
  then show ?case by (simp add: reload_init_def reload_active_state_def finish_write_def reload_reset_state_def)
next
  case (Lib_Refresh lib env)
  with refresh_well reachable_ok show ?case by blast
qed (simp_all add: reload_active_state_def count_hit_def reload_after_fork_def)

end

section \<open>The contract of a lookup\<close>

text \<open>A library's selection finds a rule of the snapshot that covers the call.\<close>

locale rule_calls = typed_rules rp well_formed
  for rp :: "('a rule_head_scheme) reload_params" and well_formed :: "'a rule_head_scheme \<Rightarrow> bool" +
  fixes select :: "'q \<Rightarrow> ('a rule_head_scheme) list \<Rightarrow> 'a rule_head_scheme option"
    and covers :: "'q \<Rightarrow> 'a rule_head_scheme \<Rightarrow> bool"
  assumes selected: "select q rules = Some r \<Longrightarrow> r \<in> set rules \<and> covers q r"
begin

lemma look_sound:
  assumes "reload_reachable rp lib" "look_up rp env (select q) lib = (found, lib')"
  shows "reload_reachable rp lib'"
    "found = Some r \<Longrightarrow> r \<in> set (rs_rules (reload_active_state lib')) \<and> covers q r \<and> well_formed r"
proof -
  obtain loaded l where l: "reload_refresh rp env lib = (loaded, l)" by fastforce
  then have "l = lib'" using assms(2) by (simp add: look_up_def Let_def)
  with l Lib_Refresh [OF assms(1), of env] show "reload_reachable rp lib'" by simp
  then have "list_all well_formed (rs_rules (reload_active_state lib'))" by (rule reachable_well)
  then show "found = Some r \<Longrightarrow> r \<in> set (rs_rules (reload_active_state lib')) \<and> covers q r \<and> well_formed r"
    using assms(2) selected \<open>l = lib'\<close>
    by (auto simp: look_up_def l match_snapshot_def snapshot_of_def Let_def list_all_iff split: if_splits option.splits)
qed

text \<open>A look that sees the stamp remembered and trusted finds what the snapshot has.\<close>

lemma quiet_look:
  assumes "\<not> rl_provisional lib" "reload_observed_mtime rp env = rl_cached_mtime lib"
    "look_up rp env (select q) lib = (found, lib')"
  shows "same_rules lib lib'" "rl_counters lib' = rl_counters lib" "rl_tls_prng lib' = rl_tls_prng lib"
    "rl_pool lib' = rl_pool lib"
    "found = (if rs_parse_ok (reload_active_state lib) \<and> rs_sequence (reload_active_state lib) AND 1 = 0
      then select q (rs_rules (reload_active_state lib)) else None)"
proof -
  obtain recent lib1 where c: "reload_checked_recently env lib = (recent, lib1)" by fastforce
  then obtain n where n: "lib1 = lib\<lparr>rl_last_check_ns := n\<rparr>" using checked_recently_frame by blast
  define lib2 where "lib2 = (if \<not> recent \<and> rl_hits_pending lib1 \<and> CHAOS_HITS_INTERVAL_MS \<le> ev_now_ms env - rl_hits_last_ms lib1
    then reload_report_hits rp env False lib1 else lib1)"
  have frame: "rl_states lib2 = rl_states lib" "rl_active_index lib2 = rl_active_index lib" "rl_pool lib2 = rl_pool lib"
    "rl_cached_mtime lib2 = rl_cached_mtime lib" "rl_provisional lib2 = rl_provisional lib"
    "rl_counters lib2 = rl_counters lib" "rl_tls_prng lib2 = rl_tls_prng lib"
    by (simp_all add: lib2_def n)
  then have act: "reload_active_state lib2 = reload_active_state lib" by (simp add: reload_active_state_def)
  have r: "reload_refresh rp env lib = (any_rules lib, lib2)"
  proof (cases recent)
    case True
    then have "lib2 = lib1" by (simp add: lib2_def)
    with True act show ?thesis by (simp add: reload_refresh_def c any_rules_def)
  next
    case False
    then have "(if rl_hits_pending lib1 \<and> CHAOS_HITS_INTERVAL_MS \<le> ev_now_ms env - rl_hits_last_ms lib1
        then reload_report_hits rp env False lib1 else lib1) = lib2" by (simp add: lib2_def)
    with False show ?thesis
      unfolding reload_refresh_def c Let_def prod.case by (simp add: assms(1,2) frame any_rules_def act)
  qed
  have l: "lib' = lib2" and f: "found = (if any_rules lib then match_snapshot (select q)
      (snapshot_of (reload_active_state lib)) (rs_sequence (reload_active_state lib)) else None)"
    using assms(3) act by (auto simp: look_up_def r Let_def)
  show "same_rules lib lib'" "rl_counters lib' = rl_counters lib" "rl_tls_prng lib' = rl_tls_prng lib"
    "rl_pool lib' = rl_pool lib"
    using frame by (simp_all add: l same_rules_def)
  have none: "select q [] = None" using selected [of q "[]"] by (cases "select q []") auto
  show "found = (if rs_parse_ok (reload_active_state lib) \<and> rs_sequence (reload_active_state lib) AND 1 = 0
      then select q (rs_rules (reload_active_state lib)) else None)"
    using none by (auto simp: f any_rules_def match_snapshot_def snapshot_of_def chaos_snapshot_read_begin_def
        chaos_snapshot_read_valid_def split: option.splits)
qed

end

text \<open>Every line grammar gives such rules.\<close>

lemma grammar_typed_rules:
  assumes "line_grammar parse_line well_formed"
    "rp_parse rp = parse_rule_buffer parse_line supported max_rules" "rp_max_rules rp = max_rules"
    "\<And>r. well_formed (bare_head r) = well_formed r"
  shows "typed_rules rp well_formed"
proof -
  have "reload_library rp" by (rule grammar_reload_library [OF assms(1-3)])
  then show ?thesis
    using line_grammar.parsed_rules(2) [OF assms(1)] assms(2,4)
    by (simp add: typed_rules_def typed_rules_axioms_def list_all_iff)
qed

text \<open>Selection by rank finds a rule of the list that has one.\<close>

lemma ranked_from_member:
  assumes "ranked_from rank_of length_of None rs = Some r"
  shows "r \<in> set rs \<and> rank_of r \<noteq> None"
  using ranked_best [of "ranked_from rank_of length_of None rs" rank_of length_of rs, OF refl refl] assms by fastforce

section \<open>Surroundings for examples\<close>

definition demo_look :: look_env where
  "demo_look = \<lparr>le_look = demo_io_env, le_now = 0, le_prng = \<lparr>pe_process_seed = 1, pe_tid = 2, pe_stack_address = 3\<rparr>,
     le_hit = demo_io_env, le_sleeps = []\<rparr>"

end
