(* ===== verification/Io_Hooks.thy ===== *)
theory Io_Hooks
  imports Io_Vectors Io_Fdcache Rule_Calls
begin

text \<open>
  What the interposed functions of libchaos-io share: the lookup for a descriptor of \<open>src/core/chaos_io.c\<close>, the
  effects on the state of the whole library, the real calls and the guard around them. What a call meets outside
  (the rule file, the clock, the links of the descriptors, the working directory, the real functions, each found or
  not, and the system calls) is a record; the calls are given their number. One thread runs. The array of a vector
  is not among the bytes a call fills.
\<close>

section \<open>Calls\<close>

datatype io_call =
  Call_Read int u64 nat | Call_Write int u64 nat | Call_Pread int u64 nat int | Call_Pwrite int u64 nat int
| Call_Readv int "iovec list option" int | Call_Writev int "iovec list option" int
| Call_Preadv int "iovec list option" int int | Call_Pwritev int "iovec list option" int int
| Call_Sendfile int int u64 nat | Call_Copy_File_Range int u64 int u64 nat nat
| Call_Close int | Call_Dup2 int int | Call_Dup3 int int int | Call_Fcntl_Getfd int | Call_Close_Range u32 u32 int
| Call_Closedir u64 | Call_Pclose u64 | Call_Closefrom int | Call_Fsync int | Call_Fdatasync int
| Call_Ftruncate int int | Call_Fallocate int int int int | Call_Posix_Fallocate int int int
| Call_Truncate "string option" int | Call_Unlinkat int "string option" int
| Call_Renameat int "string option" int "string option" | Call_Renameat2 int "string option" int "string option" nat
| Call_Open "string option" u32 "u32 option" | Call_Openat int "string option" u32 "u32 option"
| Call_Fopen "string option" string | Call_Freopen "string option" string u64 | Call_Fclose u64 | Call_Fflush u64
| Call_Fread u64 nat nat u64 | Call_Fread_Chk u64 nat nat nat u64 | Call_Fgets u64 int u64 | Call_Fgets_Chk u64 nat int u64
| Call_Fgetc u64 | Call_Getc u64 | Call_Getdelim u64 u64 int u64
| Call_Fwrite u64 nat nat u64 | Call_Fputs string u64 | Call_Fputc int u64 | Call_Putc int u64
| Call_Vfprintf u64 string "u64 list" | Call_Vfprintf_Chk u64 int string "u64 list"

text \<open>A real call gives a value, an errno when it sets one, and the memory it leaves.\<close>

type_synonym real_io = "nat \<Rightarrow> byte_memory \<Rightarrow> int \<times> errno option \<times> byte_memory"

record io_hook_env =
  ie_look :: look_env
  ie_map_ok :: bool
  ie_link :: "int \<Rightarrow> string option"
  ie_cwd :: "string option"
  ie_fileno :: "u64 \<Rightarrow> int"
  ie_open_max :: int
  ie_vm :: "nat \<Rightarrow> nat \<Rightarrow> vm_outcome"
  ie_vm_tear :: vm_outcome
  ie_real :: "io_call \<Rightarrow> real_io option"
  ie_sys :: "io_call \<Rightarrow> real_io"

text \<open>The state: the library, the descriptor cache, the guard, \<open>errno\<close> once it has been set, the time slept, the memory of the
  process, the streams marked as failed, and the calls made, each with the guard under which it ran.\<close>

record io_world =
  iw_lib :: io_lib
  iw_cache :: fd_cache
  iw_guard :: int
  iw_errno :: "errno option"
  iw_slept :: int
  iw_mem :: byte_memory
  iw_failed :: "u64 list"
  iw_calls :: "(io_call \<times> int) list"

definition io_answer :: "real_io \<Rightarrow> io_call \<Rightarrow> io_world \<Rightarrow> int \<times> io_world" where
  "io_answer f call w =
     (let (result, code, mem) = f (length (iw_calls w)) (iw_mem w)
      in (result, w\<lparr>iw_mem := mem, iw_errno := (case code of None \<Rightarrow> iw_errno w | Some e \<Rightarrow> Some e),
                    iw_calls := iw_calls w @ [(call, iw_guard w)]\<rparr>))"

text \<open>The real function under the guard, or what stands in for it where it has not been found.\<close>

definition io_perform_or ::
  "io_hook_env \<Rightarrow> io_call \<Rightarrow> (io_world \<Rightarrow> int \<times> io_world) \<Rightarrow> io_world \<Rightarrow> int \<times> io_world" where
  "io_perform_or ie call instead w =
     (case ie_real ie call of
        None \<Rightarrow> instead w
      | Some f \<Rightarrow>
          (let (previous, guard) = chaos_io_enter_internal (iw_guard w);
               (result, w') = io_answer f call (w\<lparr>iw_guard := guard\<rparr>)
           in (result, w'\<lparr>iw_guard := chaos_io_leave_internal previous\<rparr>)))"

definition io_syscall :: "io_hook_env \<Rightarrow> io_call \<Rightarrow> io_world \<Rightarrow> int \<times> io_world" where
  "io_syscall ie call = io_answer (ie_sys ie call) call"

definition io_perform :: "io_hook_env \<Rightarrow> io_call \<Rightarrow> io_world \<Rightarrow> int \<times> io_world" where
  "io_perform ie call = io_perform_or ie call (io_syscall ie call)"

text \<open>A real function that is called as it is.\<close>

definition io_forward :: "io_hook_env \<Rightarrow> io_call \<Rightarrow> (io_world \<Rightarrow> int \<times> io_world) \<Rightarrow> io_world \<Rightarrow> int \<times> io_world" where
  "io_forward ie call instead w = (case ie_real ie call of None \<Rightarrow> instead w | Some f \<Rightarrow> io_answer f call w)"

text \<open>No stand-in: the call fails with \<open>ENOSYS\<close>.\<close>

definition io_missing :: "int \<Rightarrow> io_world \<Rightarrow> int \<times> io_world" where
  "io_missing failure w = (failure, w\<lparr>iw_errno := Some ENOSYS\<rparr>)"

section \<open>Effects\<close>

text \<open>An action of \<open>Io_Actions\<close> on the library, with the reports its hits trigger.\<close>

definition io_act :: "io_env \<Rightarrow> (action_state \<Rightarrow> 'x \<times> action_state) \<Rightarrow> io_lib \<Rightarrow> 'x \<times> io_lib" where
  "io_act env f lib =
     (let (x, st) = f \<lparr>act_prng = io_tls_prng lib, act_pool = io_pool lib, act_reports = 0\<rparr>
      in (x, (chaos_io_config_report_hits env True ^^ act_reports st)
               (lib\<lparr>io_tls_prng := act_prng st, io_pool := act_pool st\<rparr>)))"

definition io_trigger :: "io_hook_env \<Rightarrow> chaos_io_rule \<Rightarrow> io_world \<Rightarrow> bool \<times> io_world" where
  "io_trigger ie rule w =
     (let (fired, lib) = io_act (le_hit (ie_look ie))
            (chaos_io_rule_should_trigger (le_prng (ie_look ie)) (le_now (ie_look ie)) (Some rule)) (iw_lib w)
      in (fired, w\<lparr>iw_lib := lib\<rparr>))"

definition io_delay :: "io_hook_env \<Rightarrow> chaos_io_rule \<Rightarrow> io_world \<Rightarrow> io_world" where
  "io_delay ie rule w =
     (let (slept, lib) = io_act (le_hit (ie_look ie))
            (chaos_io_rule_apply_latency (le_prng (ie_look ie)) (le_now (ie_look ie)) (le_sleeps (ie_look ie)) (Some rule))
            (iw_lib w)
      in w\<lparr>iw_lib := lib, iw_slept := iw_slept w + slept\<rparr>)"

definition io_fail :: "io_hook_env \<Rightarrow> chaos_io_rule \<Rightarrow> io_world \<Rightarrow> bool \<times> io_world" where
  "io_fail ie rule w =
     (let ((fails, code), lib) = io_act (le_hit (ie_look ie))
            (\<lambda>st. case chaos_io_rule_apply_errno (le_prng (ie_look ie)) (le_now (ie_look ie)) (Some rule) st of
                    (fails, code, st') \<Rightarrow> ((fails, code), st')) (iw_lib w)
      in (fails, if fails then w\<lparr>iw_lib := lib, iw_errno := code\<rparr> else w\<lparr>iw_lib := lib\<rparr>))"

text \<open>What most wrappers do with the rule found: the delay of a latency rule, or the decision of any other rule.\<close>

definition io_inject :: "io_hook_env \<Rightarrow> chaos_io_rule \<Rightarrow> io_world \<Rightarrow> bool \<times> io_world" where
  "io_inject ie rule w =
     (if io_effect rule = CHAOS_IO_EFFECT_LATENCY then (False, io_delay ie rule w) else io_fail ie rule w)"

text \<open>A draw from the generator of the thread.\<close>

definition io_draw :: "(u64 \<Rightarrow> 'x \<times> u64) \<Rightarrow> io_world \<Rightarrow> 'x \<times> io_world" where
  "io_draw f w = (let (x, prng) = f (io_tls_prng (iw_lib w)) in (x, w\<lparr>iw_lib := (iw_lib w)\<lparr>io_tls_prng := prng\<rparr>\<rparr>))"

section \<open>Lookup for a descriptor\<close>

definition io_prepare :: "io_hook_env \<Rightarrow> io_world \<Rightarrow> bool \<times> io_world" where
  "io_prepare ie w =
     (let (ready, lib) = chaos_io_config_prepare (le_look (ie_look ie)) (iw_lib w) in (ready, w\<lparr>iw_lib := lib\<rparr>))"

definition io_resolve_fd :: "io_hook_env \<Rightarrow> int \<Rightarrow> nat \<Rightarrow> io_world \<Rightarrow> string option \<times> io_world" where
  "io_resolve_fd ie fd path_size w =
     (let (path, cache) = chaos_io_fdcache_resolve (ie_map_ok ie) (ie_link ie fd) fd path_size (iw_cache w)
      in (path, w\<lparr>iw_cache := cache\<rparr>))"

definition io_match_loaded :: "chaos_io_operation \<Rightarrow> string option \<Rightarrow> io_world \<Rightarrow> chaos_io_rule option" where
  "io_match_loaded operation path w =
     chaos_io_config_match_loaded (iw_lib w) (st_sequence (chaos_io_config_active_state (iw_lib w))) operation path"

definition chaos_io_match_fd_rule ::
  "io_hook_env \<Rightarrow> int \<Rightarrow> chaos_io_operation \<Rightarrow> io_world \<Rightarrow> chaos_io_rule option \<times> io_world" where
  "chaos_io_match_fd_rule ie fd operation w =
     (if fd \<le> 2 then (None, w)
      else let (ready, w) = io_prepare ie w
           in if \<not> ready then (None, w)
              else let (path, w) = io_resolve_fd ie fd CHAOS_IO_MAX_PATH w
                   in case path of None \<Rightarrow> (None, w) | Some p \<Rightarrow> (io_match_loaded operation (Some p) w, w))"

definition chaos_io_match_fd_rule_sized ::
  "io_hook_env \<Rightarrow> int \<Rightarrow> chaos_io_operation \<Rightarrow> u64 \<Rightarrow> io_world \<Rightarrow> chaos_io_rule option \<times> io_world" where
  "chaos_io_match_fd_rule_sized ie fd operation size' w =
     (let (found, w) = chaos_io_match_fd_rule ie fd operation w
      in (map_option (\<lambda>r. r\<lparr>rh_call_size := size'\<rparr>) found, w))"

text \<open>A change of the cache.\<close>

definition io_forget :: "int \<Rightarrow> io_world \<Rightarrow> io_world" where
  "io_forget fd w = w\<lparr>iw_cache := chaos_io_fdcache_invalidate fd (iw_cache w)\<rparr>"

definition io_forget_all :: "io_world \<Rightarrow> io_world" where
  "io_forget_all w = w\<lparr>iw_cache := chaos_io_fdcache_reset (iw_cache w)\<rparr>"

section \<open>What the shared parts keep\<close>

text \<open>Nothing the caller can see changes but the time, and the library stays reachable.\<close>

definition io_frame :: "io_world \<Rightarrow> io_world \<Rightarrow> bool" where
  "io_frame w w' \<longleftrightarrow>
     iw_guard w' = iw_guard w \<and> iw_errno w' = iw_errno w \<and> iw_mem w' = iw_mem w \<and> iw_failed w' = iw_failed w \<and>
     iw_calls w' = iw_calls w \<and> (io_reachable (iw_lib w) \<longrightarrow> io_reachable (iw_lib w'))"

lemma io_frame_refl [simp, intro]: "io_frame w w"
  by (simp add: io_frame_def)

lemma io_frame_trans [trans]: "io_frame w w' \<Longrightarrow> io_frame w' w'' \<Longrightarrow> io_frame w w''"
  by (simp add: io_frame_def)

lemma io_frame_cache [simp]: "io_frame w (w\<lparr>iw_cache := c\<rparr>)"
  by (simp add: io_frame_def)

lemma reports_reachable: "io_reachable lib \<Longrightarrow> io_reachable ((chaos_io_config_report_hits env True ^^ n) lib)"
  by (induction n) (auto intro: io_reachable.Report)

lemma reports_active:
  "chaos_io_config_active_state ((chaos_io_config_report_hits env True ^^ n) lib) = chaos_io_config_active_state lib"
proof (induction n)
  case (Suc n)
  then show ?case by (simp add: chaos_io_config_active_state_def report_hits_frame)
qed simp

text \<open>An action touches the pool through a hit only.\<close>

lemma io_act_frame:
  fixes rule :: chaos_io_rule
  assumes "io_act env f lib = (x, lib')"
    "\<And>st y st'. f st = (y, st') \<Longrightarrow> act_pool st' = act_pool st \<or> act_pool st' = fst (snd (fire_on_pool rule (act_pool st)))"
  shows "chaos_io_config_active_state lib' = chaos_io_config_active_state lib" "io_reachable lib \<Longrightarrow> io_reachable lib'"
proof -
  obtain y st where st: "f \<lparr>act_prng = io_tls_prng lib, act_pool = io_pool lib, act_reports = 0\<rparr> = (y, st)" by fastforce
  define lib1 where "lib1 = lib\<lparr>io_tls_prng := act_prng st, io_pool := act_pool st\<rparr>"
  have l: "lib' = (chaos_io_config_report_hits env True ^^ act_reports st) lib1"
    using assms(1) by (simp add: io_act_def st lib1_def)
  show "chaos_io_config_active_state lib' = chaos_io_config_active_state lib"
    by (simp add: l reports_active lib1_def)
  assume r: "io_reachable lib"
  have "io_reachable lib1"
  proof (cases "act_pool st = io_pool lib")
    case True
    with io_reachable.Draw [OF r, of "act_prng st"] show ?thesis by (simp add: lib1_def)
  next
    case False
    with assms(2) [OF st] have "act_pool st = fst (snd (fire_on_pool rule (io_pool lib)))" by simp
    then have "lib1 = (io_hit rule lib)\<lparr>io_tls_prng := act_prng st\<rparr>"
      unfolding lib1_def by (cases lib) (simp add: io_hit_def)
    then show ?thesis using io_reachable.Draw [OF io_reachable.Hit [OF r]] by simp
  qed
  with reports_reachable l show "io_reachable lib'" by simp
qed

lemma fire_action_pool: "fire_action r st = (fired, st') \<Longrightarrow> act_pool st' = fst (snd (fire_on_pool r (act_pool st)))"
  by (auto simp: fire_action_def Let_def split: prod.splits)

lemma should_trigger_pool:
  "chaos_io_rule_should_trigger env now (Some r) st = (fired, st') \<Longrightarrow>
     act_pool st' = act_pool st \<or> act_pool st' = fst (snd (fire_on_pool r (act_pool st)))"
  by (auto simp: chaos_io_rule_should_trigger_def Let_def dest: fire_action_pool split: if_splits prod.splits)

lemma io_trigger_frame: "io_trigger ie r w = (fired, w') \<Longrightarrow>
    io_frame w w' \<and> chaos_io_config_active_state (iw_lib w') = chaos_io_config_active_state (iw_lib w)"
  using io_act_frame [where f = "chaos_io_rule_should_trigger (le_prng (ie_look ie)) (le_now (ie_look ie)) (Some r)" and rule = r,
      OF _ should_trigger_pool]
  by (auto simp: io_trigger_def io_frame_def split: prod.splits)

lemma latency_pool:
  "chaos_io_rule_apply_latency env now sleeps (Some r) st = (slept, st') \<Longrightarrow>
     act_pool st' = act_pool st \<or> act_pool st' = fst (snd (fire_on_pool r (act_pool st)))"
  by (auto simp: chaos_io_rule_apply_latency_def dest!: should_trigger_pool split: if_splits prod.splits)

lemma io_delay_frame: "io_frame w (io_delay ie r w)"
  "chaos_io_config_active_state (iw_lib (io_delay ie r w)) = chaos_io_config_active_state (iw_lib w)"
  using io_act_frame [where f = "chaos_io_rule_apply_latency (le_prng (ie_look ie)) (le_now (ie_look ie))
      (le_sleeps (ie_look ie)) (Some r)" and rule = r, OF _ latency_pool]
  by (auto simp: io_delay_def io_frame_def split: prod.splits)

lemma io_draw_frame: "io_draw f w = (x, w') \<Longrightarrow> io_frame w w'"
  by (auto simp: io_draw_def io_frame_def intro: io_reachable.Draw split: prod.splits)

text \<open>A failure is one the rule is allowed to cause.\<close>

definition io_may_fail :: "io_hook_env \<Rightarrow> chaos_io_rule \<Rightarrow> bool" where
  "io_may_fail ie r \<longleftrightarrow>
     io_effect r = CHAOS_IO_EFFECT_ERRNO \<and> 0 < io_probability r \<and>
     chaos_policy_window_open (le_now (ie_look ie)) (rh_policy r) \<and> chaos_policy_size_ok (rh_policy r) (rh_call_size r)"

lemma io_fail_frame:
  assumes "io_fail ie r w = (fails, w')"
  shows "chaos_io_config_active_state (iw_lib w') = chaos_io_config_active_state (iw_lib w) \<and>
    io_frame w (w'\<lparr>iw_errno := iw_errno w\<rparr>) \<and>
    (if fails then io_may_fail ie r \<and> iw_errno w' = io_errnum r else iw_errno w' = iw_errno w)"
proof -
  define f where "f = (\<lambda>st. case chaos_io_rule_apply_errno (le_prng (ie_look ie)) (le_now (ie_look ie)) (Some r) st of
      (fails, code, st') \<Rightarrow> ((fails, code), st'))"
  have pool: "act_pool st' = act_pool st \<or> act_pool st' = fst (snd (fire_on_pool r (act_pool st)))" if "f st = (y, st')" for st y st'
    using that by (auto simp: f_def chaos_io_rule_apply_errno_def dest!: should_trigger_pool split: if_splits prod.splits)
  have code: "if fails then io_may_fail ie r \<and> code = io_errnum r else code = None" if "f st = ((fails, code), st')" for st fails code st'
    using that should_trigger_gates
    by (auto simp: f_def chaos_io_rule_apply_errno_def io_may_fail_def Let_def split: if_splits prod.splits)
  obtain fl code lib where a: "io_act (le_hit (ie_look ie)) f (iw_lib w) = ((fl, code), lib)"
    by (metis surj_pair)
  then obtain st where st: "f \<lparr>act_prng = io_tls_prng (iw_lib w), act_pool = io_pool (iw_lib w), act_reports = 0\<rparr> = ((fl, code), st)"
    by (auto simp: io_act_def split: prod.splits)
  have w: "fails = fl" "w' = (if fl then w\<lparr>iw_lib := lib, iw_errno := code\<rparr> else w\<lparr>iw_lib := lib\<rparr>)"
    using assms a unfolding io_fail_def f_def [symmetric] by (auto split: if_splits)
  note fr = io_act_frame [OF a pool]
  show ?thesis using fr code [OF st] by (auto simp: w io_frame_def)
qed

lemma io_inject_frame:
  assumes "io_inject ie r w = (fails, w')"
  shows "chaos_io_config_active_state (iw_lib w') = chaos_io_config_active_state (iw_lib w) \<and>
    io_frame w (w'\<lparr>iw_errno := iw_errno w\<rparr>) \<and>
    (if fails then io_may_fail ie r \<and> iw_errno w' = io_errnum r else iw_errno w' = iw_errno w)"
proof (cases "io_effect r = CHAOS_IO_EFFECT_LATENCY")
  case True
  with assms have "fails = False" "w' = io_delay ie r w" by (simp_all add: io_inject_def)
  with io_delay_frame(1) [of w ie r] io_delay_frame(2) [of ie r w] show ?thesis by (simp add: io_frame_def)
next
  case False
  with assms io_fail_frame show ?thesis by (simp add: io_inject_def)
qed

lemma io_inject_passes: "io_inject ie r w = (False, w') \<Longrightarrow> io_frame w w'"
  using io_inject_frame [of ie r w False w'] by (simp add: io_frame_def)

lemma io_prepare_frame: "io_prepare ie w = (ready, w') \<Longrightarrow> io_frame w w'"
  using io_reachable.Prepare [of "iw_lib w" "le_look (ie_look ie)"]
  by (auto simp: io_prepare_def io_frame_def split: prod.splits)

lemma io_resolve_fd_frame: "io_resolve_fd ie fd n w = (path, w') \<Longrightarrow> io_frame w w' \<and> iw_lib w' = iw_lib w"
  by (auto simp: io_resolve_fd_def split: prod.splits)

text \<open>A rule that covers an operation on a path, in the snapshot of a library.\<close>

definition io_covers :: "io_lib \<Rightarrow> chaos_io_operation \<Rightarrow> string \<Rightarrow> chaos_io_rule \<Rightarrow> bool" where
  "io_covers lib operation path r \<longleftrightarrow>
     r \<in> set (st_rules (chaos_io_config_active_state lib)) \<and> io_operation r = operation \<and> chaos_io_rule_prefix_matches r path"

text \<open>What a descriptor names, as the cache or the link has it.\<close>

definition io_names :: "io_hook_env \<Rightarrow> io_world \<Rightarrow> int \<Rightarrow> string \<Rightarrow> bool" where
  "io_names ie w fd path \<longleftrightarrow>
     fst (chaos_io_fdcache_resolve (ie_map_ok ie) (ie_link ie fd) fd CHAOS_IO_MAX_PATH (iw_cache w)) = Some path"

lemma match_loaded_covers: "io_match_loaded operation (Some path) w = Some r \<Longrightarrow> io_covers (iw_lib w) operation path r"
  by (auto simp: io_match_loaded_def io_covers_def dest: match_loaded_sound)

lemma match_fd_rule_sound:
  assumes "chaos_io_match_fd_rule ie fd operation w = (found, w')"
  shows "io_frame w w' \<and>
    (found = Some r \<longrightarrow> 2 < fd \<and> (\<exists>path. io_names ie w fd path \<and> io_covers (iw_lib w') operation path r))"
proof (cases "fd \<le> 2")
  case True
  with assms show ?thesis by (simp add: chaos_io_match_fd_rule_def)
next
  case False
  obtain ready w1 where p: "io_prepare ie w = (ready, w1)" by fastforce
  obtain path w2 where q: "io_resolve_fd ie fd CHAOS_IO_MAX_PATH w1 = (path, w2)" by fastforce
  have f1: "io_frame w w1" "iw_cache w1 = iw_cache w"
    using p io_prepare_frame by (auto simp: io_prepare_def split: prod.splits)
  have f2: "io_frame w w2" using io_frame_trans f1(1) io_resolve_fd_frame [OF q] by blast
  have names: "io_names ie w fd p" if "path = Some p" for p
    using q f1(2) that by (auto simp: io_names_def io_resolve_fd_def split: prod.splits)
  have form: "(found, w') = (if \<not> ready then (None, w1) else case path of None \<Rightarrow> (None, w2)
      | Some p \<Rightarrow> (io_match_loaded operation (Some p) w2, w2))"
    using assms False p q by (simp add: chaos_io_match_fd_rule_def split: if_splits)
  show ?thesis
    using form f1(1) f2 names match_loaded_covers False by (auto split: if_splits option.splits)
qed

lemma match_fd_rule_sized_sound:
  assumes "chaos_io_match_fd_rule_sized ie fd operation size' w = (found, w')"
  shows "io_frame w w' \<and>
    (found = Some r \<longrightarrow> 2 < fd \<and> (\<exists>path r0. io_names ie w fd path \<and> io_covers (iw_lib w') operation path r0 \<and>
       r = r0\<lparr>rh_call_size := size'\<rparr>))"
proof -
  obtain f where m: "chaos_io_match_fd_rule ie fd operation w = (f, w')" "found = map_option (\<lambda>r. r\<lparr>rh_call_size := size'\<rparr>) f"
    using assms by (auto simp: chaos_io_match_fd_rule_sized_def split: prod.splits)
  show ?thesis
  proof (cases f)
    case None
    with match_fd_rule_sound [OF m(1)] m(2) show ?thesis by simp
  next
    case (Some r0)
    with match_fd_rule_sound [OF m(1), of r0] m(2) show ?thesis by auto
  qed
qed

lemma io_may_fail_sized [simp]:
  "io_may_fail ie (r\<lparr>rh_call_size := size'\<rparr>) \<longleftrightarrow>
     io_effect r = CHAOS_IO_EFFECT_ERRNO \<and> 0 < io_probability r \<and>
     chaos_policy_window_open (le_now (ie_look ie)) (rh_policy r) \<and> chaos_policy_size_ok (rh_policy r) size'"
  by (simp add: io_may_fail_def)

lemma io_perform_lib: "io_perform ie call w = (result, w') \<Longrightarrow> iw_lib w' = iw_lib w"
  by (auto simp: io_perform_def io_perform_or_def io_syscall_def io_answer_def Let_def split: option.splits prod.splits)

end
