(* ===== verification/Net_Endpoint.thy ===== *)
theory Net_Endpoint
  imports Chaos_Policy
begin

text \<open>
  \<open>src/net/chaos_net_endpoint.c\<close>: the selectors of network rules, the endpoints of sockets, and the
  matching of the one against the other. \<open>inet_pton\<close> is a parameter for each family (\<open>pton4\<close>,
  \<open>pton6\<close>), and so are the system calls that describe a descriptor. Addresses are their bytes in
  network order, ports are in host order.
\<close>

section \<open>Data\<close>

definition CHAOS_NET_MAX_TEXT :: nat where "CHAOS_NET_MAX_TEXT = 256"
definition INET_ADDRSTRLEN :: nat where "INET_ADDRSTRLEN = 16"
definition INET6_ADDRSTRLEN :: nat where "INET6_ADDRSTRLEN = 46"

datatype chaos_net_endpoint_kind =
  CHAOS_NET_ENDPOINT_INVALID | CHAOS_NET_ENDPOINT_ANY | CHAOS_NET_ENDPOINT_TCP4 | CHAOS_NET_ENDPOINT_TCP6
| CHAOS_NET_ENDPOINT_UDP4 | CHAOS_NET_ENDPOINT_UDP6 | CHAOS_NET_ENDPOINT_UNIX

text \<open>The members of the union are separate fields; only the one of the endpoint's kind is ever read.\<close>

record chaos_net_endpoint =
  ep_kind :: chaos_net_endpoint_kind
  ep_selector_len :: nat
  ep_port :: u16
  ep_wildcard_host :: bool
  ep_ipv4 :: "u8 list"
  ep_ipv6 :: "u8 list"
  ep_text :: string

definition endpoint_zero :: chaos_net_endpoint where
  "endpoint_zero =
     \<lparr>ep_kind = CHAOS_NET_ENDPOINT_ANY, ep_selector_len = 0, ep_port = 0, ep_wildcard_host = False,
      ep_ipv4 = replicate 4 0, ep_ipv6 = replicate 16 0, ep_text = []\<rparr>"

type_synonym pton = "string \<Rightarrow> u8 list option"

section \<open>Selectors\<close>

definition chaos_net_parse_port :: "string \<Rightarrow> u16 option" where
  "chaos_net_parse_port txt =
     (if txt = [] then None
      else let (value, rest, converted) = strtoul txt
           in if rest \<noteq> [] \<or> value > 65535 then None else Some (of_nat value))"

text \<open>Whether the parse succeeds, and the endpoint as left behind.\<close>

definition finish_port :: "string \<Rightarrow> chaos_net_endpoint \<Rightarrow> bool \<times> chaos_net_endpoint" where
  "finish_port txt endpoint =
     (case chaos_net_parse_port txt of
        None \<Rightarrow> (False, endpoint)
      | Some port \<Rightarrow> (True, endpoint\<lparr>ep_port := port\<rparr>))"

definition chaos_net_parse_ipv4_selector ::
  "pton \<Rightarrow> string \<Rightarrow> chaos_net_endpoint_kind \<Rightarrow> chaos_net_endpoint \<Rightarrow> bool \<times> chaos_net_endpoint" where
  "chaos_net_parse_ipv4_selector pton4 body kind endpoint =
     (case split_last CHR '':'' body of
        None \<Rightarrow> (False, endpoint)
      | Some (host, port_text) \<Rightarrow>
          (if host = [] then (False, endpoint)
           else if host = ''*''
           then finish_port port_text (endpoint\<lparr>ep_wildcard_host := True, ep_kind := kind\<rparr>)
           else if INET_ADDRSTRLEN \<le> length host then (False, endpoint)
           else case pton4 host of
                  None \<Rightarrow> (False, endpoint)
                | Some address \<Rightarrow>
                    finish_port port_text (endpoint\<lparr>ep_ipv4 := address, ep_kind := kind\<rparr>)))"

definition chaos_net_parse_ipv6_selector ::
  "pton \<Rightarrow> string \<Rightarrow> chaos_net_endpoint_kind \<Rightarrow> chaos_net_endpoint \<Rightarrow> bool \<times> chaos_net_endpoint" where
  "chaos_net_parse_ipv6_selector pton6 body kind endpoint0 =
     (let endpoint = endpoint0\<lparr>ep_kind := kind\<rparr>
      in if body = ''*'' then (False, endpoint)
         else case body of
                [] \<Rightarrow> (False, endpoint)
              | c # cs \<Rightarrow>
                  (if c = CHR ''*'' then
                     (if cs = [] \<or> hd cs \<noteq> CHR '':'' then (False, endpoint)
                      else finish_port (tl cs) (endpoint\<lparr>ep_wildcard_host := True\<rparr>))
                   else if c \<noteq> CHR ''['' then (False, endpoint)
                   else case split_first CHR '']'' cs of
                          None \<Rightarrow> (False, endpoint)
                        | Some (host, after) \<Rightarrow>
                            (if after = [] \<or> hd after \<noteq> CHR '':'' then (False, endpoint)
                             else if host = [] \<or> INET6_ADDRSTRLEN \<le> length host then (False, endpoint)
                             else case pton6 host of
                                    None \<Rightarrow> (False, endpoint)
                                  | Some address \<Rightarrow>
                                      finish_port (tl after) (endpoint\<lparr>ep_ipv6 := address\<rparr>))))"

definition parse_unix_selector :: "string \<Rightarrow> chaos_net_endpoint \<Rightarrow> bool \<times> chaos_net_endpoint" where
  "parse_unix_selector body endpoint =
     (if body = [] \<or> CHAOS_NET_MAX_TEXT \<le> length body then (False, endpoint)
      else (True, endpoint\<lparr>ep_kind := CHAOS_NET_ENDPOINT_UNIX, ep_text := body\<rparr>))"

text \<open>A NULL or empty text leaves the output alone, \<open>None\<close>.\<close>

definition chaos_net_endpoint_parse_selector ::
  "pton \<Rightarrow> pton \<Rightarrow> string option \<Rightarrow> bool \<times> chaos_net_endpoint option" where
  "chaos_net_endpoint_parse_selector pton4 pton6 txt =
     (case txt of
        None \<Rightarrow> (False, None)
      | Some t \<Rightarrow>
          (if t = [] then (False, None)
           else let endpoint = endpoint_zero\<lparr>ep_selector_len := length t\<rparr>;
                    (ok, result) =
                      (if t = ''*'' then (True, endpoint\<lparr>ep_kind := CHAOS_NET_ENDPOINT_ANY\<rparr>)
                       else case after_prefix ''tcp4://'' t of
                         Some body \<Rightarrow> chaos_net_parse_ipv4_selector pton4 body CHAOS_NET_ENDPOINT_TCP4 endpoint
                       | None \<Rightarrow>
                       (case after_prefix ''tcp6://'' t of
                         Some body \<Rightarrow> chaos_net_parse_ipv6_selector pton6 body CHAOS_NET_ENDPOINT_TCP6 endpoint
                       | None \<Rightarrow>
                       (case after_prefix ''udp4://'' t of
                         Some body \<Rightarrow> chaos_net_parse_ipv4_selector pton4 body CHAOS_NET_ENDPOINT_UDP4 endpoint
                       | None \<Rightarrow>
                       (case after_prefix ''udp6://'' t of
                         Some body \<Rightarrow> chaos_net_parse_ipv6_selector pton6 body CHAOS_NET_ENDPOINT_UDP6 endpoint
                       | None \<Rightarrow>
                       (case after_prefix ''unix://'' t of
                         Some body \<Rightarrow> parse_unix_selector body endpoint
                       | None \<Rightarrow> (False, endpoint))))))
                in (ok, Some result)))"

section \<open>Matching\<close>

text \<open>The rank of a match. \<open>host_rank\<close> is the switch on the kind, with the address member it compares.\<close>

definition host_rank :: "chaos_net_endpoint \<Rightarrow> chaos_net_endpoint \<Rightarrow> bool \<Rightarrow> nat option" where
  "host_rank selector endpoint same_address =
     (if ep_port selector \<noteq> ep_port endpoint then None
      else if ep_wildcard_host selector then Some 2
      else if same_address then Some 3
      else None)"

definition chaos_net_endpoint_matches ::
  "chaos_net_endpoint option \<Rightarrow> chaos_net_endpoint option \<Rightarrow> nat option" where
  "chaos_net_endpoint_matches selector endpoint =
     (case (selector, endpoint) of
        (Some s, Some e) \<Rightarrow>
          (if ep_kind s = CHAOS_NET_ENDPOINT_ANY then Some 1
           else if ep_kind s = CHAOS_NET_ENDPOINT_UNIX \<and> ep_kind e = CHAOS_NET_ENDPOINT_UNIX then
             (if ep_text s = ''*'' then Some 2
              else if ep_text s \<noteq> ep_text e then None
              else Some 4)
           else if ep_kind s = ep_kind e then
             (case ep_kind s of
                CHAOS_NET_ENDPOINT_TCP4 \<Rightarrow> host_rank s e (ep_ipv4 s = ep_ipv4 e)
              | CHAOS_NET_ENDPOINT_UDP4 \<Rightarrow> host_rank s e (ep_ipv4 s = ep_ipv4 e)
              | CHAOS_NET_ENDPOINT_TCP6 \<Rightarrow> host_rank s e (ep_ipv6 s = ep_ipv6 e)
              | CHAOS_NET_ENDPOINT_UDP6 \<Rightarrow> host_rank s e (ep_ipv6 s = ep_ipv6 e)
              | _ \<Rightarrow> None)
           else None)
      | _ \<Rightarrow> None)"

definition chaos_net_endpoint_selector_rank :: "chaos_net_endpoint option \<Rightarrow> nat" where
  "chaos_net_endpoint_selector_rank selector =
     (case selector of
        None \<Rightarrow> 0
      | Some s \<Rightarrow>
          (if ep_kind s = CHAOS_NET_ENDPOINT_ANY then 1
           else if ep_kind s = CHAOS_NET_ENDPOINT_UNIX then if ep_text s = ''*'' then 2 else 4
           else if ep_wildcard_host s then 2 else 3))"

section \<open>Endpoints of sockets\<close>

text \<open>The numbers of the Linux interface.\<close>

definition AF_UNIX :: int where "AF_UNIX = 1"
definition AF_INET :: int where "AF_INET = 2"
definition AF_INET6 :: int where "AF_INET6 = 10"
definition SOCK_STREAM :: u32 where "SOCK_STREAM = 1"
definition SOCK_DGRAM :: u32 where "SOCK_DGRAM = 2"
definition SOCK_CLOEXEC :: u32 where "SOCK_CLOEXEC = 0x80000"
definition SOCK_NONBLOCK :: u32 where "SOCK_NONBLOCK = 0x800"

definition plain_type :: "u32 \<Rightarrow> u32" where
  "plain_type type' = type' AND NOT SOCK_CLOEXEC AND NOT SOCK_NONBLOCK"

definition wildcard_endpoint :: "chaos_net_endpoint_kind \<Rightarrow> chaos_net_endpoint" where
  "wildcard_endpoint kind = endpoint_zero\<lparr>ep_kind := kind, ep_wildcard_host := True\<rparr>"

definition chaos_net_endpoint_from_socket_spec :: "int \<Rightarrow> u32 \<Rightarrow> int \<Rightarrow> chaos_net_endpoint option" where
  "chaos_net_endpoint_from_socket_spec domain type' protocol =
     (let t = plain_type type'
      in if domain = AF_INET then
           (if t = SOCK_STREAM then Some (wildcard_endpoint CHAOS_NET_ENDPOINT_TCP4)
            else if t = SOCK_DGRAM then Some (wildcard_endpoint CHAOS_NET_ENDPOINT_UDP4)
            else None)
         else if domain = AF_INET6 then
           (if t = SOCK_STREAM then Some (wildcard_endpoint CHAOS_NET_ENDPOINT_TCP6)
            else if t = SOCK_DGRAM then Some (wildcard_endpoint CHAOS_NET_ENDPOINT_UDP6)
            else None)
         else if domain = AF_UNIX
         then Some (endpoint_zero\<lparr>ep_kind := CHAOS_NET_ENDPOINT_UNIX, ep_text := ''*''\<rparr>)
         else None)"

text \<open>What the system calls answer for the descriptor: \<open>SO_TYPE\<close>, and the two addresses, each with the
  length reported. The contents of \<open>sun_path\<close> are its 108 bytes.\<close>

datatype sockaddr =
  SA_Inet u16 "u8 list" | SA_Inet6 u16 "u8 list" | SA_Unix string | SA_Other

record socket_env =
  se_so_type :: "u32 option"
  se_local :: "errno + sockaddr \<times> nat"
  se_peer :: "errno + sockaddr \<times> nat"

definition chaos_net_endpoint_kind_from_socket ::
  "u32 option \<Rightarrow> int \<Rightarrow> chaos_net_endpoint_kind option" where
  "chaos_net_endpoint_kind_from_socket so_type family =
     (case so_type of
        None \<Rightarrow> None
      | Some type' \<Rightarrow>
          (let t = plain_type type'
           in if family = AF_INET then
                (if t = SOCK_STREAM then Some CHAOS_NET_ENDPOINT_TCP4
                 else if t = SOCK_DGRAM then Some CHAOS_NET_ENDPOINT_UDP4 else None)
              else if family = AF_INET6 then
                (if t = SOCK_STREAM then Some CHAOS_NET_ENDPOINT_TCP6
                 else if t = SOCK_DGRAM then Some CHAOS_NET_ENDPOINT_UDP6 else None)
              else if family = AF_UNIX then Some CHAOS_NET_ENDPOINT_UNIX
              else None))"

definition SUN_PATH_OFFSET :: nat where "SUN_PATH_OFFSET = 2"
definition SUN_PATH_SIZE :: nat where "SUN_PATH_SIZE = 108"

definition v4_mapped :: "u8 list \<Rightarrow> bool" where
  "v4_mapped address \<longleftrightarrow> take 12 address = replicate 10 0 @ [0xff, 0xff]"

definition unix_text :: "string \<Rightarrow> nat \<Rightarrow> string" where
  "unix_text sun_path path_max =
     (if path_max = 0 then []
      else if hd sun_path = NUL then map (\<lambda>c. if c = NUL then CHR ''@'' else c) (take path_max sun_path)
      else takeWhile (\<lambda>c. c \<noteq> NUL) (take path_max sun_path))"

definition chaos_net_endpoint_from_sockaddr ::
  "u32 option \<Rightarrow> sockaddr \<Rightarrow> nat \<Rightarrow> bool \<Rightarrow> chaos_net_endpoint option" where
  "chaos_net_endpoint_from_sockaddr so_type address address_length fd_is_socket =
     (if address_length < 2 then None
      else case address of
        SA_Inet port bytes \<Rightarrow>
          (if address_length < 16 then None
           else case chaos_net_endpoint_kind_from_socket so_type AF_INET of
                  None \<Rightarrow> None
                | Some kind \<Rightarrow> Some (endpoint_zero\<lparr>ep_kind := kind, ep_port := port, ep_ipv4 := bytes\<rparr>))
      | SA_Inet6 port bytes \<Rightarrow>
          (if address_length < 28 then None
           else case chaos_net_endpoint_kind_from_socket so_type AF_INET6 of
                  None \<Rightarrow> None
                | Some kind \<Rightarrow>
                    (if v4_mapped bytes
                     then Some (endpoint_zero\<lparr>ep_port := port, ep_ipv4 := drop 12 bytes,
                            ep_kind := (if kind = CHAOS_NET_ENDPOINT_TCP6 then CHAOS_NET_ENDPOINT_TCP4
                                        else CHAOS_NET_ENDPOINT_UDP4)\<rparr>)
                     else Some (endpoint_zero\<lparr>ep_kind := kind, ep_port := port, ep_ipv6 := bytes\<rparr>)))
      | SA_Unix sun_path \<Rightarrow>
          (let path_max = min (address_length - SUN_PATH_OFFSET) SUN_PATH_SIZE
           in case (if fd_is_socket then Some CHAOS_NET_ENDPOINT_UNIX
                    else chaos_net_endpoint_kind_from_socket so_type AF_UNIX) of
                None \<Rightarrow> None
              | Some kind \<Rightarrow> Some (endpoint_zero\<lparr>ep_kind := kind, ep_text := unix_text sun_path path_max\<rparr>))
      | SA_Other \<Rightarrow> None)"

definition chaos_net_endpoint_from_sockaddr_fd ::
  "socket_env \<Rightarrow> sockaddr \<Rightarrow> nat \<Rightarrow> chaos_net_endpoint option" where
  "chaos_net_endpoint_from_sockaddr_fd env address address_length =
     chaos_net_endpoint_from_sockaddr (se_so_type env) address address_length False"

text \<open>The endpoint, and whether the descriptor turned out to be no socket.\<close>

definition chaos_net_endpoint_from_end_fd :: "socket_env \<Rightarrow> bool \<Rightarrow> chaos_net_endpoint option \<times> bool" where
  "chaos_net_endpoint_from_end_fd env peer =
     (case (if peer then se_peer env else se_local env) of
        Inl e \<Rightarrow> (None, e = ENOTSOCK \<or> e = EBADF)
      | Inr (address, address_length) \<Rightarrow>
          (chaos_net_endpoint_from_sockaddr (se_so_type env) address address_length True, False))"

definition chaos_net_endpoint_from_local_fd :: "socket_env \<Rightarrow> chaos_net_endpoint option" where
  "chaos_net_endpoint_from_local_fd env = fst (chaos_net_endpoint_from_end_fd env False)"

definition chaos_net_endpoint_from_peer_fd :: "socket_env \<Rightarrow> chaos_net_endpoint option" where
  "chaos_net_endpoint_from_peer_fd env = fst (chaos_net_endpoint_from_end_fd env True)"

definition chaos_net_endpoint_from_activity_fd :: "socket_env \<Rightarrow> chaos_net_endpoint option" where
  "chaos_net_endpoint_from_activity_fd env =
     (case chaos_net_endpoint_from_local_fd env of
        Some e \<Rightarrow> Some e
      | None \<Rightarrow> chaos_net_endpoint_from_peer_fd env)"

section \<open>Properties\<close>

lemma host_rank_cases: "host_rank s e b = Some k \<Longrightarrow> k = (if ep_wildcard_host s then 2 else 3)"
  by (auto simp: host_rank_def split: if_splits)

lemma matches_rank:
  "chaos_net_endpoint_matches s e = Some k \<Longrightarrow>
     k = chaos_net_endpoint_selector_rank s \<and> 1 \<le> k \<and> k \<le> 4"
  by (auto simp: chaos_net_endpoint_matches_def chaos_net_endpoint_selector_rank_def
      split: option.splits if_splits chaos_net_endpoint_kind.splits dest!: host_rank_cases)

text \<open>The rank of a match depends on the selector alone: whatever endpoint it matches, the rank reported
  is the one \<open>chaos_net_endpoint_selector_rank\<close> predicts, between 1 and 4.\<close>

theorem endpoint_rank_agrees:
  assumes "chaos_net_endpoint_matches s e = Some k"
  shows "k = chaos_net_endpoint_selector_rank s \<and> 1 \<le> k \<and> k \<le> 4"
  using assms by (rule matches_rank)

theorem endpoint_rank_agrees_witness:
  "2 = chaos_net_endpoint_selector_rank (Some (wildcard_endpoint CHAOS_NET_ENDPOINT_TCP4)) \<and> 1 \<le> (2::nat) \<and> (2::nat) \<le> 4"
  by (rule endpoint_rank_agrees [where e = "Some (endpoint_zero\<lparr>ep_kind := CHAOS_NET_ENDPOINT_TCP4, ep_ipv4 := [127, 0, 0, 1]\<rparr>)"])
    (simp add: chaos_net_endpoint_matches_def wildcard_endpoint_def endpoint_zero_def host_rank_def)

lemma parse_port_print: "n \<le> 65535 \<Longrightarrow> chaos_net_parse_port (print_nat n) = Some (of_nat n)"
  using strtoul_digits [of "print_nat n"] print_nat_digits [of _ n]
  by (simp add: chaos_net_parse_port_def ulong_max_def)

lemma print_nat_no_colon: "CHR '':'' \<notin> set (print_nat n)"
  by simp

lemma split_host_port: "split_last CHR '':'' (host @ CHR '':'' # print_nat n) = Some (host, print_nat n)"
  by (simp add: split_last_Some_iff)

text \<open>The prefix tests of the schemes.\<close>

lemma scheme_prefixes [simp]:
  "after_prefix ''tcp4://'' (''udp4://'' @ b) = None" "after_prefix ''tcp6://'' (''udp4://'' @ b) = None"
  by simp_all

text \<open>An IPv4 selector is read as written: for a host the address parser accepts, or the wildcard, and any
  port, the endpoint has the transport, the address and exactly that port.\<close>

theorem selector_ipv4_roundtrip:
  assumes "length host < INET_ADDRSTRLEN" "host \<noteq> []" "host \<noteq> ''*''" "pton4 host = Some address" "port \<le> 65535"
  shows "chaos_net_endpoint_parse_selector pton4 pton6 (Some (''tcp4://'' @ host @ CHR '':'' # print_nat port)) =
      (True, Some (endpoint_zero\<lparr>ep_selector_len := length (''tcp4://'' @ host @ CHR '':'' # print_nat port),
         ep_kind := CHAOS_NET_ENDPOINT_TCP4, ep_ipv4 := address, ep_port := of_nat port\<rparr>)) \<and>
    chaos_net_endpoint_parse_selector pton4 pton6 (Some (''udp4://*'' @ CHR '':'' # print_nat port)) =
      (True, Some (endpoint_zero\<lparr>ep_selector_len := length (''udp4://*'' @ CHR '':'' # print_nat port),
         ep_kind := CHAOS_NET_ENDPOINT_UDP4, ep_wildcard_host := True, ep_port := of_nat port\<rparr>))"
proof
  have split: "split_last CHR '':'' (CHR ''*'' # CHR '':'' # print_nat port) = Some (''*'', print_nat port)"
    using split_host_port [of "''*''" port] by simp
  show "chaos_net_endpoint_parse_selector pton4 pton6 (Some (''tcp4://'' @ host @ CHR '':'' # print_nat port)) =
      (True, Some (endpoint_zero\<lparr>ep_selector_len := length (''tcp4://'' @ host @ CHR '':'' # print_nat port),
         ep_kind := CHAOS_NET_ENDPOINT_TCP4, ep_ipv4 := address, ep_port := of_nat port\<rparr>))"
    using assms
    by (simp add: chaos_net_endpoint_parse_selector_def chaos_net_parse_ipv4_selector_def split_host_port
        finish_port_def parse_port_print Let_def endpoint_zero_def)
  show "chaos_net_endpoint_parse_selector pton4 pton6 (Some (''udp4://*'' @ CHR '':'' # print_nat port)) =
      (True, Some (endpoint_zero\<lparr>ep_selector_len := length (''udp4://*'' @ CHR '':'' # print_nat port),
         ep_kind := CHAOS_NET_ENDPOINT_UDP4, ep_wildcard_host := True, ep_port := of_nat port\<rparr>))"
    using assms(5)
    by (simp add: chaos_net_endpoint_parse_selector_def chaos_net_parse_ipv4_selector_def split
        finish_port_def parse_port_print Let_def endpoint_zero_def)
qed

definition demo_pton :: pton where
  "demo_pton host = (if host = ''127.0.0.1'' then Some [127, 0, 0, 1] else None)"

theorem selector_ipv4_roundtrip_witness:
  "chaos_net_endpoint_parse_selector demo_pton demo_pton (Some (''tcp4://'' @ ''127.0.0.1'' @ CHR '':'' # print_nat 6379)) =
      (True, Some (endpoint_zero\<lparr>ep_selector_len := length (''tcp4://'' @ ''127.0.0.1'' @ CHR '':'' # print_nat 6379),
         ep_kind := CHAOS_NET_ENDPOINT_TCP4, ep_ipv4 := [127, 0, 0, 1], ep_port := of_nat 6379\<rparr>)) \<and>
    chaos_net_endpoint_parse_selector demo_pton demo_pton (Some (''udp4://*'' @ CHR '':'' # print_nat 6379)) =
      (True, Some (endpoint_zero\<lparr>ep_selector_len := length (''udp4://*'' @ CHR '':'' # print_nat 6379),
         ep_kind := CHAOS_NET_ENDPOINT_UDP4, ep_wildcard_host := True, ep_port := of_nat 6379\<rparr>))"
  by (rule selector_ipv4_roundtrip) (simp_all add: INET_ADDRSTRLEN_def demo_pton_def)

text \<open>A selector with a bad port is refused, but only after its kind and address were stored; and a
  negative port is not refused as such: the text of \<open>1 - 2 ^ 64\<close> is port 1.\<close>

theorem selector_port_oddities:
  "fst (chaos_net_endpoint_parse_selector demo_pton demo_pton (Some ''tcp4://127.0.0.1:99999'')) = False \<and>
   map_option ep_ipv4 (snd (chaos_net_endpoint_parse_selector demo_pton demo_pton (Some ''tcp4://127.0.0.1:99999''))) =
     Some [127, 0, 0, 1] \<and>
   chaos_net_parse_port ''-18446744073709551615'' = Some 1"
  by (simp add: chaos_net_endpoint_parse_selector_def chaos_net_parse_ipv4_selector_def finish_port_def
      chaos_net_parse_port_def strtoul_def strtoul_sign_def c_isspace_def is_digit_def digit_value_def
      ulong_max_def split_last_def INET_ADDRSTRLEN_def demo_pton_def endpoint_zero_def Let_def)

text \<open>An IPv4 peer of a dual-stack socket is matched as IPv4: its mapped address gives the very endpoint a
  plain IPv4 address gives, so the same rules apply.\<close>

theorem v4_mapped_is_ipv4:
  assumes "so_type = Some t" "length bytes = 4" "28 \<le> length'" "16 \<le> length''"
  shows "chaos_net_endpoint_from_sockaddr so_type (SA_Inet6 port (replicate 10 0 @ [0xff, 0xff] @ bytes)) length' b =
    chaos_net_endpoint_from_sockaddr so_type (SA_Inet port bytes) length'' b"
proof -
  define mapped where "mapped = replicate 10 0 @ [0xff, 0xff] @ bytes"
  have m: "v4_mapped mapped" "drop 12 mapped = bytes" by (simp_all add: v4_mapped_def mapped_def)
  show ?thesis
    unfolding mapped_def [symmetric] chaos_net_endpoint_from_sockaddr_def sockaddr.case using assms
    by (simp add: m chaos_net_endpoint_kind_from_socket_def AF_INET_def AF_INET6_def Let_def endpoint_zero_def)
qed

theorem v4_mapped_is_ipv4_witness:
  "chaos_net_endpoint_from_sockaddr (Some SOCK_STREAM) (SA_Inet6 443 (replicate 10 0 @ [0xff, 0xff] @ [10, 0, 0, 1])) 28 True =
    chaos_net_endpoint_from_sockaddr (Some SOCK_STREAM) (SA_Inet 443 [10, 0, 0, 1]) 16 True"
  by (rule v4_mapped_is_ipv4) simp_all

text \<open>The text of a Unix endpoint is always a proper string that fits its buffer: at most 108 bytes and no
  NUL, also for abstract addresses, whose NUL bytes appear as \<open>@\<close>.\<close>

theorem unix_text_proper:
  assumes "length sun_path = SUN_PATH_SIZE"
  shows "length (unix_text sun_path (min (n - SUN_PATH_OFFSET) SUN_PATH_SIZE)) < CHAOS_NET_MAX_TEXT \<and>
    NUL \<notin> set (unix_text sun_path (min (n - SUN_PATH_OFFSET) SUN_PATH_SIZE))"
proof -
  let ?m = "min (n - SUN_PATH_OFFSET) SUN_PATH_SIZE"
  have "length (unix_text sun_path ?m) \<le> ?m"
    by (auto simp: unix_text_def intro: order_trans [OF length_takeWhile_le])
  also have "?m < CHAOS_NET_MAX_TEXT" by (simp add: SUN_PATH_SIZE_def CHAOS_NET_MAX_TEXT_def min_def)
  finally have "length (unix_text sun_path ?m) < CHAOS_NET_MAX_TEXT" .
  moreover have "NUL \<notin> set (unix_text sun_path ?m)"
    by (auto simp: unix_text_def dest: set_takeWhileD)
  ultimately show ?thesis by blast
qed

theorem unix_text_proper_witness:
  "length (unix_text (NUL # ''app'' @ replicate 104 NUL) (min (6 - SUN_PATH_OFFSET) SUN_PATH_SIZE)) < CHAOS_NET_MAX_TEXT \<and>
    NUL \<notin> set (unix_text (NUL # ''app'' @ replicate 104 NUL) (min (6 - SUN_PATH_OFFSET) SUN_PATH_SIZE))"
  by (rule unix_text_proper) (simp add: SUN_PATH_SIZE_def)

end
