(* ===== verification/Net_Config.thy ===== *)
theory Net_Config
  imports Rule_File Net_Endpoint
begin

text \<open>
  The rule file grammar of the network library (\<open>src/net/chaos_net_config.c\<close>): its tables of
  operations and effects, the parser of one line and of a whole file, and the selection of the rule
  that governs an operation on an endpoint, on the endpoint of one end, or on both ends at once.
  \<open>inet_pton\<close> is a parameter. The tables \<open>chaos_net_trim\<close> and \<open>chaos_net_strip_comment\<close> are those
  of the file library under other names, and so is the loop over the lines (theory \<open>Rule_File\<close>).
\<close>

section \<open>Data\<close>

datatype chaos_net_operation =
  CHAOS_NET_OP_INVALID | CHAOS_NET_OP_BIND | CHAOS_NET_OP_LISTEN | CHAOS_NET_OP_CONNECT | CHAOS_NET_OP_ACCEPT
| CHAOS_NET_OP_SOCKET | CHAOS_NET_OP_SHUTDOWN | CHAOS_NET_OP_POLL | CHAOS_NET_OP_SEND | CHAOS_NET_OP_RECV
| CHAOS_NET_OP_CLOSE

datatype chaos_net_effect =
  CHAOS_NET_EFFECT_INVALID | CHAOS_NET_EFFECT_ERRNO | CHAOS_NET_EFFECT_LATENCY | CHAOS_NET_EFFECT_CORRUPT
| CHAOS_NET_EFFECT_TIMEOUT | CHAOS_NET_EFFECT_RESET | CHAOS_NET_EFFECT_TRICKLE | CHAOS_NET_EFFECT_DUP

record chaos_net_rule = rule_head +
  net_selector :: chaos_net_endpoint
  net_operation :: chaos_net_operation
  net_effect :: chaos_net_effect
  net_errnum :: "errno option"
  net_probability :: rat
  net_latency_ms :: nat
  net_chunk_bytes :: nat

text \<open>The zeroed rule; enumerators of value 0 are \<open>BIND\<close> and \<open>ERRNO\<close>.\<close>

definition net_rule_zero :: chaos_net_rule where
  "net_rule_zero =
     \<lparr>rh_policy = policy_zero, rh_call_size = 0, rh_hit = None, rh_hit_generation = 0,
      net_selector = endpoint_zero, net_operation = CHAOS_NET_OP_BIND, net_effect = CHAOS_NET_EFFECT_ERRNO,
      net_errnum = None, net_probability = 0, net_latency_ms = 0, net_chunk_bytes = 0\<rparr>"

section \<open>Text helpers\<close>

definition chaos_net_is_blank_char :: "char \<Rightarrow> bool" where
  "chaos_net_is_blank_char ch \<longleftrightarrow> ch = CHR '' '' \<or> ch = TAB \<or> ch = CR \<or> ch = LF"

definition chaos_net_trim :: "string \<Rightarrow> string" where
  "chaos_net_trim txt =
     (let t = dropWhile chaos_net_is_blank_char txt
      in if t = [] then t else rstrip chaos_net_is_blank_char t)"

definition chaos_net_strip_comment :: "string \<Rightarrow> string" where
  "chaos_net_strip_comment line =
     (case split_first CHR ''#'' line of None \<Rightarrow> line | Some (before, _) \<Rightarrow> before)"

section \<open>Tables\<close>

definition chaos_net_parse_operation :: "string option \<Rightarrow> chaos_net_operation" where
  "chaos_net_parse_operation txt =
     (if txt = None then CHAOS_NET_OP_INVALID
      else if txt = Some ''bind'' then CHAOS_NET_OP_BIND
      else if txt = Some ''listen'' then CHAOS_NET_OP_LISTEN
      else if txt = Some ''connect'' then CHAOS_NET_OP_CONNECT
      else if txt = Some ''accept'' then CHAOS_NET_OP_ACCEPT
      else if txt = Some ''socket'' then CHAOS_NET_OP_SOCKET
      else if txt = Some ''shutdown'' then CHAOS_NET_OP_SHUTDOWN
      else if txt = Some ''poll'' then CHAOS_NET_OP_POLL
      else if txt = Some ''send'' then CHAOS_NET_OP_SEND
      else if txt = Some ''recv'' then CHAOS_NET_OP_RECV
      else if txt = Some ''close'' then CHAOS_NET_OP_CLOSE
      else CHAOS_NET_OP_INVALID)"

definition chaos_net_parse_errno_name :: "string option \<Rightarrow> errno option" where
  "chaos_net_parse_errno_name txt =
     (if txt = None then None
      else if txt = Some ''ECONNREFUSED'' then Some ECONNREFUSED
      else if txt = Some ''ETIMEDOUT'' then Some ETIMEDOUT
      else if txt = Some ''ECONNRESET'' then Some ECONNRESET
      else if txt = Some ''EHOSTUNREACH'' then Some EHOSTUNREACH
      else if txt = Some ''ENETUNREACH'' then Some ENETUNREACH
      else if txt = Some ''EADDRINUSE'' then Some EADDRINUSE
      else if txt = Some ''EADDRNOTAVAIL'' then Some EADDRNOTAVAIL
      else if txt = Some ''EAFNOSUPPORT'' then Some EAFNOSUPPORT
      else if txt = Some ''EPROTONOSUPPORT'' then Some EPROTONOSUPPORT
      else if txt = Some ''EPIPE'' then Some EPIPE
      else if txt = Some ''ENOTCONN'' then Some ENOTCONN
      else if txt = Some ''EOPNOTSUPP'' then Some EOPNOTSUPP
      else if txt = Some ''EINVAL'' then Some EINVAL
      else if txt = Some ''EINTR'' then Some EINTR
      else if txt = Some ''ENOMEM'' then Some ENOMEM
      else if txt = Some ''ENOBUFS'' then Some ENOBUFS
      else if txt = Some ''EMFILE'' then Some EMFILE
      else if txt = Some ''ENFILE'' then Some ENFILE
      else if txt = Some ''EAGAIN'' then Some EAGAIN
      else None)"

definition chaos_net_parse_probability :: "string option \<Rightarrow> rat option" where
  "chaos_net_parse_probability txt = chaos_policy_parse_probability txt"

definition chaos_net_parse_latency :: "string option \<Rightarrow> nat option" where
  "chaos_net_parse_latency txt =
     (case txt of
        None \<Rightarrow> None
      | Some t \<Rightarrow>
          (let (value, rest, converted) = strtoul t
           in if \<not> converted then None
              else if dropWhile (\<lambda>c. c = CHR '' '' \<or> c = TAB \<or> c = CR \<or> c = LF) rest \<noteq> [] then None
              else if value > 0xffffffff then None
              else Some value))"

definition chaos_net_effect_allowed :: "chaos_net_operation \<Rightarrow> chaos_net_effect \<Rightarrow> bool" where
  "chaos_net_effect_allowed operation effect =
     (if effect = CHAOS_NET_EFFECT_LATENCY then operation \<noteq> CHAOS_NET_OP_INVALID
      else if effect = CHAOS_NET_EFFECT_ERRNO
      then operation \<in> {CHAOS_NET_OP_BIND, CHAOS_NET_OP_LISTEN, CHAOS_NET_OP_CONNECT, CHAOS_NET_OP_ACCEPT,
             CHAOS_NET_OP_SOCKET, CHAOS_NET_OP_SHUTDOWN, CHAOS_NET_OP_POLL, CHAOS_NET_OP_SEND,
             CHAOS_NET_OP_RECV, CHAOS_NET_OP_CLOSE}
      else if effect = CHAOS_NET_EFFECT_CORRUPT \<or> effect = CHAOS_NET_EFFECT_TRICKLE \<or>
        effect = CHAOS_NET_EFFECT_DUP
      then operation = CHAOS_NET_OP_RECV
      else if effect = CHAOS_NET_EFFECT_TIMEOUT then operation = CHAOS_NET_OP_POLL
      else if effect = CHAOS_NET_EFFECT_RESET then operation = CHAOS_NET_OP_CLOSE
      else False)"

definition chaos_net_selector_allowed :: "chaos_net_operation \<Rightarrow> chaos_net_endpoint option \<Rightarrow> bool" where
  "chaos_net_selector_allowed operation selector =
     (case selector of
        None \<Rightarrow> False
      | Some s \<Rightarrow>
          (if ep_kind s = CHAOS_NET_ENDPOINT_ANY then True
           else if operation = CHAOS_NET_OP_SOCKET then
             (if ep_kind s \<in> {CHAOS_NET_ENDPOINT_TCP4, CHAOS_NET_ENDPOINT_TCP6, CHAOS_NET_ENDPOINT_UDP4,
                    CHAOS_NET_ENDPOINT_UDP6} \<and> ep_wildcard_host s \<and> ep_port s = 0
              then True
              else ep_kind s = CHAOS_NET_ENDPOINT_UNIX \<and> ep_text s = ''*'')
           else ep_kind s \<in> {CHAOS_NET_ENDPOINT_TCP4, CHAOS_NET_ENDPOINT_TCP6, CHAOS_NET_ENDPOINT_UDP4,
                  CHAOS_NET_ENDPOINT_UDP6, CHAOS_NET_ENDPOINT_UNIX}))"

section \<open>One line\<close>

text \<open>The fields are cut from the right, since a selector has colons of its own; in the order
  selector, operation, effect, value.\<close>

definition chaos_net_split_rule_fields :: "string \<Rightarrow> (string \<times> string \<times> string \<times> string) option" where
  "chaos_net_split_rule_fields line =
     (case split_last CHR '':'' line of
        None \<Rightarrow> None
      | Some (line1, value) \<Rightarrow>
     (case split_last CHR '':'' line1 of
        None \<Rightarrow> None
      | Some (line2, effect) \<Rightarrow>
     (case split_last CHR '':'' line2 of
        None \<Rightarrow> None
      | Some (selector, operation) \<Rightarrow>
          Some (chaos_net_trim selector, chaos_net_trim operation, chaos_net_trim effect,
                chaos_net_trim value))))"

text \<open>The chain of comparisons on the effect of a line.\<close>

definition net_parse_effect :: "string \<Rightarrow> string \<Rightarrow> chaos_net_rule \<Rightarrow> chaos_net_rule option" where
  "net_parse_effect effect value rule =
     (case chaos_net_parse_errno_name (Some effect) of
        Some e \<Rightarrow>
          map_option (\<lambda>p. rule\<lparr>net_effect := CHAOS_NET_EFFECT_ERRNO, net_errnum := Some e, net_probability := p\<rparr>)
            (chaos_net_parse_probability (Some value))
      | None \<Rightarrow>
          (if effect = ''LATENCY'' then
             map_option (\<lambda>ms. rule\<lparr>net_effect := CHAOS_NET_EFFECT_LATENCY, net_latency_ms := ms\<rparr>)
               (chaos_net_parse_latency (Some value))
           else if effect = ''CORRUPT'' then
             map_option (\<lambda>p. rule\<lparr>net_effect := CHAOS_NET_EFFECT_CORRUPT, net_probability := p\<rparr>)
               (chaos_net_parse_probability (Some value))
           else if effect = ''TIMEOUT'' then
             map_option (\<lambda>p. rule\<lparr>net_effect := CHAOS_NET_EFFECT_TIMEOUT, net_probability := p\<rparr>)
               (chaos_net_parse_probability (Some value))
           else if effect = ''TRICKLE'' then
             (case chaos_net_parse_latency (Some value) of
                None \<Rightarrow> None
              | Some chunk \<Rightarrow>
                  (if chunk = 0 then None
                   else Some (rule\<lparr>net_effect := CHAOS_NET_EFFECT_TRICKLE, net_probability := 1,
                                   net_chunk_bytes := chunk\<rparr>)))
           else if effect = ''DUP'' then
             map_option (\<lambda>p. rule\<lparr>net_effect := CHAOS_NET_EFFECT_DUP, net_probability := p\<rparr>)
               (chaos_net_parse_probability (Some value))
           else if effect = ''RESET'' then
             map_option (\<lambda>p. rule\<lparr>net_effect := CHAOS_NET_EFFECT_RESET, net_probability := p\<rparr>)
               (chaos_net_parse_probability (Some value))
           else None))"

definition net_parse_fields ::
  "pton \<Rightarrow> pton \<Rightarrow> string \<Rightarrow> string \<Rightarrow> string \<Rightarrow> string \<Rightarrow> chaos_net_rule option" where
  "net_parse_fields pton4 pton6 selector operation effect value =
     (if selector = [] \<or> operation = [] \<or> effect = [] \<or> value = [] then None
      else case chaos_net_endpoint_parse_selector pton4 pton6 (Some selector) of
             (True, Some endpoint) \<Rightarrow>
               (let rule = net_rule_zero\<lparr>net_selector := endpoint,
                             net_operation := chaos_net_parse_operation (Some operation)\<rparr>
                in if net_operation rule = CHAOS_NET_OP_INVALID then None
                   else if \<not> chaos_net_selector_allowed (net_operation rule) (Some (net_selector rule)) then None
                   else case net_parse_effect effect value rule of
                          None \<Rightarrow> None
                        | Some r \<Rightarrow> if chaos_net_effect_allowed (net_operation r) (net_effect r)
                                    then Some r else None)
           | _ \<Rightarrow> None)"

definition chaos_net_config_parse_line :: "pton \<Rightarrow> pton \<Rightarrow> string \<Rightarrow> chaos_net_rule line_result" where
  "chaos_net_config_parse_line pton4 pton6 line =
     (let cursor = chaos_net_trim (chaos_net_strip_comment line)
      in if cursor = [] then Line_Blank
         else case chaos_net_split_rule_fields cursor of
                None \<Rightarrow> Line_Invalid
              | Some (selector, operation, effect, value) \<Rightarrow>
                  (case net_parse_fields pton4 pton6 selector operation effect value of
                     None \<Rightarrow> Line_Invalid
                   | Some r \<Rightarrow> Line_Rule r))"

section \<open>The file\<close>

definition CHAOS_NET_MAX_RULES :: nat where "CHAOS_NET_MAX_RULES = 256"

text \<open>\<open>CHAOS_NET_RULE_SUPPORTED\<close> in the preload library and in \<open>chaos-init\<close>.\<close>

definition chaos_net_rule_supported :: "chaos_net_rule \<Rightarrow> bool" where
  "chaos_net_rule_supported rule \<longleftrightarrow> True"

definition chaos_net_config_parse_buffer ::
  "pton \<Rightarrow> pton \<Rightarrow> (chaos_net_rule \<Rightarrow> bool) \<Rightarrow> chaos_status_error \<Rightarrow> string \<Rightarrow> chaos_net_rule parse_result" where
  "chaos_net_config_parse_buffer pton4 pton6 supported err buffer =
     parse_rule_buffer (chaos_net_config_parse_line pton4 pton6) supported CHAOS_NET_MAX_RULES err buffer"

definition chaos_init_net_supported :: "chaos_net_rule \<Rightarrow> bool" where
  "chaos_init_net_supported rule \<longleftrightarrow>
     (net_effect rule = CHAOS_NET_EFFECT_ERRNO \<and> net_operation rule \<noteq> CHAOS_NET_OP_CLOSE) \<or>
     net_effect rule = CHAOS_NET_EFFECT_LATENCY \<or> net_effect rule = CHAOS_NET_EFFECT_TIMEOUT"

section \<open>Selection\<close>

record chaos_net_best_rule =
  best_rank :: nat
  best_length :: nat
  best_found :: bool

definition no_best :: chaos_net_best_rule where
  "no_best = \<lparr>best_rank = 0, best_length = 0, best_found = False\<rparr>"

text \<open>The output rule, not written before a match, is \<open>None\<close> until then.\<close>

fun chaos_net_config_select_better ::
  "chaos_net_rule list \<Rightarrow> chaos_net_operation \<Rightarrow> chaos_net_endpoint option
     \<Rightarrow> chaos_net_rule option \<times> chaos_net_best_rule \<Rightarrow> chaos_net_rule option \<times> chaos_net_best_rule" where
  "chaos_net_config_select_better [] operation endpoint (rule, best) = (rule, best)"
| "chaos_net_config_select_better (r # rest) operation endpoint (rule, best) =
     (if net_operation r \<noteq> operation
      then chaos_net_config_select_better rest operation endpoint (rule, best)
      else case chaos_net_endpoint_matches (Some (net_selector r)) endpoint of
             None \<Rightarrow> chaos_net_config_select_better rest operation endpoint (rule, best)
           | Some rank \<Rightarrow>
               (if \<not> best_found best \<or> best_rank best < rank \<or>
                   (rank = best_rank best \<and> best_length best < ep_selector_len (net_selector r))
                then chaos_net_config_select_better rest operation endpoint
                       (Some r, \<lparr>best_rank = rank, best_length = ep_selector_len (net_selector r),
                                 best_found = True\<rparr>)
                else chaos_net_config_select_better rest operation endpoint (rule, best)))"

definition chaos_net_config_select_endpoint_rule ::
  "chaos_net_rule list \<Rightarrow> chaos_net_operation \<Rightarrow> chaos_net_endpoint option \<Rightarrow> chaos_net_rule option" where
  "chaos_net_config_select_endpoint_rule rules operation endpoint =
     (if endpoint = None then None
      else let (rule, best) = chaos_net_config_select_better rules operation endpoint (None, no_best)
           in if best_found best then rule else None)"

section \<open>Lookups in the active snapshot\<close>

text \<open>What the lookups read of the snapshot. The sequence they read at the end is
  \<open>sequence_after\<close>: the snapshot may be rewritten meanwhile.\<close>

record net_snapshot =
  nst_sequence :: u64
  nst_rules :: "chaos_net_rule list"
  nst_parse_ok :: bool

definition chaos_net_config_match_endpoint_loaded ::
  "net_snapshot \<Rightarrow> u64 \<Rightarrow> chaos_net_operation \<Rightarrow> chaos_net_endpoint option \<Rightarrow> chaos_net_rule option" where
  "chaos_net_config_match_endpoint_loaded st sequence_after operation endpoint =
     (let sequence = chaos_snapshot_read_begin (nst_sequence st)
      in if \<not> nst_parse_ok st then None
         else case chaos_net_config_select_endpoint_rule (nst_rules st) operation endpoint of
                None \<Rightarrow> None
              | Some rule \<Rightarrow> if chaos_snapshot_read_valid sequence_after sequence then Some rule else None)"

definition chaos_net_config_targets_loaded :: "net_snapshot \<Rightarrow> u64 \<Rightarrow> chaos_net_operation \<Rightarrow> bool" where
  "chaos_net_config_targets_loaded st sequence_after operation =
     (let sequence = chaos_snapshot_read_begin (nst_sequence st)
      in if \<not> nst_parse_ok st then False
         else if \<exists>r \<in> set (nst_rules st). net_operation r = operation then True
         else \<not> chaos_snapshot_read_valid sequence_after sequence)"

definition chaos_net_config_match_final_loaded ::
  "net_snapshot \<Rightarrow> u64 \<Rightarrow> chaos_net_operation \<Rightarrow> chaos_net_endpoint option \<Rightarrow> chaos_net_rule option" where
  "chaos_net_config_match_final_loaded st sequence_after operation endpoint =
     (let sequence = chaos_snapshot_read_begin (nst_sequence st)
      in if \<not> nst_parse_ok st then None
         else let (rule, best) = chaos_net_config_select_better (nst_rules st) operation endpoint (None, no_best)
              in if \<not> best_found best then None
                 else if \<exists>r \<in> set (nst_rules st). net_operation r = operation \<and>
                           (best_rank best < chaos_net_endpoint_selector_rank (Some (net_selector r)) \<or>
                            (chaos_net_endpoint_selector_rank (Some (net_selector r)) = best_rank best \<and>
                             best_length best < ep_selector_len (net_selector r)))
                      then None
                 else if chaos_snapshot_read_valid sequence_after sequence then rule else None)"

definition chaos_net_config_match_either_loaded ::
  "net_snapshot \<Rightarrow> u64 \<Rightarrow> chaos_net_operation \<Rightarrow> chaos_net_endpoint option \<Rightarrow> chaos_net_endpoint option
     \<Rightarrow> chaos_net_rule option" where
  "chaos_net_config_match_either_loaded st sequence_after operation first second =
     (let sequence = chaos_snapshot_read_begin (nst_sequence st)
      in if \<not> nst_parse_ok st then None
         else let one = (if first = None then (None, no_best)
                         else chaos_net_config_select_better (nst_rules st) operation first (None, no_best));
                  (rule, best) = (if second = None then one
                         else chaos_net_config_select_better (nst_rules st) operation second one)
              in if best_found best \<and> chaos_snapshot_read_valid sequence_after sequence then rule else None)"

section \<open>Lemmas on the text helpers\<close>

lemma net_blank_eq: "chaos_net_is_blank_char = is_blank_char"
  by (auto simp: fun_eq_iff chaos_net_is_blank_char_def is_blank_char_def)

lemma net_trim_eq: "chaos_net_trim = trim_blanks"
  by (rule ext) (simp only: chaos_net_trim_def net_blank_eq trim_form)

lemma net_strip_comment_eq: "chaos_net_strip_comment = cut_comment"
  by (rule ext) (simp only: chaos_net_strip_comment_def strip_form)

section \<open>Well-formed rules\<close>

definition net_rule_ok :: "chaos_net_rule \<Rightarrow> bool" where
  "net_rule_ok r \<longleftrightarrow>
     net_operation r \<noteq> CHAOS_NET_OP_INVALID \<and> net_effect r \<noteq> CHAOS_NET_EFFECT_INVALID \<and>
     chaos_net_effect_allowed (net_operation r) (net_effect r) \<and>
     chaos_net_selector_allowed (net_operation r) (Some (net_selector r)) \<and>
     0 < ep_selector_len (net_selector r) \<and>
     (net_errnum r \<noteq> None \<longleftrightarrow> net_effect r = CHAOS_NET_EFFECT_ERRNO) \<and>
     0 \<le> net_probability r \<and> net_probability r \<le> 1 \<and>
     net_latency_ms r \<le> 0xffffffff \<and> (net_effect r \<noteq> CHAOS_NET_EFFECT_LATENCY \<longrightarrow> net_latency_ms r = 0) \<and>
     net_chunk_bytes r \<le> 0xffffffff \<and> (0 < net_chunk_bytes r \<longleftrightarrow> net_effect r = CHAOS_NET_EFFECT_TRICKLE)"

lemma net_parse_latency_bound: "chaos_net_parse_latency t = Some ms \<Longrightarrow> ms \<le> 0xffffffff"
  by (auto simp: chaos_net_parse_latency_def split: option.splits prod.splits if_splits)

lemma net_parse_effect_ok:
  assumes "net_parse_effect effect value rule = Some r"
    "net_errnum rule = None" "net_probability rule = 0" "net_latency_ms rule = 0" "net_chunk_bytes rule = 0"
  shows "net_effect r \<noteq> CHAOS_NET_EFFECT_INVALID" "net_errnum r \<noteq> None \<longleftrightarrow> net_effect r = CHAOS_NET_EFFECT_ERRNO"
    "0 \<le> net_probability r \<and> net_probability r \<le> 1"
    "net_latency_ms r \<le> 0xffffffff \<and> (net_effect r \<noteq> CHAOS_NET_EFFECT_LATENCY \<longrightarrow> net_latency_ms r = 0)"
    "net_chunk_bytes r \<le> 0xffffffff \<and> (0 < net_chunk_bytes r \<longleftrightarrow> net_effect r = CHAOS_NET_EFFECT_TRICKLE)"
    "net_selector r = net_selector rule" "net_operation r = net_operation rule"
  using assms net_parse_latency_bound parse_probability_range
  by (auto simp: net_parse_effect_def chaos_net_parse_probability_def split: option.splits if_splits)

lemma parse_selector_len:
  "chaos_net_endpoint_parse_selector pton4 pton6 (Some t) = (ok, Some e) \<Longrightarrow> ep_selector_len e = length t"
  by (auto simp: chaos_net_endpoint_parse_selector_def chaos_net_parse_ipv4_selector_def
      chaos_net_parse_ipv6_selector_def parse_unix_selector_def finish_port_def Let_def
      split: option.splits if_splits prod.splits list.splits)

lemma net_parse_fields_ok:
  assumes "net_parse_fields pton4 pton6 selector operation effect value = Some r"
  shows "net_rule_ok r"
proof -
  obtain endpoint where ep: "chaos_net_endpoint_parse_selector pton4 pton6 (Some selector) = (True, Some endpoint)"
    and ne: "selector \<noteq> []"
    using assms by (auto simp: net_parse_fields_def split: if_splits prod.splits bool.splits option.splits)
  define rule where "rule = net_rule_zero\<lparr>net_selector := endpoint,
      net_operation := chaos_net_parse_operation (Some operation)\<rparr>"
  have e: "net_parse_effect effect value rule = Some r" "net_operation rule \<noteq> CHAOS_NET_OP_INVALID"
    "chaos_net_selector_allowed (net_operation rule) (Some (net_selector rule))"
    "chaos_net_effect_allowed (net_operation r) (net_effect r)"
    using assms ep by (auto simp: net_parse_fields_def rule_def Let_def split: if_splits option.splits)
  have z: "net_errnum rule = None" "net_probability rule = 0" "net_latency_ms rule = 0"
    "net_chunk_bytes rule = 0" "net_selector rule = endpoint"
    by (simp_all add: rule_def net_rule_zero_def)
  note ok = net_parse_effect_ok [OF e(1) z(1-4)]
  show ?thesis
    unfolding net_rule_ok_def using ok e(2-4) z(5) parse_selector_len [OF ep] ne by simp
qed

lemma net_parse_line_ok:
  "chaos_net_config_parse_line pton4 pton6 line = Line_Rule r \<Longrightarrow> net_rule_ok r"
  by (auto simp: chaos_net_config_parse_line_def Let_def
      split: if_splits option.splits prod.splits intro: net_parse_fields_ok)

section \<open>The parser as a line grammar\<close>

lemma net_parse_line_blank:
  assumes "\<forall>c \<in> set s. is_blank_char c"
  shows "chaos_net_config_parse_line pton4 pton6 s = Line_Blank"
proof -
  from assms have "\<forall>c \<in> set (cut_comment s). is_blank_char c"
    by (auto simp: cut_comment_def dest: set_takeWhileD)
  then have "trim_blanks (cut_comment s) = []" by (simp only: trim_blanks_Nil_iff)
  then show ?thesis by (simp add: chaos_net_config_parse_line_def net_trim_eq net_strip_comment_eq)
qed

lemma net_parse_line_comment:
  "chaos_net_config_parse_line pton4 pton6 (s @ CHR ''#'' # t) = chaos_net_config_parse_line pton4 pton6 s"
  by (simp add: chaos_net_config_parse_line_def net_strip_comment_eq cut_comment_append)

lemma net_rule_ok_tail: "net_rule_ok r \<Longrightarrow> net_rule_ok (r\<lparr>rh_policy := p, rh_call_size := n\<rparr>)"
  by (simp add: net_rule_ok_def)

interpretation net_lines: line_grammar "chaos_net_config_parse_line pton4 pton6" chaos_net_rule_supported
    CHAOS_NET_MAX_RULES net_rule_ok for pton4 pton6
  by unfold_locales (simp_all add: net_parse_line_blank net_parse_line_comment net_parse_line_ok net_rule_ok_tail)

interpretation net_init_lines: line_grammar "chaos_net_config_parse_line pton4 pton6" chaos_init_net_supported
    CHAOS_NET_MAX_RULES net_rule_ok for pton4 pton6
  by unfold_locales (simp_all add: net_parse_line_blank net_parse_line_comment net_parse_line_ok net_rule_ok_tail)

section \<open>Selection as a scan by rank and length\<close>

definition net_key_of :: "chaos_net_rule \<Rightarrow> rank_key" where
  "net_key_of r =
     Rank_Key (chaos_net_endpoint_selector_rank (Some (net_selector r))) (ep_selector_len (net_selector r))"

text \<open>Whether a rule is a candidate for an operation on an endpoint.\<close>

definition net_rule_applies :: "chaos_net_operation \<times> chaos_net_endpoint option \<Rightarrow> chaos_net_rule \<Rightarrow> bool" where
  "net_rule_applies q r \<longleftrightarrow>
     net_operation r = fst q \<and> chaos_net_endpoint_matches (Some (net_selector r)) (snd q) \<noteq> None"

definition net_better ::
  "chaos_net_operation \<times> chaos_net_endpoint option \<Rightarrow> chaos_net_rule option \<Rightarrow> chaos_net_rule \<Rightarrow> chaos_net_rule option" where
  "net_better q x r =
     (if \<not> net_rule_applies q r then x
      else case x of None \<Rightarrow> Some r | Some b \<Rightarrow> if net_key_of b < net_key_of r then Some r else Some b)"

text \<open>The record the scan keeps beside the rule is determined by the rule.\<close>

definition best_of :: "chaos_net_rule option \<Rightarrow> chaos_net_best_rule" where
  "best_of x =
     (case x of
        None \<Rightarrow> no_best
      | Some b \<Rightarrow> \<lparr>best_rank = chaos_net_endpoint_selector_rank (Some (net_selector b)),
                   best_length = ep_selector_len (net_selector b), best_found = True\<rparr>)"

lemma best_of_simps [simp]:
  "best_of None = no_best" "best_found no_best = False" "best_found (best_of x) \<longleftrightarrow> x \<noteq> None"
  "best_found (best_of (Some b)) = True"
  "best_rank (best_of (Some b)) = chaos_net_endpoint_selector_rank (Some (net_selector b))"
  "best_length (best_of (Some b)) = ep_selector_len (net_selector b)"
  by (simp_all add: best_of_def no_best_def split: option.splits)

lemma select_better_step:
  "chaos_net_config_select_better (r # rest) operation endpoint (x, best_of x) =
   chaos_net_config_select_better rest operation endpoint
     (net_better (operation, endpoint) x r, best_of (net_better (operation, endpoint) x r))"
proof (cases "net_rule_applies (operation, endpoint) r")
  case False
  then show ?thesis by (auto simp: net_better_def net_rule_applies_def)
next
  case True
  then obtain rank where m: "chaos_net_endpoint_matches (Some (net_selector r)) endpoint = Some rank"
    and op: "net_operation r = operation"
    by (auto simp: net_rule_applies_def)
  have rank: "rank = chaos_net_endpoint_selector_rank (Some (net_selector r))"
    using matches_rank [OF m] by simp
  have rec: "\<lparr>best_rank = rank, best_length = ep_selector_len (net_selector r), best_found = True\<rparr> = best_of (Some r)"
    by (simp add: best_of_def rank)
  show ?thesis
  proof (cases x)
    case None
    with True m op rec show ?thesis by (simp add: net_better_def del: chaos_net_config_select_better.simps(1))
  next
    case (Some b)
    have "(best_rank (best_of x) < rank \<or> rank = best_rank (best_of x) \<and>
        best_length (best_of x) < ep_selector_len (net_selector r)) \<longleftrightarrow> net_key_of b < net_key_of r"
      by (auto simp: Some net_key_of_def rank)
    with True m op rec Some show ?thesis by (auto simp: net_better_def)
  qed
qed

lemma select_better_foldl:
  "chaos_net_config_select_better rules operation endpoint (x, best_of x) =
     (foldl (net_better (operation, endpoint)) x rules, best_of (foldl (net_better (operation, endpoint)) x rules))"
proof (induction rules arbitrary: x)
  case Nil
  then show ?case by simp
next
  case (Cons r rest)
  then show ?case by (simp only: select_better_step foldl_Cons)
qed

lemma select_endpoint_rule_foldl:
  "chaos_net_config_select_endpoint_rule rules operation (Some e) =
     foldl (net_better (operation, Some e)) None rules"
  using select_better_foldl [of rules operation "Some e" None]
  by (simp add: chaos_net_config_select_endpoint_rule_def)

interpretation net_scan: best_scan net_rule_applies net_key_of "\<lambda>q rs. foldl (net_better q) None rs"
  by unfold_locales (auto simp: net_better_def split: option.splits)

text \<open>The rule selected for an operation on an endpoint is one that applies, with the highest rank of
  those that do, among equal ranks the longest selector, and the first in the file among equals; without
  an applicable rule none is selected.\<close>

theorem net_select_rule_best:
  "case chaos_net_config_select_endpoint_rule rules operation (Some e) of
     None \<Rightarrow> \<forall>r \<in> set rules. \<not> net_rule_applies (operation, Some e) r
   | Some b \<Rightarrow> \<exists>before after. rules = before @ b # after \<and> net_rule_applies (operation, Some e) b \<and>
       (\<forall>r \<in> set before. net_rule_applies (operation, Some e) r \<longrightarrow> net_key_of r < net_key_of b) \<and>
       (\<forall>r \<in> set after. net_rule_applies (operation, Some e) r \<longrightarrow> net_key_of r \<le> net_key_of b)"
  using net_scan.select_best [of rules "(operation, Some e)"] by (simp add: select_endpoint_rule_foldl)

text \<open>A second scan keeps the rule of the first unless it meets a strictly better one.\<close>

lemma foldl_better_keeps:
  "(\<And>r. r \<in> set rs \<Longrightarrow> net_operation r = fst q \<Longrightarrow> \<not> net_key_of b < net_key_of r) \<Longrightarrow>
   foldl (net_better q) (Some b) rs = Some b"
proof (induction rs)
  case Nil
  then show ?case by simp
next
  case (Cons r rs)
  have "net_better q (Some b) r = Some b" using Cons.prems [of r] by (auto simp: net_better_def net_rule_applies_def)
  with Cons show ?case by simp
qed

lemma foldl_better_either:
  assumes "foldl (net_better q) (Some b) rs = Some c"
  shows "(c = b \<or> (c \<in> set rs \<and> net_rule_applies q c)) \<and> net_key_of b \<le> net_key_of c \<and>
    (\<forall>r \<in> set rs. net_rule_applies q r \<longrightarrow> net_key_of r \<le> net_key_of c)"
  using assms
proof (induction rs arbitrary: b)
  case Nil
  then show ?case by simp
next
  case (Cons r rs)
  obtain b' where b': "net_better q (Some b) r = Some b'" "b' = b \<or> (b' = r \<and> net_rule_applies q r)"
    "net_key_of b \<le> net_key_of b'" "net_rule_applies q r \<Longrightarrow> net_key_of r \<le> net_key_of b'"
    by (cases "net_rule_applies q r"; cases "net_key_of b < net_key_of r") (auto simp: net_better_def)
  from Cons.prems b'(1) have "foldl (net_better q) (Some b') rs = Some c" by simp
  note ih = Cons.IH [OF this]
  have "net_key_of b \<le> net_key_of c" using ih b'(3) by (meson order_trans)
  moreover have "net_rule_applies q r \<longrightarrow> net_key_of r \<le> net_key_of c" using ih b'(4) by (meson order_trans)
  ultimately show ?case using ih b'(2) by auto
qed

lemma foldl_better_None:
  "foldl (net_better q) x rs = None \<longleftrightarrow> x = None \<and> (\<forall>r \<in> set rs. \<not> net_rule_applies q r)"
  by (induction rs arbitrary: x) (auto simp: net_better_def split: option.splits if_splits)

text \<open>The lookups on both ends as scans.\<close>

lemma match_either_foldl:
  "chaos_net_config_match_either_loaded st sequence_after operation (Some e) (Some d) =
     (let found = foldl (net_better (operation, Some d)) (foldl (net_better (operation, Some e)) None (nst_rules st))
                    (nst_rules st)
      in if nst_parse_ok st \<and>
            chaos_snapshot_read_valid sequence_after (chaos_snapshot_read_begin (nst_sequence st))
         then found else None)"
  using select_better_foldl [of "nst_rules st" operation "Some e" None]
  by (auto simp: chaos_net_config_match_either_loaded_def select_better_foldl Let_def)

lemma match_final_foldl:
  assumes "chaos_net_config_match_final_loaded st sequence_after operation (Some e) = Some r"
  shows "nst_parse_ok st"
    "chaos_snapshot_read_valid sequence_after (chaos_snapshot_read_begin (nst_sequence st))"
    "foldl (net_better (operation, Some e)) None (nst_rules st) = Some r"
    "\<And>x. x \<in> set (nst_rules st) \<Longrightarrow> net_operation x = operation \<Longrightarrow> \<not> net_key_of r < net_key_of x"
proof -
  have scan: "chaos_net_config_select_better (nst_rules st) operation (Some e) (None, no_best) =
      (foldl (net_better (operation, Some e)) None (nst_rules st),
       best_of (foldl (net_better (operation, Some e)) None (nst_rules st)))"
    using select_better_foldl [of "nst_rules st" operation "Some e" None] by simp
  show ok: "nst_parse_ok st"
    and "chaos_snapshot_read_valid sequence_after (chaos_snapshot_read_begin (nst_sequence st))"
    and found: "foldl (net_better (operation, Some e)) None (nst_rules st) = Some r"
    using assms by (auto simp: chaos_net_config_match_final_loaded_def scan Let_def split: if_splits)
  fix x assume x: "x \<in> set (nst_rules st)" "net_operation x = operation"
  then show "\<not> net_key_of r < net_key_of x"
    using assms ok by (auto simp: chaos_net_config_match_final_loaded_def scan found Let_def net_key_of_def split: if_splits)
qed

text \<open>C10. An early answer is the right one: when the lookup on the first end of a connection finds a rule no
  rule of that operation can outrank, the lookup on both ends finds the same rule whatever the second end is.\<close>

theorem net_match_final_is_either:
  assumes "chaos_net_config_match_final_loaded st sequence_after operation (Some e) = Some r"
  shows "chaos_net_config_match_either_loaded st sequence_after operation (Some e) (Some d) = Some r"
proof -
  note final = match_final_foldl [OF assms]
  have "foldl (net_better (operation, Some d)) (Some r) (nst_rules st) = Some r"
    using final(4) by (intro foldl_better_keeps) auto
  with final(1-3) show ?thesis by (simp add: match_either_foldl)
qed

text \<open>Of the rules for either end of a connection the most specific wins: the rule found applies to one
  end and no rule that applies to either end has a higher rank, or an equal rank and a longer selector;
  with a stable snapshot nothing is found only when no rule applies to either end.\<close>

theorem net_match_either_best:
  assumes "nst_parse_ok st"
    "chaos_snapshot_read_valid sequence_after (chaos_snapshot_read_begin (nst_sequence st))"
  shows "case chaos_net_config_match_either_loaded st sequence_after operation (Some e) (Some d) of
      None \<Rightarrow> \<forall>x \<in> set (nst_rules st). \<not> net_rule_applies (operation, Some e) x \<and> \<not> net_rule_applies (operation, Some d) x
    | Some r \<Rightarrow> r \<in> set (nst_rules st) \<and>
        (net_rule_applies (operation, Some e) r \<or> net_rule_applies (operation, Some d) r) \<and>
        (\<forall>x \<in> set (nst_rules st). net_rule_applies (operation, Some e) x \<or> net_rule_applies (operation, Some d) x
           \<longrightarrow> net_key_of x \<le> net_key_of r)"
proof -
  let ?one = "foldl (net_better (operation, Some e)) None (nst_rules st)"
  let ?two = "foldl (net_better (operation, Some d)) ?one (nst_rules st)"
  have res: "chaos_net_config_match_either_loaded st sequence_after operation (Some e) (Some d) = ?two"
    using assms by (simp add: match_either_foldl)
  show ?thesis
  proof (cases ?one)
    case None
    then have e: "\<forall>x \<in> set (nst_rules st). \<not> net_rule_applies (operation, Some e) x"
      by (simp add: foldl_better_None)
    show ?thesis
    proof (cases ?two)
      case two: None
      then have "\<forall>x \<in> set (nst_rules st). \<not> net_rule_applies (operation, Some d) x"
        by (simp add: foldl_better_None None)
      with e show ?thesis unfolding res two by auto
    next
      case (Some r)
      then have "foldl (net_better (operation, Some d)) None (nst_rules st) = Some r"
        by (simp add: \<open>?one = None\<close>)
      from net_scan.select_matches [OF this] net_scan.select_maximal [OF this] e
      show ?thesis unfolding res Some by auto
    qed
  next
    case (Some b)
    note b = net_scan.select_matches [OF Some] net_scan.select_maximal [OF Some]
    have "?two \<noteq> None" by (simp add: foldl_better_None Some)
    then obtain c where c: "?two = Some c" by blast
    then have "foldl (net_better (operation, Some d)) (Some b) (nst_rules st) = Some c" by (simp add: Some)
    note either = foldl_better_either [OF this]
    have "net_key_of x \<le> net_key_of c"
      if "x \<in> set (nst_rules st)" "net_rule_applies (operation, Some e) x" for x
      using b(2) [OF that] either by (meson order_trans)
    with either b(1) show ?thesis unfolding res c by auto
  qed
qed

section \<open>Round trips\<close>

fun net_operation_name :: "chaos_net_operation \<Rightarrow> string" where
  "net_operation_name CHAOS_NET_OP_INVALID = []"
| "net_operation_name CHAOS_NET_OP_BIND = ''bind''"
| "net_operation_name CHAOS_NET_OP_LISTEN = ''listen''"
| "net_operation_name CHAOS_NET_OP_CONNECT = ''connect''"
| "net_operation_name CHAOS_NET_OP_ACCEPT = ''accept''"
| "net_operation_name CHAOS_NET_OP_SOCKET = ''socket''"
| "net_operation_name CHAOS_NET_OP_SHUTDOWN = ''shutdown''"
| "net_operation_name CHAOS_NET_OP_POLL = ''poll''"
| "net_operation_name CHAOS_NET_OP_SEND = ''send''"
| "net_operation_name CHAOS_NET_OP_RECV = ''recv''"
| "net_operation_name CHAOS_NET_OP_CLOSE = ''close''"

lemma net_parse_operation_name [simp]: "chaos_net_parse_operation (Some (net_operation_name op)) = op"
  by (cases op) (simp_all add: chaos_net_parse_operation_def)

lemma net_plain_operation: "op \<noteq> CHAOS_NET_OP_INVALID \<Longrightarrow> plain_field (net_operation_name op)"
  by (cases op) (simp_all add: plain_field_def trimmed_def is_blank_char_def)

definition net_line :: "string \<Rightarrow> chaos_net_operation \<Rightarrow> string \<Rightarrow> string \<Rightarrow> string" where
  "net_line selector op effect value =
     selector @ CHR '':'' # net_operation_name op @ CHR '':'' # effect @ CHR '':'' # value"

text \<open>A selector may have colons of its own.\<close>

lemma split_rule_fields_net_line:
  assumes "trimmed selector" "op \<noteq> CHAOS_NET_OP_INVALID" "plain_field effect" "plain_field value"
  shows "chaos_net_split_rule_fields (net_line selector op effect value) =
    Some (selector, net_operation_name op, effect, value)"
proof -
  note op = net_plain_operation [OF assms(2)]
  have split: "split_last CHR '':'' (a @ CHR '':'' # b) = Some (a, b)" if "plain_field b" for a b
    using that by (simp add: split_last_Some_iff plain_field_def)
  have line: "net_line selector op effect value =
      ((selector @ CHR '':'' # net_operation_name op) @ CHR '':'' # effect) @ CHR '':'' # value"
    by (simp add: net_line_def)
  show ?thesis
    unfolding chaos_net_split_rule_fields_def line split [OF assms(4)] prod.case option.case
      split [OF assms(3)] split [OF op] net_trim_eq
    using assms op by (simp add: plain_field_trim)
qed

lemma net_parse_line_fields:
  assumes "trimmed selector" "CHR ''#'' \<notin> set selector" "op \<noteq> CHAOS_NET_OP_INVALID" "plain_field effect"
    "plain_field value" "\<forall>b \<in> set blanks. is_blank_char b"
  shows "chaos_net_config_parse_line pton4 pton6 (net_line selector op effect value @ blanks) =
    (case net_parse_fields pton4 pton6 selector (net_operation_name op) effect value of
       None \<Rightarrow> Line_Invalid | Some r \<Rightarrow> Line_Rule r)"
proof -
  note op = net_plain_operation [OF assms(3)]
  have hash: "CHR ''#'' \<notin> set (net_line selector op effect value @ blanks)"
    using assms op by (auto simp: net_line_def plain_field_def is_blank_char_def)
  have "trimmed (net_line selector op effect value)"
    using assms(1,5) by (auto simp: net_line_def trimmed_def plain_field_def)
  then have trim: "trim_blanks (net_line selector op effect value @ blanks) = net_line selector op effect value"
    using assms(6) by (rule trim_blanks_trimmed)
  have ne: "net_line selector op effect value \<noteq> []" by (simp add: net_line_def)
  show ?thesis
    unfolding chaos_net_config_parse_line_def net_trim_eq net_strip_comment_eq cut_comment_id [OF hash] trim
    by (simp add: ne split_rule_fields_net_line assms(1,3,4,5))
qed

text \<open>A delay rule for any selector the endpoint parser reads, colons and brackets included, survives
  printing and parsing: endpoint, operation, milliseconds and every qualifier are read back exactly.\<close>

theorem net_latency_roundtrip:
  assumes "trimmed selector" "CHR ''#'' \<notin> set selector" "CHR ''@'' \<notin> set selector"
    "chaos_net_endpoint_parse_selector pton4 pton6 (Some selector) = (True, Some endpoint)"
    "op \<noteq> CHAOS_NET_OP_INVALID" "chaos_net_selector_allowed op (Some endpoint)"
    "ms \<le> 0xffffffff" "policy_ok p"
  shows "line_rule (chaos_net_config_parse_line pton4 pton6)
      (net_line selector op ''LATENCY'' (print_nat ms) @ print_qualifiers p) =
    Inr (Some (net_rule_zero\<lparr>net_selector := endpoint, net_operation := op,
      net_effect := CHAOS_NET_EFFECT_LATENCY, net_latency_ms := ms,
      rh_policy := p, rh_call_size := CHAOS_POLICY_NO_SIZE\<rparr>))"
proof -
  note op = net_plain_operation [OF assms(5)] and val = plain_print_nat [of ms]
  have eff: "plain_field ''LATENCY''" by (simp add: plain_field_def trimmed_def is_blank_char_def)
  have lat: "chaos_net_parse_latency (Some (print_nat ms)) = Some ms"
    using assms(7) by (simp add: chaos_net_parse_latency_def strtoul_print_nat)
  have "net_operation_name op \<noteq> []" "selector \<noteq> []" using op assms(1) by (simp_all add: plain_field_def trimmed_def)
  then have fields: "net_parse_fields pton4 pton6 selector (net_operation_name op) ''LATENCY'' (print_nat ms) =
      Some (net_rule_zero\<lparr>net_selector := endpoint, net_operation := op,
        net_effect := CHAOS_NET_EFFECT_LATENCY, net_latency_ms := ms\<rparr>)"
    using assms(4-6)
    by (simp add: net_parse_fields_def net_parse_effect_def chaos_net_parse_errno_name_def lat
        chaos_net_effect_allowed_def Let_def)
  have plain: "CHR ''@'' \<notin> set (net_line selector op ''LATENCY'' (print_nat ms))"
    "CHR ''#'' \<notin> set (net_line selector op ''LATENCY'' (print_nat ms))"
    using assms(2,3) op val by (auto simp: net_line_def plain_field_def)
  have ext: "chaos_policy_extract (net_line selector op ''LATENCY'' (print_nat ms) @ print_qualifiers p) =
      (True, net_line selector op ''LATENCY'' (print_nat ms) @ (if qualifier_words p = [] then [] else '' ''), p)"
    using extract_print [OF assms(8) no_qualifier_plain [OF plain(1)] plain(2)] by simp
  have parsed: "chaos_net_config_parse_line pton4 pton6
      (net_line selector op ''LATENCY'' (print_nat ms) @ (if qualifier_words p = [] then [] else '' '')) =
      Line_Rule (net_rule_zero\<lparr>net_selector := endpoint, net_operation := op,
        net_effect := CHAOS_NET_EFFECT_LATENCY, net_latency_ms := ms\<rparr>)"
    by (subst net_parse_line_fields) (simp_all add: assms(1,2,5) eff val is_blank_char_def fields)
  show ?thesis by (simp add: line_rule_def ext parsed)
qed

text \<open>A network rule file is taken whole or not at all, with the number, text and reason of its first line
  at fault; every rule taken is well formed: a selector and an effect the operation admits, an errno exactly
  for errno rules, a probability between 0 and 1, a 32-bit delay, a positive chunk exactly for trickling.\<close>

theorem net_parse_buffer_sound:
  "case scan_lines (line_rule (chaos_net_config_parse_line pton4 pton6)) chaos_net_rule_supported
          CHAOS_NET_MAX_RULES 0 0 (buffer_lines (c_string buffer)) of
     Inr rs \<Rightarrow>
       pr_ok (chaos_net_config_parse_buffer pton4 pton6 chaos_net_rule_supported err buffer) \<and>
       pr_rules (chaos_net_config_parse_buffer pton4 pton6 chaos_net_rule_supported err buffer) = rs \<and>
       length rs \<le> CHAOS_NET_MAX_RULES \<and> list_all net_rule_ok rs
   | Inl (n, reason, line) \<Rightarrow>
       \<not> pr_ok (chaos_net_config_parse_buffer pton4 pton6 chaos_net_rule_supported err buffer) \<and>
       pr_rules (chaos_net_config_parse_buffer pton4 pton6 chaos_net_rule_supported err buffer) = [] \<and>
       pr_error (chaos_net_config_parse_buffer pton4 pton6 chaos_net_rule_supported err buffer) =
         chaos_status_reject (chaos_status_keep_line (chaos_status_clear err) n line) reason"
  unfolding chaos_net_config_parse_buffer_def by (rule net_lines.parse_contract)

section \<open>Examples\<close>

definition demo_net_rule :: "chaos_net_endpoint \<Rightarrow> nat \<Rightarrow> chaos_net_rule" where
  "demo_net_rule e len = net_rule_zero\<lparr>net_selector := e\<lparr>ep_selector_len := len\<rparr>, net_operation := CHAOS_NET_OP_RECV,
     net_errnum := Some ECONNRESET, net_probability := 1\<rparr>"

definition demo_host :: chaos_net_endpoint where
  "demo_host = endpoint_zero\<lparr>ep_kind := CHAOS_NET_ENDPOINT_TCP4, ep_ipv4 := [127, 0, 0, 1], ep_port := 80\<rparr>"

definition demo_net_rules :: "chaos_net_rule list" where
  "demo_net_rules = [demo_net_rule endpoint_zero 1, demo_net_rule demo_host 19]"

definition demo_net_snapshot :: net_snapshot where
  "demo_net_snapshot = \<lparr>nst_sequence = 2, nst_rules = demo_net_rules, nst_parse_ok = True\<rparr>"

theorem net_select_rule_best_witness:
  "\<exists>b. chaos_net_config_select_endpoint_rule demo_net_rules CHAOS_NET_OP_RECV (Some demo_host) = Some b \<and>
     b \<in> set demo_net_rules \<and> net_rule_applies (CHAOS_NET_OP_RECV, Some demo_host) b"
proof -
  have "net_rule_applies (CHAOS_NET_OP_RECV, Some demo_host) (demo_net_rule endpoint_zero 1)"
    by code_simp
  moreover have "demo_net_rule endpoint_zero 1 \<in> set demo_net_rules" by (simp add: demo_net_rules_def)
  ultimately show ?thesis
    using net_select_rule_best [of demo_net_rules CHAOS_NET_OP_RECV demo_host]
    by (auto split: option.splits) (metis in_set_conv_decomp)
qed

theorem net_match_final_is_either_witness:
  "chaos_net_config_match_either_loaded demo_net_snapshot 2 CHAOS_NET_OP_RECV (Some demo_host)
     (Some endpoint_zero) = Some (demo_net_rule demo_host 19)"
  by (rule net_match_final_is_either) code_simp

theorem net_match_either_best_witness:
  "\<exists>r. chaos_net_config_match_either_loaded demo_net_snapshot 2 CHAOS_NET_OP_RECV (Some endpoint_zero)
      (Some demo_host) = Some r \<and> net_key_of (demo_net_rule demo_host 19) \<le> net_key_of r"
proof -
  have "net_rule_applies (CHAOS_NET_OP_RECV, Some demo_host) (demo_net_rule demo_host 19)"
    "nst_parse_ok demo_net_snapshot" "demo_net_rule demo_host 19 \<in> set (nst_rules demo_net_snapshot)"
    "chaos_snapshot_read_valid 2 (chaos_snapshot_read_begin (nst_sequence demo_net_snapshot))"
    by (code_simp, code_simp, simp add: demo_net_snapshot_def demo_net_rules_def, code_simp)
  then show ?thesis
    using net_match_either_best [of demo_net_snapshot 2 CHAOS_NET_OP_RECV endpoint_zero demo_host]
    by (auto split: option.splits)
qed

theorem net_latency_roundtrip_witness:
  "line_rule (chaos_net_config_parse_line demo_pton demo_pton)
      (net_line ''tcp4://127.0.0.1:80'' CHAOS_NET_OP_CONNECT ''LATENCY'' (print_nat 250) @
       print_qualifiers (policy_zero\<lparr>pol_first := 2\<rparr>)) =
    Inr (Some (net_rule_zero\<lparr>net_selector := demo_host\<lparr>ep_selector_len := 19\<rparr>, net_operation := CHAOS_NET_OP_CONNECT,
      net_effect := CHAOS_NET_EFFECT_LATENCY, net_latency_ms := 250,
      rh_policy := policy_zero\<lparr>pol_first := 2\<rparr>, rh_call_size := CHAOS_POLICY_NO_SIZE\<rparr>))"
proof (rule net_latency_roundtrip)
  show "chaos_net_endpoint_parse_selector demo_pton demo_pton (Some ''tcp4://127.0.0.1:80'') =
      (True, Some (demo_host\<lparr>ep_selector_len := 19\<rparr>))"
    by (simp add: chaos_net_endpoint_parse_selector_def chaos_net_parse_ipv4_selector_def finish_port_def
        chaos_net_parse_port_def strtoul_def strtoul_sign_def c_isspace_def is_digit_def digit_value_def
        ulong_max_def split_last_def INET_ADDRSTRLEN_def demo_pton_def endpoint_zero_def demo_host_def Let_def)
  show "chaos_net_selector_allowed CHAOS_NET_OP_CONNECT (Some (demo_host\<lparr>ep_selector_len := 19\<rparr>))"
    by code_simp
qed (simp_all add: trimmed_def is_blank_char_def policy_ok_def policy_zero_def)

end
