(* ===== verification/Net_Actions.thy ===== *)
theory Net_Actions
  imports Io_Actions Net_Config
begin

text \<open>
  \<open>src/net/chaos_net_actions.c\<close> with the generator of \<open>src/net/chaos_net_internal.h\<close>: the decision
  whether a matched network rule takes effect, the bit flip, the delay and the errno; and the byte
  counts of scattered buffers (\<open>src/net/chaos_net_config.h\<close>) that the size qualifiers are checked
  against. The network library keeps its own copies of the generator and the decision; the lemmas
  below show that they compute what those of the file library compute.
\<close>

section \<open>Re-entrancy guard and generator\<close>

definition chaos_net_in_internal :: "int \<Rightarrow> bool" where
  "chaos_net_in_internal guard \<longleftrightarrow> guard \<noteq> 0"

definition chaos_net_enter_internal :: "int \<Rightarrow> int \<times> int" where
  "chaos_net_enter_internal guard = (guard, 1)"

definition chaos_net_leave_internal :: "int \<Rightarrow> int" where
  "chaos_net_leave_internal previous = previous"

definition chaos_net_prng_mix :: "u64 \<Rightarrow> u64" where
  "chaos_net_prng_mix value =
     (let v1 = value + 0x9e3779b97f4a7c15;
          v2 = (v1 XOR drop_bit 30 v1) * 0xbf58476d1ce4e5b9;
          v3 = (v2 XOR drop_bit 27 v2) * 0x94d049bb133111eb
      in v3 XOR drop_bit 31 v3)"

definition chaos_net_prng_ensure_seeded :: "prng_env \<Rightarrow> u64 \<Rightarrow> u64" where
  "chaos_net_prng_ensure_seeded env state =
     (if state \<noteq> 0 then state
      else chaos_net_prng_mix (pe_process_seed env XOR pe_tid env XOR pe_stack_address env) OR 1)"

definition chaos_net_prng_seed_thread :: "u64 \<Rightarrow> u64" where
  "chaos_net_prng_seed_thread seed = chaos_net_prng_mix (if seed = 0 then 1 else seed)"

definition chaos_net_prng_next_u32 :: "prng_env \<Rightarrow> u64 \<Rightarrow> u32 \<times> u64" where
  "chaos_net_prng_next_u32 env state =
     (let s0 = chaos_net_prng_ensure_seeded env state;
          s1 = s0 XOR drop_bit 12 s0;
          s2 = s1 XOR push_bit 25 s1;
          s3 = s2 XOR drop_bit 27 s2
      in (ucast (drop_bit 32 (s3 * 0x2545f4914f6cdd1d)), s3))"

section \<open>Sampling and corruption\<close>

definition chaos_net_probability_hit_sample :: "rat \<Rightarrow> u32 \<Rightarrow> bool" where
  "chaos_net_probability_hit_sample probability sample =
     (if probability \<le> 0 then False
      else if probability \<ge> 1 then True
      else of_nat (unat sample) < probability * 4294967296)"

definition chaos_net_probability_hit :: "prng_env \<Rightarrow> rat \<Rightarrow> u64 \<Rightarrow> bool \<times> u64" where
  "chaos_net_probability_hit env probability prng =
     (let (sample, prng') = chaos_net_prng_next_u32 env prng
      in (chaos_net_probability_hit_sample probability sample, prng'))"

definition chaos_net_corrupt_buffer_sample ::
  "u8 list option \<Rightarrow> nat \<Rightarrow> u32 \<Rightarrow> u32 \<Rightarrow> u8 list option" where
  "chaos_net_corrupt_buffer_sample buffer size' index_sample bit_sample =
     (case buffer of
        None \<Rightarrow> None
      | Some bytes \<Rightarrow>
          (if size' = 0 then Some bytes
           else let index = unat index_sample mod size';
                    b = unat (bit_sample AND 7)
                in Some (bytes[index := bytes ! index XOR push_bit b 1])))"

definition chaos_net_corrupt_buffer ::
  "prng_env \<Rightarrow> u8 list option \<Rightarrow> nat \<Rightarrow> u64 \<Rightarrow> u8 list option \<times> u64" where
  "chaos_net_corrupt_buffer env buffer size' prng =
     (let (index_sample, prng1) = chaos_net_prng_next_u32 env prng;
          (bit_sample, prng2) = chaos_net_prng_next_u32 env prng1
      in (chaos_net_corrupt_buffer_sample buffer size' index_sample bit_sample, prng2))"

section \<open>The decision\<close>

definition chaos_net_rule_should_trigger ::
  "prng_env \<Rightarrow> int \<Rightarrow> chaos_net_rule option \<Rightarrow> action_state \<Rightarrow> bool \<times> action_state" where
  "chaos_net_rule_should_trigger env now rule st =
     (case rule of
        None \<Rightarrow> (False, st)
      | Some r \<Rightarrow>
          (if \<not> chaos_policy_window_open now (rh_policy r) \<or>
              \<not> chaos_policy_size_ok (rh_policy r) (rh_call_size r) then (False, st)
           else if net_effect r = CHAOS_NET_EFFECT_LATENCY then fire_action r st
           else let (hit, prng) = chaos_net_probability_hit env (net_probability r) (act_prng st);
                    st' = st\<lparr>act_prng := prng\<rparr>
                in if \<not> hit then (False, st') else fire_action r st'))"

definition chaos_net_rule_apply_latency ::
  "prng_env \<Rightarrow> int \<Rightarrow> sleep_outcome list \<Rightarrow> chaos_net_rule option \<Rightarrow> action_state \<Rightarrow> int \<times> action_state" where
  "chaos_net_rule_apply_latency env now sleeps rule st =
     (case rule of
        None \<Rightarrow> (0, st)
      | Some r \<Rightarrow>
          (if net_effect r \<noteq> CHAOS_NET_EFFECT_LATENCY then (0, st)
           else let (fired, st') = chaos_net_rule_should_trigger env now rule st
                in if \<not> fired then (0, st') else (chaos_sleep_ms sleeps (net_latency_ms r), st')))"

definition chaos_net_rule_apply_errno ::
  "prng_env \<Rightarrow> int \<Rightarrow> chaos_net_rule option \<Rightarrow> action_state \<Rightarrow> bool \<times> errno option \<times> action_state" where
  "chaos_net_rule_apply_errno env now rule st =
     (case rule of
        None \<Rightarrow> (False, None, st)
      | Some r \<Rightarrow>
          (if net_effect r \<noteq> CHAOS_NET_EFFECT_ERRNO then (False, None, st)
           else let (fired, st') = chaos_net_rule_should_trigger env now rule st
                in if \<not> fired then (False, None, st') else (True, net_errnum r, st')))"

section \<open>Sizes of scattered buffers\<close>

text \<open>The lengths of the entries; the array is \<open>None\<close> when the pointer is NULL, and the count of
  entries is passed beside it.\<close>

definition CHAOS_NET_IOV_MAX :: int where "CHAOS_NET_IOV_MAX = 1024"

definition chaos_net_iovec_size :: "u64 list option \<Rightarrow> int \<Rightarrow> u64" where
  "chaos_net_iovec_size iov iovcnt =
     (case iov of
        None \<Rightarrow> CHAOS_POLICY_NO_SIZE
      | Some lens \<Rightarrow>
          (if iovcnt < 0 \<or> CHAOS_NET_IOV_MAX < iovcnt then CHAOS_POLICY_NO_SIZE
           else foldl (+) 0 (take (nat iovcnt) lens)))"

text \<open>A message: its entries, and their number as the kernel's \<open>size_t\<close>.\<close>

definition chaos_net_message_size :: "(u64 list option \<times> nat) option \<Rightarrow> u64" where
  "chaos_net_message_size message =
     (case message of
        None \<Rightarrow> CHAOS_POLICY_NO_SIZE
      | Some (iov, iovlen) \<Rightarrow>
          (if nat CHAOS_NET_IOV_MAX < iovlen then CHAOS_POLICY_NO_SIZE
           else chaos_net_iovec_size iov (int iovlen)))"

section \<open>Agreement with the file library\<close>

lemma net_prng_eq: "chaos_net_prng_next_u32 = chaos_io_prng_next_u32"
  by (auto simp: fun_eq_iff chaos_net_prng_next_u32_def chaos_io_prng_next_u32_def xorshift_def
      chaos_net_prng_ensure_seeded_def chaos_io_prng_ensure_seeded_def chaos_net_prng_mix_def
      chaos_io_prng_mix_def Let_def)

lemma net_hit_eq: "chaos_net_probability_hit = chaos_io_probability_hit"
  by (auto simp: fun_eq_iff chaos_net_probability_hit_def chaos_io_probability_hit_def net_prng_eq
      chaos_net_probability_hit_sample_def chaos_io_probability_hit_sample_def)

text \<open>A network rule seen as a rule of the file library, whatever it applies to.\<close>

definition as_io_rule :: "chaos_net_rule \<Rightarrow> chaos_io_rule" where
  "as_io_rule r =
     io_rule_zero\<lparr>rh_policy := rh_policy r, rh_call_size := rh_call_size r, rh_hit := rh_hit r,
       rh_hit_generation := rh_hit_generation r,
       io_effect := (if net_effect r = CHAOS_NET_EFFECT_LATENCY then CHAOS_IO_EFFECT_LATENCY
                     else if net_effect r = CHAOS_NET_EFFECT_ERRNO then CHAOS_IO_EFFECT_ERRNO
                     else CHAOS_IO_EFFECT_CORRUPT),
       io_errnum := net_errnum r, io_probability := net_probability r, io_latency_ms := net_latency_ms r\<rparr>"

lemma as_io_simps [simp]:
  "rh_policy (as_io_rule r) = rh_policy r" "rh_call_size (as_io_rule r) = rh_call_size r"
  "rh_hit (as_io_rule r) = rh_hit r" "rh_hit_generation (as_io_rule r) = rh_hit_generation r"
  "io_effect (as_io_rule r) = CHAOS_IO_EFFECT_ERRNO \<longleftrightarrow> net_effect r = CHAOS_NET_EFFECT_ERRNO"
  "io_effect (as_io_rule r) = CHAOS_IO_EFFECT_LATENCY \<longleftrightarrow> net_effect r = CHAOS_NET_EFFECT_LATENCY"
  "io_errnum (as_io_rule r) = net_errnum r" "io_latency_ms (as_io_rule r) = net_latency_ms r"
  "io_probability (as_io_rule r) = net_probability r"
  by (auto simp: as_io_rule_def)

lemma fire_as_io [simp]: "fire_action (as_io_rule r) st = fire_action r st"
  by (simp add: fire_action_def fire_on_pool_def)

lemma trigger_as_io:
  "chaos_net_rule_should_trigger env now (Some r) st = chaos_io_rule_should_trigger env now (Some (as_io_rule r)) st"
  by (simp add: chaos_net_rule_should_trigger_def chaos_io_rule_should_trigger_def net_hit_eq Let_def split: prod.split)


text \<open>The byte count of a valid array is the sum modulo \<open>2 ^ 64\<close>, and an invalid one passes no size gate.\<close>

lemma invalid_size_blocked:
  assumes "chaos_net_iovec_size iov n = CHAOS_POLICY_NO_SIZE" "pol_has_size_above p \<or> pol_has_size_below p"
  shows "\<not> chaos_policy_size_ok p (chaos_net_iovec_size iov n)"
  using assms by (auto simp: chaos_policy_size_ok_def)

lemma iovec_size_sum:
  assumes "0 \<le> n" "n \<le> CHAOS_NET_IOV_MAX"
  shows "chaos_net_iovec_size (Some lens) n = sum_list (take (nat n) lens)"
proof -
  have "foldl (+) a xs = a + sum_list xs" for a :: u64 and xs
    by (induction xs arbitrary: a) (simp_all add: add.assoc)
  with assms show ?thesis by (simp add: chaos_net_iovec_size_def)
qed

end
