(* ===== verification/Dns_Config.thy ===== *)
theory Dns_Config
  imports Rule_File Net_Endpoint
begin

text \<open>
  The rule file grammar of the resolver library (\<open>src/dns/chaos_dns_config.c\<close>): forward and reverse
  selectors, the eight effects with their payloads, the parser of a line and of a whole file, and the
  selection of the rule that governs a looked up name or address. \<open>inet_pton\<close> and \<open>inet_ntop\<close> are
  parameters. \<open>tolower\<close> is that of the C locale.
\<close>

section \<open>Data\<close>

datatype chaos_dns_selector_kind =
  CHAOS_DNS_SELECTOR_INVALID | CHAOS_DNS_SELECTOR_ANY | CHAOS_DNS_SELECTOR_EXACT | CHAOS_DNS_SELECTOR_SUFFIX

datatype chaos_dns_selector_domain =
  CHAOS_DNS_SELECTOR_DOMAIN_INVALID | CHAOS_DNS_SELECTOR_DOMAIN_LOOKUP | CHAOS_DNS_SELECTOR_DOMAIN_REVERSE

datatype chaos_dns_effect =
  CHAOS_DNS_EFFECT_INVALID | CHAOS_DNS_EFFECT_GAI | CHAOS_DNS_EFFECT_LATENCY | CHAOS_DNS_EFFECT_REWRITE
| CHAOS_DNS_EFFECT_SERVICE | CHAOS_DNS_EFFECT_OVERRIDE | CHAOS_DNS_EFFECT_FILTER_FAMILY
| CHAOS_DNS_EFFECT_LIMIT | CHAOS_DNS_EFFECT_SHUFFLE

datatype chaos_dns_family_filter =
  CHAOS_DNS_FAMILY_INVALID | CHAOS_DNS_FAMILY_ANY | CHAOS_DNS_FAMILY_INET4 | CHAOS_DNS_FAMILY_INET6

text \<open>The failures of the resolver; their numbers differ between libcs. A rule can name the first five.\<close>

datatype gai_error =
  EAI_AGAIN | EAI_FAIL | EAI_NONAME | EAI_MEMORY | EAI_SYSTEM | EAI_OVERFLOW | EAI_NODATA | EAI_ADDRFAMILY
| EAI_OTHER int

record chaos_dns_selector =
  dsel_kind :: chaos_dns_selector_kind
  dsel_domain :: chaos_dns_selector_domain
  dsel_len :: nat
  dsel_text :: string

record chaos_dns_rule = rule_head +
  dns_selector :: chaos_dns_selector
  dns_effect :: chaos_dns_effect
  dns_gai_error :: "gai_error option"
  dns_probability :: rat
  dns_latency_ms :: nat
  dns_limit :: nat
  dns_family :: chaos_dns_family_filter
  dns_text :: string

definition CHAOS_DNS_MAX_RULES :: nat where "CHAOS_DNS_MAX_RULES = 256"
definition CHAOS_DNS_MAX_TEXT :: nat where "CHAOS_DNS_MAX_TEXT = 256"
definition CHAOS_DNS_MAX_VALUE :: nat where "CHAOS_DNS_MAX_VALUE = 512"

text \<open>The zeroed selector and rule; enumerators of value 0 are \<open>ANY\<close>, \<open>LOOKUP\<close>, \<open>GAI\<close> and \<open>ANY\<close>.\<close>

definition dns_selector_zero :: chaos_dns_selector where
  "dns_selector_zero = \<lparr>dsel_kind = CHAOS_DNS_SELECTOR_ANY, dsel_domain = CHAOS_DNS_SELECTOR_DOMAIN_LOOKUP,
     dsel_len = 0, dsel_text = []\<rparr>"

definition dns_rule_zero :: chaos_dns_rule where
  "dns_rule_zero =
     \<lparr>rh_policy = policy_zero, rh_call_size = 0, rh_hit = None, rh_hit_generation = 0,
      dns_selector = dns_selector_zero, dns_effect = CHAOS_DNS_EFFECT_GAI, dns_gai_error = None,
      dns_probability = 0, dns_latency_ms = 0, dns_limit = 0, dns_family = CHAOS_DNS_FAMILY_ANY, dns_text = []\<rparr>"

section \<open>Text helpers\<close>

definition chaos_dns_is_blank_char :: "char \<Rightarrow> bool" where
  "chaos_dns_is_blank_char ch \<longleftrightarrow> ch = CHR '' '' \<or> ch = TAB \<or> ch = CR \<or> ch = LF"

definition chaos_dns_trim :: "string \<Rightarrow> string" where
  "chaos_dns_trim txt =
     (let t = dropWhile chaos_dns_is_blank_char txt
      in if t = [] then t else rstrip chaos_dns_is_blank_char t)"

definition chaos_dns_strip_comment :: "string \<Rightarrow> string" where
  "chaos_dns_strip_comment line =
     (case split_first CHR ''#'' line of None \<Rightarrow> line | Some (before, _) \<Rightarrow> before)"

definition c_tolower :: "char \<Rightarrow> char" where
  "c_tolower c = (if 65 \<le> (of_char c :: nat) \<and> (of_char c :: nat) \<le> 90 then char_of ((of_char c :: nat) + 32) else c)"

fun chaos_dns_ascii_case_equal :: "string \<Rightarrow> string \<Rightarrow> bool" where
  "chaos_dns_ascii_case_equal (l # left) (r # right) =
     (if c_tolower l \<noteq> c_tolower r then False else chaos_dns_ascii_case_equal left right)"
| "chaos_dns_ascii_case_equal left right \<longleftrightarrow> left = [] \<and> right = []"

definition chaos_dns_ascii_case_ends_with :: "string \<Rightarrow> string \<Rightarrow> bool" where
  "chaos_dns_ascii_case_ends_with txt suffix =
     (if length txt < length suffix then False
      else chaos_dns_ascii_case_equal (drop (length txt - length suffix) txt) suffix)"

section \<open>Selectors\<close>

type_synonym ntop = "u8 list \<Rightarrow> string option"

text \<open>An address as \<open>inet_pton\<close> reads it, written back as \<open>inet_ntop\<close> writes it.\<close>

definition canonical_address :: "pton \<Rightarrow> pton \<Rightarrow> ntop \<Rightarrow> ntop \<Rightarrow> string \<Rightarrow> string option" where
  "canonical_address pton4 pton6 ntop4 ntop6 source =
     (case pton4 source of
        Some ipv4 \<Rightarrow> ntop4 ipv4
      | None \<Rightarrow> (case pton6 source of Some ipv6 \<Rightarrow> ntop6 ipv6 | None \<Rightarrow> None))"

definition chaos_dns_parse_reverse_selector_body ::
  "pton \<Rightarrow> pton \<Rightarrow> ntop \<Rightarrow> ntop \<Rightarrow> string \<Rightarrow> chaos_dns_selector \<Rightarrow> chaos_dns_selector option" where
  "chaos_dns_parse_reverse_selector_body pton4 pton6 ntop4 ntop6 body selector =
     (if body = [] then None
      else if body = ''*''
      then Some (selector\<lparr>dsel_domain := CHAOS_DNS_SELECTOR_DOMAIN_REVERSE, dsel_kind := CHAOS_DNS_SELECTOR_ANY\<rparr>)
      else let bracketed = hd body = CHR ''[''
           in if bracketed \<and> (length body \<le> 2 \<or> last body \<noteq> CHR '']'') then None
              else if bracketed \<and> INET6_ADDRSTRLEN \<le> length body - 2 then None
              else if \<not> bracketed \<and> INET6_ADDRSTRLEN \<le> length body then None
              else let source = (if bracketed then take (length body - 2) (drop 1 body) else body)
                   in map_option
                        (\<lambda>t. selector\<lparr>dsel_domain := CHAOS_DNS_SELECTOR_DOMAIN_REVERSE,
                               dsel_kind := CHAOS_DNS_SELECTOR_EXACT, dsel_text := t\<rparr>)
                        (canonical_address pton4 pton6 ntop4 ntop6 source))"

definition chaos_dns_selector_parse ::
  "pton \<Rightarrow> pton \<Rightarrow> ntop \<Rightarrow> ntop \<Rightarrow> string \<Rightarrow> chaos_dns_selector option" where
  "chaos_dns_selector_parse pton4 pton6 ntop4 ntop6 txt =
     (if txt = [] then None
      else let selector = dns_selector_zero\<lparr>dsel_len := length txt\<rparr>
           in if txt = ''*''
              then Some (selector\<lparr>dsel_domain := CHAOS_DNS_SELECTOR_DOMAIN_LOOKUP, dsel_kind := CHAOS_DNS_SELECTOR_ANY\<rparr>)
              else case after_prefix ''dns://'' txt of
                Some body \<Rightarrow>
                  (if body = [] then None
                   else let selector = selector\<lparr>dsel_domain := CHAOS_DNS_SELECTOR_DOMAIN_LOOKUP\<rparr>
                        in if body = ''*'' then Some (selector\<lparr>dsel_kind := CHAOS_DNS_SELECTOR_ANY\<rparr>)
                           else let (body, selector) =
                                  (case after_prefix ''*.'' body of
                                     Some b \<Rightarrow> (b, selector\<lparr>dsel_kind := CHAOS_DNS_SELECTOR_SUFFIX\<rparr>)
                                   | None \<Rightarrow> (body, selector\<lparr>dsel_kind := CHAOS_DNS_SELECTOR_EXACT\<rparr>))
                                in if length body = 0 \<or> CHAOS_DNS_MAX_TEXT \<le> length body \<or> CHR ''*'' \<in> set body
                                   then None
                                   else Some (selector\<lparr>dsel_text := body\<rparr>))
              | None \<Rightarrow>
                  (case after_prefix ''rdns://'' txt of
                     Some body \<Rightarrow> chaos_dns_parse_reverse_selector_body pton4 pton6 ntop4 ntop6 body selector
                   | None \<Rightarrow> None))"

text \<open>The rank of the match, \<open>None\<close> where the function returns 0.\<close>

definition chaos_dns_selector_matches_domain ::
  "chaos_dns_selector \<Rightarrow> chaos_dns_selector_domain \<Rightarrow> string option \<Rightarrow> nat option" where
  "chaos_dns_selector_matches_domain selector domain name =
     (case name of
        None \<Rightarrow> None
      | Some n \<Rightarrow>
          (if n = [] \<or> dsel_domain selector \<noteq> domain then None
           else if dsel_kind selector = CHAOS_DNS_SELECTOR_ANY then Some 1
           else if dsel_kind selector = CHAOS_DNS_SELECTOR_EXACT
           then (if \<not> chaos_dns_ascii_case_equal (dsel_text selector) n then None else Some 3)
           else if domain \<noteq> CHAOS_DNS_SELECTOR_DOMAIN_LOOKUP \<or> dsel_kind selector \<noteq> CHAOS_DNS_SELECTOR_SUFFIX then None
           else if length n \<le> length (dsel_text selector) then None
           else if \<not> chaos_dns_ascii_case_ends_with n (dsel_text selector) then None
           else if n ! (length n - length (dsel_text selector) - 1) \<noteq> CHR ''.'' then None
           else Some 2))"

section \<open>Values\<close>

definition chaos_dns_parse_probability :: "string option \<Rightarrow> rat option" where
  "chaos_dns_parse_probability txt = chaos_policy_parse_probability txt"

definition chaos_dns_parse_latency :: "string \<Rightarrow> nat option" where
  "chaos_dns_parse_latency txt =
     (let (value, rest, converted) = strtoul txt
      in if \<not> converted \<or> chaos_dns_trim rest \<noteq> [] \<or> value > 0xffffffff then None else Some value)"

definition chaos_dns_parse_limit :: "string \<Rightarrow> nat option" where
  "chaos_dns_parse_limit txt =
     (let (value, rest, converted) = strtoul txt
      in if \<not> converted \<or> chaos_dns_trim rest \<noteq> [] \<or> value = 0 \<or> value > 0xffffffff then None else Some value)"

definition chaos_dns_effect_allowed :: "chaos_dns_selector \<Rightarrow> chaos_dns_effect \<Rightarrow> bool" where
  "chaos_dns_effect_allowed selector effect =
     (if dsel_domain selector = CHAOS_DNS_SELECTOR_DOMAIN_LOOKUP then True
      else if dsel_domain selector \<noteq> CHAOS_DNS_SELECTOR_DOMAIN_REVERSE then False
      else effect = CHAOS_DNS_EFFECT_GAI \<or> effect = CHAOS_DNS_EFFECT_LATENCY \<or>
        effect = CHAOS_DNS_EFFECT_REWRITE \<or> effect = CHAOS_DNS_EFFECT_SERVICE)"

definition chaos_dns_parse_family_filter :: "string \<Rightarrow> chaos_dns_family_filter" where
  "chaos_dns_parse_family_filter txt =
     (if txt = ''inet4'' \<or> txt = ''ipv4'' then CHAOS_DNS_FAMILY_INET4
      else if txt = ''inet6'' \<or> txt = ''ipv6'' then CHAOS_DNS_FAMILY_INET6
      else if txt = ''any'' then CHAOS_DNS_FAMILY_ANY
      else CHAOS_DNS_FAMILY_INVALID)"

definition chaos_dns_parse_gai_name :: "string \<Rightarrow> gai_error option" where
  "chaos_dns_parse_gai_name txt =
     (if txt = ''EAI_AGAIN'' then Some EAI_AGAIN
      else if txt = ''EAI_FAIL'' then Some EAI_FAIL
      else if txt = ''EAI_NONAME'' then Some EAI_NONAME
      else if txt = ''EAI_MEMORY'' then Some EAI_MEMORY
      else if txt = ''EAI_SYSTEM'' then Some EAI_SYSTEM
      else None)"

definition chaos_dns_copy_text_value :: "string \<Rightarrow> nat \<Rightarrow> string option" where
  "chaos_dns_copy_text_value txt buffer_size =
     (if length txt = 0 \<or> buffer_size \<le> length txt then None else Some txt)"

text \<open>The payload and the probability after its last \<open>@\<close>; the two local buffers hold 512 and 64 bytes.\<close>

definition chaos_dns_parse_payload_probability :: "string \<Rightarrow> nat \<Rightarrow> (string \<times> rat) option" where
  "chaos_dns_parse_payload_probability txt payload_size =
     (case split_last CHR ''@'' txt of
        None \<Rightarrow> map_option (\<lambda>payload. (payload, 1)) (chaos_dns_copy_text_value txt payload_size)
      | Some (before, after) \<Rightarrow>
          (if length before = 0 \<or> CHAOS_DNS_MAX_VALUE \<le> length before then None
           else case chaos_dns_copy_text_value (chaos_dns_trim before) payload_size of
                  None \<Rightarrow> None
                | Some payload \<Rightarrow>
                    (case chaos_dns_copy_text_value after 64 of
                       None \<Rightarrow> None
                     | Some fraction \<Rightarrow>
                         map_option (\<lambda>p. (payload, p)) (chaos_dns_parse_probability (Some fraction)))))"

definition chaos_dns_override_token_valid :: "pton \<Rightarrow> pton \<Rightarrow> string \<Rightarrow> bool" where
  "chaos_dns_override_token_valid pton4 pton6 token =
     (if token = [] \<or> INET6_ADDRSTRLEN \<le> length token then False
      else let host = (if hd token = CHR ''['' \<and> 2 < length token \<and> last token = CHR '']''
                       then take (length token - 2) (drop 1 token) else token)
           in pton4 host \<noteq> None \<or> pton6 host \<noteq> None)"

function override_tokens_valid :: "pton \<Rightarrow> pton \<Rightarrow> string \<Rightarrow> bool \<Rightarrow> bool" where
  "override_tokens_valid pton4 pton6 cursor found =
     (if cursor = [] then found
      else let (token, rest) = (case split_first CHR '','' cursor of None \<Rightarrow> (cursor, []) | Some (a, b) \<Rightarrow> (a, b));
               token = chaos_dns_trim token
           in if token = [] \<or> \<not> chaos_dns_override_token_valid pton4 pton6 token then False
              else override_tokens_valid pton4 pton6 rest True)"
  by pat_completeness auto
termination
  by (relation "measure (\<lambda>(p, q, cursor, f). length cursor)")
    (auto simp: split_first_Some_iff split: option.splits)

declare override_tokens_valid.simps [simp del]

definition chaos_dns_validate_override_value :: "pton \<Rightarrow> pton \<Rightarrow> string \<Rightarrow> bool" where
  "chaos_dns_validate_override_value pton4 pton6 txt =
     (case chaos_dns_copy_text_value txt CHAOS_DNS_MAX_VALUE of
        None \<Rightarrow> False
      | Some buffer \<Rightarrow> override_tokens_valid pton4 pton6 buffer False)"

section \<open>One line\<close>

text \<open>The end of the selector depends on its form: a bracketed address may hold colons.\<close>

definition selector_end :: "string \<Rightarrow> (string \<times> string) option" where
  "selector_end line =
     (case after_prefix ''*:'' line of
        Some rest \<Rightarrow> Some (''*'', rest)
      | None \<Rightarrow>
     (case after_prefix ''dns://'' line of
        Some body \<Rightarrow> map_option (\<lambda>(a, b). (''dns://'' @ a, b)) (split_first CHR '':'' body)
      | None \<Rightarrow>
     (case after_prefix ''rdns://['' line of
        Some body \<Rightarrow>
          (case split_first CHR '']'' body of
             None \<Rightarrow> None
           | Some (a, b) \<Rightarrow>
               (case after_prefix '':'' b of None \<Rightarrow> None | Some rest \<Rightarrow> Some (''rdns://['' @ a @ '']'', rest)))
      | None \<Rightarrow>
     (case after_prefix ''rdns://'' line of
        Some body \<Rightarrow> map_option (\<lambda>(a, b). (''rdns://'' @ a, b)) (split_first CHR '':'' body)
      | None \<Rightarrow> None))))"

definition chaos_dns_split_rule_fields :: "string \<Rightarrow> (string \<times> string \<times> string) option" where
  "chaos_dns_split_rule_fields line =
     (case selector_end line of
        None \<Rightarrow> None
      | Some (selector, rest) \<Rightarrow>
          (case split_first CHR '':'' rest of
             None \<Rightarrow> None
           | Some (effect, value) \<Rightarrow>
               Some (chaos_dns_trim selector, chaos_dns_trim effect, chaos_dns_trim value)))"

text \<open>The chain of comparisons on the effect of a line.\<close>

definition dns_parse_effect ::
  "pton \<Rightarrow> pton \<Rightarrow> string \<Rightarrow> string \<Rightarrow> chaos_dns_rule \<Rightarrow> chaos_dns_rule option" where
  "dns_parse_effect pton4 pton6 effect value rule =
     (case chaos_dns_parse_gai_name effect of
        Some e \<Rightarrow>
          map_option (\<lambda>p. rule\<lparr>dns_effect := CHAOS_DNS_EFFECT_GAI, dns_gai_error := Some e, dns_probability := p\<rparr>)
            (chaos_dns_parse_probability (Some value))
      | None \<Rightarrow>
          (let with_payload = (\<lambda>code. case chaos_dns_parse_payload_probability value CHAOS_DNS_MAX_VALUE of
                 None \<Rightarrow> None
               | Some (payload, p) \<Rightarrow> code payload (rule\<lparr>dns_probability := p\<rparr>))
           in if effect = ''LATENCY'' then
                with_payload (\<lambda>payload r. map_option (\<lambda>ms. r\<lparr>dns_effect := CHAOS_DNS_EFFECT_LATENCY, dns_latency_ms := ms\<rparr>)
                  (chaos_dns_parse_latency payload))
              else if effect = ''REWRITE'' then
                with_payload (\<lambda>payload r. map_option (\<lambda>t. r\<lparr>dns_effect := CHAOS_DNS_EFFECT_REWRITE, dns_text := t\<rparr>)
                  (chaos_dns_copy_text_value payload CHAOS_DNS_MAX_VALUE))
              else if effect = ''SERVICE'' then
                with_payload (\<lambda>payload r. map_option (\<lambda>t. r\<lparr>dns_effect := CHAOS_DNS_EFFECT_SERVICE, dns_text := t\<rparr>)
                  (chaos_dns_copy_text_value payload CHAOS_DNS_MAX_VALUE))
              else if effect = ''OVERRIDE'' then
                (if \<not> chaos_dns_effect_allowed (dns_selector rule) CHAOS_DNS_EFFECT_OVERRIDE then None
                 else with_payload (\<lambda>payload r.
                   if \<not> chaos_dns_validate_override_value pton4 pton6 payload then None
                   else map_option (\<lambda>t. r\<lparr>dns_effect := CHAOS_DNS_EFFECT_OVERRIDE, dns_text := t\<rparr>)
                     (chaos_dns_copy_text_value payload CHAOS_DNS_MAX_VALUE)))
              else if effect = ''FILTER_FAMILY'' then
                (if \<not> chaos_dns_effect_allowed (dns_selector rule) CHAOS_DNS_EFFECT_FILTER_FAMILY then None
                 else with_payload (\<lambda>payload r.
                   if chaos_dns_parse_family_filter payload \<noteq> CHAOS_DNS_FAMILY_INVALID
                   then Some (r\<lparr>dns_effect := CHAOS_DNS_EFFECT_FILTER_FAMILY,
                                dns_family := chaos_dns_parse_family_filter payload\<rparr>)
                   else None))
              else if effect = ''LIMIT'' then
                (if \<not> chaos_dns_effect_allowed (dns_selector rule) CHAOS_DNS_EFFECT_LIMIT then None
                 else with_payload (\<lambda>payload r. map_option (\<lambda>n. r\<lparr>dns_effect := CHAOS_DNS_EFFECT_LIMIT, dns_limit := n\<rparr>)
                   (chaos_dns_parse_limit payload)))
              else if effect = ''SHUFFLE'' then
                (if \<not> chaos_dns_effect_allowed (dns_selector rule) CHAOS_DNS_EFFECT_SHUFFLE then None
                 else map_option (\<lambda>p. rule\<lparr>dns_effect := CHAOS_DNS_EFFECT_SHUFFLE, dns_probability := p\<rparr>)
                   (chaos_dns_parse_probability (Some value)))
              else None))"

text \<open>The trimmed line.\<close>

definition dns_parse_cursor ::
  "pton \<Rightarrow> pton \<Rightarrow> ntop \<Rightarrow> ntop \<Rightarrow> string \<Rightarrow> chaos_dns_rule line_result" where
  "dns_parse_cursor pton4 pton6 ntop4 ntop6 cursor =
     (case chaos_dns_split_rule_fields cursor of
        None \<Rightarrow> Line_Invalid
      | Some (selector, effect, value) \<Rightarrow>
          (if selector = [] \<or> effect = [] \<or> value = [] then Line_Invalid
           else case chaos_dns_selector_parse pton4 pton6 ntop4 ntop6 selector of
                  None \<Rightarrow> Line_Invalid
                | Some s \<Rightarrow>
                    (case dns_parse_effect pton4 pton6 effect value (dns_rule_zero\<lparr>dns_selector := s\<rparr>) of
                       None \<Rightarrow> Line_Invalid
                     | Some r \<Rightarrow> Line_Rule r)))"

definition chaos_dns_config_parse_line ::
  "pton \<Rightarrow> pton \<Rightarrow> ntop \<Rightarrow> ntop \<Rightarrow> string \<Rightarrow> chaos_dns_rule line_result" where
  "chaos_dns_config_parse_line pton4 pton6 ntop4 ntop6 line =
     (let cursor = chaos_dns_trim (chaos_dns_strip_comment line)
      in if cursor = [] then Line_Blank else dns_parse_cursor pton4 pton6 ntop4 ntop6 cursor)"

section \<open>The file\<close>

definition dns_rule_supported :: "chaos_dns_rule \<Rightarrow> bool" where
  "dns_rule_supported rule \<longleftrightarrow> True"

definition chaos_dns_config_parse_buffer ::
  "pton \<Rightarrow> pton \<Rightarrow> ntop \<Rightarrow> ntop \<Rightarrow> chaos_status_error \<Rightarrow> string \<Rightarrow> chaos_dns_rule parse_result" where
  "chaos_dns_config_parse_buffer pton4 pton6 ntop4 ntop6 err buffer =
     parse_rule_buffer (chaos_dns_config_parse_line pton4 pton6 ntop4 ntop6) dns_rule_supported
       CHAOS_DNS_MAX_RULES err buffer"

section \<open>Selection\<close>

definition chaos_dns_config_select_rule_domain ::
  "chaos_dns_rule list \<Rightarrow> chaos_dns_effect \<Rightarrow> chaos_dns_selector_domain \<Rightarrow> string option \<Rightarrow> chaos_dns_rule option" where
  "chaos_dns_config_select_rule_domain rules effect domain name =
     (if name = None then None
      else ranked_from
        (\<lambda>r. if dns_effect r \<noteq> effect then None
             else chaos_dns_selector_matches_domain (dns_selector r) domain name)
        (\<lambda>r. dsel_len (dns_selector r)) None rules)"

definition chaos_dns_config_select_rule ::
  "chaos_dns_rule list \<Rightarrow> chaos_dns_effect \<Rightarrow> string option \<Rightarrow> chaos_dns_rule option" where
  "chaos_dns_config_select_rule rules effect name =
     chaos_dns_config_select_rule_domain rules effect CHAOS_DNS_SELECTOR_DOMAIN_LOOKUP name"

definition chaos_dns_config_select_reverse_rule ::
  "chaos_dns_rule list \<Rightarrow> chaos_dns_effect \<Rightarrow> string option \<Rightarrow> chaos_dns_rule option" where
  "chaos_dns_config_select_reverse_rule rules effect address =
     chaos_dns_config_select_rule_domain rules effect CHAOS_DNS_SELECTOR_DOMAIN_REVERSE address"

section \<open>Lemmas on the text helpers\<close>

lemma dns_blank_eq: "chaos_dns_is_blank_char = is_blank_char"
  by (auto simp: fun_eq_iff chaos_dns_is_blank_char_def is_blank_char_def)

lemma dns_trim_eq: "chaos_dns_trim = trim_blanks"
  by (rule ext) (simp only: chaos_dns_trim_def dns_blank_eq trim_form)

lemma dns_strip_comment_eq: "chaos_dns_strip_comment = cut_comment"
  by (rule ext) (simp only: chaos_dns_strip_comment_def strip_form)

abbreviation lower :: "string \<Rightarrow> string" where "lower \<equiv> map c_tolower"

lemma case_equal_lower: "chaos_dns_ascii_case_equal left right \<longleftrightarrow> lower left = lower right"
  by (induction left right rule: chaos_dns_ascii_case_equal.induct) auto

lemma domain_suffix_iff:
  "(length d < length n \<and> chaos_dns_ascii_case_ends_with n d \<and> n ! (length n - length d - 1) = CHR ''.'') \<longleftrightarrow>
     (\<exists>p t. n = p @ CHR ''.'' # t \<and> lower t = lower d)" (is "?L \<longleftrightarrow> ?R")
proof
  assume L: ?L
  define i where "i = length n - length d - 1"
  from L have i: "i < length n" "Suc i = length n - length d" by (auto simp: i_def)
  have "n = take i n @ n ! i # drop (Suc i) n" using i(1) by (rule id_take_nth_drop)
  moreover have "n ! i = CHR ''.''" using L by (simp add: i_def)
  moreover have "lower (drop (Suc i) n) = lower d"
    using L i(2) by (simp add: chaos_dns_ascii_case_ends_with_def case_equal_lower split: if_splits)
  ultimately show ?R by metis
next
  assume ?R
  then obtain p t where n: "n = p @ CHR ''.'' # t" and eq: "lower t = lower d" by blast
  from eq have "length t = length d" by (metis length_map)
  with n eq show ?L by (simp add: chaos_dns_ascii_case_ends_with_def case_equal_lower)
qed

section \<open>What a selector covers\<close>

text \<open>The rank with which the text of a forward selector covers a name: 3 for the name itself, 2 for a name
  below the domain of a \<open>*.\<close> selector, 1 for a catch-all.\<close>

definition dns_covers :: "string \<Rightarrow> string \<Rightarrow> nat option" where
  "dns_covers txt name =
     (if txt = ''*'' \<or> txt = ''dns://*'' then Some 1
      else case after_prefix ''dns://*.'' txt of
             Some d \<Rightarrow> if \<exists>p t. name = p @ CHR ''.'' # t \<and> lower t = lower d then Some 2 else None
           | None \<Rightarrow>
               (case after_prefix ''dns://'' txt of
                  Some d \<Rightarrow> if lower name = lower d then Some 3 else None
                | None \<Rightarrow> None))"

lemma reverse_body_domain:
  "chaos_dns_parse_reverse_selector_body pton4 pton6 ntop4 ntop6 body sel = Some s \<Longrightarrow>
     dsel_domain s = CHAOS_DNS_SELECTOR_DOMAIN_REVERSE \<and> dsel_len s = dsel_len sel \<and>
     (dsel_kind s = CHAOS_DNS_SELECTOR_ANY \<or> dsel_kind s = CHAOS_DNS_SELECTOR_EXACT)"
  by (auto simp: chaos_dns_parse_reverse_selector_body_def Let_def split: if_splits)

lemma after_prefix_append_prefix:
  "after_prefix (p @ q) s = (case after_prefix p s of None \<Rightarrow> None | Some t \<Rightarrow> after_prefix q t)"
  by (induction p s rule: after_prefix.induct) auto

text \<open>C24. A forward selector covers exactly the names its text says, ignoring the case of ASCII letters: \<open>dns://*.d\<close>
  the names that end in a dot and \<open>d\<close>, \<open>dns://d\<close> the name \<open>d\<close>, \<open>*\<close> and \<open>dns://*\<close> every name; and a reverse
  selector covers none.\<close>

theorem dns_selector_covers:
  assumes "chaos_dns_selector_parse pton4 pton6 ntop4 ntop6 txt = Some s" "name \<noteq> []"
  shows "chaos_dns_selector_matches_domain s CHAOS_DNS_SELECTOR_DOMAIN_LOOKUP (Some name) = dns_covers txt name"
proof (cases "txt = ''*'' \<or> txt = ''dns://*''")
  case True
  then have "dsel_kind s = CHAOS_DNS_SELECTOR_ANY" "dsel_domain s = CHAOS_DNS_SELECTOR_DOMAIN_LOOKUP"
    using assms(1) by (auto simp: chaos_dns_selector_parse_def Let_def)
  then show ?thesis using True assms(2) by (auto simp: chaos_dns_selector_matches_domain_def dns_covers_def)
next
  case special: False
  have pre: "after_prefix ''dns://*.'' txt =
      (case after_prefix ''dns://'' txt of None \<Rightarrow> None | Some t \<Rightarrow> after_prefix ''*.'' t)"
    using after_prefix_append_prefix [of "''dns://''" "''*.''" "txt"] by simp
  show ?thesis
  proof (cases "after_prefix ''dns://'' txt")
    case None
    then obtain body where "chaos_dns_parse_reverse_selector_body pton4 pton6 ntop4 ntop6 body
        (dns_selector_zero\<lparr>dsel_len := length txt\<rparr>) = Some s"
      using assms(1) special by (auto simp: chaos_dns_selector_parse_def Let_def split: option.splits if_splits)
    from reverse_body_domain [OF this] show ?thesis
      using None special pre assms(2) by (simp add: chaos_dns_selector_matches_domain_def dns_covers_def)
  next
    case (Some body)
    then have txt_eq: "txt = ''dns://'' @ body" by (simp only: after_prefix_Some_iff)
    with special have body: "body \<noteq> ''*''" by auto
    show ?thesis
    proof (cases "after_prefix ''*.'' body")
      case exact: None
      then have "dsel_kind s = CHAOS_DNS_SELECTOR_EXACT" "dsel_domain s = CHAOS_DNS_SELECTOR_DOMAIN_LOOKUP" "dsel_text s = body"
        using assms(1) special Some body by (auto simp: chaos_dns_selector_parse_def Let_def split: if_splits)
      then show ?thesis
        using special pre Some exact assms(2)
        by (auto simp: chaos_dns_selector_matches_domain_def dns_covers_def case_equal_lower)
    next
      case suffix: (Some d)
      then have "dsel_kind s = CHAOS_DNS_SELECTOR_SUFFIX" "dsel_domain s = CHAOS_DNS_SELECTOR_DOMAIN_LOOKUP" "dsel_text s = d"
        using assms(1) special Some body by (auto simp: chaos_dns_selector_parse_def Let_def split: if_splits)
      then have "chaos_dns_selector_matches_domain s CHAOS_DNS_SELECTOR_DOMAIN_LOOKUP (Some name) =
          (if length d < length name \<and> chaos_dns_ascii_case_ends_with name d \<and>
              name ! (length name - length d - 1) = CHR ''.'' then Some 2 else None)"
        using assms(2) by (auto simp: chaos_dns_selector_matches_domain_def)
      then show ?thesis
        unfolding domain_suffix_iff using special pre Some suffix by (simp add: dns_covers_def)
    qed
  qed
qed

section \<open>Well-formed rules\<close>

definition dns_rule_ok :: "pton \<Rightarrow> pton \<Rightarrow> chaos_dns_rule \<Rightarrow> bool" where
  "dns_rule_ok pton4 pton6 r \<longleftrightarrow>
     dsel_kind (dns_selector r) \<noteq> CHAOS_DNS_SELECTOR_INVALID \<and>
     dsel_domain (dns_selector r) \<noteq> CHAOS_DNS_SELECTOR_DOMAIN_INVALID \<and> 0 < dsel_len (dns_selector r) \<and>
     chaos_dns_effect_allowed (dns_selector r) (dns_effect r) \<and>
     (dns_gai_error r \<noteq> None \<longleftrightarrow> dns_effect r = CHAOS_DNS_EFFECT_GAI) \<and>
     0 \<le> dns_probability r \<and> dns_probability r \<le> 1 \<and>
     dns_latency_ms r \<le> 0xffffffff \<and> (dns_effect r \<noteq> CHAOS_DNS_EFFECT_LATENCY \<longrightarrow> dns_latency_ms r = 0) \<and>
     dns_limit r \<le> 0xffffffff \<and> (0 < dns_limit r \<longleftrightarrow> dns_effect r = CHAOS_DNS_EFFECT_LIMIT) \<and>
     dns_family r \<noteq> CHAOS_DNS_FAMILY_INVALID \<and>
     (dns_effect r \<noteq> CHAOS_DNS_EFFECT_FILTER_FAMILY \<longrightarrow> dns_family r = CHAOS_DNS_FAMILY_ANY) \<and>
     length (dns_text r) < CHAOS_DNS_MAX_VALUE \<and>
     (dns_text r \<noteq> [] \<longleftrightarrow>
        dns_effect r \<in> {CHAOS_DNS_EFFECT_REWRITE, CHAOS_DNS_EFFECT_SERVICE, CHAOS_DNS_EFFECT_OVERRIDE}) \<and>
     (dns_effect r = CHAOS_DNS_EFFECT_OVERRIDE \<longrightarrow> chaos_dns_validate_override_value pton4 pton6 (dns_text r))"

lemma dns_selector_parse_ok:
  assumes "chaos_dns_selector_parse pton4 pton6 ntop4 ntop6 txt = Some s"
  shows "dsel_kind s \<noteq> CHAOS_DNS_SELECTOR_INVALID \<and> dsel_len s = length txt \<and> txt \<noteq> [] \<and>
    (dsel_domain s = CHAOS_DNS_SELECTOR_DOMAIN_LOOKUP \<or> dsel_domain s = CHAOS_DNS_SELECTOR_DOMAIN_REVERSE)"
  using assms
  by (auto simp: chaos_dns_selector_parse_def Let_def split: if_splits option.splits prod.splits
      dest!: reverse_body_domain)

lemma dns_payload_range:
  "chaos_dns_parse_payload_probability txt n = Some (payload, p) \<Longrightarrow> 0 \<le> p \<and> p \<le> 1"
  by (auto simp: chaos_dns_parse_payload_probability_def chaos_dns_parse_probability_def
      split: option.splits prod.splits if_splits dest: parse_probability_range)

lemma dns_copy_text_value_Some:
  "chaos_dns_copy_text_value txt n = Some t \<longleftrightarrow> t = txt \<and> txt \<noteq> [] \<and> length txt < n"
  by (auto simp: chaos_dns_copy_text_value_def)

lemma seven_cases:
  obtains "x = a" | "x = b" | "x = c" | "x = d" | "x = e" | "x = f" | "x = g" | "x \<notin> {a, b, c, d, e, f, g}"
  by blast

lemma dns_parse_effect_ok:
  assumes "dns_parse_effect pton4 pton6 effect value rule = Some r"
    "rule = dns_rule_zero\<lparr>dns_selector := s\<rparr>" "dsel_kind s \<noteq> CHAOS_DNS_SELECTOR_INVALID" "0 < dsel_len s"
    "dsel_domain s = CHAOS_DNS_SELECTOR_DOMAIN_LOOKUP \<or> dsel_domain s = CHAOS_DNS_SELECTOR_DOMAIN_REVERSE"
  shows "dns_rule_ok pton4 pton6 r"
proof -
  have lat: "chaos_dns_parse_latency p = Some ms \<Longrightarrow> ms \<le> 0xffffffff" for p ms
    by (auto simp: chaos_dns_parse_latency_def split: prod.splits if_splits)
  have lim: "chaos_dns_parse_limit p = Some n \<Longrightarrow> 0 < n \<and> n \<le> 0xffffffff" for p n
    by (auto simp: chaos_dns_parse_limit_def split: prod.splits if_splits)
  have zero: "dns_gai_error rule = None" "dns_latency_ms rule = 0" "dns_limit rule = 0"
    "dns_family rule = CHAOS_DNS_FAMILY_ANY" "dns_text rule = []" "dns_selector rule = s"
    by (simp_all add: assms(2) dns_rule_zero_def)
  note ok = dns_rule_ok_def chaos_dns_effect_allowed_def CHAOS_DNS_MAX_VALUE_def dns_copy_text_value_Some
  show ?thesis
  proof (cases "chaos_dns_parse_gai_name effect")
    case (Some e)
    then obtain p where "r = rule\<lparr>dns_effect := CHAOS_DNS_EFFECT_GAI, dns_gai_error := Some e, dns_probability := p\<rparr>"
      "chaos_policy_parse_probability (Some value) = Some p"
      using assms(1) by (auto simp: dns_parse_effect_def chaos_dns_parse_probability_def)
    with parse_probability_range [of "Some value" p] show ?thesis using zero assms(3-5) by (auto simp: ok)
  next
    case None
    note eff = assms(1) [unfolded dns_parse_effect_def None option.case Let_def]
    show ?thesis
    proof (cases rule: seven_cases [where x = effect and a = "''LATENCY''" and b = "''REWRITE''" and c = "''SERVICE''"
          and d = "''OVERRIDE''" and e = "''FILTER_FAMILY''" and f = "''LIMIT''" and g = "''SHUFFLE''"])
      case 1
      then obtain payload p ms where "chaos_dns_parse_payload_probability value CHAOS_DNS_MAX_VALUE = Some (payload, p)"
        "r = rule\<lparr>dns_probability := p, dns_effect := CHAOS_DNS_EFFECT_LATENCY, dns_latency_ms := ms\<rparr>" "ms \<le> 0xffffffff"
        using eff lat by (auto split: option.splits)
      with dns_payload_range [OF this(1)] show ?thesis using zero assms(3-5) by (auto simp: ok)
    next
      case 2
      then obtain payload p where "chaos_dns_parse_payload_probability value CHAOS_DNS_MAX_VALUE = Some (payload, p)"
        "r = rule\<lparr>dns_probability := p, dns_effect := CHAOS_DNS_EFFECT_REWRITE, dns_text := payload\<rparr>"
        "payload \<noteq> []" "length payload < CHAOS_DNS_MAX_VALUE"
        using eff by (auto simp: dns_copy_text_value_Some split: option.splits)
      with dns_payload_range [OF this(1)] show ?thesis using zero assms(3-5) by (auto simp: ok)
    next
      case 3
      then obtain payload p where "chaos_dns_parse_payload_probability value CHAOS_DNS_MAX_VALUE = Some (payload, p)"
        "r = rule\<lparr>dns_probability := p, dns_effect := CHAOS_DNS_EFFECT_SERVICE, dns_text := payload\<rparr>"
        "payload \<noteq> []" "length payload < CHAOS_DNS_MAX_VALUE"
        using eff by (auto simp: dns_copy_text_value_Some split: option.splits)
      with dns_payload_range [OF this(1)] show ?thesis using zero assms(3-5) by (auto simp: ok)
    next
      case 4
      then obtain payload p where "chaos_dns_parse_payload_probability value CHAOS_DNS_MAX_VALUE = Some (payload, p)"
        "r = rule\<lparr>dns_probability := p, dns_effect := CHAOS_DNS_EFFECT_OVERRIDE, dns_text := payload\<rparr>"
        "payload \<noteq> []" "length payload < CHAOS_DNS_MAX_VALUE" "chaos_dns_validate_override_value pton4 pton6 payload"
        "chaos_dns_effect_allowed s CHAOS_DNS_EFFECT_OVERRIDE"
        using eff zero by (auto simp: dns_copy_text_value_Some split: option.splits if_splits)
      with dns_payload_range [OF this(1)] show ?thesis using zero assms(3-5) by (auto simp: ok)
    next
      case 5
      then obtain payload p where "chaos_dns_parse_payload_probability value CHAOS_DNS_MAX_VALUE = Some (payload, p)"
        "r = rule\<lparr>dns_probability := p, dns_effect := CHAOS_DNS_EFFECT_FILTER_FAMILY,
          dns_family := chaos_dns_parse_family_filter payload\<rparr>"
        "chaos_dns_parse_family_filter payload \<noteq> CHAOS_DNS_FAMILY_INVALID"
        "chaos_dns_effect_allowed s CHAOS_DNS_EFFECT_FILTER_FAMILY"
        using eff zero by (auto split: option.splits if_splits)
      with dns_payload_range [OF this(1)] show ?thesis using zero assms(3-5) by (auto simp: ok)
    next
      case 6
      then obtain payload p n where "chaos_dns_parse_payload_probability value CHAOS_DNS_MAX_VALUE = Some (payload, p)"
        "r = rule\<lparr>dns_probability := p, dns_effect := CHAOS_DNS_EFFECT_LIMIT, dns_limit := n\<rparr>"
        "0 < n" "n \<le> 0xffffffff" "chaos_dns_effect_allowed s CHAOS_DNS_EFFECT_LIMIT"
        using eff zero lim by (auto split: option.splits if_splits)
      with dns_payload_range [OF this(1)] show ?thesis using zero assms(3-5) by (auto simp: ok)
    next
      case 7
      then obtain p where "chaos_policy_parse_probability (Some value) = Some p"
        "r = rule\<lparr>dns_effect := CHAOS_DNS_EFFECT_SHUFFLE, dns_probability := p\<rparr>"
        "chaos_dns_effect_allowed s CHAOS_DNS_EFFECT_SHUFFLE"
        using eff zero by (auto simp: chaos_dns_parse_probability_def split: if_splits)
      with parse_probability_range [of "Some value" p] show ?thesis using zero assms(3-5) by (auto simp: ok)
    qed (use eff in auto)
  qed
qed

lemma dns_parse_cursor_ok:
  "dns_parse_cursor pton4 pton6 ntop4 ntop6 cursor = Line_Rule r \<Longrightarrow> dns_rule_ok pton4 pton6 r"
  by (auto simp: dns_parse_cursor_def split: option.splits prod.splits if_splits
      dest!: dns_selector_parse_ok intro!: dns_parse_effect_ok)

lemma dns_rule_ok_tail: "dns_rule_ok pton4 pton6 r \<Longrightarrow> dns_rule_ok pton4 pton6 (r\<lparr>rh_policy := p, rh_call_size := n\<rparr>)"
  by (simp add: dns_rule_ok_def)

lemma dns_parse_line_form:
  "chaos_dns_config_parse_line pton4 pton6 ntop4 ntop6 = trimmed_line (dns_parse_cursor pton4 pton6 ntop4 ntop6)"
  by (simp add: fun_eq_iff chaos_dns_config_parse_line_def trimmed_line_def dns_trim_eq dns_strip_comment_eq)

interpretation dns_lines: trimmed_grammar "dns_parse_cursor pton4 pton6 ntop4 ntop6" dns_rule_supported
    CHAOS_DNS_MAX_RULES "dns_rule_ok pton4 pton6" for pton4 pton6 ntop4 ntop6
  by unfold_locales (simp_all add: dns_parse_cursor_ok dns_rule_ok_tail)

text \<open>A resolver rule file is taken whole or not at all, with the first line at fault; every rule taken is well
  formed: an effect its selector admits, an error code exactly for error rules, a probability between 0 and 1,
  a positive limit exactly for limiting, a text below the size limit exactly for the effects that carry one, and
  only readable addresses in an override.\<close>

theorem dns_parse_buffer_sound:
  "case scan_lines (line_rule (chaos_dns_config_parse_line pton4 pton6 ntop4 ntop6)) dns_rule_supported
          CHAOS_DNS_MAX_RULES 0 0 (buffer_lines (c_string buffer)) of
     Inr rs \<Rightarrow>
       pr_ok (chaos_dns_config_parse_buffer pton4 pton6 ntop4 ntop6 err buffer) \<and>
       pr_rules (chaos_dns_config_parse_buffer pton4 pton6 ntop4 ntop6 err buffer) = rs \<and>
       length rs \<le> CHAOS_DNS_MAX_RULES \<and> list_all (dns_rule_ok pton4 pton6) rs
   | Inl (n, reason, line) \<Rightarrow>
       \<not> pr_ok (chaos_dns_config_parse_buffer pton4 pton6 ntop4 ntop6 err buffer) \<and>
       pr_rules (chaos_dns_config_parse_buffer pton4 pton6 ntop4 ntop6 err buffer) = [] \<and>
       pr_error (chaos_dns_config_parse_buffer pton4 pton6 ntop4 ntop6 err buffer) =
         chaos_status_reject (chaos_status_keep_line (chaos_status_clear err) n line) reason"
  unfolding chaos_dns_config_parse_buffer_def dns_parse_line_form by (rule dns_lines.parse_contract)

section \<open>Selection by rank and length\<close>

text \<open>The rank with which a rule applies to a name, and the key the scan compares.\<close>

definition dns_rank :: "chaos_dns_effect \<Rightarrow> chaos_dns_selector_domain \<Rightarrow> string \<Rightarrow> chaos_dns_rule \<Rightarrow> nat option" where
  "dns_rank effect domain name r =
     (if dns_effect r = effect then chaos_dns_selector_matches_domain (dns_selector r) domain (Some name) else None)"

definition dns_key :: "chaos_dns_effect \<Rightarrow> chaos_dns_selector_domain \<Rightarrow> string \<Rightarrow> chaos_dns_rule \<Rightarrow> rank_key" where
  "dns_key effect domain name = rank_key_of (dns_rank effect domain name) (\<lambda>r. dsel_len (dns_selector r))"

text \<open>The rule selected for a name has the effect asked for and covers the name; no other such rule matches more
  exactly, nor as exactly with a longer selector, and among equals it is the first in the file. Without such a
  rule none is selected.\<close>

theorem dns_select_rule_best:
  "case chaos_dns_config_select_rule_domain rules effect domain (Some name) of
     None \<Rightarrow> \<forall>r \<in> set rules. dns_rank effect domain name r = None
   | Some b \<Rightarrow> \<exists>before after. rules = before @ b # after \<and> dns_rank effect domain name b \<noteq> None \<and>
       (\<forall>r \<in> set before. dns_rank effect domain name r \<noteq> None \<longrightarrow> dns_key effect domain name r < dns_key effect domain name b) \<and>
       (\<forall>r \<in> set after. dns_rank effect domain name r \<noteq> None \<longrightarrow> dns_key effect domain name r \<le> dns_key effect domain name b)"
proof -
  have "(\<lambda>r. if dns_effect r \<noteq> effect then None
      else chaos_dns_selector_matches_domain (dns_selector r) domain (Some name)) = dns_rank effect domain name"
    by (simp add: fun_eq_iff dns_rank_def)
  then show ?thesis
    by (intro ranked_best [where rank_of = "dns_rank effect domain name" and length_of = "\<lambda>r. dsel_len (dns_selector r)"])
      (simp_all add: chaos_dns_config_select_rule_domain_def dns_key_def [abs_def])
qed

section \<open>Override lists\<close>

definition override_list :: "string list \<Rightarrow> string" where
  "override_list toks = concat (map (\<lambda>t. t @ '','') toks)"

definition override_token_ok :: "pton \<Rightarrow> pton \<Rightarrow> string \<Rightarrow> bool" where
  "override_token_ok pton4 pton6 t \<longleftrightarrow>
     CHR '','' \<notin> set t \<and> chaos_dns_override_token_valid pton4 pton6 (trim_blanks t)"

definition is_override_list :: "pton \<Rightarrow> pton \<Rightarrow> string \<Rightarrow> bool" where
  "is_override_list pton4 pton6 s \<longleftrightarrow>
     (\<exists>toks. toks \<noteq> [] \<and> (s = override_list toks \<or> s @ '','' = override_list toks) \<and>
       list_all (override_token_ok pton4 pton6) toks)"

lemma override_list_simps [simp]: "override_list [] = []" "override_list (t # ts) = t @ CHR '','' # override_list ts"
  by (simp_all add: override_list_def)

lemma override_token_ok_Nil [simp]: "\<not> override_token_ok pton4 pton6 []"
  by (simp add: override_token_ok_def chaos_dns_override_token_valid_def trim_blanks_def)

lemma override_token_ok_trim:
  "CHR '','' \<notin> set token \<Longrightarrow>
     (chaos_dns_trim token = [] \<or> \<not> chaos_dns_override_token_valid pton4 pton6 (chaos_dns_trim token)) \<longleftrightarrow>
     \<not> override_token_ok pton4 pton6 token"
  by (auto simp: override_token_ok_def dns_trim_eq chaos_dns_override_token_valid_def)

lemma override_step:
  assumes "cursor \<noteq> []"
  shows "override_tokens_valid pton4 pton6 cursor found =
    (let (token, rest) = (case split_first CHR '','' cursor of None \<Rightarrow> (cursor, []) | Some (a, b) \<Rightarrow> (a, b))
     in override_token_ok pton4 pton6 token \<and> (rest = [] \<or> override_tokens_valid pton4 pton6 rest True))"
proof -
  have nil: "override_tokens_valid pton4 pton6 [] True" by (simp add: override_tokens_valid.simps)
  show ?thesis
  proof (cases "split_first CHR '','' cursor")
    case None
    then have "CHR '','' \<notin> set cursor" by (simp add: split_first_None_iff)
    from override_token_ok_trim [OF this] None assms nil show ?thesis
      by (subst override_tokens_valid.simps) (simp add: Let_def)
  next
    case (Some ab)
    obtain a b where ab: "ab = (a, b)" by fastforce
    with Some have "CHR '','' \<notin> set a" by (simp add: split_first_Some_iff)
    from override_token_ok_trim [OF this] Some ab assms nil show ?thesis
      by (subst override_tokens_valid.simps) (cases "b = []"; simp add: Let_def)
  qed
qed

lemma is_override_list_last: "CHR '','' \<notin> set s \<Longrightarrow> is_override_list pton4 pton6 s \<longleftrightarrow> override_token_ok pton4 pton6 s"
proof
  assume c: "CHR '','' \<notin> set s" and "is_override_list pton4 pton6 s"
  then obtain t ts where "s @ '','' = t @ CHR '','' # override_list ts" "override_token_ok pton4 pton6 t"
    by (auto simp: is_override_list_def neq_Nil_conv)
  moreover from this c have "s = t"
    by (auto simp: override_token_ok_def append_eq_append_conv2 append_eq_Cons_conv Cons_eq_append_conv)
  ultimately show "override_token_ok pton4 pton6 s" by simp
next
  assume "override_token_ok pton4 pton6 s"
  then show "is_override_list pton4 pton6 s" unfolding is_override_list_def by (intro exI [of _ "[s]"]) simp
qed

lemma is_override_list_split:
  assumes "CHR '','' \<notin> set a"
  shows "is_override_list pton4 pton6 (a @ CHR '','' # b) \<longleftrightarrow>
    override_token_ok pton4 pton6 a \<and> (b = [] \<or> is_override_list pton4 pton6 b)"
proof
  assume "is_override_list pton4 pton6 (a @ CHR '','' # b)"
  then obtain toks where toks: "toks \<noteq> []" "a @ CHR '','' # b = override_list toks \<or> (a @ CHR '','' # b) @ '','' = override_list toks"
    "list_all (override_token_ok pton4 pton6) toks" unfolding is_override_list_def by blast
  then obtain t ts where tt: "toks = t # ts" by (cases toks) auto
  note ts = toks(2) [unfolded tt override_list_simps]
  have ok: "override_token_ok pton4 pton6 t" "list_all (override_token_ok pton4 pton6) ts"
    using toks(3) by (simp_all add: tt)
  have "split_first CHR '','' (a @ CHR '','' # x) = Some (a, x)" "split_first CHR '','' (t @ CHR '','' # x) = Some (t, x)" for x
    using assms ok(1) by (simp_all add: split_first_Some_iff override_token_ok_def)
  with ts have "a = t" "b = override_list ts \<or> b @ '','' = override_list ts"
    by (metis append.assoc append_Cons option.inject prod.inject)+
  moreover from this ok(2) have "b = [] \<or> is_override_list pton4 pton6 b"
    by (cases ts) (auto simp: is_override_list_def intro: exI [of _ ts])
  ultimately show "override_token_ok pton4 pton6 a \<and> (b = [] \<or> is_override_list pton4 pton6 b)" using ok(1) by simp
next
  assume a: "override_token_ok pton4 pton6 a \<and> (b = [] \<or> is_override_list pton4 pton6 b)"
  then obtain ts where "b = override_list ts \<or> b @ '','' = override_list ts" "list_all (override_token_ok pton4 pton6) ts"
    using that [of "[]"] by (auto simp: is_override_list_def)
  with a show "is_override_list pton4 pton6 (a @ CHR '','' # b)"
    unfolding is_override_list_def by (intro exI [of _ "a # ts"]) auto
qed

lemma override_tokens_valid_iff:
  "cursor \<noteq> [] \<Longrightarrow> override_tokens_valid pton4 pton6 cursor found \<longleftrightarrow> is_override_list pton4 pton6 cursor"
proof (induction "length cursor" arbitrary: cursor found rule: less_induct)
  case less
  show ?case
  proof (cases "split_first CHR '','' cursor")
    case None
    then have "CHR '','' \<notin> set cursor" by (simp add: split_first_None_iff)
    then show ?thesis using None less.prems by (simp add: override_step is_override_list_last)
  next
    case (Some ab)
    obtain a b where ab: "ab = (a, b)" by fastforce
    with Some have c: "cursor = a @ CHR '','' # b" "CHR '','' \<notin> set a" by (simp_all add: split_first_Some_iff)
    have "b = [] \<or> override_tokens_valid pton4 pton6 b True = is_override_list pton4 pton6 b"
      using less.hyps [of b True] c(1) by auto
    then show ?thesis using Some ab less.prems c(2) by (auto simp: override_step c(1) is_override_list_split)
  qed
qed

text \<open>An override value is accepted exactly when it is shorter than 512 bytes and a list of addresses separated by
  commas, a comma after the last one allowed, each readable after trimming, brackets allowed.\<close>

theorem dns_override_language:
  "chaos_dns_validate_override_value pton4 pton6 s \<longleftrightarrow>
     s \<noteq> [] \<and> length s < CHAOS_DNS_MAX_VALUE \<and> is_override_list pton4 pton6 s"
  by (auto simp: chaos_dns_validate_override_value_def dns_copy_text_value_Some override_tokens_valid_iff
      split: option.splits) (simp_all add: chaos_dns_copy_text_value_def split: if_splits)

section \<open>Lookups in the active snapshot\<close>

definition chaos_dns_config_match_loaded ::
  "chaos_dns_rule rule_snapshot \<Rightarrow> u64 \<Rightarrow> chaos_dns_effect \<Rightarrow> string option \<Rightarrow> chaos_dns_rule option" where
  "chaos_dns_config_match_loaded st sequence_after effect name =
     match_snapshot (\<lambda>rules. chaos_dns_config_select_rule rules effect name) st sequence_after"

definition chaos_dns_config_match_reverse_loaded ::
  "chaos_dns_rule rule_snapshot \<Rightarrow> u64 \<Rightarrow> chaos_dns_effect \<Rightarrow> string option \<Rightarrow> chaos_dns_rule option" where
  "chaos_dns_config_match_reverse_loaded st sequence_after effect address =
     match_snapshot (\<lambda>rules. chaos_dns_config_select_reverse_rule rules effect address) st sequence_after"

section \<open>Round trips\<close>

text \<open>A selector whose end the splitter finds: a catch-all, a name without colon, a bracketed address or one
  without colon.\<close>

definition dns_closed_selector :: "string \<Rightarrow> bool" where
  "dns_closed_selector sel \<longleftrightarrow>
     sel = ''*'' \<or> (\<exists>d. sel = ''dns://'' @ d \<and> CHR '':'' \<notin> set d) \<or>
     (\<exists>a. sel = ''rdns://['' @ a @ '']'' \<and> CHR '']'' \<notin> set a) \<or>
     (\<exists>a. sel = ''rdns://'' @ a \<and> CHR '':'' \<notin> set a \<and> (a = [] \<or> hd a \<noteq> CHR ''[''))"

lemma selector_end_closed:
  assumes "dns_closed_selector sel"
  shows "selector_end (sel @ CHR '':'' # rest) = Some (sel, rest)"
proof -
  have split: "split_first CHR '':'' (d @ CHR '':'' # rest) = Some (d, rest)" if "CHR '':'' \<notin> set d" for d
    using that by (simp add: split_first_Some_iff)
  have bracket: "split_first CHR '']'' (a @ CHR '']'' # CHR '':'' # rest) = Some (a, CHR '':'' # rest)"
    if "CHR '']'' \<notin> set a" for a
    using that by (simp add: split_first_Some_iff)
  consider "sel = ''*''" | d where "sel = ''dns://'' @ d" "CHR '':'' \<notin> set d"
    | a where "sel = ''rdns://['' @ a @ '']''" "CHR '']'' \<notin> set a"
    | a where "sel = ''rdns://'' @ a" "CHR '':'' \<notin> set a" "a = [] \<or> hd a \<noteq> CHR ''[''"
    using assms unfolding dns_closed_selector_def by blast
  then show ?thesis
  proof cases
    case 4
    then have "after_prefix ''['' (a @ CHR '':'' # rest) = None" by (cases a) auto
    with 4 split [of a] show ?thesis by (simp add: selector_end_def)
  qed (simp_all add: selector_end_def split bracket)
qed

lemma dns_split_fields_print:
  assumes "dns_closed_selector sel" "trimmed sel" "plain_field effect" "trimmed value"
  shows "chaos_dns_split_rule_fields (sel @ CHR '':'' # effect @ CHR '':'' # value) = Some (sel, effect, value)"
proof -
  have "split_first CHR '':'' (effect @ CHR '':'' # value) = Some (effect, value)"
    using assms(3) by (simp add: split_first_Some_iff plain_field_def)
  then show ?thesis
    using assms by (simp add: chaos_dns_split_rule_fields_def selector_end_closed dns_trim_eq plain_field_trim)
qed

lemma dns_payload_print:
  assumes "trimmed payload" "length payload < CHAOS_DNS_MAX_VALUE" "CHR ''@'' \<notin> set q" "length q < 64"
    "chaos_policy_parse_probability (Some q) = Some p" "q \<noteq> []"
  shows "chaos_dns_parse_payload_probability (payload @ CHR ''@'' # q) CHAOS_DNS_MAX_VALUE = Some (payload, p)"
proof -
  have "split_last CHR ''@'' (payload @ CHR ''@'' # q) = Some (payload, q)"
    using assms(3) by (simp add: split_last_Some_iff)
  moreover have "payload \<noteq> []" using assms(1) by (simp add: trimmed_def)
  ultimately show ?thesis
    using assms by (simp add: chaos_dns_parse_payload_probability_def chaos_dns_copy_text_value_def dns_trim_eq
        chaos_dns_parse_probability_def)
qed

text \<open>A rewriting rule survives printing and parsing: for any readable selector, any replacement text, colons
  included, and any probability text, the rule read back carries the selector, the text, the probability and the
  qualifiers as written.\<close>

theorem dns_rewrite_roundtrip:
  assumes "dns_closed_selector sel" "trimmed sel" "CHR ''#'' \<notin> set sel" "CHR ''@'' \<notin> set sel"
    "chaos_dns_selector_parse pton4 pton6 ntop4 ntop6 sel = Some s"
    "trimmed payload" "length payload < CHAOS_DNS_MAX_VALUE" "CHR ''#'' \<notin> set payload" "CHR ''@'' \<notin> set payload"
    "plain_field q" "length q < 64" "chaos_policy_parse_probability (Some q) = Some prob" "policy_ok p"
  shows "line_rule (chaos_dns_config_parse_line pton4 pton6 ntop4 ntop6)
      (sel @ '':REWRITE:'' @ payload @ CHR ''@'' # q @ print_qualifiers p) =
    Inr (Some (dns_rule_zero\<lparr>dns_selector := s, dns_effect := CHAOS_DNS_EFFECT_REWRITE, dns_text := payload,
      dns_probability := prob, rh_policy := p, rh_call_size := CHAOS_POLICY_NO_SIZE\<rparr>))"
proof -
  let ?payload_at = "payload @ CHR ''@'' # q"
  let ?line = "sel @ CHR '':'' # ''REWRITE'' @ CHR '':'' # ?payload_at"
  have q: "trimmed q" "q \<noteq> []" "CHR ''#'' \<notin> set q" "CHR ''@'' \<notin> set q"
    using assms(10) by (auto simp: plain_field_def trimmed_def)
  have val: "trimmed ?payload_at" using assms(6) q(1,2) by (auto simp: trimmed_def hd_append)
  have line: "trimmed ?line" using assms(2) val by (auto simp: trimmed_def)
  have hash: "CHR ''#'' \<notin> set ?line" using assms(3,8) q(3) by auto
  have eff: "plain_field ''REWRITE''" by (simp add: plain_field_def trimmed_def is_blank_char_def)
  have "\<not> starts_word (last payload)" using assms(6) by (auto simp: trimmed_def starts_word_def is_blank_char_def)
  moreover have "payload \<noteq> []" using assms(6) by (simp add: trimmed_def)
  ultimately have noq: "no_qualifier ?line"
    using no_qualifier_payload [of "sel @ CHR '':'' # ''REWRITE'' @ CHR '':'' # payload" q] assms(4,9) q(4) by simp
  have "sel \<noteq> []" using assms(2) by (simp add: trimmed_def)
  moreover have "dns_parse_effect pton4 pton6 ''REWRITE'' ?payload_at (dns_rule_zero\<lparr>dns_selector := s\<rparr>) =
      Some (dns_rule_zero\<lparr>dns_selector := s, dns_effect := CHAOS_DNS_EFFECT_REWRITE, dns_text := payload,
        dns_probability := prob\<rparr>)"
    using dns_payload_print [OF assms(6,7) q(4) assms(11,12) q(2)] assms(7) \<open>payload \<noteq> []\<close>
    by (simp add: dns_parse_effect_def chaos_dns_parse_gai_name_def dns_copy_text_value_Some Let_def dns_rule_zero_def)
  ultimately have cursor: "dns_parse_cursor pton4 pton6 ntop4 ntop6 ?line =
      Line_Rule (dns_rule_zero\<lparr>dns_selector := s, dns_effect := CHAOS_DNS_EFFECT_REWRITE, dns_text := payload,
        dns_probability := prob\<rparr>)"
    unfolding dns_parse_cursor_def dns_split_fields_print [OF assms(1,2) eff val] by (simp add: assms(5))
  show ?thesis
    using line_rule_print [where body = "dns_parse_cursor pton4 pton6 ntop4 ntop6", OF line hash noq assms(13) cursor] by (simp add: dns_parse_line_form dns_rule_zero_def)
qed

section \<open>Examples\<close>

definition demo_ntop :: ntop where
  "demo_ntop a = (if a = [127, 0, 0, 1] then Some ''127.0.0.1'' else None)"

definition demo_domain :: chaos_dns_selector where
  "demo_domain = dns_selector_zero\<lparr>dsel_len := 14, dsel_kind := CHAOS_DNS_SELECTOR_SUFFIX, dsel_text := ''ex.org''\<rparr>"

lemma demo_domain_parse:
  "chaos_dns_selector_parse demo_pton demo_pton demo_ntop demo_ntop ''dns://*.ex.org'' = Some demo_domain"
  by code_simp

theorem dns_selector_covers_witness:
  "chaos_dns_selector_matches_domain demo_domain CHAOS_DNS_SELECTOR_DOMAIN_LOOKUP (Some ''db.EX.org'') =
    dns_covers ''dns://*.ex.org'' ''db.EX.org''"
  by (rule dns_selector_covers [OF demo_domain_parse]) simp

definition demo_dns_rule :: "chaos_dns_selector \<Rightarrow> chaos_dns_rule" where
  "demo_dns_rule s = dns_rule_zero\<lparr>dns_selector := s, dns_gai_error := Some EAI_AGAIN, dns_probability := 1\<rparr>"

definition demo_dns_rules :: "chaos_dns_rule list" where
  "demo_dns_rules = [demo_dns_rule (dns_selector_zero\<lparr>dsel_len := 1\<rparr>), demo_dns_rule demo_domain]"

theorem dns_select_rule_best_witness:
  "\<exists>b. chaos_dns_config_select_rule_domain demo_dns_rules CHAOS_DNS_EFFECT_GAI CHAOS_DNS_SELECTOR_DOMAIN_LOOKUP
       (Some ''db.ex.org'') = Some b \<and>
     dns_key CHAOS_DNS_EFFECT_GAI CHAOS_DNS_SELECTOR_DOMAIN_LOOKUP ''db.ex.org'' (demo_dns_rule demo_domain) \<le>
     dns_key CHAOS_DNS_EFFECT_GAI CHAOS_DNS_SELECTOR_DOMAIN_LOOKUP ''db.ex.org'' b"
proof -
  have "dns_rank CHAOS_DNS_EFFECT_GAI CHAOS_DNS_SELECTOR_DOMAIN_LOOKUP ''db.ex.org'' (demo_dns_rule demo_domain) \<noteq> None"
    by code_simp
  moreover have "demo_dns_rule demo_domain \<in> set demo_dns_rules" by (simp add: demo_dns_rules_def)
  ultimately show ?thesis
    using dns_select_rule_best [of demo_dns_rules CHAOS_DNS_EFFECT_GAI CHAOS_DNS_SELECTOR_DOMAIN_LOOKUP "''db.ex.org''"]
    by (auto split: option.splits) (metis Un_iff insert_iff less_imp_le list.set(2) order_refl set_append)
qed

theorem dns_rewrite_roundtrip_witness:
  "line_rule (chaos_dns_config_parse_line demo_pton demo_pton demo_ntop demo_ntop)
      (''dns://*.ex.org'' @ '':REWRITE:'' @ ''dns.local'' @ CHR ''@'' # ''0.5'' @ print_qualifiers (policy_zero\<lparr>pol_first := 2\<rparr>)) =
    Inr (Some (dns_rule_zero\<lparr>dns_selector := demo_domain, dns_effect := CHAOS_DNS_EFFECT_REWRITE, dns_text := ''dns.local'',
      dns_probability := dbl_div 5 10, rh_policy := policy_zero\<lparr>pol_first := 2\<rparr>, rh_call_size := CHAOS_POLICY_NO_SIZE\<rparr>))"
proof (rule dns_rewrite_roundtrip [OF _ _ _ _ demo_domain_parse])
  show "chaos_policy_parse_probability (Some ''0.5'') = Some (dbl_div 5 10)"
    using parse_probability_point [of "CHR ''0''" "''5''" "[]"] by (simp add: is_digit_def digit_value_def)
qed (simp_all add: dns_closed_selector_def plain_field_def trimmed_def is_blank_char_def policy_ok_def policy_zero_def
    CHAOS_DNS_MAX_VALUE_def)

end
