(* ===== verification/Dns_Actions.thy ===== *)
theory Dns_Actions
  imports Dns_Config Io_Actions "HOL-Library.Multiset"
begin

text \<open>
  The effects of the resolver library: \<open>src/dns/chaos_dns_actions.c\<close> with the generator of
  \<open>src/dns/chaos_dns_internal.h\<close>, and the lists the library builds itself
  (\<open>src/dns/chaos_dns_owned.c\<close>). An address list is a HOL list of nodes; every node has an identity, so
  that the state can record which nodes were handed to the real \<open>freeaddrinfo\<close> and which blocks were freed.
  The spin lock of the table of own blocks makes each table operation one step and has no other counterpart.
\<close>

section \<open>Generator and decision\<close>

definition chaos_dns_in_internal :: "int \<Rightarrow> bool" where
  "chaos_dns_in_internal guard \<longleftrightarrow> guard \<noteq> 0"

definition chaos_dns_prng_mix :: "u64 \<Rightarrow> u64" where
  "chaos_dns_prng_mix value =
     (let v1 = value + 0x9e3779b97f4a7c15;
          v2 = (v1 XOR drop_bit 30 v1) * 0xbf58476d1ce4e5b9;
          v3 = (v2 XOR drop_bit 27 v2) * 0x94d049bb133111eb
      in v3 XOR drop_bit 31 v3)"

definition chaos_dns_prng_ensure_seeded :: "prng_env \<Rightarrow> u64 \<Rightarrow> u64" where
  "chaos_dns_prng_ensure_seeded env state =
     (if state \<noteq> 0 then state
      else chaos_dns_prng_mix (pe_process_seed env XOR pe_tid env XOR pe_stack_address env) OR 1)"

definition chaos_dns_prng_next_u32 :: "prng_env \<Rightarrow> u64 \<Rightarrow> u32 \<times> u64" where
  "chaos_dns_prng_next_u32 env state =
     (let s0 = chaos_dns_prng_ensure_seeded env state;
          s1 = s0 XOR drop_bit 12 s0;
          s2 = s1 XOR push_bit 25 s1;
          s3 = s2 XOR drop_bit 27 s2
      in (ucast (drop_bit 32 (s3 * 0x2545f4914f6cdd1d)), s3))"

definition chaos_dns_probability_hit_sample :: "rat \<Rightarrow> u32 \<Rightarrow> bool" where
  "chaos_dns_probability_hit_sample probability sample =
     (if probability \<le> 0 then False
      else if probability \<ge> 1 then True
      else of_nat (unat sample) < probability * 4294967296)"

definition chaos_dns_probability_hit :: "prng_env \<Rightarrow> rat \<Rightarrow> u64 \<Rightarrow> bool \<times> u64" where
  "chaos_dns_probability_hit env probability prng =
     (let (sample, prng') = chaos_dns_prng_next_u32 env prng
      in (chaos_dns_probability_hit_sample probability sample, prng'))"

text \<open>Unlike the file and network libraries this one draws a probability for delays too.\<close>

definition chaos_dns_rule_should_trigger ::
  "prng_env \<Rightarrow> int \<Rightarrow> chaos_dns_rule \<Rightarrow> action_state \<Rightarrow> bool \<times> action_state" where
  "chaos_dns_rule_should_trigger env now r st =
     (if \<not> chaos_policy_window_open now (rh_policy r) \<or> \<not> chaos_policy_size_ok (rh_policy r) (rh_call_size r)
      then (False, st)
      else let (hit, prng) = chaos_dns_probability_hit env (dns_probability r) (act_prng st);
               st' = st\<lparr>act_prng := prng\<rparr>
           in if \<not> hit then (False, st') else fire_action r st')"

definition chaos_dns_rule_apply_latency :: "sleep_outcome list \<Rightarrow> chaos_dns_rule \<Rightarrow> int" where
  "chaos_dns_rule_apply_latency sleeps r =
     (if dns_effect r \<noteq> CHAOS_DNS_EFFECT_LATENCY then 0 else chaos_sleep_ms sleeps (dns_latency_ms r))"

definition chaos_dns_rule_apply_gai ::
  "prng_env \<Rightarrow> int \<Rightarrow> chaos_dns_rule \<Rightarrow> action_state \<Rightarrow> gai_error option \<times> action_state" where
  "chaos_dns_rule_apply_gai env now r st =
     (if dns_effect r \<noteq> CHAOS_DNS_EFFECT_GAI then (None, st)
      else let (fired, st') = chaos_dns_rule_should_trigger env now r st
           in (if fired then dns_gai_error r else None, st'))"

section \<open>Address lists and who releases them\<close>

record ai_node =
  ai_id :: nat
  ai_flags :: u32
  ai_family :: int
  ai_socktype :: int
  ai_protocol :: int
  ai_addr :: "u8 list option"
  ai_canonname :: "string option"

record ai_hints =
  hint_flags :: u32
  hint_family :: int
  hint_socktype :: int
  hint_protocol :: int

text \<open>The state of a lookup: the state of the decisions, the time slept, and the allocations: the next node
  identity, the nodes handed to the real \<open>freeaddrinfo\<close>, the table of own blocks with the nodes of each, and
  the nodes of own blocks freed.\<close>

record lookup_state =
  ls_act :: action_state
  ls_slept :: int
  ls_calls :: nat
  ls_next :: nat
  ls_freed :: "nat list"
  ls_owned :: "nat list option list"
  ls_released :: "nat list"
  ls_errno :: "errno option"

text \<open>The C library: the resolver, given the call's number, and which real functions were found.\<close>

record resolver_env =
  rv_getaddrinfo :: "string option \<Rightarrow> string option \<Rightarrow> ai_hints option \<Rightarrow> nat \<Rightarrow> gai_error option \<times> ai_node list"
  rv_have_getaddrinfo :: bool
  rv_have_freeaddrinfo :: bool
  rv_pton4 :: pton
  rv_pton6 :: pton
  rv_alloc_ok :: "nat \<Rightarrow> bool"

definition CHAOS_DNS_MAX_OWNED :: nat where "CHAOS_DNS_MAX_OWNED = 256"

text \<open>The index of the block a node belongs to.\<close>

fun owned_find_from :: "nat \<Rightarrow> nat list option list \<Rightarrow> nat \<Rightarrow> nat option" where
  "owned_find_from i [] node = None"
| "owned_find_from i (None # blocks) node = owned_find_from (Suc i) blocks node"
| "owned_find_from i (Some block # blocks) node =
     (if node \<in> set block then Some i else owned_find_from (Suc i) blocks node)"

definition chaos_dns_owned_find :: "nat list option list \<Rightarrow> nat option \<Rightarrow> nat option" where
  "chaos_dns_owned_find owned node = (case node of None \<Rightarrow> None | Some n \<Rightarrow> owned_find_from 0 owned n)"

definition chaos_dns_owned_contains :: "nat option \<Rightarrow> lookup_state \<Rightarrow> bool" where
  "chaos_dns_owned_contains node st \<longleftrightarrow> chaos_dns_owned_find (ls_owned st) node \<noteq> None"

text \<open>The slot a new block goes to.\<close>

fun free_slot_from :: "nat \<Rightarrow> nat list option list \<Rightarrow> nat option" where
  "free_slot_from i [] = None"
| "free_slot_from i (None # blocks) = Some i"
| "free_slot_from i (Some block # blocks) = free_slot_from (Suc i) blocks"

definition fresh_nodes :: "nat \<Rightarrow> ai_node list \<Rightarrow> ai_node list" where
  "fresh_nodes next nodes = map2 (\<lambda>i n. n\<lparr>ai_id := i\<rparr>) [next ..< next + length nodes] nodes"

definition chaos_dns_owned_copy ::
  "resolver_env \<Rightarrow> ai_node list list \<Rightarrow> string option \<Rightarrow> lookup_state \<Rightarrow> ai_node list \<times> lookup_state" where
  "chaos_dns_owned_copy rv results canonname st =
     (let total = concat results
      in if total = [] then ([], st)
         else if \<not> rv_alloc_ok rv (ls_next st) then ([], st)
         else let nodes = map (\<lambda>n. n\<lparr>ai_addr := map_option (take 128) (ai_addr n), ai_canonname := None\<rparr>)
                            (fresh_nodes (ls_next st) total);
                  nodes = (case canonname of None \<Rightarrow> nodes
                           | Some name \<Rightarrow> (hd nodes)\<lparr>ai_canonname := Some name\<rparr> # tl nodes)
              in case free_slot_from 0 (ls_owned st) of
                   None \<Rightarrow> ([], st)
                 | Some i \<Rightarrow>
                     (nodes, st\<lparr>ls_owned := (ls_owned st)[i := Some (map ai_id nodes)],
                               ls_next := ls_next st + length nodes\<rparr>))"

definition chaos_dns_owned_free :: "nat option \<Rightarrow> lookup_state \<Rightarrow> bool \<times> lookup_state" where
  "chaos_dns_owned_free node st =
     (case chaos_dns_owned_find (ls_owned st) node of
        None \<Rightarrow> (False, st)
      | Some i \<Rightarrow> (True, st\<lparr>ls_owned := (ls_owned st)[i := None],
                           ls_released := ls_released st @ the (ls_owned st ! i)\<rparr>))"

section \<open>Shaping the list\<close>

definition head_id :: "ai_node list \<Rightarrow> nat option" where
  "head_id nodes = (case nodes of [] \<Rightarrow> None | n # _ \<Rightarrow> Some (ai_id n))"

definition chaos_dns_call_real_freeaddrinfo ::
  "resolver_env \<Rightarrow> ai_node list \<Rightarrow> lookup_state \<Rightarrow> lookup_state" where
  "chaos_dns_call_real_freeaddrinfo rv result st =
     (if result = [] \<or> \<not> rv_have_freeaddrinfo rv \<or> chaos_dns_owned_contains (head_id result) st then st
      else st\<lparr>ls_freed := ls_freed st @ map ai_id result\<rparr>)"

definition chaos_dns_result_count :: "ai_node list \<Rightarrow> nat" where
  "chaos_dns_result_count result = length result"

definition AF_UNSPEC :: int where "AF_UNSPEC = 0"

text \<open>A dropped node hands its canonical name to the next one.\<close>

definition hand_canonname :: "ai_node \<Rightarrow> ai_node list \<Rightarrow> ai_node list" where
  "hand_canonname current rest =
     (case rest of
        [] \<Rightarrow> []
      | n # ns \<Rightarrow> (if ai_canonname current \<noteq> None \<and> ai_canonname n = None
                   then n\<lparr>ai_canonname := ai_canonname current\<rparr> # ns else n # ns))"

lemma length_hand_canonname [simp]: "length (hand_canonname c rest) = length rest"
  by (simp add: hand_canonname_def split: list.split)

function filter_nodes ::
  "resolver_env \<Rightarrow> int \<Rightarrow> ai_node list \<Rightarrow> lookup_state \<Rightarrow> ai_node list \<times> lookup_state" where
  "filter_nodes rv wanted_family [] st = ([], st)"
| "filter_nodes rv wanted_family (current # rest) st =
     (if ai_family current \<noteq> wanted_family
      then filter_nodes rv wanted_family (hand_canonname current rest)
             (chaos_dns_call_real_freeaddrinfo rv [current] st)
      else let (kept, st') = filter_nodes rv wanted_family rest st in (current # kept, st'))"
  by pat_completeness auto
termination
  by (relation "measure (\<lambda>(rv, f, nodes, st). length nodes)") auto

definition chaos_dns_filter_result_list ::
  "resolver_env \<Rightarrow> chaos_dns_family_filter \<Rightarrow> ai_node list \<Rightarrow> lookup_state \<Rightarrow> bool \<times> ai_node list \<times> lookup_state" where
  "chaos_dns_filter_result_list rv family result st =
     (if result = [] \<or> family = CHAOS_DNS_FAMILY_ANY then (False, result, st)
      else let (kept, st') = filter_nodes rv (if family = CHAOS_DNS_FAMILY_INET4 then AF_INET else AF_INET6) result st
           in (kept \<noteq> [], kept, st'))"

definition chaos_dns_limit_result_list ::
  "resolver_env \<Rightarrow> nat \<Rightarrow> ai_node list \<Rightarrow> lookup_state \<Rightarrow> ai_node list \<times> lookup_state" where
  "chaos_dns_limit_result_list rv limit result st =
     (if result = [] then ([], st)
      else if limit = 0 then ([], chaos_dns_call_real_freeaddrinfo rv result st)
      else if length result < limit then (result, st)
      else (take limit result, chaos_dns_call_real_freeaddrinfo rv (drop limit result) st))"

text \<open>The Fisher-Yates pass from the last index down.\<close>

fun shuffle_pass :: "prng_env \<Rightarrow> nat \<Rightarrow> ai_node list \<Rightarrow> u64 \<Rightarrow> ai_node list \<times> u64" where
  "shuffle_pass env 0 nodes prng = (nodes, prng)"
| "shuffle_pass env (Suc i) nodes prng =
     (let (sample, prng') = chaos_dns_prng_next_u32 env prng;
          swap_index = unat (sample mod of_nat (Suc i + 1))
      in shuffle_pass env i (nodes[Suc i := nodes ! swap_index, swap_index := nodes ! Suc i]) prng')"

definition set_canonname :: "nat \<Rightarrow> string option \<Rightarrow> ai_node list \<Rightarrow> ai_node list" where
  "set_canonname i name nodes = map (\<lambda>n. if ai_id n = i then n\<lparr>ai_canonname := name\<rparr> else n) nodes"

definition chaos_dns_shuffle_result_list ::
  "prng_env \<Rightarrow> resolver_env \<Rightarrow> ai_node list \<Rightarrow> lookup_state \<Rightarrow> ai_node list \<times> lookup_state" where
  "chaos_dns_shuffle_result_list env rv result st =
     (if result = [] then ([], st)
      else if chaos_dns_result_count result < 2 then (result, st)
      else if \<not> rv_alloc_ok rv (ls_next st) then (result, st)
      else let (nodes, prng) = shuffle_pass env (length result - 1) result (act_prng (ls_act st));
               canonname = ai_canonname (hd result);
               nodes = set_canonname (ai_id (hd result)) (ai_canonname (hd nodes)) nodes;
               nodes = set_canonname (ai_id (hd nodes)) canonname nodes
           in (nodes, st\<lparr>ls_act := (ls_act st)\<lparr>act_prng := prng\<rparr>\<rparr>))"

section \<open>Who holds which node\<close>

definition block_ids :: "nat list option \<Rightarrow> nat list" where
  "block_ids b = (case b of None \<Rightarrow> [] | Some ids \<Rightarrow> ids)"

definition owned_ids :: "nat list option list \<Rightarrow> nat list" where
  "owned_ids owned = concat (map block_ids owned)"

lemma owned_ids_simps [simp]:
  "owned_ids [] = []" "owned_ids (b # bs) = block_ids b @ owned_ids bs"
  "owned_ids (as @ bs) = owned_ids as @ owned_ids bs" "block_ids None = []" "block_ids (Some ids) = ids"
  by (simp_all add: owned_ids_def block_ids_def)

text \<open>Every node ever allocated was handed to the real \<open>freeaddrinfo\<close>, was freed with its own block, is in a
  live own block, or is held elsewhere: each exactly once.\<close>

definition accounted :: "lookup_state \<Rightarrow> nat multiset \<Rightarrow> bool" where
  "accounted st held \<longleftrightarrow>
     mset [0 ..< ls_next st] = mset (ls_freed st) + mset (ls_released st) + mset (owned_ids (ls_owned st)) + held"

abbreviation ids :: "ai_node list \<Rightarrow> nat multiset" where
  "ids nodes \<equiv> mset (map ai_id nodes)"

lemma accounted_distinct:
  assumes "accounted st held"
  shows "distinct (owned_ids (ls_owned st))" "i \<in># held \<Longrightarrow> i \<notin> set (owned_ids (ls_owned st))"
    "i \<in># held \<Longrightarrow> count held i = 1"
proof -
  have le: "count (mset (ls_freed st) + mset (ls_released st) + mset (owned_ids (ls_owned st)) + held) j \<le> 1" for j
    using assms unfolding accounted_def by (metis distinct_count_atmost_1 distinct_upt le_refl zero_le_one)
  show "distinct (owned_ids (ls_owned st))"
    unfolding distinct_count_atmost_1
  proof
    fix j
    have "count (mset (owned_ids (ls_owned st))) j \<le> 1" using le [of j] by simp
    moreover have "0 < count (mset (owned_ids (ls_owned st))) j \<longleftrightarrow> j \<in> set (owned_ids (ls_owned st))" by simp
    ultimately show "count (mset (owned_ids (ls_owned st))) j = (if j \<in> set (owned_ids (ls_owned st)) then 1 else 0)"
      by (simp only: if_split) linarith
  qed
  show "i \<notin> set (owned_ids (ls_owned st))" if "i \<in># held"
  proof
    assume "i \<in> set (owned_ids (ls_owned st))"
    then have "1 \<le> count (mset (owned_ids (ls_owned st))) i" by (simp add: Suc_le_eq)
    moreover have "1 \<le> count held i" using that by (simp add: Suc_le_eq)
    ultimately show False using le [of i] by (simp only: count_union)
  qed
  show "count held i = 1" if "i \<in># held"
  proof -
    have "1 \<le> count held i" using that by (simp add: Suc_le_eq)
    moreover have "count held i \<le> 1" using le [of i] by (simp only: count_union)
    ultimately show ?thesis by (rule antisym [rotated])
  qed
qed

lemma owned_find_None: "owned_find_from k bs i = None \<longleftrightarrow> i \<notin> set (owned_ids bs)"
  by (induction k bs i rule: owned_find_from.induct) auto

lemma owned_find_append:
  "i \<notin> set (owned_ids as) \<Longrightarrow> owned_find_from k (as @ bs) i = owned_find_from (k + length as) bs i"
  by (induction k as i rule: owned_find_from.induct) auto

lemma owned_contains_iff: "chaos_dns_owned_contains (Some i) st \<longleftrightarrow> i \<in> set (owned_ids (ls_owned st))"
  using owned_find_None by (auto simp: chaos_dns_owned_contains_def chaos_dns_owned_find_def)

lemma accounted_cong:
  "ls_next st' = ls_next st \<Longrightarrow> ls_freed st' = ls_freed st \<Longrightarrow> ls_released st' = ls_released st \<Longrightarrow>
   ls_owned st' = ls_owned st \<Longrightarrow> accounted st' held \<longleftrightarrow> accounted st held"
  by (simp add: accounted_def)

text \<open>A real list that is let go is freed; a list of ours is left alone.\<close>

lemma free_real:
  assumes "rv_have_freeaddrinfo rv" "accounted st (held + ids result)"
  shows "accounted (chaos_dns_call_real_freeaddrinfo rv result st) held \<and>
    ls_owned (chaos_dns_call_real_freeaddrinfo rv result st) = ls_owned st \<and>
    ls_act (chaos_dns_call_real_freeaddrinfo rv result st) = ls_act st"
proof (cases result)
  case Nil
  with assms show ?thesis by (simp add: chaos_dns_call_real_freeaddrinfo_def)
next
  case (Cons n ns)
  have "ai_id n \<notin> set (owned_ids (ls_owned st))" by (rule accounted_distinct(2) [OF assms(2)]) (simp add: Cons)
  then have "\<not> chaos_dns_owned_contains (head_id result) st" by (simp add: head_id_def Cons owned_contains_iff)
  then show ?thesis
    using assms by (simp add: chaos_dns_call_real_freeaddrinfo_def accounted_def ac_simps)
qed

lemma free_owned:
  "set (map ai_id result) \<subseteq> set (owned_ids (ls_owned st)) \<Longrightarrow> chaos_dns_call_real_freeaddrinfo rv result st = st"
  by (cases result) (auto simp: chaos_dns_call_real_freeaddrinfo_def head_id_def owned_contains_iff)

lemma ids_hand_canonname [simp]: "map ai_id (hand_canonname c rest) = map ai_id rest"
  by (simp add: hand_canonname_def split: list.split)

lemma filter_nodes_real:
  "rv_have_freeaddrinfo rv \<Longrightarrow> accounted st (held + ids result) \<Longrightarrow> filter_nodes rv f result st = (kept, st') \<Longrightarrow>
     accounted st' (held + ids kept) \<and> ls_owned st' = ls_owned st \<and> ls_act st' = ls_act st"
proof (induction rv f result st arbitrary: kept st' held rule: filter_nodes.induct)
  case (1 rv f st)
  then show ?case by simp
next
  case (2 rv f current rest st)
  show ?case
  proof (cases "ai_family current = f")
    case True
    obtain k s where rec: "filter_nodes rv f rest st = (k, s)" by fastforce
    with True "2.prems"(3) have k: "kept = current # k" "st' = s" by simp_all
    have "accounted st ((held + {#ai_id current#}) + ids rest)" using "2.prems"(2) by simp
    with "2.IH"(2) [OF _ "2.prems"(1) this rec] True k show ?thesis by simp
  next
    case False
    let ?st = "chaos_dns_call_real_freeaddrinfo rv [current] st"
    have "accounted st ((held + ids rest) + ids [current])" using "2.prems"(2) by (simp add: ac_simps)
    note freed = free_real [OF "2.prems"(1) this]
    from False "2.prems"(3) have "filter_nodes rv f (hand_canonname current rest) ?st = (kept, st')" by simp
    with "2.IH"(1) [of held kept st'] False "2.prems"(1) freed show ?thesis by simp
  qed
qed

lemma filter_nodes_owned:
  "set (map ai_id result) \<subseteq> set (owned_ids (ls_owned st)) \<Longrightarrow> filter_nodes rv f result st = (kept, st') \<Longrightarrow>
     st' = st \<and> set (map ai_id kept) \<subseteq> set (map ai_id result)"
proof (induction rv f result st arbitrary: kept st' rule: filter_nodes.induct)
  case (1 rv f st)
  then show ?case by simp
next
  case (2 rv f current rest st)
  show ?case
  proof (cases "ai_family current = f")
    case True
    obtain k s where rec: "filter_nodes rv f rest st = (k, s)" by fastforce
    with True "2.prems"(2) have k: "kept = current # k" "st' = s" by simp_all
    with "2.IH"(2) [OF _ _ rec] True "2.prems"(1) show ?thesis by auto
  next
    case False
    have "chaos_dns_call_real_freeaddrinfo rv [current] st = st" by (rule free_owned) (use "2.prems"(1) in simp)
    with False "2.prems" "2.IH"(1) [of kept st'] show ?thesis
      by (auto simp flip: set_map simp del: set_map)
  qed
qed

text \<open>A list the caller holds: a real one, whose nodes only it holds, or one of ours, whose block sits in the
  slot \<open>i\<close> that was free in the table \<open>T\<close> before the lookup.\<close>

definition holds ::
  "nat list option list \<Rightarrow> lookup_state \<Rightarrow> nat multiset \<Rightarrow> ai_node list \<Rightarrow> (nat \<times> nat list) option \<Rightarrow> bool" where
  "holds T st held result own \<longleftrightarrow>
     (case own of
        None \<Rightarrow> ls_owned st = T \<and> accounted st (held + ids result)
      | Some (i, block) \<Rightarrow> accounted st held \<and> i < length T \<and> T ! i = None \<and> ls_owned st = T[i := Some block] \<and>
          set (map ai_id result) \<subseteq> set block)"

lemma block_in_owned: "i < length T \<Longrightarrow> set block \<subseteq> set (owned_ids (T[i := Some block]))"
  by (auto simp: upd_conv_take_nth_drop)

lemma owned_update_split:
  "i < length T \<Longrightarrow> owned_ids (T[i := b]) = owned_ids (take i T) @ block_ids b @ owned_ids (drop (Suc i) T)"
  by (simp add: upd_conv_take_nth_drop)

text \<open>Freeing any node of our block frees the block and restores the table.\<close>

lemma own_release:
  assumes "holds T st held result (Some (i, block))" "x \<in> set block"
  shows "fst (chaos_dns_owned_free (Some x) st)" "accounted (snd (chaos_dns_owned_free (Some x) st)) held"
    "ls_owned (snd (chaos_dns_owned_free (Some x) st)) = T"
proof -
  have h: "accounted st held" "i < length T" "T ! i = None" "ls_owned st = T[i := Some block]"
    using assms(1) by (simp_all add: holds_def)
  have split: "T[i := Some block] = take i T @ Some block # drop (Suc i) T" using h(2) by (rule upd_conv_take_nth_drop)
  have "distinct (owned_ids (T[i := Some block]))" using accounted_distinct(1) [OF h(1)] h(4) by simp
  then have "x \<notin> set (owned_ids (take i T))" using assms(2) by (auto simp: split)
  then have find: "chaos_dns_owned_find (ls_owned st) (Some x) = Some i"
    using assms(2) h(2,4) by (simp add: chaos_dns_owned_find_def split owned_find_append)
  then have free: "chaos_dns_owned_free (Some x) st =
      (True, st\<lparr>ls_owned := T[i := None], ls_released := ls_released st @ block\<rparr>)"
    using h(2,4) by (simp add: chaos_dns_owned_free_def)
  show "fst (chaos_dns_owned_free (Some x) st)" by (simp add: free)
  show "ls_owned (snd (chaos_dns_owned_free (Some x) st)) = T" using h(3) list_update_id [of T i] by (simp add: free)
  show "accounted (snd (chaos_dns_owned_free (Some x) st)) held"
    using h by (simp add: free accounted_def owned_update_split ac_simps)
qed

lemma filter_list_holds:
  assumes "rv_have_freeaddrinfo rv" "holds T st held result own"
    "chaos_dns_filter_result_list rv family result st = (found, kept, st')"
  shows "holds T st' held kept own"
proof (cases "result = [] \<or> family = CHAOS_DNS_FAMILY_ANY")
  case True
  with assms(2,3) show ?thesis by (auto simp: chaos_dns_filter_result_list_def)
next
  case False
  then obtain f where f: "filter_nodes rv f result st = (kept, st')"
    using assms(3) by (auto simp: chaos_dns_filter_result_list_def split: prod.splits)
  show ?thesis
  proof (cases own)
    case None
    with filter_nodes_real [OF assms(1) _ f, of held] assms(2) show ?thesis by (simp add: holds_def)
  next
    case (Some ib)
    obtain i block where ib: "ib = (i, block)" by fastforce
    with Some assms(2) have "set (map ai_id result) \<subseteq> set (owned_ids (ls_owned st))"
      using block_in_owned [of i T block] by (auto simp: holds_def)
    from filter_nodes_owned [OF this f] Some ib assms(2) show ?thesis by (auto simp: holds_def)
  qed
qed

lemma limit_list_holds:
  assumes "rv_have_freeaddrinfo rv" "holds T st held result own"
    "chaos_dns_limit_result_list rv n result st = (kept, st')"
  shows "holds T st' held kept own"
proof -
  have cut: "holds T (chaos_dns_call_real_freeaddrinfo rv (drop k result) st) held (take k result) own" for k
  proof (cases own)
    case None
    have "ids result = ids (take k result) + ids (drop k result)"
      by (metis append_take_drop_id map_append mset_append)
    then have "accounted st ((held + ids (take k result)) + ids (drop k result))"
      using None assms(2) by (simp add: holds_def ac_simps)
    from free_real [OF assms(1) this] None assms(2) show ?thesis by (simp add: holds_def)
  next
    case (Some ib)
    obtain i block where ib: "ib = (i, block)" by fastforce
    with Some assms(2) have sub: "set (map ai_id result) \<subseteq> set (owned_ids (ls_owned st))" "set (map ai_id result) \<subseteq> set block"
      using block_in_owned [of i T block] by (auto simp: holds_def)
    then have "set (map ai_id (drop k result)) \<subseteq> set (owned_ids (ls_owned st))"
      by (metis drop_map set_drop_subset subset_trans)
    moreover have "set (map ai_id (take k result)) \<subseteq> set block" using sub(2) by (metis take_map set_take_subset subset_trans)
    ultimately show ?thesis using Some ib assms(2) by (simp add: holds_def free_owned del: set_map)
  qed
  show ?thesis
  proof (cases "result = [] \<or> (0 < n \<and> length result < n)")
    case True
    with assms(2,3) show ?thesis by (cases "result = []") (auto simp: chaos_dns_limit_result_list_def split: if_splits)
  next
    case False
    then have "kept = take n result" "st' = chaos_dns_call_real_freeaddrinfo rv (drop n result) st"
      using assms(3) by (auto simp: chaos_dns_limit_result_list_def split: if_splits)
    with cut [of n] show ?thesis by simp
  qed
qed

section \<open>Shuffling\<close>

lemma mset_swap:
  "i < length xs \<Longrightarrow> j < length xs \<Longrightarrow> mset (xs[i := xs ! j, j := xs ! i]) = mset xs"
  by (cases "i = j") (simp_all add: mset_update nth_list_update)

lemma mset_shuffle_pass: "i < length nodes \<Longrightarrow> mset (fst (shuffle_pass env i nodes prng)) = mset nodes"
proof (induction i arbitrary: nodes prng)
  case 0
  then show ?case by simp
next
  case (Suc i)
  obtain sample prng' where s: "chaos_dns_prng_next_u32 env prng = (sample, prng')" by fastforce
  define j where "j = unat (sample mod of_nat (Suc i + 1))"
  have "j \<le> Suc i"
  proof (cases "of_nat (Suc i + 1) = (0 :: u32)")
    case True
    have "unat sample \<le> Suc i"
    proof -
      have "2 ^ 32 dvd Suc i + 1" using True [unfolded word_of_nat_eq_0_iff] by simp
      then have "2 ^ 32 \<le> Suc i + 1" by (rule dvd_imp_le) simp
      moreover have "unat sample < 2 ^ 32" using unsigned_less [of sample] by simp
      ultimately show ?thesis by linarith
    qed
    then show ?thesis unfolding j_def True by simp
  next
    case False
    then have "j < unat (of_nat (Suc i + 1) :: u32)"
      unfolding j_def unat_mod by (intro mod_less_divisor) (simp add: unat_gt_0)
    also have "\<dots> \<le> Suc i + 1" by (simp add: unat_of_nat del: of_nat_Suc of_nat_add)
    finally show ?thesis by simp
  qed
  with Suc.prems have "j < length nodes" by simp
  have "mset (fst (shuffle_pass env (Suc i) nodes prng)) =
      mset (fst (shuffle_pass env i (nodes[Suc i := nodes ! j, j := nodes ! Suc i]) prng'))"
    unfolding j_def by (simp only: shuffle_pass.simps s Let_def prod.case)
  also have "\<dots> = mset (nodes[Suc i := nodes ! j, j := nodes ! Suc i])" using Suc by simp
  also have "\<dots> = mset nodes" using Suc.prems \<open>j < length nodes\<close> by (rule mset_swap)
  finally show ?case .
qed

text \<open>A node but for its canonical name.\<close>

definition strip_name :: "ai_node \<Rightarrow> ai_node" where
  "strip_name n = n\<lparr>ai_canonname := None\<rparr>"

lemma strip_name_simps [simp]:
  "ai_id (strip_name n) = ai_id n" "ai_family (strip_name n) = ai_family n"
  "strip_name (n\<lparr>ai_canonname := c\<rparr>) = strip_name n"
  by (simp_all add: strip_name_def)

lemma map_strip_set_canonname [simp]: "map strip_name (set_canonname i c nodes) = map strip_name nodes"
  by (simp add: set_canonname_def)

lemma ids_strip: "map strip_name xs = map strip_name ys \<Longrightarrow> map ai_id xs = map ai_id ys"
  by (metis (no_types, lifting) list.map_comp map_cong strip_name_simps(1) comp_apply)

lemma ids_set_canonname [simp]: "map ai_id (set_canonname i c nodes) = map ai_id nodes"
  by (rule ids_strip) simp

lemma length_set_canonname [simp]: "length (set_canonname i c nodes) = length nodes"
  by (simp add: set_canonname_def)

lemma set_canonname_other: "i \<notin> set (map ai_id nodes) \<Longrightarrow> set_canonname i c nodes = nodes"
  unfolding set_canonname_def by (rule map_idI) auto

lemma set_canonname_names:
  "distinct (map ai_id nodes) \<Longrightarrow> n \<in> set nodes \<Longrightarrow>
     add_mset (ai_canonname n) (mset (map ai_canonname (set_canonname (ai_id n) c nodes))) =
     add_mset c (mset (map ai_canonname nodes))"
proof (induction nodes)
  case Nil
  then show ?case by simp
next
  case (Cons x xs)
  show ?case
  proof (cases "x = n")
    case True
    with Cons.prems have "set_canonname (ai_id n) c xs = xs" by (intro set_canonname_other) auto
    with True show ?thesis by (simp add: set_canonname_def)
  next
    case False
    with Cons have "n \<in> set xs" by simp
    with Cons.prems have "ai_id x \<noteq> ai_id n" by auto
    then have "set_canonname (ai_id n) c (x # xs) = x # set_canonname (ai_id n) c xs" by (simp add: set_canonname_def)
    with Cons \<open>n \<in> set xs\<close> show ?thesis by (simp add: add_mset_commute)
  qed
qed

lemma shuffle_list:
  assumes "chaos_dns_shuffle_result_list env rv result st = (nodes, st')" "distinct (map ai_id result)"
  shows "mset (map strip_name nodes) = mset (map strip_name result)"
    "mset (map ai_canonname nodes) = mset (map ai_canonname result)"
    "result \<noteq> [] \<Longrightarrow> nodes \<noteq> [] \<and> ai_canonname (hd nodes) = ai_canonname (hd result)"
    "st' = st\<lparr>ls_act := (ls_act st)\<lparr>act_prng := act_prng (ls_act st')\<rparr>\<rparr>"
proof -
  have goal: "mset (map strip_name nodes) = mset (map strip_name result) \<and>
    mset (map ai_canonname nodes) = mset (map ai_canonname result) \<and>
    (result \<noteq> [] \<longrightarrow> nodes \<noteq> [] \<and> ai_canonname (hd nodes) = ai_canonname (hd result)) \<and>
    st' = st\<lparr>ls_act := (ls_act st)\<lparr>act_prng := act_prng (ls_act st')\<rparr>\<rparr>"
  proof (cases "length result < 2 \<or> \<not> rv_alloc_ok rv (ls_next st)")
    case True
    then have "nodes = result" "st' = st"
      using assms(1) by (auto simp: chaos_dns_shuffle_result_list_def chaos_dns_result_count_def split: if_splits)
    then show ?thesis by simp
  next
    case False
    then have ne: "result \<noteq> []" by auto
    obtain p prng where p: "shuffle_pass env (length result - 1) result (act_prng (ls_act st)) = (p, prng)" by fastforce
    have perm: "mset p = mset result" using mset_shuffle_pass [of "length result - 1" result env] ne p by (metis diff_less fst_conv length_greater_0_conv zero_less_one)
    let ?h = "hd result"
    let ?p1 = "set_canonname (ai_id ?h) (ai_canonname (hd p)) p"
    have p_ne: "p \<noteq> []" using perm ne by auto
    have "ai_id (hd ?p1) = ai_id (hd p)" using p_ne by (cases p) (simp_all add: set_canonname_def)
    then have nodes: "nodes = set_canonname (ai_id (hd p)) (ai_canonname ?h) ?p1"
      and st': "st' = st\<lparr>ls_act := (ls_act st)\<lparr>act_prng := prng\<rparr>\<rparr>"
      using assms(1) False ne p by (auto simp: chaos_dns_shuffle_result_list_def chaos_dns_result_count_def Let_def)
    have dist: "distinct (map ai_id p)" using perm assms(2) by (metis mset_eq_imp_distinct_iff mset_map)
    have h: "?h \<in> set p" using perm ne by (metis hd_in_set set_mset_mset)
    have "mset (map strip_name nodes) = mset (map strip_name result)" by (simp only: nodes map_strip_set_canonname mset_map perm)
    moreover have "mset (map ai_canonname nodes) = mset (map ai_canonname result)"
    proof -
      have first: "add_mset (ai_canonname ?h) (mset (map ai_canonname ?p1)) =
          add_mset (ai_canonname (hd p)) (mset (map ai_canonname p))"
        by (rule set_canonname_names [OF dist h])
      have d1: "distinct (map ai_id ?p1)" using dist by simp
      have hd1: "hd ?p1 \<in> set ?p1" using p_ne by (cases p) (simp_all add: set_canonname_def)
      have c1: "ai_canonname (hd ?p1) = ai_canonname (hd p)"
        using p_ne by (cases p) (simp_all add: set_canonname_def)
      have "add_mset (ai_canonname (hd ?p1)) (mset (map ai_canonname nodes)) =
          add_mset (ai_canonname ?h) (mset (map ai_canonname ?p1))"
        using set_canonname_names [OF d1 hd1, of "ai_canonname ?h"] \<open>ai_id (hd ?p1) = ai_id (hd p)\<close> by (simp add: nodes)
      with first c1 have "mset (map ai_canonname nodes) = mset (map ai_canonname p)" by simp
      then show ?thesis by (simp add: perm)
    qed
    moreover have "nodes \<noteq> [] \<and> ai_canonname (hd nodes) = ai_canonname ?h"
      using p_ne by (cases p) (simp_all add: nodes set_canonname_def)
    ultimately show ?thesis using st' by simp
  qed
  from goal show "mset (map strip_name nodes) = mset (map strip_name result)"
    "mset (map ai_canonname nodes) = mset (map ai_canonname result)"
    "result \<noteq> [] \<Longrightarrow> nodes \<noteq> [] \<and> ai_canonname (hd nodes) = ai_canonname (hd result)"
    "st' = st\<lparr>ls_act := (ls_act st)\<lparr>act_prng := act_prng (ls_act st')\<rparr>\<rparr>" by blast+
qed

section \<open>What the shaping keeps\<close>

lemma strip_hand_canonname: "map strip_name (hand_canonname c rest) = map strip_name rest"
  by (simp add: hand_canonname_def split: list.split)

lemma filter_nodes_strip:
  "filter_nodes rv f result st = (kept, st') \<Longrightarrow>
     map strip_name kept = map strip_name (filter (\<lambda>n. ai_family n = f) result)"
proof (induction rv f result st arbitrary: kept st' rule: filter_nodes.induct)
  case (1 rv f st)
  then show ?case by simp
next
  case (2 rv f current rest st)
  have fam: "map strip_name (filter (\<lambda>n. ai_family n = f) xs) = filter (\<lambda>n. ai_family n = f) (map strip_name xs)" for xs
    by (simp add: filter_map comp_def)
  show ?case
  proof (cases "ai_family current = f")
    case True
    obtain k s where "filter_nodes rv f rest st = (k, s)" by fastforce
    with 2 True show ?thesis by auto
  next
    case False
    with 2 have "map strip_name kept = map strip_name (filter (\<lambda>n. ai_family n = f) (hand_canonname current rest))" by simp
    with False show ?thesis by (simp add: fam strip_hand_canonname)
  qed
qed

text \<open>The shape of a list asked for with \<open>AI_CANONNAME\<close>: the name is on the first node and on no other.\<close>

definition headed :: "string \<Rightarrow> ai_node list \<Rightarrow> bool" where
  "headed name nodes \<longleftrightarrow>
     (case nodes of [] \<Rightarrow> False | n # ns \<Rightarrow> ai_canonname n = Some name \<and> list_all (\<lambda>m. ai_canonname m = None) ns)"

lemma filter_nodes_nameless:
  "filter_nodes rv f result st = (kept, st') \<Longrightarrow> list_all (\<lambda>m. ai_canonname m = None) result \<Longrightarrow>
     list_all (\<lambda>m. ai_canonname m = None) kept"
proof (induction rv f result st arbitrary: kept st' rule: filter_nodes.induct)
  case (1 rv f st)
  then show ?case by simp
next
  case (2 rv f current rest st)
  show ?case
  proof (cases "ai_family current = f")
    case True
    obtain k s where "filter_nodes rv f rest st = (k, s)" by fastforce
    with 2 True show ?thesis by auto
  next
    case False
    have "hand_canonname current rest = rest" using "2.prems"(2) by (simp add: hand_canonname_def split: list.split)
    with 2 False show ?thesis by simp
  qed
qed

lemma filter_nodes_headed:
  "filter_nodes rv f result st = (kept, st') \<Longrightarrow> headed name result \<Longrightarrow> kept \<noteq> [] \<Longrightarrow> headed name kept"
proof (induction rv f result st arbitrary: kept st' rule: filter_nodes.induct)
  case (1 rv f st)
  then show ?case by simp
next
  case (2 rv f current rest st)
  show ?case
  proof (cases "ai_family current = f")
    case True
    obtain k s where k: "filter_nodes rv f rest st = (k, s)" by fastforce
    with 2 True filter_nodes_nameless [OF k] show ?thesis by (auto simp: headed_def)
  next
    case False
    have "headed name (hand_canonname current rest)" if "rest \<noteq> []"
      using that "2.prems"(2) by (cases rest) (auto simp: headed_def hand_canonname_def)
    moreover have "rest \<noteq> []" using "2.prems"(1,3) False by (cases rest) (auto simp: hand_canonname_def)
    ultimately show ?thesis using 2 False by simp
  qed
qed


definition sample_node :: "nat \<Rightarrow> int \<Rightarrow> string option \<Rightarrow> ai_node" where
  "sample_node i family name =
     \<lparr>ai_id = i, ai_flags = 0, ai_family = family, ai_socktype = 1, ai_protocol = 6, ai_addr = None, ai_canonname = name\<rparr>"

definition sample_state :: "nat \<Rightarrow> lookup_state" where
  "sample_state next =
     \<lparr>ls_act = \<lparr>act_prng = 7, act_pool = [], act_reports = 0\<rparr>, ls_slept = 0, ls_calls = 0, ls_next = next, ls_freed = [],
      ls_owned = replicate CHAOS_DNS_MAX_OWNED None, ls_released = [], ls_errno = None\<rparr>"

definition sample_resolver :: resolver_env where
  "sample_resolver =
     \<lparr>rv_getaddrinfo = (\<lambda>node service hints call. (None, [sample_node 0 AF_INET6 None, sample_node 0 AF_INET None])),
      rv_have_getaddrinfo = True, rv_have_freeaddrinfo = True, rv_pton4 = (\<lambda>t. None), rv_pton6 = (\<lambda>t. None),
      rv_alloc_ok = (\<lambda>n. True)\<rparr>"


end
