(* ===== verification/Dns_Lookup.thy ===== *)
theory Dns_Lookup
  imports Dns_Actions
begin

text \<open>
  The forward and reverse lookups of the resolver library (\<open>src/dns/chaos_dns_lookup.c\<close>): \<open>getaddrinfo\<close> with
  all its rules, \<open>freeaddrinfo\<close>, \<open>getnameinfo\<close>, and the conversion of an address list to a \<open>hostent\<close>. The real
  resolver is a parameter. Before every match the library checks whether its rule file changed, so each match
  sees a snapshot of its own: a view gives the snapshot by the effect asked for.
\<close>

section \<open>Matching\<close>

record dns_active =
  da_prepared :: bool
  da_snapshot :: "chaos_dns_rule rule_snapshot"
  da_sequence :: u64

definition chaos_dns_config_match ::
  "(chaos_dns_effect \<Rightarrow> dns_active) \<Rightarrow> chaos_dns_effect \<Rightarrow> string option \<Rightarrow> chaos_dns_rule option" where
  "chaos_dns_config_match view effect name =
     (if name = None \<or> name = Some [] \<or> \<not> da_prepared (view effect) then None
      else chaos_dns_config_match_loaded (da_snapshot (view effect)) (da_sequence (view effect)) effect name)"

definition chaos_dns_config_match_reverse ::
  "(chaos_dns_effect \<Rightarrow> dns_active) \<Rightarrow> chaos_dns_effect \<Rightarrow> string option \<Rightarrow> chaos_dns_rule option" where
  "chaos_dns_config_match_reverse view effect address =
     (if address = None \<or> address = Some [] \<or> \<not> da_prepared (view effect) then None
      else chaos_dns_config_match_reverse_loaded (da_snapshot (view effect)) (da_sequence (view effect)) effect address)"

text \<open>What a lookup reads: the generator's seed, the clock at each decision, the outcomes of its sleep, the C
  library, and the snapshots.\<close>

record lookup_env =
  le_prng :: prng_env
  le_now :: "chaos_dns_effect \<Rightarrow> int"
  le_sleeps :: "sleep_outcome list"
  le_real :: resolver_env
  le_view :: "chaos_dns_effect \<Rightarrow> dns_active"

text \<open>A match of either direction followed by the decision to fire: the rule, if it takes effect.\<close>

definition fires ::
  "lookup_env \<Rightarrow> chaos_dns_effect \<Rightarrow> chaos_dns_rule option \<Rightarrow> lookup_state \<Rightarrow> chaos_dns_rule option \<times> lookup_state" where
  "fires le effect matched st =
     (case matched of
        None \<Rightarrow> (None, st)
      | Some r \<Rightarrow>
          (let (fired, act) = chaos_dns_rule_should_trigger (le_prng le) (le_now le effect) r (ls_act st)
           in (if fired then Some r else None, st\<lparr>ls_act := act\<rparr>)))"

section \<open>The real functions\<close>

definition real_getaddrinfo ::
  "resolver_env \<Rightarrow> string option \<Rightarrow> string option \<Rightarrow> ai_hints option \<Rightarrow> lookup_state
     \<Rightarrow> gai_error option \<times> ai_node list \<times> lookup_state" where
  "real_getaddrinfo rv node service hints st =
     (if \<not> rv_have_getaddrinfo rv then (Some EAI_SYSTEM, [], st\<lparr>ls_errno := Some ENOSYS\<rparr>)
      else let (rc, nodes) = rv_getaddrinfo rv node service hints (ls_calls st);
               st = st\<lparr>ls_calls := ls_calls st + 1\<rparr>
           in case rc of
                Some e \<Rightarrow> (Some e, [], st)
              | None \<Rightarrow> (None, fresh_nodes (ls_next st) nodes, st\<lparr>ls_next := ls_next st + length nodes\<rparr>))"

text \<open>The call in this file has no check for own lists; its callers make it.\<close>

definition real_freeaddrinfo :: "resolver_env \<Rightarrow> ai_node list \<Rightarrow> lookup_state \<Rightarrow> lookup_state" where
  "real_freeaddrinfo rv result st =
     (if \<not> rv_have_freeaddrinfo rv then st else st\<lparr>ls_freed := ls_freed st @ map ai_id result\<rparr>)"

section \<open>Override\<close>

definition CHAOS_DNS_MAX_OVERRIDE :: nat where "CHAOS_DNS_MAX_OVERRIDE = 32"
definition AI_CANONNAME :: u32 where "AI_CANONNAME = 2"
definition AI_NUMERICHOST :: u32 where "AI_NUMERICHOST = 4"

definition chaos_dns_strip_ipv6_brackets :: "string \<Rightarrow> nat \<Rightarrow> string option" where
  "chaos_dns_strip_ipv6_brackets token host_size =
     (if token = [] then None
      else if hd token = CHR ''['' \<and> 2 < length token \<and> last token = CHR '']''
      then (if host_size \<le> length token - 2 then None else Some (take (length token - 2) (drop 1 token)))
      else if host_size \<le> length token then None else Some token)"

definition chaos_dns_literal_family :: "resolver_env \<Rightarrow> string \<Rightarrow> int" where
  "chaos_dns_literal_family rv host =
     (if rv_pton4 rv host \<noteq> None then AF_INET else if rv_pton6 rv host \<noteq> None then AF_INET6 else 0)"

text \<open>The loop over the literals; \<open>partials\<close> are the real lists so far.\<close>

function override_loop ::
  "resolver_env \<Rightarrow> string option \<Rightarrow> ai_hints \<Rightarrow> string \<Rightarrow> ai_node list list \<Rightarrow> lookup_state
     \<Rightarrow> gai_error option \<times> ai_node list list \<times> lookup_state" where
  "override_loop rv service hints cursor partials st =
     (if cursor = [] then (None, partials, st)
      else let (token, rest) = (case split_first CHR '','' cursor of None \<Rightarrow> (cursor, []) | Some (a, b) \<Rightarrow> (a, b));
               token = dropWhile is_blank_char token
           in case chaos_dns_strip_ipv6_brackets token CHAOS_DNS_MAX_TEXT of
                None \<Rightarrow> (Some EAI_FAIL, partials, st)
              | Some host \<Rightarrow>
                  (if length partials = CHAOS_DNS_MAX_OVERRIDE then (Some EAI_FAIL, partials, st)
                   else if hint_family hints \<noteq> AF_UNSPEC \<and> chaos_dns_literal_family rv host \<noteq> 0 \<and>
                     chaos_dns_literal_family rv host \<noteq> hint_family hints
                   then override_loop rv service hints rest partials st
                   else case real_getaddrinfo rv (Some host) service (Some hints) st of
                          (Some e, nodes, st) \<Rightarrow> (Some e, partials, st)
                        | (None, nodes, st) \<Rightarrow> override_loop rv service hints rest (partials @ [nodes]) st))"
  by pat_completeness auto
termination
  by (relation "measure (\<lambda>(rv, s, h, cursor, p, st). length cursor)")
    (auto simp: split_first_Some_iff split: option.splits)

declare override_loop.simps [simp del]

definition hints_zero :: ai_hints where
  "hints_zero = \<lparr>hint_flags = 0, hint_family = 0, hint_socktype = 0, hint_protocol = 0\<rparr>"

definition override_hints :: "ai_hints option \<Rightarrow> ai_hints" where
  "override_hints hints =
     (let h = (case hints of Some h \<Rightarrow> h | None \<Rightarrow> hints_zero) in h\<lparr>hint_flags := hint_flags h OR AI_NUMERICHOST\<rparr>)"

definition chaos_dns_apply_override ::
  "resolver_env \<Rightarrow> chaos_dns_rule \<Rightarrow> string option \<Rightarrow> string option \<Rightarrow> ai_hints option \<Rightarrow> lookup_state
     \<Rightarrow> gai_error option \<times> ai_node list \<times> lookup_state" where
  "chaos_dns_apply_override rv rule name service hints st =
     (if CHAOS_DNS_MAX_VALUE \<le> length (dns_text rule) then (Some EAI_FAIL, [], st)
      else let h = override_hints hints;
               (rc, partials, st) = override_loop rv service h (dns_text rule) [] st;
               rc = (if rc = None \<and> partials = [] then Some EAI_NONAME else rc);
               (rc, result, st) =
                 (if rc \<noteq> None then (rc, [], st)
                  else let (nodes, st) = chaos_dns_owned_copy rv partials
                             (if hint_flags h AND AI_CANONNAME \<noteq> 0 then name else None) st
                       in (if nodes \<noteq> [] then None else Some EAI_MEMORY, nodes, st))
           in (rc, result, foldl (\<lambda>s p. real_freeaddrinfo rv p s) st partials))"

section \<open>getaddrinfo\<close>

definition chaos_dns_resolve_with_rules ::
  "lookup_env \<Rightarrow> string option \<Rightarrow> string option \<Rightarrow> ai_hints option \<Rightarrow> lookup_state
     \<Rightarrow> gai_error option \<times> ai_node list \<times> lookup_state" where
  "chaos_dns_resolve_with_rules le node service hints st =
     (let match = (\<lambda>effect. chaos_dns_config_match (le_view le) effect node);
          (rewrite, st) = fires le CHAOS_DNS_EFFECT_REWRITE (match CHAOS_DNS_EFFECT_REWRITE) st;
          effective_node = (case rewrite of Some r \<Rightarrow> Some (dns_text r) | None \<Rightarrow> node);
          (service_rule, st) = fires le CHAOS_DNS_EFFECT_SERVICE (match CHAOS_DNS_EFFECT_SERVICE) st;
          effective_service = (case service_rule of Some r \<Rightarrow> Some (dns_text r) | None \<Rightarrow> service);
          (override, st) = fires le CHAOS_DNS_EFFECT_OVERRIDE (match CHAOS_DNS_EFFECT_OVERRIDE) st;
          (rc, result, st) =
            (case override of
               Some r \<Rightarrow> chaos_dns_apply_override (le_real le) r node effective_service hints st
             | None \<Rightarrow> real_getaddrinfo (le_real le) effective_node effective_service hints st);
          owned = (if override \<noteq> None \<and> rc = None then head_id result else None)
      in if rc \<noteq> None then (rc, [], st)
         else let (filter, st) = (case match CHAOS_DNS_EFFECT_FILTER_FAMILY of
                    Some r \<Rightarrow> (if dns_family r \<noteq> CHAOS_DNS_FAMILY_ANY then fires le CHAOS_DNS_EFFECT_FILTER_FAMILY (Some r) st
                              else (None, st))
                  | None \<Rightarrow> (None, st));
                  (kept, result, st) = (case filter of
                    Some r \<Rightarrow> chaos_dns_filter_result_list (le_real le) (dns_family r) result st
                  | None \<Rightarrow> (True, result, st))
              in if \<not> kept then (Some EAI_NONAME, [], snd (chaos_dns_owned_free owned st))
                 else let (shuffle, st) = fires le CHAOS_DNS_EFFECT_SHUFFLE (match CHAOS_DNS_EFFECT_SHUFFLE) st;
                          (result, st) = (if shuffle \<noteq> None
                            then chaos_dns_shuffle_result_list (le_prng le) (le_real le) result st else (result, st));
                          (lim, st) = fires le CHAOS_DNS_EFFECT_LIMIT (match CHAOS_DNS_EFFECT_LIMIT) st
                      in case lim of
                           None \<Rightarrow> (None, result, st)
                         | Some r \<Rightarrow>
                             (let (result, st) = chaos_dns_limit_result_list (le_real le) (dns_limit r) result st
                              in if result = [] then (Some EAI_NONAME, [], snd (chaos_dns_owned_free owned st))
                                 else (None, result, st)))"

text \<open>The latency and error rules that come before every lookup, forward or reverse.\<close>

definition lookup_delay :: "lookup_env \<Rightarrow> chaos_dns_rule option \<Rightarrow> lookup_state \<Rightarrow> lookup_state" where
  "lookup_delay le matched st =
     (let (latency, st) = fires le CHAOS_DNS_EFFECT_LATENCY matched st
      in case latency of
           None \<Rightarrow> st
         | Some r \<Rightarrow> st\<lparr>ls_slept := ls_slept st + chaos_dns_rule_apply_latency (le_sleeps le) r\<rparr>)"

definition lookup_error :: "lookup_env \<Rightarrow> chaos_dns_rule option \<Rightarrow> lookup_state \<Rightarrow> gai_error option \<times> lookup_state" where
  "lookup_error le matched st =
     (case matched of
        None \<Rightarrow> (None, st)
      | Some r \<Rightarrow>
          (let (e, act) = chaos_dns_rule_apply_gai (le_prng le) (le_now le CHAOS_DNS_EFFECT_GAI) r (ls_act st)
           in (e, st\<lparr>ls_act := act\<rparr>)))"

definition getaddrinfo ::
  "lookup_env \<Rightarrow> int \<Rightarrow> string option \<Rightarrow> string option \<Rightarrow> ai_hints option \<Rightarrow> lookup_state
     \<Rightarrow> gai_error option \<times> ai_node list \<times> lookup_state" where
  "getaddrinfo le guard node service hints st =
     (if chaos_dns_in_internal guard \<or> node = None \<or> node = Some []
      then real_getaddrinfo (le_real le) node service hints st
      else let st = lookup_delay le (chaos_dns_config_match (le_view le) CHAOS_DNS_EFFECT_LATENCY node) st;
               (e, st) = lookup_error le (chaos_dns_config_match (le_view le) CHAOS_DNS_EFFECT_GAI node) st
           in case e of
                Some e \<Rightarrow> (Some e, [], if e = EAI_SYSTEM then st\<lparr>ls_errno := Some EIO\<rparr> else st)
              | None \<Rightarrow> chaos_dns_resolve_with_rules le node service hints st)"

definition freeaddrinfo :: "resolver_env \<Rightarrow> ai_node list \<Rightarrow> lookup_state \<Rightarrow> lookup_state" where
  "freeaddrinfo rv result st =
     (let (ours, st) = chaos_dns_owned_free (head_id result) st
      in if ours then st else real_freeaddrinfo rv result st)"

section \<open>Every node is released once\<close>

text \<open>Decisions and delays leave the allocations alone.\<close>

definition same_heap :: "lookup_state \<Rightarrow> lookup_state \<Rightarrow> bool" where
  "same_heap st st' \<longleftrightarrow> ls_next st' = ls_next st \<and> ls_freed st' = ls_freed st \<and> ls_released st' = ls_released st \<and>
     ls_owned st' = ls_owned st"

lemma same_heap_refl [simp]: "same_heap st st"
  by (simp add: same_heap_def)

lemma same_heap_holds: "same_heap st st' \<Longrightarrow> holds T st' held result own \<longleftrightarrow> holds T st held result own"
  by (cases own) (auto simp: same_heap_def holds_def accounted_def)

lemma same_heap_accounted: "same_heap st st' \<Longrightarrow> accounted st' held \<longleftrightarrow> accounted st held"
  by (simp add: same_heap_def accounted_def)

lemma same_heap_owned: "same_heap st st' \<Longrightarrow> ls_owned st' = ls_owned st"
  by (simp add: same_heap_def)

lemma same_heap_trans: "same_heap a b \<Longrightarrow> same_heap b c \<Longrightarrow> same_heap a c"
  by (simp add: same_heap_def)

lemma fires_heap: "fires le effect matched st = (r, st') \<Longrightarrow> same_heap st st'"
  by (auto simp: fires_def same_heap_def split: option.splits prod.splits)

lemma fires_Some: "fires le effect matched st = (Some r, st') \<Longrightarrow> matched = Some r"
  by (auto simp: fires_def split: option.splits prod.splits if_splits)

lemma delay_heap: "same_heap st (lookup_delay le matched st)"
  by (auto simp: lookup_delay_def same_heap_def dest: fires_heap split: prod.split option.split)

lemma error_heap: "lookup_error le matched st = (e, st') \<Longrightarrow> same_heap st st'"
  by (auto simp: lookup_error_def same_heap_def split: option.splits prod.splits)

lemma fresh_ids [simp]: "map ai_id (fresh_nodes n nodes) = [n ..< n + length nodes]"
  by (auto simp: fresh_nodes_def intro!: nth_equalityI)

lemma length_fresh [simp]: "length (fresh_nodes n nodes) = length nodes"
  by (simp add: fresh_nodes_def)

lemma ids_fresh: "ids (fresh_nodes n nodes) = mset [n ..< n + length nodes]"
  by (simp only: fresh_ids)

lemma accounted_grow:
  "accounted st held \<Longrightarrow> ls_next st' = ls_next st + k \<Longrightarrow> ls_freed st' = ls_freed st \<Longrightarrow>
   ls_released st' = ls_released st \<Longrightarrow> ls_owned st' = ls_owned st \<Longrightarrow>
     accounted st' (held + mset [ls_next st ..< ls_next st + k])"
  using upt_add_eq_append [of 0 "ls_next st" k] by (simp only: accounted_def le0 mset_append ac_simps if_True)

lemma real_getaddrinfo_accounted:
  assumes "accounted st held" "real_getaddrinfo rv node service hints st = (rc, nodes, st')"
  shows "accounted st' (held + ids nodes)" "ls_owned st' = ls_owned st" "rc \<noteq> None \<Longrightarrow> nodes = []"
proof -
  obtain rc1 ns where call: "rv_getaddrinfo rv node service hints (ls_calls st) = (rc1, ns)" by fastforce
  have "accounted st' (held + ids nodes) \<and> ls_owned st' = ls_owned st \<and> (rc \<noteq> None \<longrightarrow> nodes = [])"
  proof (cases "rv_have_getaddrinfo rv \<and> rc1 = None")
    case True
    with assms(2) call have "nodes = fresh_nodes (ls_next st) ns"
        "st' = st\<lparr>ls_calls := ls_calls st + 1, ls_next := ls_next st + length ns\<rparr>" "rc = None"
      by (auto simp: real_getaddrinfo_def)
    with accounted_grow [OF assms(1), of st' "length ns"] show ?thesis by (simp only: ids_fresh) simp
  next
    case False
    with assms(2) call have "nodes = []" "same_heap st st'" "rc \<noteq> None"
      by (auto simp: real_getaddrinfo_def same_heap_def split: if_splits option.splits)
    with assms(1) show ?thesis by (simp add: same_heap_accounted same_heap_owned)
  qed
  then show "accounted st' (held + ids nodes)" "ls_owned st' = ls_owned st" "rc \<noteq> None \<Longrightarrow> nodes = []" by simp_all
qed

lemma override_loop_accounted:
  "override_loop rv service hints cursor partials st = (rc, partials', st') \<Longrightarrow>
   accounted st (held + ids (concat partials)) \<Longrightarrow>
     accounted st' (held + ids (concat partials')) \<and> ls_owned st' = ls_owned st"
proof (induction rv service hints cursor partials st arbitrary: rc partials' st' rule: override_loop.induct)
  case (1 rv service hints cursor partials st)
  show ?case
  proof (cases "cursor = []")
    case True
    with 1 show ?thesis by (simp add: override_loop.simps)
  next
    case False
    obtain tok rest where tr: "(case split_first CHR '','' cursor of None \<Rightarrow> (cursor, []) | Some (a, b) \<Rightarrow> (a, b)) = (tok, rest)"
      by fastforce
    let ?t = "dropWhile is_blank_char tok"
    show ?thesis
    proof (cases "chaos_dns_strip_ipv6_brackets ?t CHAOS_DNS_MAX_TEXT")
      case None
      with 1(3,4) False tr show ?thesis by (simp add: override_loop.simps [of rv service hints cursor])
    next
      case (Some host)
      let ?skip = "hint_family hints \<noteq> AF_UNSPEC \<and> chaos_dns_literal_family rv host \<noteq> 0 \<and>
        chaos_dns_literal_family rv host \<noteq> hint_family hints"
      consider "length partials = CHAOS_DNS_MAX_OVERRIDE" | "length partials \<noteq> CHAOS_DNS_MAX_OVERRIDE" "?skip"
        | "length partials \<noteq> CHAOS_DNS_MAX_OVERRIDE" "\<not> ?skip" by blast
      then show ?thesis
      proof cases
        case 1
        with "1.prems" False tr Some show ?thesis by (simp add: override_loop.simps [of rv service hints cursor])
      next
        case 2
        with "1.prems" False tr Some
        have "override_loop rv service hints rest partials st = (rc, partials', st')"
          by (simp add: override_loop.simps [of rv service hints cursor])
        from "1.IH"(1) [OF False tr [symmetric] refl refl Some 2 this "1.prems"(2)] show ?thesis .
      next
        case 3
        obtain rc1 nodes st1 where g: "real_getaddrinfo rv (Some host) service (Some hints) st = (rc1, nodes, st1)"
          by (metis prod_cases3)
        note acc = real_getaddrinfo_accounted [OF "1.prems"(2) g]
        show ?thesis
        proof (cases rc1)
          case Some': (Some e)
          with "1.prems"(1) False tr Some 3 g have "partials' = partials" "st' = st1"
            by (auto simp: override_loop.simps [of rv service hints cursor])
          with acc Some' show ?thesis by auto
        next
          case None
          with "1.prems"(1) False tr Some 3 g
          have "override_loop rv service hints rest (partials @ [nodes]) st1 = (rc, partials', st')"
            by (auto simp: override_loop.simps [of rv service hints cursor])
          moreover have "accounted st1 (held + ids (concat (partials @ [nodes])))" using acc by (simp add: ac_simps)
          ultimately show ?thesis
            using "1.IH"(2) [OF False tr [symmetric] refl refl Some 3 g [symmetric] None refl] acc by simp
        qed
      qed
    qed
  qed
qed

lemma free_slot_sound: "free_slot_from k T = Some j \<Longrightarrow> k \<le> j \<and> j - k < length T \<and> T ! (j - k) = None"
proof (induction k T rule: free_slot_from.induct)
  case (3 k block T)
  then have "Suc k \<le> j \<and> j - Suc k < length T \<and> T ! (j - Suc k) = None" by simp
  moreover from this have "j - k = Suc (j - Suc k)" by arith
  ultimately show ?case by simp
qed auto

definition copied_nodes :: "nat \<Rightarrow> string option \<Rightarrow> ai_node list \<Rightarrow> ai_node list" where
  "copied_nodes next canonname all =
     (let nodes = map (\<lambda>n. n\<lparr>ai_addr := map_option (take 128) (ai_addr n), ai_canonname := None\<rparr>) (fresh_nodes next all)
      in case canonname of None \<Rightarrow> nodes | Some name \<Rightarrow> (hd nodes)\<lparr>ai_canonname := Some name\<rparr> # tl nodes)"

lemma copied_ids: "all \<noteq> [] \<Longrightarrow> map ai_id (copied_nodes next canonname all) = [next ..< next + length all]"
proof -
  assume "all \<noteq> []"
  let ?n1 = "map (\<lambda>n. n\<lparr>ai_addr := map_option (take 128) (ai_addr n), ai_canonname := None\<rparr>) (fresh_nodes next all)"
  have "?n1 \<noteq> []" using \<open>all \<noteq> []\<close> by (simp flip: length_greater_0_conv)
  then have "map ai_id (copied_nodes next canonname all) = map ai_id ?n1"
    by (cases "?n1") (auto simp: copied_nodes_def Let_def split: option.split)
  also have "\<dots> = map ai_id (fresh_nodes next all)" by (simp add: comp_def del: fresh_ids)
  finally show ?thesis by simp
qed

lemma owned_copy_unfold:
  "chaos_dns_owned_copy rv results canonname st =
     (let nodes = copied_nodes (ls_next st) canonname (concat results)
      in if concat results = [] \<or> \<not> rv_alloc_ok rv (ls_next st) then ([], st)
         else case free_slot_from 0 (ls_owned st) of
                None \<Rightarrow> ([], st)
              | Some i \<Rightarrow> (nodes, st\<lparr>ls_owned := (ls_owned st)[i := Some (map ai_id nodes)],
                               ls_next := ls_next st + length nodes\<rparr>))"
  by (simp add: chaos_dns_owned_copy_def copied_nodes_def Let_def)

lemma owned_copy_holds:
  assumes "accounted st held" "chaos_dns_owned_copy rv results canonname st = (nodes, st')" "nodes \<noteq> []"
  shows "\<exists>i. holds (ls_owned st) st' held nodes (Some (i, map ai_id nodes))"
proof -
  obtain i where slot: "free_slot_from 0 (ls_owned st) = Some i" "concat results \<noteq> []"
      "nodes = copied_nodes (ls_next st) canonname (concat results)"
    and st': "st' = st\<lparr>ls_owned := (ls_owned st)[i := Some (map ai_id nodes)], ls_next := ls_next st + length nodes\<rparr>"
    using assms(2,3) unfolding owned_copy_unfold Let_def
    by (cases "free_slot_from 0 (ls_owned st)"; cases "concat results = [] \<or> \<not> rv_alloc_ok rv (ls_next st)")
      (auto simp del: concat_eq_Nil_conv)
  have new: "map ai_id nodes = [ls_next st ..< ls_next st + length nodes]"
    using copied_ids [OF slot(2)] slot(3) by (metis length_map length_upt add_diff_cancel_left')
  from free_slot_sound [OF slot(1)] have i: "i < length (ls_owned st)" "ls_owned st ! i = None" by simp_all
  have old: "owned_ids (ls_owned st) = owned_ids (take i (ls_owned st)) @ owned_ids (drop (Suc i) (ls_owned st))"
    using owned_update_split [OF i(1), of None] list_update_id [of "ls_owned st" i] i(2) by simp
  have "accounted (st\<lparr>ls_next := ls_next st + length nodes\<rparr>) (held + mset (map ai_id nodes))"
    unfolding new by (rule accounted_grow [OF assms(1)]) simp_all
  then have "accounted st' held"
    unfolding accounted_def st' by (simp add: owned_update_split [OF i(1)] old ac_simps)
  with i st' show ?thesis by (auto simp: holds_def)
qed

lemma free_partials:
  "rv_have_freeaddrinfo rv \<Longrightarrow> accounted st (held + ids (concat partials)) \<Longrightarrow>
     accounted (foldl (\<lambda>s p. real_freeaddrinfo rv p s) st partials) held \<and>
     ls_owned (foldl (\<lambda>s p. real_freeaddrinfo rv p s) st partials) = ls_owned st"
proof (induction partials arbitrary: st)
  case Nil
  then show ?case by simp
next
  case (Cons p ps)
  then have "accounted (real_freeaddrinfo rv p st) (held + ids (concat ps))"
    by (simp add: real_freeaddrinfo_def accounted_def ac_simps)
  from Cons.IH [OF Cons.prems(1) this] Cons.prems(1) show ?case by (simp add: real_freeaddrinfo_def)
qed

lemma owned_copy_fails:
  "chaos_dns_owned_copy rv results canonname st = ([], st') \<Longrightarrow> st' = st"
  using copied_ids [of "concat results" "ls_next st" canonname] unfolding owned_copy_unfold Let_def
  by (cases "free_slot_from 0 (ls_owned st)"; cases "concat results = [] \<or> \<not> rv_alloc_ok rv (ls_next st)")
      (auto simp del: concat_eq_Nil_conv simp: upt_eq_Nil_conv dest: sym)

text \<open>What a lookup holds once its list exists, with the first node of its own block, if any, remembered.\<close>

definition obtained ::
  "nat list option list \<Rightarrow> nat multiset \<Rightarrow> gai_error option \<Rightarrow> ai_node list \<Rightarrow> nat option \<Rightarrow> lookup_state \<Rightarrow> bool" where
  "obtained T held rc result owned st \<longleftrightarrow>
     (if rc \<noteq> None then ls_owned st = T \<and> accounted st held
      else \<exists>own. holds T st held result own \<and>
             (case own of None \<Rightarrow> owned = None | Some (i, block) \<Rightarrow> \<exists>x. owned = Some x \<and> x \<in> set block))"

lemma apply_override_obtained:
  assumes "rv_have_freeaddrinfo rv" "accounted st held"
    "chaos_dns_apply_override rv rule name service hints st = (rc, result, st')"
  shows "obtained (ls_owned st) held rc result (head_id result) st'"
proof (cases "CHAOS_DNS_MAX_VALUE \<le> length (dns_text rule)")
  case True
  with assms show ?thesis by (auto simp: chaos_dns_apply_override_def obtained_def)
next
  case False
  let ?h = "override_hints hints" and ?free = "\<lambda>s ps. foldl (\<lambda>s p. real_freeaddrinfo rv p s) s ps"
  obtain rc1 ps st1 where loop: "override_loop rv service ?h (dns_text rule) [] st = (rc1, ps, st1)" by (metis prod_cases3)
  have acc: "accounted st1 (held + ids (concat ps))" "ls_owned st1 = ls_owned st"
    using override_loop_accounted [OF loop, of held] assms(2) by simp_all
  let ?c = "if hint_flags ?h AND AI_CANONNAME \<noteq> 0 then name else None"
  obtain nodes st2 where copy: "chaos_dns_owned_copy rv ps ?c st1 = (nodes, st2)" by fastforce
  show ?thesis
  proof (cases "rc1 \<noteq> None \<or> ps = [] \<or> nodes = []")
    case True
    then have "rc \<noteq> None" "st' = ?free st1 ps"
      using assms(3) False loop copy owned_copy_fails [of rv ps ?c st1 st2]
      by (auto simp: chaos_dns_apply_override_def Let_def split: if_splits)
    with free_partials [OF assms(1) acc(1)] acc(2) show ?thesis by (simp add: obtained_def)
  next
    case no: False
    then have r: "rc = None" "result = nodes" "st' = ?free st2 ps"
      using assms(3) False loop copy by (auto simp: chaos_dns_apply_override_def Let_def split: if_splits)
    obtain i where i: "holds (ls_owned st1) st2 (held + ids (concat ps)) nodes (Some (i, map ai_id nodes))"
      using owned_copy_holds [OF acc(1) copy] no by blast
    then have "accounted st2 (held + ids (concat ps))" by (simp add: holds_def)
    from free_partials [OF assms(1) this] i acc(2) r
    have "holds (ls_owned st) st' held result (Some (i, map ai_id nodes))" by (simp add: holds_def)
    moreover have "\<exists>x. head_id result = Some x \<and> x \<in> set (map ai_id nodes)"
      using r no by (cases nodes) (simp_all add: head_id_def)
    ultimately show ?thesis using r by (auto simp: obtained_def intro!: exI [of _ "Some (i, map ai_id nodes)"])
  qed
qed

lemma real_obtained:
  assumes "accounted st held" "real_getaddrinfo rv node service hints st = (rc, result, st')"
  shows "obtained (ls_owned st) held rc result None st'"
  using real_getaddrinfo_accounted [OF assms] by (cases rc) (auto simp: obtained_def holds_def intro: exI [of _ None])

text \<open>A list ready to be returned: a list of ours is never empty.\<close>

definition ready :: "nat list option list \<Rightarrow> nat multiset \<Rightarrow> ai_node list \<Rightarrow> nat option \<Rightarrow> lookup_state \<Rightarrow> bool" where
  "ready T held result owned st \<longleftrightarrow> obtained T held None result owned st \<and> (owned \<noteq> None \<longrightarrow> result \<noteq> [])"

definition gone :: "nat list option list \<Rightarrow> nat multiset \<Rightarrow> lookup_state \<Rightarrow> bool" where
  "gone T held st \<longleftrightarrow> ls_owned st = T \<and> accounted st held"

lemma obtained_heap: "same_heap st st' \<Longrightarrow> obtained T held rc result owned st' \<longleftrightarrow> obtained T held rc result owned st"
  by (simp add: obtained_def same_heap_holds same_heap_accounted same_heap_owned cong: option.case_cong)

lemma ready_heap: "same_heap st st' \<Longrightarrow> ready T held result owned st' \<longleftrightarrow> ready T held result owned st"
  by (simp add: ready_def obtained_heap)

lemma give_up:
  assumes "obtained T held None [] owned st"
  shows "gone T held (snd (chaos_dns_owned_free owned st))"
proof -
  obtain own where h: "holds T st held [] own"
    "case own of None \<Rightarrow> owned = None | Some (i, block) \<Rightarrow> \<exists>x. owned = Some x \<and> x \<in> set block"
    using assms by (auto simp: obtained_def)
  show ?thesis
  proof (cases own)
    case None
    with h show ?thesis by (simp add: gone_def holds_def chaos_dns_owned_free_def chaos_dns_owned_find_def)
  next
    case (Some ib)
    obtain i block where "ib = (i, block)" by fastforce
    with Some h own_release [of T st held "[]" i block] show ?thesis by (auto simp: gone_def)
  qed
qed

text \<open>The application's call of \<open>freeaddrinfo\<close> on a list it was given.\<close>

lemma free_ready:
  assumes "rv_have_freeaddrinfo rv" "ready T held result owned st"
  shows "gone T held (freeaddrinfo rv result st)"
proof -
  obtain own where h: "holds T st held result own"
    "case own of None \<Rightarrow> owned = None | Some (i, block) \<Rightarrow> \<exists>x. owned = Some x \<and> x \<in> set block"
    "owned \<noteq> None \<longrightarrow> result \<noteq> []"
    using assms(2) by (auto simp: ready_def obtained_def)
  show ?thesis
  proof (cases own)
    case None
    with h(1) have acc: "ls_owned st = T" "accounted st (held + ids result)" by (simp_all add: holds_def)
    have "chaos_dns_owned_find (ls_owned st) (head_id result) = None"
    proof (cases result)
      case Nil
      then show ?thesis by (simp add: chaos_dns_owned_find_def head_id_def)
    next
      case (Cons n ns)
      have "ai_id n \<notin> set (owned_ids (ls_owned st))" by (rule accounted_distinct(2) [OF acc(2)]) (simp add: Cons)
      with Cons show ?thesis by (simp add: chaos_dns_owned_find_def head_id_def owned_find_None)
    qed
    with acc assms(1) show ?thesis
      by (simp add: freeaddrinfo_def chaos_dns_owned_free_def real_freeaddrinfo_def gone_def accounted_def ac_simps)
  next
    case (Some ib)
    obtain i block where ib: "ib = (i, block)" by fastforce
    with Some h obtain n ns where n: "result = n # ns" by (cases result) auto
    with Some ib h(1) have "ai_id n \<in> set block" by (simp add: holds_def)
    note rel = own_release [OF h(1) [unfolded Some ib] this]
    obtain st1 where "chaos_dns_owned_free (Some (ai_id n)) st = (True, st1)" using rel(1) by (metis eq_fst_iff)
    with rel n show ?thesis by (simp add: freeaddrinfo_def gone_def head_id_def)
  qed
qed

lemma filter_stage:
  assumes "rv_have_freeaddrinfo rv" "obtained T held None result owned st"
    "chaos_dns_filter_result_list rv family result st = (found, kept, st')" "family \<noteq> CHAOS_DNS_FAMILY_ANY"
  shows "obtained T held None kept owned st'" "found \<longleftrightarrow> kept \<noteq> []"
proof -
  show "obtained T held None kept owned st'"
    using assms(2) filter_list_holds [OF assms(1) _ assms(3)] unfolding obtained_def by auto
  show "found \<longleftrightarrow> kept \<noteq> []"
    using assms(3,4) by (auto simp: chaos_dns_filter_result_list_def split: prod.splits if_splits)
qed

lemma limit_stage:
  assumes "rv_have_freeaddrinfo rv" "obtained T held None result owned st"
    "chaos_dns_limit_result_list rv n result st = (kept, st')"
  shows "obtained T held None kept owned st'"
  using assms(2) limit_list_holds [OF assms(1) _ assms(3)] unfolding obtained_def by auto

lemma shuffle_ids: "chaos_dns_shuffle_result_list env rv result st = (nodes, st') \<Longrightarrow> ids nodes = ids result \<and> same_heap st st'"
proof -
  assume a: "chaos_dns_shuffle_result_list env rv result st = (nodes, st')"
  show ?thesis
  proof (cases "length result < 2 \<or> \<not> rv_alloc_ok rv (ls_next st)")
    case True
    with a show ?thesis by (auto simp: chaos_dns_shuffle_result_list_def chaos_dns_result_count_def split: if_splits)
  next
    case False
    then have "result \<noteq> []" by auto
    obtain p prng where p: "shuffle_pass env (length result - 1) result (act_prng (ls_act st)) = (p, prng)" by fastforce
    have "mset p = mset result"
      using mset_shuffle_pass [of "length result - 1" result env] \<open>result \<noteq> []\<close> p
      by (metis diff_less fst_conv length_greater_0_conv zero_less_one)
    then have "mset (map ai_id p) = mset (map ai_id result)" by simp
    moreover have "map ai_id nodes = map ai_id p" "same_heap st st'"
      using a False \<open>result \<noteq> []\<close> p
      by (auto simp: chaos_dns_shuffle_result_list_def chaos_dns_result_count_def Let_def same_heap_def set_canonname_def)
    ultimately show ?thesis by metis
  qed
qed

lemma shuffle_stage:
  assumes "ready T held result owned st" "chaos_dns_shuffle_result_list env rv result st = (nodes, st')"
  shows "ready T held nodes owned st'"
proof -
  note s = shuffle_ids [OF assms(2)]
  then have "set (map ai_id nodes) = set (map ai_id result)" "nodes = [] \<longleftrightarrow> result = []"
    by (metis set_mset_mset, metis length_0_conv length_map size_mset)
  then have "holds T st held nodes own \<longleftrightarrow> holds T st held result own" for own
    using s by (cases own) (auto simp: holds_def simp del: mset_map set_map)
  then have "obtained T held None nodes owned st \<longleftrightarrow> obtained T held None result owned st" by (simp add: obtained_def)
  with assms(1) s \<open>nodes = [] \<longleftrightarrow> result = []\<close> show ?thesis
    by (simp add: ready_def obtained_heap [OF conjunct2 [OF s]])
qed

lemma resolve_outcome:
  assumes "rv_have_freeaddrinfo (le_real le)" "accounted st held"
    "chaos_dns_resolve_with_rules le node service hints st = (rc, result, st')"
  shows "if rc = None then \<exists>owned. ready (ls_owned st) held result owned st' else result = [] \<and> gone (ls_owned st) held st'"
proof -
  let ?rv = "le_real le" and ?T = "ls_owned st"
  let ?m = "\<lambda>effect. chaos_dns_config_match (le_view le) effect node"
  let ?sel = "\<lambda>r d. case r of Some r \<Rightarrow> Some (dns_text r) | None \<Rightarrow> d"
  obtain rew s1 where f1: "fires le CHAOS_DNS_EFFECT_REWRITE (?m CHAOS_DNS_EFFECT_REWRITE) st = (rew, s1)" by fastforce
  obtain srv s2 where f2: "fires le CHAOS_DNS_EFFECT_SERVICE (?m CHAOS_DNS_EFFECT_SERVICE) s1 = (srv, s2)" by fastforce
  obtain ovr s3 where f3: "fires le CHAOS_DNS_EFFECT_OVERRIDE (?m CHAOS_DNS_EFFECT_OVERRIDE) s2 = (ovr, s3)" by fastforce
  have heap3: "same_heap st s3" using fires_heap [OF f1] fires_heap [OF f2] fires_heap [OF f3] by (blast intro: same_heap_trans)
  then have acc3: "accounted s3 held" "ls_owned s3 = ?T" using assms(2) by (simp_all add: same_heap_accounted same_heap_owned)
  let ?call = "case ovr of Some r \<Rightarrow> chaos_dns_apply_override ?rv r node (?sel srv service) hints s3
    | None \<Rightarrow> real_getaddrinfo ?rv (?sel rew node) (?sel srv service) hints s3"
  obtain rc1 r1 s4 where call: "?call = (rc1, r1, s4)" by (metis prod_cases3)
  let ?own = "if ovr \<noteq> None \<and> rc1 = None then head_id r1 else None"
  have got: "obtained ?T held rc1 r1 ?own s4"
  proof (cases ovr)
    case None
    with real_obtained [OF acc3(1)] call acc3(2) show ?thesis by auto
  next
    case (Some r)
    with call have "chaos_dns_apply_override ?rv r node (?sel srv service) hints s3 = (rc1, r1, s4)" by simp
    from apply_override_obtained [OF assms(1) acc3(1) this] acc3(2) Some show ?thesis
      by (cases rc1) (auto simp: obtained_def)
  qed
  note unfold = chaos_dns_resolve_with_rules_def [of le node service hints st, unfolded Let_def f1 f2 f3 prod.case call]
  show ?thesis
  proof (cases rc1)
    case (Some e)
    with assms(3) have "rc = Some e" "result = []" "st' = s4" by (simp_all add: unfold)
    with got Some show ?thesis by (simp add: obtained_def gone_def)
  next
    case None
    let ?ff = "case ?m CHAOS_DNS_EFFECT_FILTER_FAMILY of
        Some r \<Rightarrow> (if dns_family r \<noteq> CHAOS_DNS_FAMILY_ANY then fires le CHAOS_DNS_EFFECT_FILTER_FAMILY (Some r) s4 else (None, s4))
      | None \<Rightarrow> (None, s4)"
    obtain flt s5 where ff: "?ff = (flt, s5)" by fastforce
    have flt: "same_heap s4 s5" "flt = Some r \<Longrightarrow> dns_family r \<noteq> CHAOS_DNS_FAMILY_ANY" for r
      using ff by (auto dest: fires_heap fires_Some split: option.splits if_splits)
    let ?fl = "case flt of Some r \<Rightarrow> chaos_dns_filter_result_list ?rv (dns_family r) r1 s5 | None \<Rightarrow> (True, r1, s5)"
    obtain kept r2 s6 where fl: "?fl = (kept, r2, s6)" by (metis prod_cases3)
    have got5: "obtained ?T held None r1 ?own s5" using got None flt(1) by (simp add: obtained_heap [OF flt(1)])
    have got6: "obtained ?T held None r2 ?own s6 \<and> (kept \<longrightarrow> ?own \<noteq> None \<longrightarrow> r2 \<noteq> []) \<and> (\<not> kept \<longrightarrow> r2 = [])"
    proof (cases flt)
      case None
      with fl got5 show ?thesis by (auto simp: head_id_def)
    next
      case (Some r)
      with fl have "chaos_dns_filter_result_list ?rv (dns_family r) r1 s5 = (kept, r2, s6)" by simp
      from filter_stage [OF assms(1) got5 this flt(2) [OF Some]] show ?thesis by simp
    qed
    show ?thesis
    proof (cases kept)
      case False
      with got6 have "r2 = []" by blast
      from conjunct1 [OF got6, unfolded this] have "obtained ?T held None [] ?own s6" .
      from give_up [OF this] False assms(3) None ff fl show ?thesis by (auto simp: unfold)
    next
      case True
      with got6 have rdy6: "ready ?T held r2 ?own s6" by (simp add: ready_def)
      obtain shf s7 where f7: "fires le CHAOS_DNS_EFFECT_SHUFFLE (?m CHAOS_DNS_EFFECT_SHUFFLE) s6 = (shf, s7)" by fastforce
      let ?sh = "if shf \<noteq> None then chaos_dns_shuffle_result_list (le_prng le) ?rv r2 s7 else (r2, s7)"
      obtain r3 s8 where sh: "?sh = (r3, s8)" by fastforce
      have rdy7: "ready ?T held r2 ?own s7" using rdy6 by (simp add: ready_heap [OF fires_heap [OF f7]])
      have rdy8: "ready ?T held r3 ?own s8"
        using sh shuffle_stage [OF rdy7] rdy7 by (auto split: if_splits)
      obtain lim s9 where f9: "fires le CHAOS_DNS_EFFECT_LIMIT (?m CHAOS_DNS_EFFECT_LIMIT) s8 = (lim, s9)" by fastforce
      have rdy9: "ready ?T held r3 ?own s9" using rdy8 by (simp add: ready_heap [OF fires_heap [OF f9]])
      show ?thesis
      proof (cases lim)
        case lim: None
        with assms(3) None ff fl True f7 sh f9 have "rc = None \<and> result = r3 \<and> st' = s9" by (auto simp: unfold)
        with rdy9 show ?thesis by auto
      next
        case lim: (Some r)
        obtain r4 s10 where l: "chaos_dns_limit_result_list ?rv (dns_limit r) r3 s9 = (r4, s10)" by fastforce
        have got10: "obtained ?T held None r4 ?own s10"
          using limit_stage [OF assms(1) _ l] rdy9 by (simp add: ready_def)
        show ?thesis
        proof (cases "r4 = []")
          case True
          with got10 have "obtained ?T held None [] ?own s10" by simp
          from give_up [OF this] lim l True \<open>kept\<close> assms(3) None ff fl f7 sh f9 show ?thesis by (auto simp: unfold)
        next
          case False
          with lim l \<open>kept\<close> assms(3) None ff fl f7 sh f9 have "rc = None \<and> result = r4 \<and> st' = s10" by (auto simp: unfold)
          with got10 False show ?thesis by (auto simp: ready_def)
        qed
      qed
    qed
  qed
qed

text \<open>C20. A lookup releases every node it allocates exactly once. If it fails, nothing of it is left: each node was
  handed to the real \<open>freeaddrinfo\<close> or freed with its own block, and the table of own blocks is as before. If it
  succeeds, \<open>freeaddrinfo\<close> on the returned list does the same, whatever OVERRIDE, FILTER, SHUFFLE and LIMIT did to
  it, and no node is ever released twice.\<close>

theorem dns_lookup_balanced:
  assumes "rv_have_freeaddrinfo (le_real le)" "accounted st held"
    "getaddrinfo le guard node service hints st = (rc, result, st')"
  shows "case rc of
      Some e \<Rightarrow> result = [] \<and> ls_owned st' = ls_owned st \<and> accounted st' held
    | None \<Rightarrow> ls_owned (freeaddrinfo (le_real le) result st') = ls_owned st \<and>
              accounted (freeaddrinfo (le_real le) result st') held"
proof -
  have finish: "?thesis" if "if rc = None then \<exists>owned. ready (ls_owned st) held result owned st'
      else result = [] \<and> gone (ls_owned st) held st'"
    using that free_ready [OF assms(1)] by (cases rc) (auto simp: gone_def)
  show ?thesis
  proof (cases "chaos_dns_in_internal guard \<or> node = None \<or> node = Some []")
    case True
    with assms(3) have "real_getaddrinfo (le_real le) node service hints st = (rc, result, st')"
      by (auto simp: getaddrinfo_def)
    from real_obtained [OF assms(2) this] real_getaddrinfo_accounted(3) [OF assms(2) this] show ?thesis
      by (intro finish) (auto simp: ready_def gone_def obtained_def)
  next
    case False
    let ?d = "lookup_delay le (chaos_dns_config_match (le_view le) CHAOS_DNS_EFFECT_LATENCY node) st"
    obtain e s1 where e: "lookup_error le (chaos_dns_config_match (le_view le) CHAOS_DNS_EFFECT_GAI node) ?d = (e, s1)"
      by fastforce
    have heap: "same_heap st s1" using same_heap_trans [OF delay_heap error_heap [OF e]] .
    show ?thesis
    proof (cases e)
      case None
      with assms(3) False e have r: "chaos_dns_resolve_with_rules le node service hints s1 = (rc, result, st')"
        by (auto simp: getaddrinfo_def)
      from heap assms(2) have "accounted s1 held" by (simp add: same_heap_accounted)
      from resolve_outcome [OF assms(1) this r] same_heap_owned [OF heap] show ?thesis by (intro finish) (auto split: if_splits)
    next
      case (Some x)
      with assms(3) False e have "rc = Some x" "result = []" "same_heap s1 st'"
        by (auto simp: getaddrinfo_def same_heap_def split: if_splits)
      moreover from this have heap': "same_heap st st'" using same_heap_trans [OF heap] by blast
      ultimately show ?thesis using assms(2) same_heap_accounted [OF heap']
          same_heap_owned [OF heap'] by simp
    qed
  qed
qed

definition override_demo :: chaos_dns_rule where
  "override_demo = (demo_dns_rule (dns_selector_zero\<lparr>dsel_len := 1\<rparr>))
     \<lparr>dns_effect := CHAOS_DNS_EFFECT_OVERRIDE, dns_text := ''1.1.1.1,::1''\<rparr>"

definition lookup_demo :: "chaos_dns_rule list \<Rightarrow> lookup_env" where
  "lookup_demo rules =
     \<lparr>le_prng = \<lparr>pe_process_seed = 1, pe_tid = 2, pe_stack_address = 3\<rparr>, le_now = (\<lambda>e. 0), le_sleeps = [],
      le_real = sample_resolver,
      le_view = (\<lambda>e. \<lparr>da_prepared = True,
        da_snapshot = \<lparr>snap_sequence = 2, snap_rules = rules, snap_parse_ok = True\<rparr>, da_sequence = 2\<rparr>)\<rparr>"

theorem dns_lookup_balanced_witness:
  "case getaddrinfo (lookup_demo []) 0 (Some ''a.b'') None None (sample_state 0) of (rc, result, st') \<Rightarrow>
     rc = None \<and> length result = 2 \<and> ls_freed st' = [] \<and> ls_freed (freeaddrinfo sample_resolver result st') = [0, 1] \<and>
     accounted (freeaddrinfo sample_resolver result st') {#}"
proof -
  obtain rc result st' where g: "getaddrinfo (lookup_demo []) 0 (Some ''a.b'') None None (sample_state 0) = (rc, result, st')"
    by (metis prod_cases3)
  have v: "(case getaddrinfo (lookup_demo []) 0 (Some ''a.b'') None None (sample_state 0) of (rc, result, st') \<Rightarrow>
     rc = None \<and> length result = 2 \<and> ls_freed st' = [] \<and> ls_freed (freeaddrinfo sample_resolver result st') = [0, 1])"
    by code_simp
  have "accounted (sample_state 0) {#}" "rv_have_freeaddrinfo (le_real (lookup_demo []))"
    by (simp_all add: accounted_def sample_state_def owned_ids_def block_ids_def lookup_demo_def sample_resolver_def)
  note balanced = dns_lookup_balanced [OF this(2) this(1) g]
  have "le_real (lookup_demo []) = sample_resolver" by (simp add: lookup_demo_def)
  with balanced v [unfolded g prod.case] show ?thesis unfolding g prod.case by simp
qed

text \<open>A GAI rule that fires answers the lookup without asking the resolver: the error of the rule, no list, no
  call counted and no node allocated; \<open>errno\<close> is set exactly for \<open>EAI_SYSTEM\<close>, to \<open>EIO\<close>.\<close>

theorem dns_gai_answers_alone:
  assumes "guard = 0" "node = Some (c # name)"
    "chaos_dns_config_match (le_view le) CHAOS_DNS_EFFECT_LATENCY node = None"
    "chaos_dns_config_match (le_view le) CHAOS_DNS_EFFECT_GAI node = Some r"
    "chaos_dns_rule_apply_gai (le_prng le) (le_now le CHAOS_DNS_EFFECT_GAI) r (ls_act st) = (Some e, act)"
  shows "getaddrinfo le guard node service hints st =
    (Some e, [], st\<lparr>ls_act := act, ls_errno := (if e = EAI_SYSTEM then Some EIO else ls_errno st)\<rparr>)"
  using assms by (simp add: getaddrinfo_def chaos_dns_in_internal_def lookup_delay_def fires_def lookup_error_def)

theorem dns_gai_answers_alone_witness:
  "fst (getaddrinfo (lookup_demo [demo_dns_rule (dns_selector_zero\<lparr>dsel_len := 1\<rparr>)]) 0 (Some ''a.b'') None None (sample_state 0))
     = Some EAI_AGAIN"
proof -
  let ?le = "lookup_demo [demo_dns_rule (dns_selector_zero\<lparr>dsel_len := 1\<rparr>)]"
  let ?r = "demo_dns_rule (dns_selector_zero\<lparr>dsel_len := 1\<rparr>)"
  have "chaos_dns_config_match (le_view ?le) CHAOS_DNS_EFFECT_LATENCY (Some ''a.b'') = None"
    "chaos_dns_config_match (le_view ?le) CHAOS_DNS_EFFECT_GAI (Some ''a.b'') = Some ?r"
    by code_simp+
  moreover have "fst (chaos_dns_rule_apply_gai (le_prng ?le) (le_now ?le CHAOS_DNS_EFFECT_GAI) ?r (ls_act (sample_state 0))) = Some EAI_AGAIN"
    by code_simp
  then obtain act where "chaos_dns_rule_apply_gai (le_prng ?le) (le_now ?le CHAOS_DNS_EFFECT_GAI) ?r (ls_act (sample_state 0)) = (Some EAI_AGAIN, act)"
    by (metis prod.collapse)
  ultimately show ?thesis by (simp add: dns_gai_answers_alone [where act = act])
qed


definition strict_resolver :: resolver_env where
  "strict_resolver = sample_resolver\<lparr>rv_pton4 := (\<lambda>t. if t = ''1.1.1.1'' then Some [1, 1, 1, 1] else None),
     rv_getaddrinfo := (\<lambda>node service hints call.
       if node = Some ''1.1.1.1'' then (None, [sample_node 0 AF_INET None]) else (Some EAI_NONAME, []))\<rparr>"


end
