(* ===== verification/Dns_Hostent.thy ===== *)
theory Dns_Hostent
  imports Dns_Lookup
begin

text \<open>
  The rest of the lookups (\<open>src/dns/chaos_dns_lookup.c\<close>): \<open>getnameinfo\<close> and the \<open>hostent\<close> functions. A
  \<open>hostent\<close> is laid out inside the caller's buffer, so the memory is explicit: a cell holds a byte, or the
  first byte of an eight byte pointer, or one of its others.
\<close>

section \<open>Reverse queries\<close>

definition chaos_dns_copy_output_text :: "string \<Rightarrow> nat \<Rightarrow> string option" where
  "chaos_dns_copy_output_text txt room =
     (if room = 0 then None else if room \<le> length txt then None else Some txt)"

definition chaos_dns_reverse_query_from_sockaddr ::
  "ntop \<Rightarrow> ntop \<Rightarrow> sockaddr \<Rightarrow> nat \<Rightarrow> string option" where
  "chaos_dns_reverse_query_from_sockaddr ntop4 ntop6 address address_len =
     (if address_len < 2 then None
      else case address of
             SA_Inet port bytes \<Rightarrow> (if address_len < 16 then None else ntop4 bytes)
           | SA_Inet6 port bytes \<Rightarrow> (if address_len < 28 then None else ntop6 bytes)
           | _ \<Rightarrow> None)"

definition chaos_dns_reverse_query_from_address ::
  "ntop \<Rightarrow> ntop \<Rightarrow> u8 list option \<Rightarrow> nat \<Rightarrow> int \<Rightarrow> string option" where
  "chaos_dns_reverse_query_from_address ntop4 ntop6 address len family =
     (case address of
        None \<Rightarrow> None
      | Some bytes \<Rightarrow>
          (if (family = AF_INET \<and> len < 4) \<or> (family = AF_INET6 \<and> len < 16) \<or> (family \<noteq> AF_INET \<and> family \<noteq> AF_INET6) then None
           else if family = AF_INET then ntop4 (take 4 bytes) else ntop6 (take 16 bytes)))"

section \<open>getnameinfo\<close>

text \<open>A call: the address, the room of each output buffer, none for a null pointer. The real function answers with an
  error or with the two texts it wrote.\<close>

record nameinfo_call =
  ni_address :: "sockaddr option"
  ni_address_len :: nat
  ni_host_len :: "nat option"
  ni_service_len :: "nat option"

type_synonym real_nameinfo = "nameinfo_call \<Rightarrow> gai_error + string \<times> string"

definition chaos_dns_call_real_getnameinfo ::
  "real_nameinfo option \<Rightarrow> nameinfo_call \<Rightarrow> lookup_state \<Rightarrow> (gai_error + string \<times> string) \<times> lookup_state" where
  "chaos_dns_call_real_getnameinfo real_fn call st =
     (case real_fn of
        None \<Rightarrow> (Inl EAI_SYSTEM, st\<lparr>ls_errno := Some ENOSYS\<rparr>)
      | Some f \<Rightarrow> (f call, st))"

text \<open>A rule's text over what the real function wrote, where the caller asked for it.\<close>

definition rewrite_output ::
  "lookup_env \<Rightarrow> chaos_dns_effect \<Rightarrow> string \<Rightarrow> nat option \<Rightarrow> string \<Rightarrow> lookup_state \<Rightarrow> string option \<times> lookup_state" where
  "rewrite_output le effect query room written st =
     (case room of
        None \<Rightarrow> (Some written, st)
      | Some n \<Rightarrow>
          (if n = 0 then (Some written, st)
           else case fires le effect (chaos_dns_config_match_reverse (le_view le) effect (Some query)) st of
                  (None, st) \<Rightarrow> (Some written, st)
                | (Some r, st) \<Rightarrow> (chaos_dns_copy_output_text (dns_text r) n, st)))"

definition getnameinfo ::
  "lookup_env \<Rightarrow> ntop \<Rightarrow> ntop \<Rightarrow> real_nameinfo option \<Rightarrow> int \<Rightarrow> nameinfo_call \<Rightarrow> lookup_state
     \<Rightarrow> (gai_error + string \<times> string) \<times> lookup_state" where
  "getnameinfo le ntop4 ntop6 real_fn guard call st =
     (let query = (if chaos_dns_in_internal guard then None
                   else case ni_address call of None \<Rightarrow> None
                        | Some a \<Rightarrow> chaos_dns_reverse_query_from_sockaddr ntop4 ntop6 a (ni_address_len call))
      in case query of
           None \<Rightarrow> chaos_dns_call_real_getnameinfo real_fn call st
         | Some q \<Rightarrow>
             (let match = (\<lambda>effect. chaos_dns_config_match_reverse (le_view le) effect query);
                  st = lookup_delay le (match CHAOS_DNS_EFFECT_LATENCY) st;
                  (e, st) = lookup_error le (match CHAOS_DNS_EFFECT_GAI) st
              in case e of
                   Some e \<Rightarrow> (Inl e, st)
                 | None \<Rightarrow>
                     (case chaos_dns_call_real_getnameinfo real_fn call st of
                        (Inl e, st) \<Rightarrow> (Inl e, st)
                      | (Inr (host, service), st) \<Rightarrow>
                          (case rewrite_output le CHAOS_DNS_EFFECT_REWRITE q (ni_host_len call) host st of
                             (None, st) \<Rightarrow> (Inl EAI_OVERFLOW, st)
                           | (Some host, st) \<Rightarrow>
                               (case rewrite_output le CHAOS_DNS_EFFECT_SERVICE q (ni_service_len call) service st of
                                  (None, st) \<Rightarrow> (Inl EAI_OVERFLOW, st)
                                | (Some service, st) \<Rightarrow> (Inr (host, service), st))))))"

section \<open>Laying out a hostent\<close>

datatype cell = Byte u8 | Pointer nat | Rest

type_synonym memory = "nat \<Rightarrow> cell"

definition store_bytes :: "nat \<Rightarrow> u8 list \<Rightarrow> memory \<Rightarrow> memory" where
  "store_bytes a bs m = (\<lambda>x. if a \<le> x \<and> x < a + length bs then Byte (bs ! (x - a)) else m x)"

definition store_pointer :: "nat \<Rightarrow> nat \<Rightarrow> memory \<Rightarrow> memory" where
  "store_pointer a p m = (\<lambda>x. if x = a then Pointer p else if a < x \<and> x < a + 8 then Rest else m x)"

record hostent =
  h_name :: nat
  h_aliases :: nat
  h_addrtype :: int
  h_length :: nat
  h_addr_list :: nat

definition string_bytes :: "string \<Rightarrow> u8 list" where
  "string_bytes s = map of_char s @ [0]"

text \<open>The nodes a \<open>hostent\<close> of the family holds, and the bytes of a node's address in its socket address.\<close>

definition of_family :: "int \<Rightarrow> ai_node \<Rightarrow> bool" where
  "of_family family n \<longleftrightarrow> ai_family n = family \<and> ai_addr n \<noteq> None"

definition address_size :: "int \<Rightarrow> nat" where
  "address_size family = (if family = AF_INET6 then 16 else 4)"

definition node_address :: "int \<Rightarrow> ai_node \<Rightarrow> u8 list" where
  "node_address family n = take (address_size family) (drop (if family = AF_INET6 then 8 else 4) (the (ai_addr n)))"

fun fill_addresses :: "int \<Rightarrow> nat \<Rightarrow> nat \<Rightarrow> ai_node list \<Rightarrow> nat \<Rightarrow> memory \<Rightarrow> memory" where
  "fill_addresses family pointers addresses [] index m = m"
| "fill_addresses family pointers addresses (node # rest) index m =
     (if \<not> of_family family node then fill_addresses family pointers addresses rest index m
      else let a = addresses + index * address_size family
           in fill_addresses family pointers addresses rest (Suc index)
                (store_pointer (pointers + 8 * (1 + index)) a (store_bytes a (node_address family node) m)))"

definition chaos_dns_fill_hostent ::
  "string \<Rightarrow> int \<Rightarrow> ai_node list \<Rightarrow> nat \<Rightarrow> nat \<Rightarrow> memory \<Rightarrow> errno + hostent \<times> memory" where
  "chaos_dns_fill_hostent name family nodes buffer buffer_size m =
     (let count = length (filter (of_family family) nodes)
      in if count = 0 then Inl ENOENT
         else let host_name = (case ai_canonname (hd nodes) of Some c \<Rightarrow> c | None \<Rightarrow> name);
                  name_size = length host_name + 1;
                  offset = (if buffer mod 8 = 0 then 0 else 8 - buffer mod 8);
                  pointers_size = (count + 2) * 8
              in if buffer_size < offset \<or> buffer_size - offset < pointers_size + count * address_size family + name_size
                 then Inl ERANGE
                 else let pointers = buffer + offset;
                          addresses = buffer + offset + pointers_size;
                          m = fill_addresses family pointers addresses nodes 0 m;
                          m = store_pointer pointers 0 m;
                          m = store_pointer (pointers + 8 * (1 + count)) 0 m;
                          name_at = addresses + count * address_size family;
                          m = store_bytes name_at (string_bytes host_name) m
                      in Inr (\<lparr>h_name = name_at, h_aliases = pointers, h_addrtype = family,
                               h_length = address_size family, h_addr_list = pointers + 8\<rparr>, m))"

section \<open>The hostent functions\<close>

datatype h_error = HOST_NOT_FOUND | TRY_AGAIN | NO_RECOVERY | NO_DATA | NETDB_INTERNAL

text \<open>What a call of the \<open>_r\<close> family leaves: the returned code (none for 0), \<open>*result\<close>, \<open>*h_error\<close> if
  written, and the memory.\<close>

record hostent_answer =
  ha_rc :: "errno option"
  ha_result :: "hostent option"
  ha_h_error :: "h_error option"
  ha_memory :: memory

definition chaos_dns_h_errno_for :: "gai_error \<Rightarrow> h_error" where
  "chaos_dns_h_errno_for e =
     (case e of EAI_NONAME \<Rightarrow> HOST_NOT_FOUND | EAI_AGAIN \<Rightarrow> TRY_AGAIN | EAI_NODATA \<Rightarrow> NO_DATA
      | EAI_ADDRFAMILY \<Rightarrow> NO_DATA | _ \<Rightarrow> NO_RECOVERY)"

definition chaos_dns_hostent_prelude ::
  "lookup_env \<Rightarrow> string \<Rightarrow> bool \<Rightarrow> lookup_state \<Rightarrow> h_error option \<times> lookup_state" where
  "chaos_dns_hostent_prelude le query reverse st =
     (let match = (\<lambda>effect. if reverse then chaos_dns_config_match_reverse (le_view le) effect (Some query)
                            else chaos_dns_config_match (le_view le) effect (Some query));
          st = lookup_delay le (match CHAOS_DNS_EFFECT_LATENCY) st;
          (e, st) = lookup_error le (match CHAOS_DNS_EFFECT_GAI) st
      in (map_option chaos_dns_h_errno_for e, st))"

definition chaos_dns_has_result_rule :: "lookup_env \<Rightarrow> string \<Rightarrow> bool" where
  "chaos_dns_has_result_rule le name \<longleftrightarrow>
     list_ex (\<lambda>effect. chaos_dns_config_match (le_view le) effect (Some name) \<noteq> None)
       [CHAOS_DNS_EFFECT_REWRITE, CHAOS_DNS_EFFECT_OVERRIDE, CHAOS_DNS_EFFECT_FILTER_FAMILY,
        CHAOS_DNS_EFFECT_SHUFFLE, CHAOS_DNS_EFFECT_LIMIT]"

definition chaos_dns_hostent_from_rules ::
  "lookup_env \<Rightarrow> string \<Rightarrow> int \<Rightarrow> nat \<Rightarrow> nat \<Rightarrow> memory \<Rightarrow> lookup_state \<Rightarrow> hostent_answer \<times> lookup_state" where
  "chaos_dns_hostent_from_rules le name family buffer buffer_size m st =
     (let hints = hints_zero\<lparr>hint_family := family, hint_socktype := 1, hint_flags := AI_CANONNAME\<rparr>
      in case chaos_dns_resolve_with_rules le (Some name) None (Some hints) st of
           (Some e, _, st) \<Rightarrow>
             (\<lparr>ha_rc = None, ha_result = None, ha_h_error = Some (chaos_dns_h_errno_for e), ha_memory = m\<rparr>, st)
         | (None, nodes, st) \<Rightarrow>
             (let filled = chaos_dns_fill_hostent name family nodes buffer buffer_size m;
                  st = freeaddrinfo (le_real le) nodes st
              in case filled of
                   Inl e \<Rightarrow>
                     (if e = ERANGE
                      then (\<lparr>ha_rc = Some ERANGE, ha_result = None, ha_h_error = Some NETDB_INTERNAL, ha_memory = m\<rparr>,
                            st\<lparr>ls_errno := Some ERANGE\<rparr>)
                      else (\<lparr>ha_rc = None, ha_result = None, ha_h_error = Some NO_DATA, ha_memory = m\<rparr>, st))
                 | Inr (entry, m) \<Rightarrow>
                     (\<lparr>ha_rc = None, ha_result = Some entry, ha_h_error = None, ha_memory = m\<rparr>, st)))"

definition chaos_dns_hostent_r_unresolved :: "memory \<Rightarrow> lookup_state \<Rightarrow> hostent_answer \<times> lookup_state" where
  "chaos_dns_hostent_r_unresolved m st =
     (\<lparr>ha_rc = Some ENOSYS, ha_result = None, ha_h_error = Some NETDB_INTERNAL, ha_memory = m\<rparr>,
      st\<lparr>ls_errno := Some ENOSYS\<rparr>)"

text \<open>A real function of the family, none when the symbol was not found.\<close>

type_synonym real_by_name = "string option \<Rightarrow> int \<Rightarrow> nat \<Rightarrow> nat \<Rightarrow> memory \<Rightarrow> hostent_answer"
type_synonym real_by_addr = "u8 list option \<Rightarrow> nat \<Rightarrow> int \<Rightarrow> nat \<Rightarrow> nat \<Rightarrow> memory \<Rightarrow> hostent_answer"

definition chaos_dns_call_real_gethostbyname2_r ::
  "real_by_name option \<Rightarrow> string option \<Rightarrow> int \<Rightarrow> nat \<Rightarrow> nat \<Rightarrow> memory \<Rightarrow> lookup_state \<Rightarrow> hostent_answer \<times> lookup_state" where
  "chaos_dns_call_real_gethostbyname2_r real_fn name family buffer buffer_size m st =
     (case real_fn of
        None \<Rightarrow> chaos_dns_hostent_r_unresolved m st
      | Some f \<Rightarrow> (f name family buffer buffer_size m, st))"

text \<open>\<open>outputs\<close>: neither \<open>result\<close> nor \<open>h_error\<close> is a null pointer.\<close>

definition gethostbyname2_r ::
  "lookup_env \<Rightarrow> real_by_name option \<Rightarrow> int \<Rightarrow> bool \<Rightarrow> string option \<Rightarrow> int \<Rightarrow> nat \<Rightarrow> nat \<Rightarrow> memory \<Rightarrow> lookup_state
     \<Rightarrow> hostent_answer \<times> lookup_state" where
  "gethostbyname2_r le real_fn guard outputs name family buffer buffer_size m st =
     (case name of
        None \<Rightarrow> chaos_dns_call_real_gethostbyname2_r real_fn name family buffer buffer_size m st
      | Some n \<Rightarrow>
          (if chaos_dns_in_internal guard \<or> n = [] \<or> \<not> outputs
           then chaos_dns_call_real_gethostbyname2_r real_fn name family buffer buffer_size m st
           else case chaos_dns_hostent_prelude le n False st of
                  (Some injected, st) \<Rightarrow>
                    (\<lparr>ha_rc = None, ha_result = None, ha_h_error = Some injected, ha_memory = m\<rparr>, st)
                | (None, st) \<Rightarrow>
                    (if chaos_dns_has_result_rule le n
                     then chaos_dns_hostent_from_rules le n family buffer buffer_size m st
                     else chaos_dns_call_real_gethostbyname2_r real_fn name family buffer buffer_size m st)))"

definition gethostbyname_r ::
  "lookup_env \<Rightarrow> real_by_name option \<Rightarrow> int \<Rightarrow> bool \<Rightarrow> string option \<Rightarrow> nat \<Rightarrow> nat \<Rightarrow> memory \<Rightarrow> lookup_state
     \<Rightarrow> hostent_answer \<times> lookup_state" where
  "gethostbyname_r le real_fn guard outputs name buffer buffer_size m st =
     gethostbyname2_r le real_fn guard outputs name AF_INET buffer buffer_size m st"

definition chaos_dns_reverse_rewrite :: "lookup_env \<Rightarrow> string \<Rightarrow> lookup_state \<Rightarrow> string option \<times> lookup_state" where
  "chaos_dns_reverse_rewrite le query st =
     (case fires le CHAOS_DNS_EFFECT_REWRITE
             (chaos_dns_config_match_reverse (le_view le) CHAOS_DNS_EFFECT_REWRITE (Some query)) st of
        (r, st) \<Rightarrow> (map_option dns_text r, st))"

text \<open>The real call and the rewritten name in the reserved end of the buffer.\<close>

definition by_addr_call ::
  "real_by_addr option \<Rightarrow> string option \<Rightarrow> nat \<Rightarrow> u8 list option \<Rightarrow> nat \<Rightarrow> int \<Rightarrow> nat \<Rightarrow> nat \<Rightarrow> memory \<Rightarrow> lookup_state
     \<Rightarrow> hostent_answer \<times> lookup_state" where
  "by_addr_call real_fn rewrite reserved address len family buffer buffer_size m st =
     (case real_fn of
        None \<Rightarrow> chaos_dns_hostent_r_unresolved m st
      | Some f \<Rightarrow>
          (let answer = f address len family buffer (buffer_size - reserved) m
           in case (ha_rc answer, rewrite, ha_result answer) of
                (None, Some name, Some entry) \<Rightarrow>
                  (let name_at = buffer + buffer_size - reserved
                   in (answer\<lparr>ha_memory := store_bytes name_at (string_bytes name) (ha_memory answer),
                              ha_result := Some (entry\<lparr>h_name := name_at\<rparr>)\<rparr>, st))
              | _ \<Rightarrow> (answer, st)))"

definition gethostbyaddr_r ::
  "lookup_env \<Rightarrow> ntop \<Rightarrow> ntop \<Rightarrow> real_by_addr option \<Rightarrow> int \<Rightarrow> bool \<Rightarrow> u8 list option \<Rightarrow> nat \<Rightarrow> int \<Rightarrow> nat \<Rightarrow> nat \<Rightarrow> memory
     \<Rightarrow> lookup_state \<Rightarrow> hostent_answer \<times> lookup_state" where
  "gethostbyaddr_r le ntop4 ntop6 real_fn guard outputs address len family buffer buffer_size m st =
     (case (if chaos_dns_in_internal guard \<or> \<not> outputs then None
            else chaos_dns_reverse_query_from_address ntop4 ntop6 address len family) of
        None \<Rightarrow> by_addr_call real_fn None 0 address len family buffer buffer_size m st
      | Some q \<Rightarrow>
          (case chaos_dns_hostent_prelude le q True st of
             (Some injected, st) \<Rightarrow>
               (\<lparr>ha_rc = None, ha_result = None, ha_h_error = Some injected, ha_memory = m\<rparr>, st)
           | (None, st) \<Rightarrow>
               (let (rewrite, st) = chaos_dns_reverse_rewrite le q st;
                    reserved = (case rewrite of None \<Rightarrow> 0 | Some name \<Rightarrow> length name + 1)
                in if buffer_size < reserved
                   then (\<lparr>ha_rc = Some ERANGE, ha_result = None, ha_h_error = Some NETDB_INTERNAL, ha_memory = m\<rparr>,
                         st\<lparr>ls_errno := Some ERANGE\<rparr>)
                   else by_addr_call real_fn rewrite reserved address len family buffer buffer_size m st)))"

text \<open>The functions without \<open>_r\<close> answer in a static entry and a static buffer of 2048 bytes, whose address is a
  parameter, and report through \<open>h_errno\<close>.\<close>

record static_answer =
  sa_result :: "hostent option"
  sa_h_errno :: "h_error option"
  sa_memory :: memory

definition HOSTENT_BUFFER_SIZE :: nat where "HOSTENT_BUFFER_SIZE = 2048"

definition chaos_dns_hostent_unresolved :: "memory \<Rightarrow> lookup_state \<Rightarrow> static_answer \<times> lookup_state" where
  "chaos_dns_hostent_unresolved m st =
     (\<lparr>sa_result = None, sa_h_errno = Some NETDB_INTERNAL, sa_memory = m\<rparr>, st\<lparr>ls_errno := Some ENOSYS\<rparr>)"

type_synonym real_static_name = "string option \<Rightarrow> int \<Rightarrow> memory \<Rightarrow> static_answer"
type_synonym real_static_addr = "u8 list option \<Rightarrow> nat \<Rightarrow> int \<Rightarrow> memory \<Rightarrow> static_answer"

definition chaos_dns_call_real_gethostbyname2 ::
  "real_static_name option \<Rightarrow> string option \<Rightarrow> int \<Rightarrow> memory \<Rightarrow> lookup_state \<Rightarrow> static_answer \<times> lookup_state" where
  "chaos_dns_call_real_gethostbyname2 real_fn name family m st =
     (case real_fn of None \<Rightarrow> chaos_dns_hostent_unresolved m st | Some f \<Rightarrow> (f name family m, st))"

definition gethostbyname2 ::
  "lookup_env \<Rightarrow> real_static_name option \<Rightarrow> nat \<Rightarrow> int \<Rightarrow> string option \<Rightarrow> int \<Rightarrow> memory \<Rightarrow> lookup_state
     \<Rightarrow> static_answer \<times> lookup_state" where
  "gethostbyname2 le real_fn static_buffer guard name family m st =
     (case name of
        None \<Rightarrow> chaos_dns_call_real_gethostbyname2 real_fn name family m st
      | Some n \<Rightarrow>
          (if chaos_dns_in_internal guard \<or> n = [] then chaos_dns_call_real_gethostbyname2 real_fn name family m st
           else case chaos_dns_hostent_prelude le n False st of
                  (Some injected, st) \<Rightarrow> (\<lparr>sa_result = None, sa_h_errno = Some injected, sa_memory = m\<rparr>, st)
                | (None, st) \<Rightarrow>
                    (if chaos_dns_has_result_rule le n
                     then case chaos_dns_hostent_from_rules le n family static_buffer HOSTENT_BUFFER_SIZE m st of
                            (answer, st) \<Rightarrow>
                              (\<lparr>sa_result = ha_result answer,
                                sa_h_errno = (if ha_result answer = None then ha_h_error answer else None),
                                sa_memory = ha_memory answer\<rparr>, st)
                     else chaos_dns_call_real_gethostbyname2 real_fn name family m st)))"

definition gethostbyname ::
  "lookup_env \<Rightarrow> real_static_name option \<Rightarrow> nat \<Rightarrow> int \<Rightarrow> string option \<Rightarrow> memory \<Rightarrow> lookup_state
     \<Rightarrow> static_answer \<times> lookup_state" where
  "gethostbyname le real_fn static_buffer guard name m st =
     gethostbyname2 le real_fn static_buffer guard name AF_INET m st"

text \<open>The name's static buffer has 512 bytes at \<open>rewritten_name\<close>.\<close>

definition gethostbyaddr ::
  "lookup_env \<Rightarrow> ntop \<Rightarrow> ntop \<Rightarrow> real_static_addr option \<Rightarrow> nat \<Rightarrow> int \<Rightarrow> u8 list option \<Rightarrow> nat \<Rightarrow> int \<Rightarrow> memory
     \<Rightarrow> lookup_state \<Rightarrow> static_answer \<times> lookup_state" where
  "gethostbyaddr le ntop4 ntop6 real_fn rewritten_name guard address len family m st =
     (let call = (\<lambda>rewrite st.
            case real_fn of
              None \<Rightarrow> chaos_dns_hostent_unresolved m st
            | Some f \<Rightarrow>
                (let answer = f address len family m
                 in case (sa_result answer, rewrite) of
                      (Some entry, Some name) \<Rightarrow>
                        (case chaos_dns_copy_output_text name CHAOS_DNS_MAX_VALUE of
                           None \<Rightarrow> (answer, st)
                         | Some t \<Rightarrow>
                             (answer\<lparr>sa_result := Some (entry\<lparr>h_name := rewritten_name\<rparr>),
                                     sa_memory := store_bytes rewritten_name (string_bytes t) (sa_memory answer)\<rparr>, st))
                    | _ \<Rightarrow> (answer, st)))
      in case (if chaos_dns_in_internal guard then None
               else chaos_dns_reverse_query_from_address ntop4 ntop6 address len family) of
           None \<Rightarrow> call None st
         | Some q \<Rightarrow>
             (case chaos_dns_hostent_prelude le q True st of
                (Some injected, st) \<Rightarrow> (\<lparr>sa_result = None, sa_h_errno = Some injected, sa_memory = m\<rparr>, st)
              | (None, st) \<Rightarrow> (case chaos_dns_reverse_rewrite le q st of (rewrite, st) \<Rightarrow> call rewrite st)))"

section \<open>What is in the buffer\<close>

definition read_bytes :: "nat \<Rightarrow> nat \<Rightarrow> memory \<Rightarrow> u8 list" where
  "read_bytes a n m = map (\<lambda>i. case m (a + i) of Byte b \<Rightarrow> b | _ \<Rightarrow> 0) [0..<n]"

text \<open>A reader of the entry: the name with its end, the first alias, the addresses and what follows their pointers.\<close>

definition hostent_view :: "memory \<Rightarrow> hostent \<Rightarrow> nat \<Rightarrow> nat \<Rightarrow> u8 list \<times> cell \<times> u8 list list \<times> cell" where
  "hostent_view m e name_size k =
     (read_bytes (h_name e) name_size m, m (h_aliases e),
      map (\<lambda>i. case m (h_addr_list e + 8 * i) of Pointer p \<Rightarrow> read_bytes p (h_length e) m | _ \<Rightarrow> []) [0..<k],
      m (h_addr_list e + 8 * k))"

lemma read_store_same: "read_bytes a (length bs) (store_bytes a bs m) = bs"
  by (rule nth_equalityI) (simp_all add: read_bytes_def store_bytes_def)

lemma read_cong: "(\<And>x. a \<le> x \<Longrightarrow> x < a + n \<Longrightarrow> m x = m' x) \<Longrightarrow> read_bytes a n m = read_bytes a n m'"
  by (simp add: read_bytes_def)

lemma store_bytes_out: "\<not> (a \<le> x \<and> x < a + length bs) \<Longrightarrow> store_bytes a bs m x = m x"
  by (auto simp: store_bytes_def)

lemma store_pointer_at [simp]: "store_pointer a p m a = Pointer p"
  by (simp add: store_pointer_def)

lemma store_pointer_out: "\<not> (a \<le> x \<and> x < a + 8) \<Longrightarrow> store_pointer a p m x = m x"
  by (auto simp: store_pointer_def)

text \<open>The loop writes the pointers from \<open>index\<close> on and the addresses from \<open>index\<close> on, and nothing else.\<close>

lemma fill_addresses_writes:
  assumes "\<And>n. n \<in> set nodes \<Longrightarrow> of_family family n \<Longrightarrow> length (node_address family n) = s"
    "s = address_size family" "pointers + 8 * (2 + index + length (filter (of_family family) nodes)) \<le> addresses"
  shows "(\<forall>x. \<not> (pointers + 8 * (1 + index) \<le> x \<and> x < pointers + 8 * (1 + index + length (filter (of_family family) nodes))) \<longrightarrow>
            \<not> (addresses + index * s \<le> x \<and> x < addresses + (index + length (filter (of_family family) nodes)) * s) \<longrightarrow>
            fill_addresses family pointers addresses nodes index m x = m x) \<and>
    (\<forall>i < length (filter (of_family family) nodes).
       fill_addresses family pointers addresses nodes index m (pointers + 8 * (1 + index + i)) = Pointer (addresses + (index + i) * s) \<and>
       read_bytes (addresses + (index + i) * s) s (fill_addresses family pointers addresses nodes index m)
         = node_address family (filter (of_family family) nodes ! i))"
  using assms
proof (induction nodes arbitrary: index m)
  case Nil
  then show ?case by simp
next
  case (Cons node rest)
  show ?case
  proof (cases "of_family family node")
    case False
    with Cons.IH [of index m] Cons.prems show ?thesis by simp
  next
    case True
    let ?k = "length (filter (of_family family) rest)" and ?a = "addresses + index * s"
    let ?m1 = "store_pointer (pointers + 8 * (1 + index)) ?a (store_bytes ?a (node_address family node) m)"
    let ?m2 = "fill_addresses family pointers addresses rest (Suc index) ?m1"
    have run: "fill_addresses family pointers addresses (node # rest) index m = ?m2"
      using True Cons.prems(2) by (simp add: Let_def)
    have len: "length (node_address family node) = s" using Cons.prems(1) True by simp
    have room: "pointers + 8 * (2 + Suc index + ?k) \<le> addresses" using Cons.prems(3) True by simp
    note IH = Cons.IH [of "Suc index" ?m1, OF Cons.prems(1) Cons.prems(2) room, simplified]
    have frame: "?m2 x = ?m1 x" if "\<not> (pointers + 8 * (2 + index) \<le> x \<and> x < pointers + 8 * (2 + index + ?k))"
      "\<not> (addresses + Suc index * s \<le> x \<and> x < addresses + (Suc index + ?k) * s)" for x
      using IH that by simp
    have low: "?m2 x = m x" if "\<not> (pointers + 8 * (1 + index) \<le> x \<and> x < pointers + 8 * (2 + index + ?k))"
      "\<not> (?a \<le> x \<and> x < addresses + (Suc index + ?k) * s)" for x
    proof -
      have "?m2 x = ?m1 x" using that by (intro frame) auto
      also have "\<dots> = m x" using that room len by (auto simp: store_pointer_def store_bytes_def algebra_simps)
      finally show ?thesis .
    qed
    have here: "?m2 (pointers + 8 * (1 + index)) = Pointer ?a"
    proof -
      have "?m2 (pointers + 8 * (1 + index)) = ?m1 (pointers + 8 * (1 + index))" using room by (intro frame) auto
      then show ?thesis by simp
    qed
    have there: "read_bytes ?a s ?m2 = node_address family node"
    proof -
      have "read_bytes ?a s ?m2 = read_bytes ?a s (store_bytes ?a (node_address family node) m)"
      proof (rule read_cong)
        fix x assume x: "?a \<le> x" "x < ?a + s"
        with room have "?m2 x = ?m1 x" by (intro frame) auto
        also have "\<dots> = store_bytes ?a (node_address family node) m x" using x room by (intro store_pointer_out) auto
        finally show "?m2 x = store_bytes ?a (node_address family node) m x" .
      qed
      then show ?thesis using read_store_same [of ?a "node_address family node" m] len by simp
    qed
    show ?thesis unfolding run
    proof (intro conjI allI impI)
      fix x
      assume "\<not> (pointers + 8 * (1 + index) \<le> x \<and> x < pointers + 8 * (1 + index + length (filter (of_family family) (node # rest))))"
        "\<not> (?a \<le> x \<and> x < addresses + (index + length (filter (of_family family) (node # rest))) * s)"
      then show "?m2 x = m x" using True by (intro low) auto
    next
      fix i assume "i < length (filter (of_family family) (node # rest))"
      then have "i = 0 \<or> (\<exists>j < ?k. i = Suc j)" using True by (cases i) auto
      then show "?m2 (pointers + 8 * (1 + index + i)) = Pointer (addresses + (index + i) * s)" using here IH by auto
    next
      fix i assume "i < length (filter (of_family family) (node # rest))"
      then have "i = 0 \<or> (\<exists>j < ?k. i = Suc j)" using True by (cases i) auto
      then show "read_bytes (addresses + (index + i) * s) s ?m2 = node_address family (filter (of_family family) (node # rest) ! i)"
        using there IH True by auto
    qed
  qed
qed

text \<open>C22. A filled \<open>hostent\<close> reads back as it should: the name with its end, an empty alias list, the addresses of
  the family in the order of the list, ended by a null pointer. The pointers are aligned, every piece lies in the
  caller's buffer, and no byte outside it changes.\<close>

theorem dns_hostent_layout:
  assumes "chaos_dns_fill_hostent name family nodes buffer room m = Inr (entry, m')"
    "\<And>n. n \<in> set nodes \<Longrightarrow> of_family family n \<Longrightarrow> (if family = AF_INET6 then 28 else 16) \<le> length (the (ai_addr n))"
    "host = (case ai_canonname (hd nodes) of Some c \<Rightarrow> c | None \<Rightarrow> name)"
  shows "hostent_view m' entry (Suc (length host)) (length (filter (of_family family) nodes)) =
      (string_bytes host, Pointer 0, map (node_address family) (filter (of_family family) nodes), Pointer 0) \<and>
    h_aliases entry mod 8 = 0 \<and> h_addr_list entry = h_aliases entry + 8 \<and> buffer \<le> h_aliases entry \<and>
    h_name entry + Suc (length host) \<le> buffer + room \<and>
    (\<forall>x. buffer \<le> x \<and> x < buffer + room \<or> m' x = m x)"
proof -
  define s k where "s = address_size family" and "k = length (filter (of_family family) nodes)"
  define pointers where "pointers = buffer + (if buffer mod 8 = 0 then 0 else 8 - buffer mod 8)"
  define addresses where "addresses = pointers + (k + 2) * 8"
  define name_at where "name_at = addresses + k * s"
  define m1 where "m1 = fill_addresses family pointers addresses nodes 0 m"
  define m2 where "m2 = store_pointer (pointers + 8 * (1 + k)) 0 (store_pointer pointers 0 m1)"
  have k: "k \<noteq> 0" and fit: "addresses + k * s + Suc (length host) \<le> buffer + room"
    and entry: "entry = \<lparr>h_name = name_at, h_aliases = pointers, h_addrtype = family, h_length = s, h_addr_list = pointers + 8\<rparr>"
    and m': "m' = store_bytes name_at (string_bytes host) m2"
    using assms(1) unfolding chaos_dns_fill_hostent_def Let_def assms(3) [symmetric]
    by (auto simp: s_def k_def pointers_def addresses_def name_at_def m1_def m2_def split: if_splits)
  have size: "length (node_address family n) = s" if "n \<in> set nodes" "of_family family n" for n
    using assms(2) [OF that] by (auto simp: s_def node_address_def address_size_def)
  note fill = fill_addresses_writes [OF size s_def, of nodes pointers 0 addresses m, folded k_def m1_def, simplified]
  have frame1: "m1 x = m x" if "\<not> (pointers + 8 \<le> x \<and> x < pointers + 8 * (1 + k))" "\<not> (addresses \<le> x \<and> x < name_at)" for x
    using fill that by (simp add: addresses_def name_at_def)
  have len: "length (string_bytes host) = Suc (length host)" by (simp add: string_bytes_def)
  have m2_in: "m' x = m2 x" if "x < name_at" for x using that by (simp add: m' store_bytes_out)
  have m1_in: "m' x = m1 x" if "x < name_at" "pointers + 8 \<le> x" "\<not> (pointers + 8 * (1 + k) \<le> x \<and> x < addresses)" for x
  proof -
    have "m2 x = m1 x" using that unfolding m2_def by (auto simp: store_pointer_def addresses_def)
    with m2_in that show ?thesis by simp
  qed
  have near: "pointers + 8 * (1 + k) < addresses" "addresses \<le> name_at" by (simp_all add: addresses_def name_at_def)
  have name: "read_bytes (h_name entry) (Suc (length host)) m' = string_bytes host"
    using read_store_same [of name_at "string_bytes host" m2] by (simp add: entry m' len)
  have ends: "m' (h_aliases entry) = Pointer 0" "m' (h_addr_list entry + 8 * k) = Pointer 0"
    using near k m2_in [of pointers] m2_in [of "pointers + 8 + 8 * k"]
    by (simp_all add: entry m2_def store_pointer_def)
  have each: "(case m' (h_addr_list entry + 8 * i) of Pointer p \<Rightarrow> read_bytes p (h_length entry) m' | _ \<Rightarrow> []) =
      node_address family (filter (of_family family) nodes ! i)" if "i < k" for i
  proof -
    have "m' (pointers + 8 * (1 + i)) = m1 (pointers + 8 * (1 + i))" using that near by (intro m1_in) auto
    also have "\<dots> = Pointer (addresses + i * s)" using fill that by (simp add: addresses_def)
    finally have p: "m' (h_addr_list entry + 8 * i) = Pointer (addresses + i * s)" by (simp add: entry algebra_simps)
    have "addresses + i * s + s \<le> name_at"
      using that mult_le_mono1 [of "Suc i" k s] by (simp add: name_at_def)
    then have "read_bytes (addresses + i * s) s m' = read_bytes (addresses + i * s) s m1"
      using near by (intro read_cong m1_in) (auto simp: addresses_def)
    also have "\<dots> = node_address family (filter (of_family family) nodes ! i)" using fill that by (simp add: addresses_def)
    finally show ?thesis by (simp only: p cell.case) (simp add: entry)
  qed
  have view: "hostent_view m' entry (Suc (length host)) k =
      (string_bytes host, Pointer 0, map (node_address family) (filter (of_family family) nodes), Pointer 0)"
    using name ends each by (auto simp: hostent_view_def k_def intro!: nth_equalityI)
  have out: "m' x = m x" if "\<not> (buffer \<le> x \<and> x < buffer + room)" for x
  proof -
    have "buffer \<le> pointers" by (simp add: pointers_def)
    with that fit near show ?thesis
      by (cases "x < buffer")
        (auto simp: m' m2_def len name_at_def store_bytes_out store_pointer_out frame1 addresses_def)
  qed
  have "(buffer + (8 - buffer mod 8)) mod 8 = 0" by presburger
  then have "pointers mod 8 = 0" by (simp add: pointers_def)
  moreover have "buffer \<le> pointers" by (simp add: pointers_def)
  ultimately show ?thesis using view out fit by (auto simp: k_def [symmetric] entry name_at_def)
qed

text \<open>A \<open>gethostbyname2_r\<close> call answered by rules owns no memory afterwards: every node it allocated was
  released, and the table of own blocks is as before, whether it succeeded or failed. On \<open>ERANGE\<close> and on every
  other failure there is no result, the reason is reported and the caller's buffer was not touched.\<close>

theorem dns_hostent_balanced:
  assumes "rv_have_freeaddrinfo (le_real le)" "accounted st held"
    "chaos_dns_hostent_from_rules le name family buffer room m st = (answer, st')"
  shows "accounted st' held \<and> ls_owned st' = ls_owned st \<and>
    (case ha_result answer of
       None \<Rightarrow> ha_memory answer = m \<and> ha_h_error answer \<noteq> None \<and>
               ha_rc answer = (if ha_h_error answer = Some NETDB_INTERNAL then Some ERANGE else None)
     | Some entry \<Rightarrow> ha_rc answer = None \<and> h_addrtype entry = family)"
proof -
  let ?hints = "hints_zero\<lparr>hint_family := family, hint_socktype := 1, hint_flags := AI_CANONNAME\<rparr>"
  obtain rc nodes s1 where r: "chaos_dns_resolve_with_rules le (Some name) None (Some ?hints) st = (rc, nodes, s1)"
    by (metis prod_cases3)
  note run = assms(3) [unfolded chaos_dns_hostent_from_rules_def Let_def r prod.case]
  note got = resolve_outcome [OF assms(1,2) r]
  show ?thesis
  proof (cases rc)
    case (Some e)
    have "chaos_dns_h_errno_for e \<noteq> NETDB_INTERNAL" by (simp add: chaos_dns_h_errno_for_def split: gai_error.split)
    with Some run got show ?thesis by (auto simp: gone_def)
  next
    case None
    let ?s2 = "freeaddrinfo (le_real le) nodes s1"
    have "gone (ls_owned st) held ?s2" using got None free_ready [OF assms(1)] by auto
    then have s2: "accounted ?s2 held" "ls_owned ?s2 = ls_owned st" "accounted (?s2\<lparr>ls_errno := e\<rparr>) held" for e
      by (simp_all add: gone_def accounted_def)
    have filled: "h_addrtype entry = family" if "chaos_dns_fill_hostent name family nodes buffer room m = Inr (entry, m')" for entry m'
      using that by (auto simp: chaos_dns_fill_hostent_def Let_def split: if_splits)
    show ?thesis
    proof (cases "chaos_dns_fill_hostent name family nodes buffer room m")
      case (Inl e)
      with None run s2 show ?thesis by (cases "e = ERANGE") auto
    next
      case (Inr em)
      obtain entry m' where em: "em = (entry, m')" by fastforce
      with None run s2 Inr filled show ?thesis by auto
    qed
  qed
qed

definition fits_room :: "nat option \<Rightarrow> string \<Rightarrow> bool" where
  "fits_room room s = (case room of None \<Rightarrow> True | Some n \<Rightarrow> n = 0 \<or> length s < n)"

lemma rewrite_output_fits:
  "rewrite_output le effect query room written st = (Some s, st') \<Longrightarrow> fits_room room written \<Longrightarrow> fits_room room s"
  by (auto simp: rewrite_output_def fits_room_def chaos_dns_copy_output_text_def split: option.splits prod.splits if_splits)

text \<open>What \<open>getnameinfo\<close> writes fits: if the real function's texts fit the caller's buffers, so do the texts
  that rules put in their place, each with its end; a rule's text that does not fit is \<open>EAI_OVERFLOW\<close>.\<close>

theorem dns_nameinfo_fits:
  assumes "getnameinfo le ntop4 ntop6 (Some real_fn) guard call st = (Inr (host, service), st')"
    "\<And>h s. real_fn call = Inr (h, s) \<Longrightarrow> fits_room (ni_host_len call) h \<and> fits_room (ni_service_len call) s"
  shows "fits_room (ni_host_len call) host \<and> fits_room (ni_service_len call) service"
  using assms
  by (auto simp: getnameinfo_def chaos_dns_call_real_getnameinfo_def Let_def dest: rewrite_output_fits
      split: option.splits sum.splits prod.splits if_splits)

text \<open>A rewritten name of \<open>gethostbyaddr_r\<close> lies at the end of the caller's buffer, in the bytes kept from the real
  function: it can be read back, and what the real function laid out in its part is untouched.\<close>

lemma by_addr_rewrite:
  assumes "by_addr_call (Some f) (Some name) (Suc (length name)) address len family buffer room m st = (answer, st')"
    "Suc (length name) \<le> room"
    "f address len family buffer (room - Suc (length name)) m = real_answer" "ha_rc real_answer = None"
    "ha_result real_answer = Some entry"
  shows "(\<exists>e. ha_result answer = Some e \<and> e = entry\<lparr>h_name := h_name e\<rparr> \<and>
      read_bytes (h_name e) (Suc (length name)) (ha_memory answer) = string_bytes name \<and>
      buffer \<le> h_name e \<and> h_name e + Suc (length name) \<le> buffer + room) \<and>
    (\<forall>x. buffer + (room - Suc (length name)) \<le> x \<and> x < buffer + room \<or> ha_memory answer x = ha_memory real_answer x)"
proof -
  let ?at = "buffer + room - Suc (length name)"
  have a: "answer = real_answer\<lparr>ha_memory := store_bytes ?at (string_bytes name) (ha_memory real_answer),
      ha_result := Some (entry\<lparr>h_name := ?at\<rparr>)\<rparr>"
    using assms by (simp add: by_addr_call_def Let_def)
  have len: "length (string_bytes name) = Suc (length name)" by (simp add: string_bytes_def)
  have "read_bytes ?at (Suc (length name)) (ha_memory answer) = string_bytes name"
    using read_store_same [of ?at "string_bytes name"] by (simp add: a len)
  moreover have "ha_memory answer x = ha_memory real_answer x" if "\<not> (buffer + (room - Suc (length name)) \<le> x \<and> x < buffer + room)" for x
    using that assms(2) by (simp add: a store_bytes_def len) linarith
  ultimately show ?thesis using assms(2) by (auto simp: a)
qed

section \<open>Examples\<close>

definition v4_node :: ai_node where
  "v4_node = (sample_node 0 AF_INET (Some ''a.b''))\<lparr>ai_addr := Some ([2, 0, 0, 80, 10, 0, 0, 7] @ replicate 8 0)\<rparr>"

theorem dns_hostent_layout_witness:
  "case chaos_dns_fill_hostent ''x'' AF_INET [v4_node] 1001 64 (\<lambda>x. Rest) of
     Inl e \<Rightarrow> False
   | Inr (entry, m') \<Rightarrow> hostent_view m' entry 4 1 = (string_bytes ''a.b'', Pointer 0, [[10, 0, 0, 7]], Pointer 0)"
proof -
  have "\<exists>entry m'. chaos_dns_fill_hostent ''x'' AF_INET [v4_node] 1001 64 (\<lambda>x. Rest) = Inr (entry, m')"
    by (simp add: chaos_dns_fill_hostent_def v4_node_def sample_node_def of_family_def address_size_def AF_INET_def AF_INET6_def Let_def)
  then obtain entry m' where f: "chaos_dns_fill_hostent ''x'' AF_INET [v4_node] 1001 64 (\<lambda>x. Rest) = Inr (entry, m')" by blast
  have "(case ai_canonname (hd [v4_node]) of None \<Rightarrow> ''x'' | Some c \<Rightarrow> c) = ''a.b''" "filter (of_family AF_INET) [v4_node] = [v4_node]"
    "node_address AF_INET v4_node = [10, 0, 0, 7]"
    by (simp_all add: v4_node_def sample_node_def of_family_def node_address_def address_size_def AF_INET_def AF_INET6_def)
  moreover have "hostent_view m' entry (Suc (length (case ai_canonname (hd [v4_node]) of None \<Rightarrow> ''x'' | Some c \<Rightarrow> c)))
      (length (filter (of_family AF_INET) [v4_node])) =
    (string_bytes (case ai_canonname (hd [v4_node]) of None \<Rightarrow> ''x'' | Some c \<Rightarrow> c), Pointer 0,
     map (node_address AF_INET) (filter (of_family AF_INET) [v4_node]), Pointer 0)"
    by (rule dns_hostent_layout [OF f _ refl, THEN conjunct1]) (simp add: v4_node_def AF_INET_def AF_INET6_def)
  ultimately have "hostent_view m' entry (Suc 3) 1 = (string_bytes ''a.b'', Pointer 0, [[10, 0, 0, 7]], Pointer 0)"
    by (simp add: numeral_3_eq_3)
  then show ?thesis by (simp add: f)
qed

theorem dns_hostent_balanced_witness:
  "case chaos_dns_hostent_from_rules (lookup_demo []) ''a.b'' AF_INET 1001 64 (\<lambda>x. Rest) (sample_state 0) of
     (answer, st') \<Rightarrow> ha_h_error answer = Some NO_DATA \<and> ls_freed st' = [0, 1] \<and> accounted st' {#}"
proof -
  obtain answer st' where r: "chaos_dns_hostent_from_rules (lookup_demo []) ''a.b'' AF_INET 1001 64 (\<lambda>x. Rest) (sample_state 0) = (answer, st')"
    by fastforce
  have v: "(case chaos_dns_hostent_from_rules (lookup_demo []) ''a.b'' AF_INET 1001 64 (\<lambda>x. Rest) (sample_state 0) of
     (answer, st') \<Rightarrow> ha_h_error answer = Some NO_DATA \<and> ls_freed st' = [0, 1])" by code_simp
  have "accounted (sample_state 0) {#}" "rv_have_freeaddrinfo (le_real (lookup_demo []))"
    by (simp_all add: accounted_def sample_state_def owned_ids_def block_ids_def lookup_demo_def sample_resolver_def)
  from dns_hostent_balanced [OF this(2) this(1) r] v [unfolded r prod.case] show ?thesis by (simp add: r)
qed

theorem dns_nameinfo_fits_witness:
  "let call = \<lparr>ni_address = None, ni_address_len = 0, ni_host_len = Some 8, ni_service_len = None\<rparr>;
       real_fn = (\<lambda>c. Inr (''host'', ''''))
   in case getnameinfo (lookup_demo []) (\<lambda>b. None) (\<lambda>b. None) (Some real_fn) 0 call (sample_state 0) of
        (Inr (host, _), _) \<Rightarrow> host = ''host'' \<and> length host < 8
      | _ \<Rightarrow> False"
proof -
  let ?call = "\<lparr>ni_address = None, ni_address_len = 0, ni_host_len = Some 8, ni_service_len = None\<rparr>"
  let ?real = "\<lambda>c. Inr (''host'', '''')"
  have run: "getnameinfo (lookup_demo []) (\<lambda>b. None) (\<lambda>b. None) (Some ?real) 0 ?call (sample_state 0) =
      (Inr (''host'', ''''), sample_state 0)"
    by (simp add: getnameinfo_def chaos_dns_call_real_getnameinfo_def chaos_dns_in_internal_def)
  have "fits_room (Some 8) ''host''"
    using dns_nameinfo_fits [OF run] by (simp add: fits_room_def)
  then show ?thesis by (simp add: run fits_room_def)
qed

end
