(* ===== verification/Net_Reload.thy ===== *)
theory Net_Reload
  imports Net_Config Rule_Reload
begin

text \<open>
  The network library's copy of the rule file machinery (\<open>src/net/chaos_net_config.c\<close>): its functions are those of
  \<open>Rule_Reload\<close> with the limits, paths, parser and stamp correction of this library.
\<close>

section \<open>The functions\<close>

type_synonym net_lib = "chaos_net_rule rule_lib"

definition CHAOS_NET_MAX_LINE_LENGTH :: nat where "CHAOS_NET_MAX_LINE_LENGTH = 1024"
definition CHAOS_NET_MAX_CONFIG_BYTES :: nat where
  "CHAOS_NET_MAX_CONFIG_BYTES = CHAOS_NET_MAX_RULES * CHAOS_NET_MAX_LINE_LENGTH"
definition CHAOS_NET_STATUS_PATH :: string where "CHAOS_NET_STATUS_PATH = ''/tmp/.chaos-net.status''"
definition CHAOS_NET_HITS_PREFIX :: string where "CHAOS_NET_HITS_PREFIX = ''/tmp/.chaos-net.hits''"

definition chaos_net_config_normalize_mtime_hash :: "u64 \<Rightarrow> u64" where
  "chaos_net_config_normalize_mtime_hash x =
     (if x = CHAOS_IO_MTIME_MISSING \<or> x = CHAOS_IO_MTIME_RELOADING \<or> x = CHAOS_IO_MTIME_UNKNOWN
      then x XOR 0x9e3779b97f4a7c15 else x)"

definition net_reload :: "pton \<Rightarrow> pton \<Rightarrow> chaos_net_rule reload_params" where
  "net_reload pton4 pton6 =
     \<lparr>rp_normalize = chaos_net_config_normalize_mtime_hash,
      rp_parse = chaos_net_config_parse_buffer pton4 pton6 chaos_net_rule_supported,
      rp_max_rules = CHAOS_NET_MAX_RULES, rp_max_bytes = CHAOS_NET_MAX_CONFIG_BYTES,
      rp_status_path = CHAOS_NET_STATUS_PATH, rp_hits_prefix = CHAOS_NET_HITS_PREFIX,
      rp_reset_counters = (\<lambda>counters. counters)\<rparr>"

definition chaos_net_config_reset_state :: "bool \<Rightarrow> chaos_net_rule rule_state \<Rightarrow> chaos_net_rule rule_state" where
  "chaos_net_config_reset_state = reload_reset_state"

definition chaos_net_config_active_state :: "net_lib \<Rightarrow> chaos_net_rule rule_state" where
  "chaos_net_config_active_state = reload_active_state"

definition chaos_net_config_publish :: "pton \<Rightarrow> pton \<Rightarrow> nat \<Rightarrow> u64 \<Rightarrow> net_lib \<Rightarrow> net_lib" where
  "chaos_net_config_publish pton4 pton6 = reload_publish (net_reload pton4 pton6)"

definition chaos_net_config_hash_mtime :: "pton \<Rightarrow> pton \<Rightarrow> file_stamp option \<Rightarrow> u64" where
  "chaos_net_config_hash_mtime pton4 pton6 = reload_hash_mtime (net_reload pton4 pton6)"

definition chaos_net_config_observed_mtime :: "pton \<Rightarrow> pton \<Rightarrow> io_env \<Rightarrow> u64" where
  "chaos_net_config_observed_mtime pton4 pton6 = reload_observed_mtime (net_reload pton4 pton6)"

definition chaos_net_config_read_file :: "pton \<Rightarrow> pton \<Rightarrow> io_env \<Rightarrow> u64 \<Rightarrow> net_lib \<Rightarrow> read_result \<times> net_lib" where
  "chaos_net_config_read_file pton4 pton6 = reload_read_file (net_reload pton4 pton6)"

definition chaos_net_config_init :: "pton \<Rightarrow> pton \<Rightarrow> io_env \<Rightarrow> net_lib \<Rightarrow> net_lib" where
  "chaos_net_config_init pton4 pton6 = reload_init (net_reload pton4 pton6)"

definition chaos_net_config_last_error :: "net_lib \<Rightarrow> chaos_status_error" where
  "chaos_net_config_last_error = rl_error"

definition chaos_net_config_reject_file :: "nat \<Rightarrow> status_reason \<Rightarrow> net_lib \<Rightarrow> net_lib" where
  "chaos_net_config_reject_file = reload_reject_file"

definition chaos_net_config_report_hits :: "pton \<Rightarrow> pton \<Rightarrow> io_env \<Rightarrow> bool \<Rightarrow> net_lib \<Rightarrow> net_lib" where
  "chaos_net_config_report_hits pton4 pton6 = reload_report_hits (net_reload pton4 pton6)"

definition chaos_net_config_after_fork :: "pton \<Rightarrow> pton \<Rightarrow> io_env \<Rightarrow> net_lib \<Rightarrow> net_lib" where
  "chaos_net_config_after_fork pton4 pton6 = reload_after_fork (net_reload pton4 pton6)"

definition chaos_net_config_report_hits_at_exit :: "pton \<Rightarrow> pton \<Rightarrow> io_env \<Rightarrow> net_lib \<Rightarrow> net_lib" where
  "chaos_net_config_report_hits_at_exit pton4 pton6 env lib = chaos_net_config_report_hits pton4 pton6 env False lib"

definition chaos_net_config_attach_hits :: "nat \<Rightarrow> net_lib \<Rightarrow> net_lib" where
  "chaos_net_config_attach_hits = reload_attach_hits"

definition chaos_net_config_report :: "pton \<Rightarrow> pton \<Rightarrow> io_env \<Rightarrow> u64 \<Rightarrow> chaos_net_rule rule_state \<Rightarrow> net_lib \<Rightarrow> net_lib" where
  "chaos_net_config_report pton4 pton6 = reload_report (net_reload pton4 pton6)"

definition chaos_net_config_checked_recently :: "io_env \<Rightarrow> net_lib \<Rightarrow> bool \<times> net_lib" where
  "chaos_net_config_checked_recently = reload_checked_recently"

definition chaos_net_config_refresh :: "pton \<Rightarrow> pton \<Rightarrow> io_env \<Rightarrow> net_lib \<Rightarrow> bool \<times> net_lib" where
  "chaos_net_config_refresh pton4 pton6 = reload_refresh (net_reload pton4 pton6)"

definition chaos_net_config_prepare :: "pton \<Rightarrow> pton \<Rightarrow> io_env \<Rightarrow> net_lib \<Rightarrow> bool \<times> net_lib" where
  "chaos_net_config_prepare pton4 pton6 env lib = chaos_net_config_refresh pton4 pton6 env lib"

text \<open>The part of the refresh that follows the claim of the reload.\<close>

definition net_reload_claimed :: "pton \<Rightarrow> pton \<Rightarrow> io_env \<Rightarrow> u64 \<Rightarrow> u64 \<Rightarrow> net_lib \<Rightarrow> net_lib" where
  "net_reload_claimed pton4 pton6 = reload_run (net_reload pton4 pton6)"

section \<open>The contract of the reload\<close>

lemmas net_reload_defs = chaos_net_config_active_state_def chaos_net_config_hash_mtime_def chaos_net_config_observed_mtime_def
  chaos_net_config_read_file_def chaos_net_config_init_def chaos_net_config_refresh_def chaos_net_config_after_fork_def
  chaos_net_config_checked_recently_def net_reload_claimed_def

lemma net_reload_simps [simp]:
  "rp_max_rules (net_reload pton4 pton6) = CHAOS_NET_MAX_RULES" "rp_reset_counters (net_reload pton4 pton6) counters = counters"
  "rp_status_path (net_reload pton4 pton6) = CHAOS_NET_STATUS_PATH"
  "rp_parse (net_reload pton4 pton6) err data = chaos_net_config_parse_buffer pton4 pton6 chaos_net_rule_supported err data"
  by (simp_all add: net_reload_def)

interpretation net_store: reload_library "net_reload pton4 pton6" for pton4 pton6
  by (rule grammar_reload_library [OF net_lines.line_grammar_axioms, of _ pton4 pton6 chaos_net_rule_supported CHAOS_NET_MAX_RULES])
    (simp_all add: net_reload_def fun_eq_iff chaos_net_config_parse_buffer_def)


definition demo_net_stamp :: u64 where
  "demo_net_stamp = chaos_net_config_hash_mtime (\<lambda>_. None) (\<lambda>_. None) (ev_fstat demo_io_env)"

lemma demo_net_stamp_ok: "demo_net_stamp \<noteq> CHAOS_IO_MTIME_MISSING" "demo_net_stamp \<noteq> CHAOS_IO_MTIME_UNKNOWN"
  by (simp_all add: demo_net_stamp_def chaos_net_config_hash_mtime_def reload_hash_mtime_def demo_io_env_def net_reload_def
      chaos_net_config_normalize_mtime_hash_def CHAOS_IO_MTIME_MISSING_def CHAOS_IO_MTIME_UNKNOWN_def CHAOS_IO_MTIME_RELOADING_def)


end
