(* ===== verification/Dns_Reload.thy ===== *)
theory Dns_Reload
  imports Dns_Config Rule_Reload
begin

text \<open>
  The resolver library's copy of the rule file machinery (\<open>src/dns/chaos_dns_config.c\<close>): its functions are those of
  \<open>Rule_Reload\<close> with the limits, paths, parser and stamp correction of this library.
\<close>

section \<open>The functions\<close>

type_synonym dns_lib = "chaos_dns_rule rule_lib"

definition CHAOS_DNS_MAX_LINE_LENGTH :: nat where "CHAOS_DNS_MAX_LINE_LENGTH = 1024"
definition CHAOS_DNS_MAX_CONFIG_BYTES :: nat where
  "CHAOS_DNS_MAX_CONFIG_BYTES = CHAOS_DNS_MAX_RULES * CHAOS_DNS_MAX_LINE_LENGTH"
definition CHAOS_DNS_STATUS_PATH :: string where "CHAOS_DNS_STATUS_PATH = ''/tmp/.chaos-dns.status''"
definition CHAOS_DNS_HITS_PREFIX :: string where "CHAOS_DNS_HITS_PREFIX = ''/tmp/.chaos-dns.hits''"

definition chaos_dns_config_normalize_mtime_hash :: "u64 \<Rightarrow> u64" where
  "chaos_dns_config_normalize_mtime_hash x =
     (if x = CHAOS_IO_MTIME_MISSING \<or> x = CHAOS_IO_MTIME_RELOADING \<or> x = CHAOS_IO_MTIME_UNKNOWN
      then x XOR 0x9e3779b97f4a7c15 else x)"

definition dns_reload :: "pton \<Rightarrow> pton \<Rightarrow> ntop \<Rightarrow> ntop \<Rightarrow> chaos_dns_rule reload_params" where
  "dns_reload pton4 pton6 ntop4 ntop6 =
     \<lparr>rp_normalize = chaos_dns_config_normalize_mtime_hash,
      rp_parse = chaos_dns_config_parse_buffer pton4 pton6 ntop4 ntop6,
      rp_max_rules = CHAOS_DNS_MAX_RULES, rp_max_bytes = CHAOS_DNS_MAX_CONFIG_BYTES,
      rp_status_path = CHAOS_DNS_STATUS_PATH, rp_hits_prefix = CHAOS_DNS_HITS_PREFIX,
      rp_reset_counters = (\<lambda>counters. counters)\<rparr>"

definition chaos_dns_config_reset_state :: "bool \<Rightarrow> chaos_dns_rule rule_state \<Rightarrow> chaos_dns_rule rule_state" where
  "chaos_dns_config_reset_state = reload_reset_state"

definition chaos_dns_config_active_state :: "dns_lib \<Rightarrow> chaos_dns_rule rule_state" where
  "chaos_dns_config_active_state = reload_active_state"

definition chaos_dns_config_publish :: "pton \<Rightarrow> pton \<Rightarrow> ntop \<Rightarrow> ntop \<Rightarrow> nat \<Rightarrow> u64 \<Rightarrow> dns_lib \<Rightarrow> dns_lib" where
  "chaos_dns_config_publish pton4 pton6 ntop4 ntop6 = reload_publish (dns_reload pton4 pton6 ntop4 ntop6)"

definition chaos_dns_config_hash_mtime :: "pton \<Rightarrow> pton \<Rightarrow> ntop \<Rightarrow> ntop \<Rightarrow> file_stamp option \<Rightarrow> u64" where
  "chaos_dns_config_hash_mtime pton4 pton6 ntop4 ntop6 = reload_hash_mtime (dns_reload pton4 pton6 ntop4 ntop6)"

definition chaos_dns_config_observed_mtime :: "pton \<Rightarrow> pton \<Rightarrow> ntop \<Rightarrow> ntop \<Rightarrow> io_env \<Rightarrow> u64" where
  "chaos_dns_config_observed_mtime pton4 pton6 ntop4 ntop6 = reload_observed_mtime (dns_reload pton4 pton6 ntop4 ntop6)"

definition chaos_dns_config_read_file :: "pton \<Rightarrow> pton \<Rightarrow> ntop \<Rightarrow> ntop \<Rightarrow> io_env \<Rightarrow> u64 \<Rightarrow> dns_lib \<Rightarrow> read_result \<times> dns_lib" where
  "chaos_dns_config_read_file pton4 pton6 ntop4 ntop6 = reload_read_file (dns_reload pton4 pton6 ntop4 ntop6)"

definition chaos_dns_config_init :: "pton \<Rightarrow> pton \<Rightarrow> ntop \<Rightarrow> ntop \<Rightarrow> io_env \<Rightarrow> dns_lib \<Rightarrow> dns_lib" where
  "chaos_dns_config_init pton4 pton6 ntop4 ntop6 = reload_init (dns_reload pton4 pton6 ntop4 ntop6)"

definition chaos_dns_config_last_error :: "dns_lib \<Rightarrow> chaos_status_error" where
  "chaos_dns_config_last_error = rl_error"

definition chaos_dns_config_reject_file :: "nat \<Rightarrow> status_reason \<Rightarrow> dns_lib \<Rightarrow> dns_lib" where
  "chaos_dns_config_reject_file = reload_reject_file"

definition chaos_dns_config_report_hits :: "pton \<Rightarrow> pton \<Rightarrow> ntop \<Rightarrow> ntop \<Rightarrow> io_env \<Rightarrow> bool \<Rightarrow> dns_lib \<Rightarrow> dns_lib" where
  "chaos_dns_config_report_hits pton4 pton6 ntop4 ntop6 = reload_report_hits (dns_reload pton4 pton6 ntop4 ntop6)"

definition chaos_dns_config_after_fork :: "pton \<Rightarrow> pton \<Rightarrow> ntop \<Rightarrow> ntop \<Rightarrow> io_env \<Rightarrow> dns_lib \<Rightarrow> dns_lib" where
  "chaos_dns_config_after_fork pton4 pton6 ntop4 ntop6 = reload_after_fork (dns_reload pton4 pton6 ntop4 ntop6)"

definition chaos_dns_config_report_hits_at_exit :: "pton \<Rightarrow> pton \<Rightarrow> ntop \<Rightarrow> ntop \<Rightarrow> io_env \<Rightarrow> dns_lib \<Rightarrow> dns_lib" where
  "chaos_dns_config_report_hits_at_exit pton4 pton6 ntop4 ntop6 env lib = chaos_dns_config_report_hits pton4 pton6 ntop4 ntop6 env False lib"

definition chaos_dns_config_attach_hits :: "nat \<Rightarrow> dns_lib \<Rightarrow> dns_lib" where
  "chaos_dns_config_attach_hits = reload_attach_hits"

definition chaos_dns_config_report :: "pton \<Rightarrow> pton \<Rightarrow> ntop \<Rightarrow> ntop \<Rightarrow> io_env \<Rightarrow> u64 \<Rightarrow> chaos_dns_rule rule_state \<Rightarrow> dns_lib \<Rightarrow> dns_lib" where
  "chaos_dns_config_report pton4 pton6 ntop4 ntop6 = reload_report (dns_reload pton4 pton6 ntop4 ntop6)"

definition chaos_dns_config_checked_recently :: "io_env \<Rightarrow> dns_lib \<Rightarrow> bool \<times> dns_lib" where
  "chaos_dns_config_checked_recently = reload_checked_recently"

definition chaos_dns_config_refresh :: "pton \<Rightarrow> pton \<Rightarrow> ntop \<Rightarrow> ntop \<Rightarrow> io_env \<Rightarrow> dns_lib \<Rightarrow> bool \<times> dns_lib" where
  "chaos_dns_config_refresh pton4 pton6 ntop4 ntop6 = reload_refresh (dns_reload pton4 pton6 ntop4 ntop6)"

definition chaos_dns_config_prepare :: "pton \<Rightarrow> pton \<Rightarrow> ntop \<Rightarrow> ntop \<Rightarrow> io_env \<Rightarrow> dns_lib \<Rightarrow> bool \<times> dns_lib" where
  "chaos_dns_config_prepare pton4 pton6 ntop4 ntop6 env lib = chaos_dns_config_refresh pton4 pton6 ntop4 ntop6 env lib"

text \<open>The part of the refresh that follows the claim of the reload.\<close>

definition dns_reload_claimed :: "pton \<Rightarrow> pton \<Rightarrow> ntop \<Rightarrow> ntop \<Rightarrow> io_env \<Rightarrow> u64 \<Rightarrow> u64 \<Rightarrow> dns_lib \<Rightarrow> dns_lib" where
  "dns_reload_claimed pton4 pton6 ntop4 ntop6 = reload_run (dns_reload pton4 pton6 ntop4 ntop6)"

section \<open>The contract of the reload\<close>

lemmas dns_reload_defs = chaos_dns_config_active_state_def chaos_dns_config_hash_mtime_def chaos_dns_config_observed_mtime_def
  chaos_dns_config_read_file_def chaos_dns_config_init_def chaos_dns_config_refresh_def chaos_dns_config_after_fork_def
  chaos_dns_config_checked_recently_def dns_reload_claimed_def

lemma dns_reload_simps [simp]:
  "rp_max_rules (dns_reload pton4 pton6 ntop4 ntop6) = CHAOS_DNS_MAX_RULES"
  "rp_reset_counters (dns_reload pton4 pton6 ntop4 ntop6) counters = counters"
  "rp_status_path (dns_reload pton4 pton6 ntop4 ntop6) = CHAOS_DNS_STATUS_PATH"
  "rp_parse (dns_reload pton4 pton6 ntop4 ntop6) err data = chaos_dns_config_parse_buffer pton4 pton6 ntop4 ntop6 err data"
  by (simp_all add: dns_reload_def)

interpretation dns_store: reload_library "dns_reload pton4 pton6 ntop4 ntop6" for pton4 pton6 ntop4 ntop6
  by (rule grammar_reload_library [OF dns_lines.line_grammar_axioms, of _ pton4 pton6 ntop4 ntop6 dns_rule_supported CHAOS_DNS_MAX_RULES])
    (simp_all add: dns_reload_def fun_eq_iff chaos_dns_config_parse_buffer_def dns_parse_line_form)



end
