(* ===== verification/Time_Config.thy ===== *)
theory Time_Config
  imports Rule_Values
begin

text \<open>
  The rule file of the clock library: selectors for operations and clocks, values, the line and the buffer
  parser, and selection (\<open>src/time/chaos_time_config.c\<close>). A clock is a signed 32-bit identifier; the names
  stand for those of Linux.
\<close>

section \<open>Data\<close>

datatype chaos_time_operation =
  CHAOS_TIME_OP_INVALID | CHAOS_TIME_OP_CLOCK_GETTIME | CHAOS_TIME_OP_NANOSLEEP | CHAOS_TIME_OP_USLEEP

datatype chaos_time_selector_kind =
  CHAOS_TIME_SELECTOR_INVALID | CHAOS_TIME_SELECTOR_ANY | CHAOS_TIME_SELECTOR_OPERATION | CHAOS_TIME_SELECTOR_CLOCK_ID

datatype chaos_time_effect =
  CHAOS_TIME_EFFECT_INVALID | CHAOS_TIME_EFFECT_ERRNO | CHAOS_TIME_EFFECT_LATENCY | CHAOS_TIME_EFFECT_OFFSET
| CHAOS_TIME_EFFECT_REGRESS

type_synonym clockid = "32 word"

record chaos_time_selector =
  tsel_kind :: chaos_time_selector_kind
  tsel_operation :: chaos_time_operation
  tsel_clock_id :: clockid
  tsel_len :: nat
  tsel_text :: string

record chaos_time_rule = rule_head +
  time_selector :: chaos_time_selector
  time_effect :: chaos_time_effect
  time_errnum :: "errnum option"
  time_probability :: rat
  time_latency_ms :: nat
  time_offset_ms :: int

definition CHAOS_TIME_MAX_RULES :: nat where "CHAOS_TIME_MAX_RULES = 256"
definition CHAOS_TIME_MAX_TEXT :: nat where "CHAOS_TIME_MAX_TEXT = 128"
definition CHAOS_TIME_MAX_VALUE :: nat where "CHAOS_TIME_MAX_VALUE = 256"

definition time_selector_zero :: chaos_time_selector where
  "time_selector_zero = \<lparr>tsel_kind = CHAOS_TIME_SELECTOR_ANY, tsel_operation = CHAOS_TIME_OP_CLOCK_GETTIME,
     tsel_clock_id = 0, tsel_len = 0, tsel_text = []\<rparr>"

definition time_rule_zero :: chaos_time_rule where
  "time_rule_zero =
     \<lparr>rh_policy = policy_zero, rh_call_size = 0, rh_hit = None, rh_hit_generation = 0,
      time_selector = time_selector_zero, time_effect = CHAOS_TIME_EFFECT_ERRNO, time_errnum = None,
      time_probability = 0, time_latency_ms = 0, time_offset_ms = 0\<rparr>"

section \<open>Text helpers\<close>

definition chaos_time_is_blank_char :: "char \<Rightarrow> bool" where
  "chaos_time_is_blank_char ch \<longleftrightarrow> ch = CHR '' '' \<or> ch = TAB \<or> ch = CR \<or> ch = LF"

definition chaos_time_trim :: "string \<Rightarrow> string" where
  "chaos_time_trim s =
     (let t = dropWhile chaos_time_is_blank_char s
      in if t = [] then t else rstrip chaos_time_is_blank_char t)"

definition chaos_time_strip_comment :: "string \<Rightarrow> string" where
  "chaos_time_strip_comment line =
     (case split_first CHR ''#'' line of None \<Rightarrow> line | Some (before, _) \<Rightarrow> before)"

section \<open>Selectors\<close>

definition chaos_time_parse_clock_id :: "string \<Rightarrow> clockid option" where
  "chaos_time_parse_clock_id s =
     (if s = [] then None
      else if s = ''realtime'' then Some 0
      else if s = ''monotonic'' then Some 1
      else if s = ''monotonic_raw'' then Some 4
      else if s = ''realtime_coarse'' then Some 5
      else if s = ''monotonic_coarse'' then Some 6
      else if s = ''boottime'' then Some 7
      else if s = ''tai'' then Some 11
      else if s = ''process_cputime_id'' then Some 2
      else if s = ''thread_cputime_id'' then Some 3
      else let (value, rest, converted, _) = strtol s
           in if \<not> converted \<or> chaos_time_trim rest \<noteq> [] then None else Some (word_of_int value))"

definition chaos_time_selector_parse :: "string \<Rightarrow> chaos_time_selector option" where
  "chaos_time_selector_parse s =
     (if s = [] then None
      else let selector = time_selector_zero\<lparr>tsel_len := length s\<rparr>
           in if s = ''*''
              then Some (selector\<lparr>tsel_kind := CHAOS_TIME_SELECTOR_ANY, tsel_operation := CHAOS_TIME_OP_INVALID\<rparr>)
              else if s = ''clock_gettime''
              then Some (selector\<lparr>tsel_kind := CHAOS_TIME_SELECTOR_OPERATION, tsel_operation := CHAOS_TIME_OP_CLOCK_GETTIME\<rparr>)
              else case after_prefix ''clock_gettime/'' s of
                Some clock_text \<Rightarrow>
                  (case chaos_time_parse_clock_id clock_text of
                     None \<Rightarrow> None
                   | Some clock_id \<Rightarrow>
                       (if CHAOS_TIME_MAX_TEXT \<le> length clock_text then None
                        else Some (selector\<lparr>tsel_clock_id := clock_id, tsel_kind := CHAOS_TIME_SELECTOR_CLOCK_ID,
                               tsel_operation := CHAOS_TIME_OP_CLOCK_GETTIME, tsel_text := clock_text\<rparr>)))
              | None \<Rightarrow>
                  (if s = ''nanosleep''
                   then Some (selector\<lparr>tsel_kind := CHAOS_TIME_SELECTOR_OPERATION, tsel_operation := CHAOS_TIME_OP_NANOSLEEP\<rparr>)
                   else if s = ''usleep''
                   then Some (selector\<lparr>tsel_kind := CHAOS_TIME_SELECTOR_OPERATION, tsel_operation := CHAOS_TIME_OP_USLEEP\<rparr>)
                   else None))"

text \<open>The rank of the match, \<open>None\<close> where the function returns 0.\<close>

definition chaos_time_selector_matches ::
  "chaos_time_selector \<Rightarrow> chaos_time_operation \<Rightarrow> clockid \<Rightarrow> nat option" where
  "chaos_time_selector_matches selector operation clock_id =
     (if tsel_kind selector = CHAOS_TIME_SELECTOR_ANY then Some 1
      else if tsel_operation selector \<noteq> operation then None
      else if tsel_kind selector = CHAOS_TIME_SELECTOR_OPERATION then Some 2
      else if tsel_kind selector = CHAOS_TIME_SELECTOR_CLOCK_ID \<and> tsel_clock_id selector = clock_id then Some 3
      else None)"

section \<open>Values\<close>

definition chaos_time_parse_errno_name :: "string \<Rightarrow> errnum option" where
  "chaos_time_parse_errno_name s =
     (if s = ''EINVAL'' then Some (Errno_Name EINVAL)
      else if s = ''EFAULT'' then Some (Errno_Name EFAULT)
      else if s = ''EINTR'' then Some (Errno_Name EINTR)
      else if s = ''EPERM'' then Some (Errno_Name EPERM)
      else if s = ''ENOSYS'' then Some (Errno_Name ENOSYS)
      else if s = ''EAGAIN'' then Some (Errno_Name EAGAIN)
      else let (value, rest, converted, _) = strtol s
           in if \<not> converted \<or> chaos_time_trim rest \<noteq> [] \<or> value \<le> 0 \<or> 0x7fffffff < value then None
              else Some (Errno_Number value))"

definition chaos_time_parse_probability :: "string \<Rightarrow> rat option" where
  "chaos_time_parse_probability s = chaos_policy_parse_probability (Some s)"

definition chaos_time_copy_text_value :: "string \<Rightarrow> nat \<Rightarrow> string option" where
  "chaos_time_copy_text_value s buffer_size = (if length s = 0 \<or> buffer_size \<le> length s then None else Some s)"

definition chaos_time_parse_payload_probability :: "string \<Rightarrow> nat \<Rightarrow> (string \<times> rat) option" where
  "chaos_time_parse_payload_probability s payload_size =
     (case split_last CHR ''@'' s of
        None \<Rightarrow> map_option (\<lambda>payload. (payload, 1)) (chaos_time_copy_text_value s payload_size)
      | Some (before, after) \<Rightarrow>
          (if length before = 0 \<or> payload_size \<le> length before then None
           else map_option (\<lambda>p. (before, p)) (chaos_time_parse_probability after)))"

definition chaos_time_parse_latency :: "string \<Rightarrow> nat option" where
  "chaos_time_parse_latency s =
     (let (value, rest, converted) = strtoul s
      in if \<not> converted \<or> chaos_time_trim rest \<noteq> [] \<or> 0xffffffff < value then None else Some value)"

definition CHAOS_TIME_MAX_OFFSET_MS :: int where "CHAOS_TIME_MAX_OFFSET_MS = 3155760000000"

definition chaos_time_parse_offset :: "string \<Rightarrow> int option" where
  "chaos_time_parse_offset s =
     (let (value, rest, converted, range) = strtol s
      in if \<not> converted \<or> chaos_time_trim rest \<noteq> [] \<or> range \<or>
            CHAOS_TIME_MAX_OFFSET_MS < value \<or> value < - CHAOS_TIME_MAX_OFFSET_MS then None
         else Some value)"

definition chaos_time_effect_allowed :: "chaos_time_selector \<Rightarrow> chaos_time_effect \<Rightarrow> bool" where
  "chaos_time_effect_allowed selector effect =
     (if effect = CHAOS_TIME_EFFECT_ERRNO \<or> effect = CHAOS_TIME_EFFECT_LATENCY then True
      else if effect \<noteq> CHAOS_TIME_EFFECT_OFFSET \<and> effect \<noteq> CHAOS_TIME_EFFECT_REGRESS then False
      else tsel_kind selector \<noteq> CHAOS_TIME_SELECTOR_ANY \<and> tsel_operation selector = CHAOS_TIME_OP_CLOCK_GETTIME)"

section \<open>One line\<close>

definition chaos_time_split_rule_fields :: "string \<Rightarrow> (string \<times> string \<times> string) option" where
  "chaos_time_split_rule_fields line =
     (case split_first CHR '':'' line of
        None \<Rightarrow> None
      | Some (selector, rest) \<Rightarrow>
          (case split_first CHR '':'' rest of
             None \<Rightarrow> None
           | Some (effect, payload) \<Rightarrow>
               Some (chaos_time_trim selector, chaos_time_trim effect, chaos_time_trim payload)))"

text \<open>The chain of comparisons on the effect of a line.\<close>

definition time_parse_effect :: "string \<Rightarrow> string \<Rightarrow> chaos_time_rule \<Rightarrow> chaos_time_rule option" where
  "time_parse_effect effect text_value rule =
     (let with_payload = (\<lambda>code. case chaos_time_parse_payload_probability text_value CHAOS_TIME_MAX_VALUE of
            None \<Rightarrow> None
          | Some (payload, p) \<Rightarrow> code payload (rule\<lparr>time_probability := p\<rparr>))
      in if effect = ''ERRNO'' then
           with_payload (\<lambda>payload r. map_option (\<lambda>e. r\<lparr>time_effect := CHAOS_TIME_EFFECT_ERRNO, time_errnum := Some e\<rparr>)
             (chaos_time_parse_errno_name payload))
         else if effect = ''LATENCY'' then
           with_payload (\<lambda>payload r. map_option (\<lambda>ms. r\<lparr>time_effect := CHAOS_TIME_EFFECT_LATENCY, time_latency_ms := ms\<rparr>)
             (chaos_time_parse_latency payload))
         else if effect = ''OFFSET'' then
           (if \<not> chaos_time_effect_allowed (time_selector rule) CHAOS_TIME_EFFECT_OFFSET then None
            else with_payload (\<lambda>payload r. map_option (\<lambda>ms. r\<lparr>time_effect := CHAOS_TIME_EFFECT_OFFSET, time_offset_ms := ms\<rparr>)
              (chaos_time_parse_offset payload)))
         else if effect = ''REGRESS'' then
           (if \<not> chaos_time_effect_allowed (time_selector rule) CHAOS_TIME_EFFECT_REGRESS \<or>
               tsel_kind (time_selector rule) \<noteq> CHAOS_TIME_SELECTOR_CLOCK_ID then None
            else with_payload (\<lambda>payload r. case chaos_time_parse_offset payload of
                   None \<Rightarrow> None
                 | Some ms \<Rightarrow> (if ms \<le> 0 then None
                               else Some (r\<lparr>time_effect := CHAOS_TIME_EFFECT_REGRESS, time_offset_ms := ms\<rparr>))))
         else None)"

definition time_parse_cursor :: "string \<Rightarrow> chaos_time_rule line_result" where
  "time_parse_cursor cursor =
     (case chaos_time_split_rule_fields cursor of
        None \<Rightarrow> Line_Invalid
      | Some (selector, effect, text_value) \<Rightarrow>
          (if selector = [] \<or> effect = [] \<or> text_value = [] then Line_Invalid
           else case chaos_time_selector_parse selector of
                  None \<Rightarrow> Line_Invalid
                | Some s \<Rightarrow>
                    (case time_parse_effect effect text_value (time_rule_zero\<lparr>time_selector := s\<rparr>) of
                       None \<Rightarrow> Line_Invalid
                     | Some r \<Rightarrow> Line_Rule r)))"

definition chaos_time_config_parse_line :: "string \<Rightarrow> chaos_time_rule line_result" where
  "chaos_time_config_parse_line line =
     (let cursor = chaos_time_trim (chaos_time_strip_comment line)
      in if cursor = [] then Line_Blank else time_parse_cursor cursor)"

section \<open>The file and selection\<close>

definition time_rule_supported :: "chaos_time_rule \<Rightarrow> bool" where
  "time_rule_supported rule \<longleftrightarrow> True"

definition chaos_time_config_parse_buffer :: "chaos_status_error \<Rightarrow> string \<Rightarrow> chaos_time_rule parse_result" where
  "chaos_time_config_parse_buffer err buffer =
     parse_rule_buffer chaos_time_config_parse_line time_rule_supported CHAOS_TIME_MAX_RULES err buffer"

definition chaos_time_config_select_rule ::
  "chaos_time_rule list \<Rightarrow> chaos_time_effect \<Rightarrow> chaos_time_operation \<Rightarrow> clockid \<Rightarrow> chaos_time_rule option" where
  "chaos_time_config_select_rule rules effect operation clock_id =
     ranked_from
       (\<lambda>r. if time_effect r \<noteq> effect then None else chaos_time_selector_matches (time_selector r) operation clock_id)
       (\<lambda>r. tsel_len (time_selector r)) None rules"

definition chaos_time_config_match_loaded ::
  "chaos_time_rule rule_snapshot \<Rightarrow> u64 \<Rightarrow> chaos_time_effect \<Rightarrow> chaos_time_operation \<Rightarrow> clockid
     \<Rightarrow> chaos_time_rule option" where
  "chaos_time_config_match_loaded st sequence_after effect operation clock_id =
     match_snapshot (\<lambda>rules. chaos_time_config_select_rule rules effect operation clock_id) st sequence_after"

section \<open>The helpers are the shared ones\<close>

lemma time_blank_eq: "chaos_time_is_blank_char = is_blank_char"
  by (auto simp: fun_eq_iff chaos_time_is_blank_char_def is_blank_char_def)

lemma time_trim_eq: "chaos_time_trim = trim_blanks"
  by (rule ext) (simp only: chaos_time_trim_def time_blank_eq trim_form)

lemma time_strip_comment_eq: "chaos_time_strip_comment = cut_comment"
  by (rule ext) (simp only: chaos_time_strip_comment_def strip_form)

lemma time_split_eq: "chaos_time_split_rule_fields = split_fields"
  by (simp add: fun_eq_iff chaos_time_split_rule_fields_def split_fields_def time_trim_eq split: option.split prod.split)

lemma time_payload_eq: "chaos_time_parse_payload_probability = payload_probability"
  by (simp add: fun_eq_iff chaos_time_parse_payload_probability_def payload_probability_def copy_text_def
      chaos_time_copy_text_value_def chaos_time_parse_probability_def split: option.split prod.split)

lemma time_latency_eq: "chaos_time_parse_latency = latency_value"
  by (simp add: fun_eq_iff chaos_time_parse_latency_def latency_value_def time_trim_eq)

lemma time_errno_cases:
  "chaos_time_parse_errno_name s = Some e \<Longrightarrow> (\<exists>n. e = Errno_Name n) \<or> errno_number s = Some e"
  by (auto simp: chaos_time_parse_errno_name_def errno_number_def time_trim_eq split: if_splits)

lemmas time_helpers = time_trim_eq time_strip_comment_eq time_split_eq time_payload_eq time_latency_eq

lemma time_parse_line_form: "chaos_time_config_parse_line = trimmed_line time_parse_cursor"
  by (simp add: fun_eq_iff chaos_time_config_parse_line_def trimmed_line_def time_trim_eq time_strip_comment_eq)

section \<open>Well-formed rules\<close>

definition time_rule_ok :: "chaos_time_rule \<Rightarrow> bool" where
  "time_rule_ok r \<longleftrightarrow>
     tsel_kind (time_selector r) \<noteq> CHAOS_TIME_SELECTOR_INVALID \<and> 0 < tsel_len (time_selector r) \<and>
     (tsel_operation (time_selector r) = CHAOS_TIME_OP_INVALID \<longleftrightarrow> tsel_kind (time_selector r) = CHAOS_TIME_SELECTOR_ANY) \<and>
     (tsel_kind (time_selector r) = CHAOS_TIME_SELECTOR_CLOCK_ID \<longrightarrow>
        tsel_operation (time_selector r) = CHAOS_TIME_OP_CLOCK_GETTIME) \<and>
     length (tsel_text (time_selector r)) < CHAOS_TIME_MAX_TEXT \<and>
     chaos_time_effect_allowed (time_selector r) (time_effect r) \<and>
     (time_errnum r \<noteq> None \<longleftrightarrow> time_effect r = CHAOS_TIME_EFFECT_ERRNO) \<and> pred_option errnum_ok (time_errnum r) \<and>
     0 \<le> time_probability r \<and> time_probability r \<le> 1 \<and>
     time_latency_ms r \<le> 0xffffffff \<and> (time_effect r \<noteq> CHAOS_TIME_EFFECT_LATENCY \<longrightarrow> time_latency_ms r = 0) \<and>
     \<bar>time_offset_ms r\<bar> \<le> CHAOS_TIME_MAX_OFFSET_MS \<and>
     (time_effect r = CHAOS_TIME_EFFECT_REGRESS \<longrightarrow>
        0 < time_offset_ms r \<and> tsel_kind (time_selector r) = CHAOS_TIME_SELECTOR_CLOCK_ID) \<and>
     (time_effect r \<notin> {CHAOS_TIME_EFFECT_OFFSET, CHAOS_TIME_EFFECT_REGRESS} \<longrightarrow> time_offset_ms r = 0)"

definition time_selector_ok :: "chaos_time_selector \<Rightarrow> bool" where
  "time_selector_ok s \<longleftrightarrow>
     tsel_kind s \<noteq> CHAOS_TIME_SELECTOR_INVALID \<and> 0 < tsel_len s \<and>
     (tsel_operation s = CHAOS_TIME_OP_INVALID \<longleftrightarrow> tsel_kind s = CHAOS_TIME_SELECTOR_ANY) \<and>
     (tsel_kind s = CHAOS_TIME_SELECTOR_CLOCK_ID \<longrightarrow> tsel_operation s = CHAOS_TIME_OP_CLOCK_GETTIME) \<and>
     length (tsel_text s) < CHAOS_TIME_MAX_TEXT"

lemma time_selector_parse_ok: "chaos_time_selector_parse s = Some sel \<Longrightarrow> time_selector_ok sel"
  by (auto simp: chaos_time_selector_parse_def time_selector_ok_def time_selector_zero_def CHAOS_TIME_MAX_TEXT_def Let_def
      split: if_splits option.splits)

lemma time_errno_ok: "chaos_time_parse_errno_name s = Some e \<Longrightarrow> errnum_ok e"
  using time_errno_cases [of s e] errno_number_ok [of s e] by (auto simp: errnum_ok_def)

lemma time_offset_bound: "chaos_time_parse_offset s = Some ms \<Longrightarrow> \<bar>ms\<bar> \<le> CHAOS_TIME_MAX_OFFSET_MS"
  by (auto simp: chaos_time_parse_offset_def CHAOS_TIME_MAX_OFFSET_MS_def split: prod.splits if_splits)

lemma four_cases: obtains "x = a" | "x = b" | "x = c" | "x = d" | "x \<notin> {a, b, c, d}"
  by blast

lemma time_parse_effect_ok:
  assumes "time_parse_effect effect text_value rule = Some r" "rule = time_rule_zero\<lparr>time_selector := s\<rparr>" "time_selector_ok s"
  shows "time_rule_ok r"
proof -
  have zero: "time_errnum rule = None" "time_latency_ms rule = 0" "time_offset_ms rule = 0" "time_selector rule = s"
    by (simp_all add: assms(2) time_rule_zero_def)
  note sel = assms(3) [unfolded time_selector_ok_def]
  note ok = time_rule_ok_def chaos_time_effect_allowed_def CHAOS_TIME_MAX_OFFSET_MS_def
  note eff = assms(1) [unfolded time_parse_effect_def Let_def time_payload_eq time_latency_eq]
  show ?thesis
  proof (cases rule: four_cases [where x = effect and a = "''ERRNO''" and b = "''LATENCY''" and c = "''OFFSET''" and d = "''REGRESS''"])
    case 1
    then obtain payload p e where "payload_probability text_value CHAOS_TIME_MAX_VALUE = Some (payload, p)"
      "r = rule\<lparr>time_probability := p, time_effect := CHAOS_TIME_EFFECT_ERRNO, time_errnum := Some e\<rparr>"
      "chaos_time_parse_errno_name payload = Some e"
      using eff by (auto split: option.splits)
    with payload_probability_range [OF this(1)] time_errno_ok show ?thesis using zero sel by (auto simp: ok)
  next
    case 2
    then obtain payload p ms where "payload_probability text_value CHAOS_TIME_MAX_VALUE = Some (payload, p)"
      "r = rule\<lparr>time_probability := p, time_effect := CHAOS_TIME_EFFECT_LATENCY, time_latency_ms := ms\<rparr>"
      "latency_value payload = Some ms"
      using eff by (auto split: option.splits)
    with payload_probability_range [OF this(1)] latency_value_bound show ?thesis using zero sel by (auto simp: ok)
  next
    case 3
    then obtain payload p ms where "payload_probability text_value CHAOS_TIME_MAX_VALUE = Some (payload, p)"
      "r = rule\<lparr>time_probability := p, time_effect := CHAOS_TIME_EFFECT_OFFSET, time_offset_ms := ms\<rparr>"
      "chaos_time_parse_offset payload = Some ms" "chaos_time_effect_allowed s CHAOS_TIME_EFFECT_OFFSET"
      using eff zero by (auto split: option.splits if_splits)
    with payload_probability_range [OF this(1)] time_offset_bound [of payload ms] show ?thesis using zero sel by (auto simp: ok)
  next
    case 4
    then obtain payload p ms where "payload_probability text_value CHAOS_TIME_MAX_VALUE = Some (payload, p)"
      "r = rule\<lparr>time_probability := p, time_effect := CHAOS_TIME_EFFECT_REGRESS, time_offset_ms := ms\<rparr>"
      "chaos_time_parse_offset payload = Some ms" "chaos_time_effect_allowed s CHAOS_TIME_EFFECT_REGRESS"
      "tsel_kind s = CHAOS_TIME_SELECTOR_CLOCK_ID" "0 < ms"
      using eff zero by (auto split: option.splits if_splits)
    with payload_probability_range [OF this(1)] time_offset_bound [of payload ms] show ?thesis using zero sel by (auto simp: ok)
  qed (use eff in auto)
qed

lemma time_parse_cursor_ok: "time_parse_cursor cursor = Line_Rule r \<Longrightarrow> time_rule_ok r"
  by (auto simp: time_parse_cursor_def split: option.splits prod.splits if_splits
      dest!: time_selector_parse_ok intro!: time_parse_effect_ok)

lemma time_rule_ok_tail: "time_rule_ok r \<Longrightarrow> time_rule_ok (r\<lparr>rh_policy := p, rh_call_size := n\<rparr>)"
  by (simp add: time_rule_ok_def)

interpretation time_lines: trimmed_grammar time_parse_cursor time_rule_supported CHAOS_TIME_MAX_RULES time_rule_ok
  by unfold_locales (simp_all add: time_parse_cursor_ok time_rule_ok_tail)

text \<open>A clock rule file is taken whole or not at all, with the first line at fault; every rule taken is well
  formed: an error exactly for error rules, a shift of at most 100 years and only for clock reads, a step back that
  is positive and for one clock, a delay of 32 bits, a probability between 0 and 1.\<close>

theorem time_parse_buffer_sound:
  "case scan_lines (line_rule chaos_time_config_parse_line) time_rule_supported CHAOS_TIME_MAX_RULES 0 0
          (buffer_lines (c_string buffer)) of
     Inr rs \<Rightarrow>
       pr_ok (chaos_time_config_parse_buffer err buffer) \<and> pr_rules (chaos_time_config_parse_buffer err buffer) = rs \<and>
       length rs \<le> CHAOS_TIME_MAX_RULES \<and> list_all time_rule_ok rs
   | Inl (n, reason, line) \<Rightarrow>
       \<not> pr_ok (chaos_time_config_parse_buffer err buffer) \<and> pr_rules (chaos_time_config_parse_buffer err buffer) = [] \<and>
       pr_error (chaos_time_config_parse_buffer err buffer) =
         chaos_status_reject (chaos_status_keep_line (chaos_status_clear err) n line) reason"
  unfolding chaos_time_config_parse_buffer_def time_parse_line_form by (rule time_lines.parse_contract)

section \<open>Selection and round trip\<close>

definition time_rank :: "chaos_time_effect \<Rightarrow> chaos_time_operation \<Rightarrow> clockid \<Rightarrow> chaos_time_rule \<Rightarrow> nat option" where
  "time_rank effect operation clock_id r =
     (if time_effect r = effect then chaos_time_selector_matches (time_selector r) operation clock_id else None)"

definition time_key :: "chaos_time_effect \<Rightarrow> chaos_time_operation \<Rightarrow> clockid \<Rightarrow> chaos_time_rule \<Rightarrow> rank_key" where
  "time_key effect operation clock_id = rank_key_of (time_rank effect operation clock_id) (\<lambda>r. tsel_len (time_selector r))"

text \<open>The rule selected for a call matches it; no other matching rule is more exact, and among equals it is the first.\<close>

theorem time_select_rule_best:
  "case chaos_time_config_select_rule rules effect operation clock_id of
     None \<Rightarrow> \<forall>r \<in> set rules. time_rank effect operation clock_id r = None
   | Some b \<Rightarrow> \<exists>before after. rules = before @ b # after \<and> time_rank effect operation clock_id b \<noteq> None \<and>
       (\<forall>r \<in> set before. time_rank effect operation clock_id r \<noteq> None \<longrightarrow>
          time_key effect operation clock_id r < time_key effect operation clock_id b) \<and>
       (\<forall>r \<in> set after. time_rank effect operation clock_id r \<noteq> None \<longrightarrow>
          time_key effect operation clock_id r \<le> time_key effect operation clock_id b)"
proof -
  have "(\<lambda>r. if time_effect r \<noteq> effect then None
      else chaos_time_selector_matches (time_selector r) operation clock_id) = time_rank effect operation clock_id"
    by (simp add: fun_eq_iff time_rank_def)
  then show ?thesis
    by (intro ranked_best [where rank_of = "time_rank effect operation clock_id" and length_of = "\<lambda>r. tsel_len (time_selector r)"])
      (simp_all add: chaos_time_config_select_rule_def time_key_def [abs_def])
qed

text \<open>C25. A shift survives printing and parsing: for any selector of clock reads, any shift of at most 100 years in
  either direction and any probability text, the rule read back is the one written, with its qualifiers.\<close>

theorem time_offset_roundtrip:
  assumes "plain_field sel" "chaos_time_selector_parse sel = Some s" "chaos_time_effect_allowed s CHAOS_TIME_EFFECT_OFFSET"
    "\<bar>ms\<bar> \<le> CHAOS_TIME_MAX_OFFSET_MS" "plain_field q" "chaos_policy_parse_probability (Some q) = Some prob" "policy_ok p"
  shows "line_rule chaos_time_config_parse_line (print_rule sel ''OFFSET'' (print_int ms) q @ print_qualifiers p) =
    Inr (Some (time_rule_zero\<lparr>time_selector := s, time_effect := CHAOS_TIME_EFFECT_OFFSET, time_offset_ms := ms,
      time_probability := prob, rh_policy := p, rh_call_size := CHAOS_POLICY_NO_SIZE\<rparr>))"
proof -
  have ok: "printable sel ''OFFSET'' (print_int ms) q"
    using assms(1,5) plain_print_int [of ms] by (simp add: printable_def plain_field_def trimmed_def is_blank_char_def)
  have range: "LONG_MIN \<le> ms" "ms \<le> LONG_MAX"
    using assms(4) by (auto simp: LONG_MIN_def LONG_MAX_def CHAOS_TIME_MAX_OFFSET_MS_def)
  have small: "nat \<bar>ms\<bar> < 10 ^ Suc 13" using assms(4) by (auto simp: CHAOS_TIME_MAX_OFFSET_MS_def)
  then have "length (print_nat (nat \<bar>ms\<bar>)) \<le> Suc 13" by (rule length_print_nat)
  then have len: "length (print_int ms) < CHAOS_TIME_MAX_VALUE" by (auto simp: print_int_def CHAOS_TIME_MAX_VALUE_def)
  have ne: "print_int ms \<noteq> []" "sel \<noteq> []" using assms(1) plain_print_int [of ms] by (auto simp: plain_field_def trimmed_def)
  have q: "CHR ''@'' \<notin> set q" using assms(5) by (simp add: plain_field_def)
  note payload = payload_probability_print [OF ne(1) len q assms(6)]
  have off: "chaos_time_parse_offset (print_int ms) = Some ms"
    using assms(4) strtol_print_int [OF range] by (auto simp: chaos_time_parse_offset_def time_trim_eq trim_blanks_def)
  have "time_parse_cursor line = Line_Rule (time_rule_zero\<lparr>time_selector := s, time_effect := CHAOS_TIME_EFFECT_OFFSET,
      time_offset_ms := ms, time_probability := prob\<rparr>)"
    if "split_fields line = Some (sel, ''OFFSET'', print_int ms @ CHR ''@'' # q)" for line
    using that ne assms(2,3)
    by (simp add: time_parse_cursor_def time_split_eq time_parse_effect_def time_payload_eq payload off time_rule_zero_def)
  from printed_rule [OF ok assms(7), where body = time_parse_cursor, OF this] show ?thesis
    by (simp add: time_parse_line_form time_rule_zero_def)
qed

theorem time_offset_roundtrip_witness:
  "line_rule chaos_time_config_parse_line
      (print_rule ''clock_gettime/monotonic'' ''OFFSET'' (print_int (- 5000)) ''0.5'' @ print_qualifiers (policy_zero\<lparr>pol_first := 2\<rparr>)) =
    Inr (Some (time_rule_zero\<lparr>time_selector := time_selector_zero\<lparr>tsel_len := 23, tsel_clock_id := 1,
        tsel_kind := CHAOS_TIME_SELECTOR_CLOCK_ID, tsel_operation := CHAOS_TIME_OP_CLOCK_GETTIME, tsel_text := ''monotonic''\<rparr>,
      time_effect := CHAOS_TIME_EFFECT_OFFSET, time_offset_ms := - 5000,
      time_probability := dbl_div 5 10, rh_policy := policy_zero\<lparr>pol_first := 2\<rparr>, rh_call_size := CHAOS_POLICY_NO_SIZE\<rparr>))"
proof (rule time_offset_roundtrip)
  show "chaos_policy_parse_probability (Some ''0.5'') = Some (dbl_div 5 10)"
    using parse_probability_point [of "CHR ''0''" "''5''" "[]"] by (simp add: is_digit_def digit_value_def)
  show "chaos_time_selector_parse ''clock_gettime/monotonic'' = Some (time_selector_zero\<lparr>tsel_len := 23, tsel_clock_id := 1,
      tsel_kind := CHAOS_TIME_SELECTOR_CLOCK_ID, tsel_operation := CHAOS_TIME_OP_CLOCK_GETTIME, tsel_text := ''monotonic''\<rparr>)"
    by code_simp
qed (simp_all add: plain_field_def trimmed_def is_blank_char_def policy_ok_def policy_zero_def
    CHAOS_TIME_MAX_OFFSET_MS_def chaos_time_effect_allowed_def)

end
