(* ===== verification/Time_Actions.thy ===== *)
theory Time_Actions
  imports Time_Config Io_Actions "HOL-Library.Signed_Division"
begin

text \<open>
  The effects of the clock library (\<open>src/time/chaos_time_actions.c\<close>, with the guard and the generator of
  \<open>src/time/chaos_time_internal.h\<close>): the decision, delays in chunks, shifted clock reads, the one step back
  of a REGRESS rule, and the correction of absolute deadlines. Seconds and nanoseconds are integers; the bounds
  under which they fit 64 bits are stated where they matter.
\<close>

section \<open>Guard and generator\<close>

definition chaos_time_in_internal :: "int \<Rightarrow> bool" where
  "chaos_time_in_internal guard \<longleftrightarrow> guard \<noteq> 0"

definition chaos_time_enter_internal :: "int \<Rightarrow> int \<times> int" where
  "chaos_time_enter_internal guard = (guard, 1)"

definition chaos_time_leave_internal :: "int \<Rightarrow> int" where
  "chaos_time_leave_internal previous = previous"

definition chaos_time_prng_mix :: "u64 \<Rightarrow> u64" where
  "chaos_time_prng_mix v =
     (let v1 = v + 0x9e3779b97f4a7c15;
          v2 = (v1 XOR drop_bit 30 v1) * 0xbf58476d1ce4e5b9;
          v3 = (v2 XOR drop_bit 27 v2) * 0x94d049bb133111eb
      in v3 XOR drop_bit 31 v3)"

definition chaos_time_prng_ensure_seeded :: "prng_env \<Rightarrow> u64 \<Rightarrow> u64" where
  "chaos_time_prng_ensure_seeded env state =
     (if state \<noteq> 0 then state
      else chaos_time_prng_mix (pe_process_seed env XOR pe_tid env XOR pe_stack_address env) OR 1)"

definition chaos_time_prng_seed_thread :: "u64 \<Rightarrow> u64" where
  "chaos_time_prng_seed_thread seed = chaos_time_prng_mix (if seed = 0 then 1 else seed)"

definition chaos_time_prng_next_u32 :: "prng_env \<Rightarrow> u64 \<Rightarrow> u32 \<times> u64" where
  "chaos_time_prng_next_u32 env state =
     (let s0 = chaos_time_prng_ensure_seeded env state;
          s1 = s0 XOR drop_bit 12 s0;
          s2 = s1 XOR push_bit 25 s1;
          s3 = s2 XOR drop_bit 27 s2
      in (ucast (drop_bit 32 (s3 * 0x2545f4914f6cdd1d)), s3))"

section \<open>The decision\<close>

definition chaos_time_probability_hit_sample :: "rat \<Rightarrow> u32 \<Rightarrow> bool" where
  "chaos_time_probability_hit_sample probability sample =
     (if probability \<le> 0 then False
      else if probability \<ge> 1 then True
      else of_nat (unat sample) < probability * 4294967296)"

definition chaos_time_probability_hit :: "prng_env \<Rightarrow> rat \<Rightarrow> u64 \<Rightarrow> bool \<times> u64" where
  "chaos_time_probability_hit env probability prng =
     (let (sample, prng') = chaos_time_prng_next_u32 env prng
      in (chaos_time_probability_hit_sample probability sample, prng'))"

definition chaos_time_rule_should_trigger ::
  "prng_env \<Rightarrow> int \<Rightarrow> chaos_time_rule \<Rightarrow> action_state \<Rightarrow> bool \<times> action_state" where
  "chaos_time_rule_should_trigger env now r st =
     (if \<not> chaos_policy_window_open now (rh_policy r) \<or> \<not> chaos_policy_size_ok (rh_policy r) (rh_call_size r)
      then (False, st)
      else let (hit, prng) = chaos_time_probability_hit env (time_probability r) (act_prng st);
               st' = st\<lparr>act_prng := prng\<rparr>
           in if \<not> hit then (False, st') else fire_action r st')"

section \<open>Delays\<close>

text \<open>The sleeping function the library found: \<open>usleep\<close>, with the nanoseconds it sleeps for a request; or
  \<open>nanosleep\<close>, with the outcomes of the calls of one chunk; or none.\<close>

datatype time_sleeper =
  Sleep_Usleep "nat \<Rightarrow> int" | Sleep_Nanosleep "sleep_outcome list" | Sleep_Unresolved

definition chaos_time_sleep_chunk :: "time_sleeper \<Rightarrow> nat \<Rightarrow> int" where
  "chaos_time_sleep_chunk sleeper usec =
     (case sleeper of
        Sleep_Usleep f \<Rightarrow> f usec
      | Sleep_Nanosleep outcomes \<Rightarrow>
          sleep_loop outcomes \<lparr>tv_sec = int (usec div 1000000), tv_nsec = int (usec mod 1000000 * 1000)\<rparr>
      | Sleep_Unresolved \<Rightarrow> 0)"

function latency_chunks :: "nat \<Rightarrow> nat list" where
  "latency_chunks remaining_us =
     (if remaining_us > 0
      then let chunk = (if remaining_us > 1000000 then 1000000 else remaining_us)
           in chunk # latency_chunks (remaining_us - chunk)
      else [])"
  by pat_completeness auto
termination
  by (relation "measure id") auto

declare latency_chunks.simps [simp del]

definition chaos_time_rule_apply_latency ::
  "prng_env \<Rightarrow> int \<Rightarrow> time_sleeper \<Rightarrow> chaos_time_rule \<Rightarrow> action_state \<Rightarrow> int \<times> action_state" where
  "chaos_time_rule_apply_latency env now sleeper r st =
     (if time_effect r \<noteq> CHAOS_TIME_EFFECT_LATENCY then (0, st)
      else let (fired, st') = chaos_time_rule_should_trigger env now r st
           in if \<not> fired then (0, st')
              else (sum_list (map (chaos_time_sleep_chunk sleeper) (latency_chunks (time_latency_ms r * 1000))), st'))"

section \<open>Errors and shifts\<close>

text \<open>The errno when the call is to fail.\<close>

definition chaos_time_rule_apply_errno ::
  "prng_env \<Rightarrow> int \<Rightarrow> chaos_time_rule \<Rightarrow> action_state \<Rightarrow> errnum option \<times> action_state" where
  "chaos_time_rule_apply_errno env now r st =
     (if time_effect r \<noteq> CHAOS_TIME_EFFECT_ERRNO then (None, st)
      else let (fired, st') = chaos_time_rule_should_trigger env now r st
           in (if fired then time_errnum r else None, st'))"

text \<open>The two loops that bring the nanoseconds back into range.\<close>

function carry_up :: "int \<Rightarrow> int \<Rightarrow> int \<times> int" where
  "carry_up seconds nanoseconds =
     (if nanoseconds \<ge> 1000000000 then carry_up (seconds + 1) (nanoseconds - 1000000000) else (seconds, nanoseconds))"
  by pat_completeness auto
termination
  by (relation "measure (\<lambda>(s, n). nat n)") auto

function carry_down :: "int \<Rightarrow> int \<Rightarrow> int \<times> int" where
  "carry_down seconds nanoseconds =
     (if nanoseconds < 0 then carry_down (seconds - 1) (nanoseconds + 1000000000) else (seconds, nanoseconds))"
  by pat_completeness auto
termination
  by (relation "measure (\<lambda>(s, n). nat (- n))") auto

declare carry_up.simps [simp del] carry_down.simps [simp del]

definition chaos_time_add_offset_ms :: "timespec \<Rightarrow> int \<Rightarrow> timespec" where
  "chaos_time_add_offset_ms v offset_ms =
     (if offset_ms = 0 then v
      else let seconds = tv_sec v + offset_ms sdiv 1000;
               nanoseconds = tv_nsec v + (offset_ms smod 1000) * 1000000;
               (seconds, nanoseconds) = carry_up seconds nanoseconds;
               (seconds, nanoseconds) = carry_down seconds nanoseconds
           in if seconds < 0 then \<lparr>tv_sec = 0, tv_nsec = 0\<rparr> else \<lparr>tv_sec = seconds, tv_nsec = nanoseconds\<rparr>)"

definition chaos_time_rule_apply_offset ::
  "prng_env \<Rightarrow> int \<Rightarrow> chaos_time_rule \<Rightarrow> timespec \<Rightarrow> action_state \<Rightarrow> timespec \<times> action_state" where
  "chaos_time_rule_apply_offset env now r v st =
     (if time_effect r \<noteq> CHAOS_TIME_EFFECT_OFFSET then (v, st)
      else let (fired, st') = chaos_time_rule_should_trigger env now r st
           in (if fired then chaos_time_add_offset_ms v (time_offset_ms r) else v, st'))"

text \<open>One call by a thread that no other thread disturbs; the compare-and-swaps then succeed. \<open>now'\<close> is the clock
  at the second look at the window, inside the decision.\<close>

definition set_slot_state :: "nat \<Rightarrow> u64 \<Rightarrow> action_state \<Rightarrow> action_state" where
  "set_slot_state i v st = st\<lparr>act_pool := (act_pool st)[i := (act_pool st ! i)\<lparr>slot_state := v\<rparr>]\<rparr>"

definition chaos_time_rule_apply_regress ::
  "prng_env \<Rightarrow> int \<Rightarrow> int \<Rightarrow> chaos_time_rule \<Rightarrow> timespec \<Rightarrow> action_state \<Rightarrow> timespec \<times> action_state" where
  "chaos_time_rule_apply_regress env now now' r v st =
     (case rh_hit r of
        None \<Rightarrow> (v, st)
      | Some i \<Rightarrow>
          (if time_effect r \<noteq> CHAOS_TIME_EFFECT_REGRESS \<or>
              \<not> chaos_hit_slot_current (Some (act_pool st ! i)) (rh_hit_generation r) then (v, st)
           else if \<not> chaos_policy_window_open now (rh_policy r) then (v, st)
           else if slot_state (act_pool st ! i) = 0 then (v, set_slot_state i 1 st)
           else if slot_state (act_pool st ! i) \<noteq> 2
           then (if slot_state (act_pool st ! i) \<noteq> 1 then (v, st)
                 else let st = set_slot_state i 3 st;
                          (fired, st) = chaos_time_rule_should_trigger env now' r st
                      in if \<not> fired then (v, set_slot_state i 1 st)
                         else (chaos_time_add_offset_ms v (- time_offset_ms r), set_slot_state i 2 st))
           else (chaos_time_add_offset_ms v (- time_offset_ms r), st)))"

text \<open>The deadline, and whether it was changed.\<close>

definition chaos_time_rule_unshift_deadline ::
  "int \<Rightarrow> chaos_time_rule option \<Rightarrow> chaos_time_rule option \<Rightarrow> timespec \<Rightarrow> chaos_hit_slot list \<Rightarrow> timespec \<times> bool" where
  "chaos_time_rule_unshift_deadline now offset_rule regress_rule deadline pool =
     (let (deadline, changed) =
            (case offset_rule of
               Some r \<Rightarrow>
                 (if time_effect r = CHAOS_TIME_EFFECT_OFFSET \<and> time_probability r \<ge> 1 \<and> pol_first (rh_policy r) = 0 \<and>
                     \<not> pol_has_size_above (rh_policy r) \<and> \<not> pol_has_size_below (rh_policy r) \<and>
                     chaos_policy_window_open now (rh_policy r)
                  then (chaos_time_add_offset_ms deadline (- time_offset_ms r), True)
                  else (deadline, False))
             | None \<Rightarrow> (deadline, False))
      in case regress_rule of
           Some r \<Rightarrow>
             (case rh_hit r of
                Some i \<Rightarrow>
                  (if time_effect r = CHAOS_TIME_EFFECT_REGRESS \<and>
                      chaos_hit_slot_current (Some (pool ! i)) (rh_hit_generation r) \<and> slot_state (pool ! i) = 2 \<and>
                      chaos_policy_window_open now (rh_policy r)
                   then (chaos_time_add_offset_ms deadline (time_offset_ms r), True)
                   else (deadline, changed))
              | None \<Rightarrow> (deadline, changed))
         | None \<Rightarrow> (deadline, changed))"

section \<open>Exact shifts\<close>

lemma carry_up_exact:
  "carry_up s n = (s', n') \<Longrightarrow> s' * 1000000000 + n' = s * 1000000000 + n \<and> n' < 1000000000 \<and> (0 \<le> n \<longrightarrow> 0 \<le> n') \<and> (n < 0 \<longrightarrow> n' = n)"
proof (induction s n arbitrary: s' n' rule: carry_up.induct)
  case (1 s n)
  show ?case
  proof (cases "n \<ge> 1000000000")
    case True
    with "1.prems" have "carry_up (s + 1) (n - 1000000000) = (s', n')" by (simp add: carry_up.simps [of s n])
    from "1.IH" [OF True this] True show ?thesis by auto
  next
    case False
    with "1.prems" show ?thesis by (auto simp: carry_up.simps [of s n])
  qed
qed

lemma carry_down_exact:
  "carry_down s n = (s', n') \<Longrightarrow> n < 1000000000 \<Longrightarrow>
     s' * 1000000000 + n' = s * 1000000000 + n \<and> 0 \<le> n' \<and> n' < 1000000000"
proof (induction s n arbitrary: s' n' rule: carry_down.induct)
  case (1 s n)
  show ?case
  proof (cases "n < 0")
    case True
    with "1.prems" have "carry_down (s - 1) (n + 1000000000) = (s', n')" by (simp add: carry_down.simps [of s n])
    from "1.IH" [OF True this] True show ?thesis by auto
  next
    case False
    with "1.prems" show ?thesis by (auto simp: carry_down.simps [of s n])
  qed
qed

text \<open>A time as a clock returns it, and its nanoseconds since the epoch.\<close>

definition normal_time :: "timespec \<Rightarrow> bool" where
  "normal_time v \<longleftrightarrow> 0 \<le> tv_sec v \<and> 0 \<le> tv_nsec v \<and> tv_nsec v < 1000000000"

lemma request_ns_inject: "normal_time v \<Longrightarrow> normal_time w \<Longrightarrow> request_ns v = request_ns w \<Longrightarrow> v = w"
proof -
  assume n: "normal_time v" "normal_time w" and eq: "request_ns v = request_ns w"
  have "tv_sec v = request_ns v div 1000000000" "tv_nsec v = request_ns v mod 1000000000" if "normal_time v" for v :: timespec
    using that by (simp_all add: normal_time_def request_ns_def)
  with n eq have "tv_sec v = tv_sec w" "tv_nsec v = tv_nsec w" by metis+
  then show "v = w" by (cases v; cases w) simp
qed

lemma add_offset_exact:
  assumes "normal_time v"
  shows "normal_time (chaos_time_add_offset_ms v ms)"
    "request_ns (chaos_time_add_offset_ms v ms) = max 0 (request_ns v + ms * 1000000)"
proof -
  have "normal_time (chaos_time_add_offset_ms v ms) \<and>
    request_ns (chaos_time_add_offset_ms v ms) = max 0 (request_ns v + ms * 1000000)"
  proof (cases "ms = 0")
    case True
    with assms show ?thesis by (simp add: chaos_time_add_offset_ms_def normal_time_def request_ns_def)
  next
    case False
    obtain s1 n1 where up: "carry_up (tv_sec v + ms sdiv 1000) (tv_nsec v + (ms smod 1000) * 1000000) = (s1, n1)" by fastforce
    obtain s2 n2 where down: "carry_down s1 n1 = (s2, n2)" by fastforce
    have "ms sdiv 1000 * 1000 + ms smod 1000 = ms" by (rule sdiv_mult_smod_eq)
    then have sum: "s2 * 1000000000 + n2 = request_ns v + ms * 1000000" "0 \<le> n2" "n2 < 1000000000"
      using carry_up_exact [OF up] carry_down_exact [OF down] by (auto simp: request_ns_def algebra_simps)
    have r: "chaos_time_add_offset_ms v ms =
        (if s2 < 0 then \<lparr>tv_sec = 0, tv_nsec = 0\<rparr> else \<lparr>tv_sec = s2, tv_nsec = n2\<rparr>)"
      using False by (simp add: chaos_time_add_offset_ms_def up down)
    show ?thesis using sum unfolding r by (auto simp: normal_time_def request_ns_def)
  qed
  then show "normal_time (chaos_time_add_offset_ms v ms)"
    "request_ns (chaos_time_add_offset_ms v ms) = max 0 (request_ns v + ms * 1000000)" by simp_all
qed

text \<open>Shifting a clock value is exact: the result is the value plus the milliseconds, in nanoseconds, cut off at the
  epoch, with nanoseconds below a second again; for a shift a rule can carry, no intermediate sum leaves 64 bits.\<close>

theorem time_add_offset_exact:
  assumes "normal_time v" "tv_sec v \<le> 2 ^ 62" "\<bar>ms\<bar> \<le> CHAOS_TIME_MAX_OFFSET_MS"
  shows "normal_time (chaos_time_add_offset_ms v ms) \<and>
    request_ns (chaos_time_add_offset_ms v ms) = max 0 (request_ns v + ms * 1000000) \<and>
    \<bar>tv_sec v + ms sdiv 1000\<bar> < 2 ^ 63 - 2 \<and> \<bar>tv_nsec v + (ms smod 1000) * 1000000\<bar> < 2 * 1000000000"
proof -
  have q: "\<bar>ms sdiv 1000\<bar> \<le> \<bar>ms\<bar>" "\<bar>ms smod 1000\<bar> < 1000"
    by (auto simp: signed_divide_int_def signed_modulo_int_def sgn_if abs_if)
  have "0 \<le> tv_sec v" "0 \<le> tv_nsec v" "tv_nsec v < 1000000000" using assms(1) by (simp_all add: normal_time_def)
  then have "\<bar>tv_sec v + ms sdiv 1000\<bar> < 2 ^ 63 - 2" "\<bar>tv_nsec v + (ms smod 1000) * 1000000\<bar> < 2 * 1000000000"
    using q assms(2,3) by (simp_all add: CHAOS_TIME_MAX_OFFSET_MS_def)
  then show ?thesis using add_offset_exact [OF assms(1), of ms] by simp
qed

theorem time_add_offset_exact_witness:
  "request_ns (chaos_time_add_offset_ms \<lparr>tv_sec = 10, tv_nsec = 400000000\<rparr> (- 2500)) = 7900000000"
  using time_add_offset_exact [of "\<lparr>tv_sec = 10, tv_nsec = 400000000\<rparr>" "- 2500"]
  by (simp add: normal_time_def request_ns_def CHAOS_TIME_MAX_OFFSET_MS_def)


text \<open>A delay is asked for in chunks of at most a second that add up to it.\<close>

lemma latency_chunks_total: "sum_list (latency_chunks n) = n \<and> list_all (\<lambda>c. 0 < c \<and> c \<le> 1000000) (latency_chunks n)"
proof (induction n rule: latency_chunks.induct)
  case (1 n)
  then show ?case by (subst (1 2) latency_chunks.simps) (auto simp: Let_def)
qed

text \<open>C27. A delay rule that fires asks for its whole delay in pieces of at most one second, so that \<open>usleep\<close> accepts
  each, and with a sleep that is not cut short it takes exactly its milliseconds.\<close>

theorem time_latency_total:
  assumes "time_effect r = CHAOS_TIME_EFFECT_LATENCY" "chaos_time_rule_should_trigger env now r st = (True, st')"
    "sleeper = Sleep_Usleep (\<lambda>usec. int usec * 1000) \<or> sleeper = Sleep_Nanosleep []"
  shows "chaos_time_rule_apply_latency env now sleeper r st = (int (time_latency_ms r) * 1000000, st') \<and>
    list_all (\<lambda>c. 0 < c \<and> c \<le> 1000000) (latency_chunks (time_latency_ms r * 1000))"
proof -
  have chunk: "chaos_time_sleep_chunk sleeper c = int c * 1000" for c
  proof -
    have "int c = int (c div 1000000) * 1000000 + int (c mod 1000000)"
      by (metis div_mult_mod_eq of_nat_add of_nat_mult of_nat_numeral)
    then show ?thesis using assms(3) by (auto simp: chaos_time_sleep_chunk_def request_ns_def)
  qed
  have "sum_list (map (chaos_time_sleep_chunk sleeper) cs) = int (sum_list cs) * 1000" for cs
    by (induction cs) (simp_all add: chunk algebra_simps)
  then show ?thesis
    using assms(1,2) latency_chunks_total [of "time_latency_ms r * 1000"] by (simp add: chaos_time_rule_apply_latency_def)
qed

section \<open>Examples\<close>

definition demo_time_rule :: "chaos_time_effect \<Rightarrow> int \<Rightarrow> chaos_time_rule" where
  "demo_time_rule effect ms = time_rule_zero\<lparr>time_effect := effect, time_probability := 1, time_offset_ms := ms,
     time_latency_ms := 1500, rh_call_size := CHAOS_POLICY_NO_SIZE\<rparr>"

definition demo_actions :: action_state where
  "demo_actions = \<lparr>act_prng = 7, act_pool = [\<lparr>slot_count = 1, slot_claimed = 0, slot_state = 2, slot_report = False,
     slot_generation = 0, slot_used = True\<rparr>], act_reports = 0\<rparr>"

definition demo_prng :: prng_env where
  "demo_prng = \<lparr>pe_process_seed = 1, pe_tid = 2, pe_stack_address = 3\<rparr>"

lemma demo_time_fires:
  "\<exists>prng. chaos_time_rule_should_trigger demo_prng now (demo_time_rule effect ms) demo_actions =
    (True, demo_actions\<lparr>act_prng := prng\<rparr>)"
proof -
  obtain sample prng where d: "chaos_time_prng_next_u32 demo_prng (act_prng demo_actions) = (sample, prng)" by fastforce
  have "chaos_time_rule_should_trigger demo_prng now (demo_time_rule effect ms) demo_actions =
    (True, demo_actions\<lparr>act_prng := prng\<rparr>)"
    by (simp add: chaos_time_rule_should_trigger_def demo_time_rule_def time_rule_zero_def chaos_policy_window_open_def
        chaos_policy_size_ok_def policy_zero_def chaos_time_probability_hit_def d chaos_time_probability_hit_sample_def
        fire_action_def fire_on_pool_def chaos_policy_fire_def
        chaos_hit_slot_current_def chaos_hit_record_def)
  then show ?thesis by blast
qed

theorem time_latency_total_witness:
  "\<exists>st'. chaos_time_rule_apply_latency demo_prng 0 (Sleep_Nanosleep []) (demo_time_rule CHAOS_TIME_EFFECT_LATENCY 0) demo_actions =
    (1500000000, st')"
proof -
  obtain prng where p: "chaos_time_rule_should_trigger demo_prng 0 (demo_time_rule CHAOS_TIME_EFFECT_LATENCY 0) demo_actions =
      (True, demo_actions\<lparr>act_prng := prng\<rparr>)" using demo_time_fires by blast
  have "time_effect (demo_time_rule CHAOS_TIME_EFFECT_LATENCY 0) = CHAOS_TIME_EFFECT_LATENCY"
    "time_latency_ms (demo_time_rule CHAOS_TIME_EFFECT_LATENCY 0) = 1500" by (simp_all add: demo_time_rule_def)
  then show ?thesis using time_latency_total [OF _ p, of "Sleep_Nanosleep []"] by simp
qed

definition demo_regress_rule :: chaos_time_rule where
  "demo_regress_rule = (demo_time_rule CHAOS_TIME_EFFECT_REGRESS 3000)\<lparr>rh_hit := Some 0\<rparr>"


end
