(* ===== verification/Time_Regress.thy ===== *)
theory Time_Regress
  imports Time_Actions
begin

text \<open>
  The step back of a REGRESS rule under concurrency (\<open>chaos_time_rule_apply_regress\<close> in
  \<open>src/time/chaos_time_actions.c\<close>): clock reads of any number of threads, one access to the state of the slot
  at a time, while the rule stays published and its window open. Whether the rule fires when a thread decides
  (probability and \<open>@first\<close>) is open. The ghost fields count the hits, log the finished reads, and remember
  whether a read started after a shifted one had finished.
\<close>

section \<open>Steps\<close>

text \<open>Before the first load, the compare-and-swap from 0, the second load, the compare-and-swap from 1, in the decision
  with state 3, before the store of 2 and before the store of 1.\<close>

datatype regress_pc = Rg_Load | Rg_Arm | Rg_Check | Rg_Claim | Rg_Decide | Rg_Jump | Rg_Undo

record regress_state =
  rg_slot :: nat
  rg_pc :: "nat \<Rightarrow> regress_pc option"
  rg_late :: "nat \<Rightarrow> bool"
  rg_hits :: nat
  rg_log :: "(bool \<times> bool) list"

definition regress_start :: regress_state where
  "regress_start = \<lparr>rg_slot = 0, rg_pc = (\<lambda>t. None), rg_late = (\<lambda>t. False), rg_hits = 0, rg_log = []\<rparr>"

definition shifted_before :: "regress_state \<Rightarrow> bool" where
  "shifted_before s \<longleftrightarrow> list_ex fst (rg_log s)"

text \<open>Thread \<open>t\<close> reads the clock.\<close>

definition regress_call :: "nat \<Rightarrow> regress_state \<Rightarrow> regress_state" where
  "regress_call t s =
     (if rg_pc s t = None
      then s\<lparr>rg_pc := (rg_pc s)(t := Some Rg_Load), rg_late := (rg_late s)(t := shifted_before s)\<rparr> else s)"

definition regress_goto :: "nat \<Rightarrow> regress_pc \<Rightarrow> regress_state \<Rightarrow> regress_state" where
  "regress_goto t pc s = s\<lparr>rg_pc := (rg_pc s)(t := Some pc)\<rparr>"

text \<open>The read ends, shifted or real.\<close>

definition regress_return :: "nat \<Rightarrow> bool \<Rightarrow> regress_state \<Rightarrow> regress_state" where
  "regress_return t shifted s = s\<lparr>rg_pc := (rg_pc s)(t := None), rg_log := (shifted, rg_late s t) # rg_log s\<rparr>"

text \<open>The next access of thread \<open>t\<close>; \<open>fires\<close> is the outcome of the decision, if it is at one.\<close>

definition regress_step :: "nat \<Rightarrow> bool \<Rightarrow> regress_state \<Rightarrow> regress_state" where
  "regress_step t fires s =
     (case rg_pc s t of
        None \<Rightarrow> s
      | Some pc \<Rightarrow>
          (case pc of
             Rg_Load \<Rightarrow> if rg_slot s = 0 then regress_goto t Rg_Arm s else regress_goto t Rg_Check s
           | Rg_Arm \<Rightarrow> regress_return t False (if rg_slot s = 0 then s\<lparr>rg_slot := 1\<rparr> else s)
           | Rg_Check \<Rightarrow> if rg_slot s \<noteq> 2 then regress_goto t Rg_Claim s else regress_return t True s
           | Rg_Claim \<Rightarrow> if rg_slot s = 1 then regress_goto t Rg_Decide (s\<lparr>rg_slot := 3\<rparr>) else regress_return t False s
           | Rg_Decide \<Rightarrow> if fires then regress_goto t Rg_Jump (s\<lparr>rg_hits := Suc (rg_hits s)\<rparr>) else regress_goto t Rg_Undo s
           | Rg_Jump \<Rightarrow> regress_return t True (s\<lparr>rg_slot := 2\<rparr>)
           | Rg_Undo \<Rightarrow> regress_return t False (s\<lparr>rg_slot := 1\<rparr>)))"

inductive regress_reachable :: "regress_state \<Rightarrow> bool" where
  regress_init: "regress_reachable regress_start"
| regress_calls: "regress_reachable s \<Longrightarrow> regress_reachable (regress_call t s)"
| regress_steps: "regress_reachable s \<Longrightarrow> regress_reachable (regress_step t fires s)"

section \<open>Invariant\<close>

definition deciding :: "regress_pc option \<Rightarrow> bool" where
  "deciding pc \<longleftrightarrow> pc \<in> {Some Rg_Decide, Some Rg_Jump, Some Rg_Undo}"

lemma deciding_simps [simp]:
  "\<not> deciding None" "\<not> deciding (Some Rg_Load)" "\<not> deciding (Some Rg_Arm)" "\<not> deciding (Some Rg_Check)"
  "\<not> deciding (Some Rg_Claim)" "deciding (Some Rg_Decide)" "deciding (Some Rg_Jump)" "deciding (Some Rg_Undo)"
  by (simp_all add: deciding_def)

text \<open>A read that started late meets state 2 only.\<close>

definition late_ok :: "nat \<Rightarrow> bool \<Rightarrow> regress_pc option \<Rightarrow> bool" where
  "late_ok slot late pc \<longleftrightarrow> (late \<and> pc \<noteq> None \<longrightarrow> slot = 2 \<and> pc \<in> {Some Rg_Load, Some Rg_Check})"

lemma late_ok_simps [simp]:
  "late_ok slot late None" "late_ok slot False pc" "late_ok slot late (Some Rg_Load) \<longleftrightarrow> (late \<longrightarrow> slot = 2)"
  "late_ok slot late (Some Rg_Check) \<longleftrightarrow> (late \<longrightarrow> slot = 2)" "late_ok slot late (Some Rg_Arm) \<longleftrightarrow> \<not> late"
  "late_ok slot late (Some Rg_Claim) \<longleftrightarrow> \<not> late" "late_ok slot late (Some Rg_Decide) \<longleftrightarrow> \<not> late"
  "late_ok slot late (Some Rg_Jump) \<longleftrightarrow> \<not> late" "late_ok slot late (Some Rg_Undo) \<longleftrightarrow> \<not> late"
  by (auto simp: late_ok_def)

lemma late_ok_change: "late_ok slot late pc \<Longrightarrow> slot \<noteq> 2 \<Longrightarrow> late_ok slot' late pc"
  by (simp add: late_ok_def)

text \<open>\<open>owner\<close> is the thread between its claim and its store.\<close>

definition regress_inv :: "regress_state \<Rightarrow> nat option \<Rightarrow> bool" where
  "regress_inv s owner \<longleftrightarrow>
     (\<forall>t. deciding (rg_pc s t) \<longleftrightarrow> owner = Some t) \<and>
     (rg_slot s = 3 \<longleftrightarrow> owner \<noteq> None) \<and> rg_slot s \<le> 3 \<and>
     rg_hits s = (if rg_slot s = 2 \<or> (case owner of Some t \<Rightarrow> rg_pc s t = Some Rg_Jump | None \<Rightarrow> False) then 1 else 0) \<and>
     (shifted_before s \<longrightarrow> rg_slot s = 2) \<and>
     (\<forall>t. late_ok (rg_slot s) (rg_late s t) (rg_pc s t)) \<and>
     list_all (\<lambda>(shifted, late). late \<longrightarrow> shifted) (rg_log s)"

lemma regress_inv_start: "regress_inv regress_start None"
  by (simp add: regress_inv_def regress_start_def shifted_before_def)

lemmas regress_unfold = regress_step_def regress_goto_def regress_return_def regress_inv_def shifted_before_def

lemma regress_inv_owner: "regress_inv s owner \<Longrightarrow> deciding (rg_pc s t) \<longleftrightarrow> owner = Some t"
  by (simp add: regress_inv_def)

lemma regress_inv_call: "regress_inv s owner \<Longrightarrow> regress_inv (regress_call t s) owner"
proof (cases "rg_pc s t")
  case None
  assume inv: "regress_inv s owner"
  have "owner \<noteq> Some t" using regress_inv_owner [OF inv, of t] None by simp
  with inv None show ?thesis by (cases owner) (auto simp: regress_call_def regress_inv_def shifted_before_def)
qed (simp add: regress_call_def)

text \<open>A step moves the claim to the thread, keeps it, or gives it up.\<close>

definition next_owner :: "nat \<Rightarrow> regress_state \<Rightarrow> nat option \<Rightarrow> nat option" where
  "next_owner t s owner =
     (if rg_pc s t = Some Rg_Claim \<and> rg_slot s = 1 then Some t
      else if rg_pc s t \<in> {Some Rg_Jump, Some Rg_Undo} then None else owner)"

lemma regress_inv_step:
  assumes inv: "regress_inv s owner"
  shows "regress_inv (regress_step t fires s) (next_owner t s owner)"
proof (cases "rg_pc s t")
  case None
  with assms show ?thesis by (simp add: regress_step_def next_owner_def)
next
  case (Some pc)
  note own = regress_inv_owner [OF inv, of t, unfolded Some]
  have late: "late_ok (rg_slot s) (rg_late s t) (Some pc)" using inv Some by (metis regress_inv_def)
  note unfold = regress_unfold next_owner_def late_ok_change [of 0 _ _ "Suc 0"] late_ok_change [of "Suc 0" _ _ 3]
    late_ok_change [of 3 _ _ 2] late_ok_change [of 3 _ _ "Suc 0"]
  show ?thesis
  proof (cases pc)
    case Rg_Load
    with Some own late inv show ?thesis
      by (cases "rg_slot s = 0"; cases owner) (simp_all add: unfold)
  next
    case Rg_Arm
    with Some own late inv show ?thesis
      by (cases "rg_slot s = 0"; cases owner) (simp_all add: unfold)
  next
    case Rg_Check
    with Some own late inv show ?thesis
      by (cases "rg_slot s = 2"; cases owner) (simp_all add: unfold)
  next
    case Rg_Claim
    with Some own late inv show ?thesis
      by (cases "rg_slot s = 1"; cases owner) (simp_all add: unfold)
  next
    case Rg_Decide
    moreover from this have "rg_slot s = 3" using own inv by (simp add: regress_inv_def)
    ultimately show ?thesis using Some own late inv by (cases fires) (simp_all add: unfold)
  next
    case Rg_Jump
    moreover from this have "rg_slot s = 3" using own inv by (simp add: regress_inv_def)
    ultimately show ?thesis using Some own late inv by (simp add: unfold)
  next
    case Rg_Undo
    moreover from this have "rg_slot s = 3" using own inv by (simp add: regress_inv_def)
    ultimately show ?thesis using Some own late inv by (simp add: unfold)
  qed
qed

lemma regress_reachable_inv: "regress_reachable s \<Longrightarrow> \<exists>owner. regress_inv s owner"
proof (induction rule: regress_reachable.induct)
  case regress_init
  show ?case using regress_inv_start by blast
next
  case (regress_calls s t)
  then show ?case using regress_inv_call by blast
next
  case (regress_steps s t fires)
  then show ?case using regress_inv_step by blast
qed


text \<open>Thread 0 arms the rule, thread 1 jumps, thread 2 reads afterwards.\<close>

definition regress_run :: "(nat \<times> bool) list \<Rightarrow> regress_state \<Rightarrow> regress_state" where
  "regress_run ts s = foldl (\<lambda>s (t, call). if call then regress_call t s else regress_step t True s) s ts"

lemma regress_run_reachable: "regress_reachable s \<Longrightarrow> regress_reachable (regress_run ts s)"
proof (induction ts rule: rev_induct)
  case Nil
  then show ?case by (simp add: regress_run_def)
next
  case (snoc tc ts)
  obtain t call where tc: "tc = (t, call)" by fastforce
  with snoc show ?case by (cases call) (auto simp: regress_run_def intro: regress_calls regress_steps)
qed


end
