(* ===== verification/Time_Hooks.thy ===== *)
theory Time_Hooks
  imports Time_Actions
begin

text \<open>
  The interposed functions of the clock library (\<open>src/time/chaos_time_hooks.c\<close>): clock reads and sleeps. The
  real functions, each found or not, and the system calls used before they are found are parameters; they are
  given the number of the call. Each match sees a snapshot of its own, given by the effect asked for.
\<close>

section \<open>Surroundings and state\<close>

record time_active =
  ta_prepared :: bool
  ta_snapshot :: "chaos_time_rule rule_snapshot"
  ta_sequence :: u64

text \<open>A sleep that ended early: the error and the time left.\<close>

type_synonym real_sleep = "timespec \<Rightarrow> nat \<Rightarrow> (errno \<times> timespec) option"

record time_env =
  te_prng :: prng_env
  te_now :: "chaos_time_effect \<Rightarrow> int"
  te_now_again :: int
  te_sleeper :: time_sleeper
  te_view :: "chaos_time_effect \<Rightarrow> time_active"
  te_clock_gettime :: "(clockid \<Rightarrow> nat \<Rightarrow> errno + timespec) option"
  te_sys_clock_gettime :: "clockid \<Rightarrow> nat \<Rightarrow> errno + timespec"
  te_gettimeofday :: "(nat \<Rightarrow> errno + int \<times> int) option"
  te_sys_gettimeofday :: "nat \<Rightarrow> errno + int \<times> int"
  te_time :: "(nat \<Rightarrow> int) option"
  te_timespec_get :: "(int \<Rightarrow> nat \<Rightarrow> int \<times> timespec) option"
  te_nanosleep :: "real_sleep option"
  te_sys_nanosleep :: real_sleep
  te_clock_nanosleep :: "(clockid \<Rightarrow> bool \<Rightarrow> real_sleep) option"
  te_sys_clock_nanosleep :: "clockid \<Rightarrow> bool \<Rightarrow> real_sleep"
  te_sleep :: "(nat \<Rightarrow> nat \<Rightarrow> nat) option"
  te_usleep :: "(nat \<Rightarrow> nat \<Rightarrow> errno option) option"

text \<open>The state: the decisions, the time slept for delays, \<open>errno\<close>, and the number of real calls.\<close>

record time_state =
  ts_act :: action_state
  ts_slept :: int
  ts_errno :: "errnum option"
  ts_calls :: nat

definition counted :: "time_state \<Rightarrow> time_state" where
  "counted st = st\<lparr>ts_calls := ts_calls st + 1\<rparr>"

definition time_fails :: "errno \<Rightarrow> time_state \<Rightarrow> time_state" where
  "time_fails e st = st\<lparr>ts_errno := Some (Errno_Name e)\<rparr>"

definition chaos_time_config_match ::
  "(chaos_time_effect \<Rightarrow> time_active) \<Rightarrow> chaos_time_effect \<Rightarrow> chaos_time_operation \<Rightarrow> clockid \<Rightarrow> chaos_time_rule option" where
  "chaos_time_config_match view effect operation clock_id =
     (if \<not> ta_prepared (view effect) then None
      else chaos_time_config_match_loaded (ta_snapshot (view effect)) (ta_sequence (view effect)) effect operation clock_id)"

section \<open>The real functions\<close>

definition chaos_time_call_real_clock_gettime ::
  "time_env \<Rightarrow> clockid \<Rightarrow> time_state \<Rightarrow> timespec option \<times> time_state" where
  "chaos_time_call_real_clock_gettime te clock_id st =
     (let f = (case te_clock_gettime te of Some f \<Rightarrow> f | None \<Rightarrow> te_sys_clock_gettime te)
      in case f clock_id (ts_calls st) of
           Inl e \<Rightarrow> (None, time_fails e (counted st))
         | Inr v \<Rightarrow> (Some v, counted st))"

definition sleep_result :: "(errno \<times> timespec) option \<Rightarrow> time_state \<Rightarrow> timespec option \<times> bool \<times> time_state" where
  "sleep_result outcome st =
     (case outcome of
        None \<Rightarrow> (None, True, counted st)
      | Some (e, left) \<Rightarrow> (Some left, False, time_fails e (counted st)))"

text \<open>The time left if it was written, and whether the call returned 0.\<close>

definition chaos_time_call_real_nanosleep ::
  "time_env \<Rightarrow> timespec \<Rightarrow> time_state \<Rightarrow> timespec option \<times> bool \<times> time_state" where
  "chaos_time_call_real_nanosleep te request st =
     (let f = (case te_nanosleep te of Some f \<Rightarrow> f | None \<Rightarrow> te_sys_nanosleep te)
      in sleep_result (f request (ts_calls st)) st)"

definition chaos_time_call_real_usleep :: "time_env \<Rightarrow> nat \<Rightarrow> time_state \<Rightarrow> bool \<times> time_state" where
  "chaos_time_call_real_usleep te usec st =
     (case te_usleep te of
        None \<Rightarrow>
          (let request = \<lparr>tv_sec = int (usec div 1000000), tv_nsec = int (usec mod 1000000) * 1000\<rparr>
           in snd (sleep_result (te_sys_nanosleep te request (ts_calls st)) st))
      | Some f \<Rightarrow>
          (case f usec (ts_calls st) of
             None \<Rightarrow> (True, counted st)
           | Some e \<Rightarrow> (False, time_fails e (counted st))))"

definition chaos_time_call_real_gettimeofday :: "time_env \<Rightarrow> time_state \<Rightarrow> (int \<times> int) option \<times> time_state" where
  "chaos_time_call_real_gettimeofday te st =
     (let f = (case te_gettimeofday te of Some f \<Rightarrow> f | None \<Rightarrow> te_sys_gettimeofday te)
      in case f (ts_calls st) of
           Inl e \<Rightarrow> (None, time_fails e (counted st))
         | Inr v \<Rightarrow> (Some v, counted st))"

definition CLOCK_REALTIME :: clockid where "CLOCK_REALTIME = 0"

definition chaos_time_call_real_time :: "time_env \<Rightarrow> time_state \<Rightarrow> int \<times> time_state" where
  "chaos_time_call_real_time te st =
     (case te_time te of
        None \<Rightarrow>
          (case te_sys_clock_gettime te CLOCK_REALTIME (ts_calls st) of
             Inl e \<Rightarrow> (- 1, time_fails e (counted st))
           | Inr v \<Rightarrow> (tv_sec v, counted st))
      | Some f \<Rightarrow> (f (ts_calls st), counted st))"

text \<open>\<open>clock_nanosleep\<close> returns its error and leaves \<open>errno\<close> alone; \<open>absolute\<close> is the flag \<open>TIMER_ABSTIME\<close>.\<close>

definition chaos_time_call_real_clock_nanosleep ::
  "time_env \<Rightarrow> clockid \<Rightarrow> bool \<Rightarrow> timespec \<Rightarrow> time_state \<Rightarrow> errno option \<times> timespec option \<times> time_state" where
  "chaos_time_call_real_clock_nanosleep te clock_id absolute request st =
     (let f = (case te_clock_nanosleep te of Some f \<Rightarrow> f | None \<Rightarrow> te_sys_clock_nanosleep te)
      in case f clock_id absolute request (ts_calls st) of
           None \<Rightarrow> (None, None, counted st)
         | Some (e, left) \<Rightarrow> (Some e, Some left, counted st))"

definition chaos_time_call_real_sleep :: "time_env \<Rightarrow> nat \<Rightarrow> time_state \<Rightarrow> nat \<times> time_state" where
  "chaos_time_call_real_sleep te seconds st =
     (case te_sleep te of
        None \<Rightarrow>
          (case te_sys_nanosleep te \<lparr>tv_sec = int seconds, tv_nsec = 0\<rparr> (ts_calls st) of
             None \<Rightarrow> (0, counted st)
           | Some (e, left) \<Rightarrow> (nat (tv_sec left) + (if tv_nsec left \<noteq> 0 then 1 else 0), time_fails e (counted st)))
      | Some f \<Rightarrow> (f seconds (ts_calls st), counted st))"

definition TIME_UTC :: int where "TIME_UTC = 1"

definition chaos_time_call_real_timespec_get ::
  "time_env \<Rightarrow> int \<Rightarrow> time_state \<Rightarrow> int \<times> timespec option \<times> time_state" where
  "chaos_time_call_real_timespec_get te base st =
     (case te_timespec_get te of
        None \<Rightarrow>
          (if base \<noteq> TIME_UTC then (0, None, st)
           else case te_sys_clock_gettime te CLOCK_REALTIME (ts_calls st) of
                  Inl e \<Rightarrow> (0, None, time_fails e (counted st))
                | Inr v \<Rightarrow> (base, Some v, counted st))
      | Some f \<Rightarrow> (case f base (ts_calls st) of (rc, v) \<Rightarrow> (rc, Some v, counted st)))"

definition chaos_time_copy_remaining :: "timespec \<Rightarrow> timespec option" where
  "chaos_time_copy_remaining request = Some request"

section \<open>Clock reads\<close>

text \<open>The delay and error rules that come before every call: the error, if one is to be injected.\<close>

definition time_before ::
  "time_env \<Rightarrow> chaos_time_operation \<Rightarrow> clockid \<Rightarrow> time_state \<Rightarrow> errnum option \<times> time_state" where
  "time_before te operation clock_id st =
     (let st = (case chaos_time_config_match (te_view te) CHAOS_TIME_EFFECT_LATENCY operation clock_id of
            None \<Rightarrow> st
          | Some r \<Rightarrow>
              (case chaos_time_rule_apply_latency (te_prng te) (te_now te CHAOS_TIME_EFFECT_LATENCY) (te_sleeper te) r (ts_act st) of
                 (slept, act) \<Rightarrow> st\<lparr>ts_act := act, ts_slept := ts_slept st + slept\<rparr>))
      in case chaos_time_config_match (te_view te) CHAOS_TIME_EFFECT_ERRNO operation clock_id of
           None \<Rightarrow> (None, st)
         | Some r \<Rightarrow>
             (case chaos_time_rule_apply_errno (te_prng te) (te_now te CHAOS_TIME_EFFECT_ERRNO) r (ts_act st) of
                (e, act) \<Rightarrow> (e, st\<lparr>ts_act := act\<rparr>)))"

text \<open>\<open>None\<close> where the function does not return 0.\<close>

definition chaos_time_read_clock :: "time_env \<Rightarrow> clockid \<Rightarrow> time_state \<Rightarrow> timespec option \<times> time_state" where
  "chaos_time_read_clock te clock_id st =
     (case time_before te CHAOS_TIME_OP_CLOCK_GETTIME clock_id st of
        (Some e, st) \<Rightarrow> (None, st\<lparr>ts_errno := Some e\<rparr>)
      | (None, st) \<Rightarrow>
          (case chaos_time_call_real_clock_gettime te clock_id st of
             (None, st) \<Rightarrow> (None, st)
           | (Some v, st) \<Rightarrow>
               (let match = (\<lambda>effect. chaos_time_config_match (te_view te) effect CHAOS_TIME_OP_CLOCK_GETTIME clock_id);
                    (v, act) = (case match CHAOS_TIME_EFFECT_OFFSET of
                       None \<Rightarrow> (v, ts_act st)
                     | Some r \<Rightarrow> chaos_time_rule_apply_offset (te_prng te) (te_now te CHAOS_TIME_EFFECT_OFFSET) r v (ts_act st));
                    (v, act) = (case match CHAOS_TIME_EFFECT_REGRESS of
                       None \<Rightarrow> (v, act)
                     | Some r \<Rightarrow> chaos_time_rule_apply_regress (te_prng te) (te_now te CHAOS_TIME_EFFECT_REGRESS)
                                  (te_now_again te) r v act)
                in (Some v, st\<lparr>ts_act := act\<rparr>))))"

definition clock_gettime :: "time_env \<Rightarrow> int \<Rightarrow> bool \<Rightarrow> clockid \<Rightarrow> time_state \<Rightarrow> timespec option \<times> time_state" where
  "clock_gettime te guard has_value clock_id st =
     (if chaos_time_in_internal guard \<or> \<not> has_value then chaos_time_call_real_clock_gettime te clock_id st
      else chaos_time_read_clock te clock_id st)"

text \<open>\<open>zone\<close>: the second argument is no null pointer.\<close>

definition gettimeofday :: "time_env \<Rightarrow> int \<Rightarrow> bool \<Rightarrow> bool \<Rightarrow> time_state \<Rightarrow> (int \<times> int) option \<times> time_state" where
  "gettimeofday te guard has_value zone st =
     (if chaos_time_in_internal guard \<or> \<not> has_value then chaos_time_call_real_gettimeofday te st
      else case chaos_time_read_clock te CLOCK_REALTIME st of
             (None, st) \<Rightarrow> (None, st)
           | (Some v, st) \<Rightarrow>
               (let (zone_read, st) = (if zone then chaos_time_call_real_gettimeofday te st else (Some (0, 0), st))
                in (if zone_read = None then None else Some (tv_sec v, tv_nsec v div 1000), st)))"

definition time_call :: "time_env \<Rightarrow> int \<Rightarrow> time_state \<Rightarrow> int \<times> time_state" where
  "time_call te guard st =
     (if chaos_time_in_internal guard then chaos_time_call_real_time te st
      else case chaos_time_read_clock te CLOCK_REALTIME st of
             (None, st) \<Rightarrow> (- 1, st)
           | (Some v, st) \<Rightarrow> (tv_sec v, st))"

definition timespec_get :: "time_env \<Rightarrow> int \<Rightarrow> bool \<Rightarrow> int \<Rightarrow> time_state \<Rightarrow> int \<times> timespec option \<times> time_state" where
  "timespec_get te guard has_value base st =
     (if chaos_time_in_internal guard \<or> \<not> has_value \<or> base \<noteq> TIME_UTC then chaos_time_call_real_timespec_get te base st
      else case chaos_time_read_clock te CLOCK_REALTIME st of
             (None, st) \<Rightarrow> (0, None, st)
           | (Some v, st) \<Rightarrow> (base, Some v, st))"

section \<open>Sleeps\<close>

text \<open>The time left if it was written, and whether the call returned 0. No request is a null pointer.\<close>

definition nanosleep ::
  "time_env \<Rightarrow> int \<Rightarrow> timespec \<Rightarrow> time_state \<Rightarrow> timespec option \<times> bool \<times> time_state" where
  "nanosleep te guard request st =
     (if chaos_time_in_internal guard then chaos_time_call_real_nanosleep te request st
      else case time_before te CHAOS_TIME_OP_NANOSLEEP 0 st of
             (Some e, st) \<Rightarrow>
               (if e = Errno_Name EINTR then chaos_time_copy_remaining request else None, False, st\<lparr>ts_errno := Some e\<rparr>)
           | (None, st) \<Rightarrow> chaos_time_call_real_nanosleep te request st)"

definition sleep_call :: "time_env \<Rightarrow> int \<Rightarrow> nat \<Rightarrow> time_state \<Rightarrow> nat \<times> time_state" where
  "sleep_call te guard seconds st =
     (if chaos_time_in_internal guard then chaos_time_call_real_sleep te seconds st
      else case time_before te CHAOS_TIME_OP_NANOSLEEP 0 st of
             (Some e, st) \<Rightarrow> (seconds, st\<lparr>ts_errno := Some e\<rparr>)
           | (None, st) \<Rightarrow> chaos_time_call_real_sleep te seconds st)"

text \<open>The returned error, injected or of the real function.\<close>

definition clock_nanosleep ::
  "time_env \<Rightarrow> int \<Rightarrow> clockid \<Rightarrow> bool \<Rightarrow> timespec \<Rightarrow> time_state \<Rightarrow> errnum option \<times> timespec option \<times> time_state" where
  "clock_nanosleep te guard clock_id absolute request st =
     (let real_call = (\<lambda>request st. case chaos_time_call_real_clock_nanosleep te clock_id absolute request st of
            (e, left, st) \<Rightarrow> (map_option Errno_Name e, left, st))
      in if chaos_time_in_internal guard then real_call request st
         else case time_before te CHAOS_TIME_OP_NANOSLEEP 0 st of
                (Some e, st) \<Rightarrow>
                  (Some e, if e = Errno_Name EINTR \<and> \<not> absolute then chaos_time_copy_remaining request else None, st)
              | (None, st) \<Rightarrow>
                  (if absolute then
                     (let match = (\<lambda>effect. chaos_time_config_match (te_view te) effect CHAOS_TIME_OP_CLOCK_GETTIME clock_id);
                          (deadline, changed) = chaos_time_rule_unshift_deadline (te_now te CHAOS_TIME_EFFECT_OFFSET)
                            (match CHAOS_TIME_EFFECT_OFFSET) (match CHAOS_TIME_EFFECT_REGRESS) request (act_pool (ts_act st))
                      in real_call (if changed then deadline else request) st)
                   else real_call request st))"

definition usleep :: "time_env \<Rightarrow> int \<Rightarrow> nat \<Rightarrow> time_state \<Rightarrow> bool \<times> time_state" where
  "usleep te guard usec st =
     (if chaos_time_in_internal guard then chaos_time_call_real_usleep te usec st
      else case time_before te CHAOS_TIME_OP_USLEEP 0 st of
             (Some e, st) \<Rightarrow> (False, st\<lparr>ts_errno := Some e\<rparr>)
           | (None, st) \<Rightarrow> chaos_time_call_real_usleep te usec st)"

section \<open>What the wrappers promise\<close>

lemmas real_call_defs = chaos_time_call_real_clock_gettime_def counted_def time_fails_def

lemma time_before_quiet [simp]:
  assumes "chaos_time_config_match (te_view te) CHAOS_TIME_EFFECT_LATENCY operation clock_id = None"
    "chaos_time_config_match (te_view te) CHAOS_TIME_EFFECT_ERRNO operation clock_id = None"
  shows "time_before te operation clock_id st = (None, st)"
  using assms by (simp add: time_before_def)

text \<open>An error rule alone decides by itself, before any real call.\<close>

lemma time_before_error:
  assumes "chaos_time_config_match (te_view te) CHAOS_TIME_EFFECT_LATENCY operation clock_id = None"
    "chaos_time_config_match (te_view te) CHAOS_TIME_EFFECT_ERRNO operation clock_id = Some r"
    "chaos_time_rule_apply_errno (te_prng te) (te_now te CHAOS_TIME_EFFECT_ERRNO) r (ts_act st) = (e, act)"
  shows "time_before te operation clock_id st = (e, st\<lparr>ts_act := act\<rparr>)"
  using assms by (simp add: time_before_def)



section \<open>An example\<close>

definition demo_eintr_rule :: chaos_time_rule where
  "demo_eintr_rule = (demo_time_rule CHAOS_TIME_EFFECT_ERRNO 0)\<lparr>time_errnum := Some (Errno_Name EINTR)\<rparr>"

text \<open>No real function was found; the system calls succeed.\<close>

definition demo_time_env :: "chaos_time_rule list \<Rightarrow> time_env" where
  "demo_time_env rules =
     \<lparr>te_prng = demo_prng, te_now = (\<lambda>_. 0), te_now_again = 0, te_sleeper = Sleep_Nanosleep [],
      te_view = (\<lambda>_. \<lparr>ta_prepared = True, ta_snapshot = \<lparr>snap_sequence = 2, snap_rules = rules, snap_parse_ok = True\<rparr>,
                      ta_sequence = 2\<rparr>),
      te_clock_gettime = None, te_sys_clock_gettime = (\<lambda>_ n. Inr \<lparr>tv_sec = 100 + int n, tv_nsec = 5\<rparr>),
      te_gettimeofday = None, te_sys_gettimeofday = (\<lambda>n. Inr (100 + int n, 0)), te_time = None, te_timespec_get = None,
      te_nanosleep = None, te_sys_nanosleep = (\<lambda>_ _. None), te_clock_nanosleep = None,
      te_sys_clock_nanosleep = (\<lambda>_ _ _ _. None), te_sleep = None, te_usleep = None\<rparr>"

definition demo_time_state :: time_state where
  "demo_time_state = \<lparr>ts_act = demo_actions, ts_slept = 0, ts_errno = None, ts_calls = 0\<rparr>"

text \<open>Whether a rule fires does not depend on the error it carries.\<close>

lemma trigger_errnum:
  "chaos_time_rule_should_trigger env now (r\<lparr>time_errnum := e\<rparr>) st = chaos_time_rule_should_trigger env now r st"
proof -
  have "fire_action (r\<lparr>time_errnum := e\<rparr>) = fire_action r"
    by (simp add: fun_eq_iff fire_action_def fire_on_pool_def)
  then show ?thesis by (simp add: chaos_time_rule_should_trigger_def cong: if_cong)
qed

lemmas demo_match_defs = chaos_time_config_match_def chaos_time_config_match_loaded_def match_snapshot_def
  chaos_time_config_select_rule_def chaos_snapshot_read_begin_def chaos_snapshot_read_valid_def demo_time_env_def



end
