(* ===== verification/Time_Reload.thy ===== *)
theory Time_Reload
  imports Time_Config Rule_Reload
begin

text \<open>
  The clock library's copy of the rule file machinery (\<open>src/time/chaos_time_config.c\<close>): its functions are those of
  \<open>Rule_Reload\<close> with the limits, paths, parser and stamp correction of this library.
\<close>

section \<open>The functions\<close>

type_synonym time_lib = "chaos_time_rule rule_lib"

definition CHAOS_TIME_MAX_LINE_LENGTH :: nat where "CHAOS_TIME_MAX_LINE_LENGTH = 1024"
definition CHAOS_TIME_MAX_CONFIG_BYTES :: nat where
  "CHAOS_TIME_MAX_CONFIG_BYTES = CHAOS_TIME_MAX_RULES * CHAOS_TIME_MAX_LINE_LENGTH"
definition CHAOS_TIME_STATUS_PATH :: string where "CHAOS_TIME_STATUS_PATH = ''/tmp/.chaos-time.status''"
definition CHAOS_TIME_HITS_PREFIX :: string where "CHAOS_TIME_HITS_PREFIX = ''/tmp/.chaos-time.hits''"

definition chaos_time_config_normalize_mtime_hash :: "u64 \<Rightarrow> u64" where
  "chaos_time_config_normalize_mtime_hash x =
     (if x = CHAOS_IO_MTIME_UNKNOWN \<or> x = CHAOS_IO_MTIME_RELOADING then x - 1 else x)"

definition time_reload :: "chaos_time_rule reload_params" where
  "time_reload =
     \<lparr>rp_normalize = chaos_time_config_normalize_mtime_hash,
      rp_parse = chaos_time_config_parse_buffer,
      rp_max_rules = CHAOS_TIME_MAX_RULES, rp_max_bytes = CHAOS_TIME_MAX_CONFIG_BYTES,
      rp_status_path = CHAOS_TIME_STATUS_PATH, rp_hits_prefix = CHAOS_TIME_HITS_PREFIX,
      rp_reset_counters = (\<lambda>counters. counters)\<rparr>"

definition chaos_time_config_reset_state :: "bool \<Rightarrow> chaos_time_rule rule_state \<Rightarrow> chaos_time_rule rule_state" where
  "chaos_time_config_reset_state = reload_reset_state"

definition chaos_time_config_active_state :: "time_lib \<Rightarrow> chaos_time_rule rule_state" where
  "chaos_time_config_active_state = reload_active_state"

definition chaos_time_config_publish :: "nat \<Rightarrow> u64 \<Rightarrow> time_lib \<Rightarrow> time_lib" where
  "chaos_time_config_publish = reload_publish time_reload"

definition chaos_time_config_hash_mtime :: "file_stamp option \<Rightarrow> u64" where
  "chaos_time_config_hash_mtime = reload_hash_mtime time_reload"

definition chaos_time_config_observed_mtime :: "io_env \<Rightarrow> u64" where
  "chaos_time_config_observed_mtime = reload_observed_mtime time_reload"

definition chaos_time_config_read_file :: "io_env \<Rightarrow> u64 \<Rightarrow> time_lib \<Rightarrow> read_result \<times> time_lib" where
  "chaos_time_config_read_file = reload_read_file time_reload"

definition chaos_time_config_init :: "io_env \<Rightarrow> time_lib \<Rightarrow> time_lib" where
  "chaos_time_config_init = reload_init time_reload"

definition chaos_time_config_last_error :: "time_lib \<Rightarrow> chaos_status_error" where
  "chaos_time_config_last_error = rl_error"

definition chaos_time_config_reject_file :: "nat \<Rightarrow> status_reason \<Rightarrow> time_lib \<Rightarrow> time_lib" where
  "chaos_time_config_reject_file = reload_reject_file"

definition chaos_time_config_report_hits :: "io_env \<Rightarrow> bool \<Rightarrow> time_lib \<Rightarrow> time_lib" where
  "chaos_time_config_report_hits = reload_report_hits time_reload"

definition chaos_time_config_after_fork :: "io_env \<Rightarrow> time_lib \<Rightarrow> time_lib" where
  "chaos_time_config_after_fork = reload_after_fork time_reload"

definition chaos_time_config_report_hits_at_exit :: "io_env \<Rightarrow> time_lib \<Rightarrow> time_lib" where
  "chaos_time_config_report_hits_at_exit env lib = chaos_time_config_report_hits env False lib"

definition chaos_time_config_attach_hits :: "nat \<Rightarrow> time_lib \<Rightarrow> time_lib" where
  "chaos_time_config_attach_hits = reload_attach_hits"

definition chaos_time_config_report :: "io_env \<Rightarrow> u64 \<Rightarrow> chaos_time_rule rule_state \<Rightarrow> time_lib \<Rightarrow> time_lib" where
  "chaos_time_config_report = reload_report time_reload"

definition chaos_time_config_checked_recently :: "io_env \<Rightarrow> time_lib \<Rightarrow> bool \<times> time_lib" where
  "chaos_time_config_checked_recently = reload_checked_recently"

definition chaos_time_config_refresh :: "io_env \<Rightarrow> time_lib \<Rightarrow> bool \<times> time_lib" where
  "chaos_time_config_refresh = reload_refresh time_reload"

definition chaos_time_config_prepare :: "io_env \<Rightarrow> time_lib \<Rightarrow> bool \<times> time_lib" where
  "chaos_time_config_prepare env lib = chaos_time_config_refresh env lib"

text \<open>The part of the refresh that follows the claim of the reload.\<close>

definition time_reload_claimed :: "io_env \<Rightarrow> u64 \<Rightarrow> u64 \<Rightarrow> time_lib \<Rightarrow> time_lib" where
  "time_reload_claimed = reload_run time_reload"

section \<open>The contract of the reload\<close>

lemmas time_reload_defs = chaos_time_config_active_state_def chaos_time_config_hash_mtime_def chaos_time_config_observed_mtime_def
  chaos_time_config_read_file_def chaos_time_config_init_def chaos_time_config_refresh_def chaos_time_config_after_fork_def
  chaos_time_config_checked_recently_def time_reload_claimed_def

lemma time_reload_simps [simp]:
  "rp_max_rules time_reload = CHAOS_TIME_MAX_RULES" "rp_reset_counters time_reload counters = counters"
  "rp_status_path time_reload = CHAOS_TIME_STATUS_PATH"
  "rp_parse time_reload err data = chaos_time_config_parse_buffer err data"
  by (simp_all add: time_reload_def)

interpretation time_store: reload_library time_reload
  by (rule grammar_reload_library [OF time_lines.line_grammar_axioms, of _ time_rule_supported CHAOS_TIME_MAX_RULES])
    (simp_all add: time_reload_def fun_eq_iff chaos_time_config_parse_buffer_def time_parse_line_form)

text \<open>C33. A clock rule file read again because its stamp could not be trusted, with the contents it had, changes
  nothing: the active rules stay, and with them the pool that holds their hit counts, their \<open>@first\<close> claims and the
  jump state of \<open>REGRESS\<close> rules, and no file is written.\<close>

theorem time_reread_keeps:
  assumes "reload_reachable time_reload lib" "reload_offers time_reload env observed data"
    "observed \<noteq> CHAOS_IO_MTIME_MISSING" "chaos_config_content_hash data = rl_content lib"
  shows "chaos_time_config_active_state (time_reload_claimed env observed observed lib) = chaos_time_config_active_state lib \<and>
    rl_pool (time_reload_claimed env observed observed lib) = rl_pool lib \<and>
    rl_fs (time_reload_claimed env observed observed lib) = rl_fs lib \<and>
    rl_cached_mtime (time_reload_claimed env observed observed lib) = observed"
  using time_store.unchanged_file [OF assms] by (simp add: time_reload_defs Let_def)

definition demo_time_stamp :: u64 where
  "demo_time_stamp = chaos_time_config_hash_mtime (ev_fstat demo_io_env)"

lemma demo_time_stamp_ok: "demo_time_stamp \<noteq> CHAOS_IO_MTIME_MISSING"
  by (simp add: demo_time_stamp_def chaos_time_config_hash_mtime_def reload_hash_mtime_def demo_io_env_def time_reload_def
      chaos_time_config_normalize_mtime_hash_def CHAOS_IO_MTIME_MISSING_def CHAOS_IO_MTIME_UNKNOWN_def CHAOS_IO_MTIME_RELOADING_def)

theorem time_reread_keeps_witness:
  "rl_pool (time_reload_claimed (demo_reading ''# quiet'') demo_time_stamp demo_time_stamp
     (demo_started time_reload (chaos_config_content_hash ''# quiet''))) =
   rl_pool (demo_started time_reload (chaos_config_content_hash ''# quiet''))"
proof -
  have "reload_offers time_reload (demo_reading ''# quiet'') demo_time_stamp ''# quiet''"
    unfolding demo_time_stamp_def chaos_time_config_hash_mtime_def
    by (rule demo_reading_offers)
      (simp_all add: time_reload_def CHAOS_TIME_MAX_CONFIG_BYTES_def CHAOS_TIME_MAX_RULES_def CHAOS_TIME_MAX_LINE_LENGTH_def)
  then show ?thesis
    using time_reread_keeps [OF demo_started_reachable _ demo_time_stamp_ok, of "demo_reading ''# quiet''" "''# quiet''"] by simp
qed

end
