(* ===== verification/Memory_Config.thy ===== *)
theory Memory_Config
  imports Rule_Values
begin

text \<open>
  The rule file of the memory library: selectors for operations and kinds of mappings, values, the line and the
  buffer parser, and selection (\<open>src/memory/chaos_memory_config.c\<close>). The flags of a mapping are a 32-bit word.
\<close>

section \<open>Data\<close>

datatype chaos_memory_operation =
  CHAOS_MEMORY_OP_INVALID | CHAOS_MEMORY_OP_MMAP | CHAOS_MEMORY_OP_MPROTECT | CHAOS_MEMORY_OP_MADVISE
| CHAOS_MEMORY_OP_MUNMAP

datatype chaos_memory_selector_kind =
  CHAOS_MEMORY_SELECTOR_INVALID | CHAOS_MEMORY_SELECTOR_ANY | CHAOS_MEMORY_SELECTOR_OPERATION
| CHAOS_MEMORY_SELECTOR_MMAP_KIND

datatype chaos_memory_mmap_kind =
  CHAOS_MEMORY_MMAP_KIND_INVALID | CHAOS_MEMORY_MMAP_KIND_ANON | CHAOS_MEMORY_MMAP_KIND_FILE

datatype chaos_memory_effect =
  CHAOS_MEMORY_EFFECT_INVALID | CHAOS_MEMORY_EFFECT_ERRNO | CHAOS_MEMORY_EFFECT_LATENCY

record chaos_memory_selector =
  msel_kind :: chaos_memory_selector_kind
  msel_operation :: chaos_memory_operation
  msel_mmap_kind :: chaos_memory_mmap_kind
  msel_len :: nat

record chaos_memory_rule = rule_head +
  mem_selector :: chaos_memory_selector
  mem_effect :: chaos_memory_effect
  mem_errnum :: "errnum option"
  mem_probability :: rat
  mem_latency_ms :: nat

type_synonym mmap_flags = "32 word"

definition CHAOS_MEMORY_MAX_RULES :: nat where "CHAOS_MEMORY_MAX_RULES = 256"
definition CHAOS_MEMORY_MAX_VALUE :: nat where "CHAOS_MEMORY_MAX_VALUE = 256"

definition MAP_ANONYMOUS :: mmap_flags where "MAP_ANONYMOUS = 0x20"

definition chaos_memory_mmap_is_anonymous :: "mmap_flags \<Rightarrow> bool" where
  "chaos_memory_mmap_is_anonymous flags \<longleftrightarrow> flags AND MAP_ANONYMOUS \<noteq> 0"

text \<open>What \<open>memset\<close> leaves: of each enumeration the constant that is 0.\<close>

definition memory_selector_zero :: chaos_memory_selector where
  "memory_selector_zero = \<lparr>msel_kind = CHAOS_MEMORY_SELECTOR_ANY, msel_operation = CHAOS_MEMORY_OP_MMAP,
     msel_mmap_kind = CHAOS_MEMORY_MMAP_KIND_ANON, msel_len = 0\<rparr>"

definition memory_rule_zero :: chaos_memory_rule where
  "memory_rule_zero =
     \<lparr>rh_policy = policy_zero, rh_call_size = 0, rh_hit = None, rh_hit_generation = 0,
      mem_selector = memory_selector_zero, mem_effect = CHAOS_MEMORY_EFFECT_ERRNO, mem_errnum = None,
      mem_probability = 0, mem_latency_ms = 0\<rparr>"

section \<open>Text helpers\<close>

definition chaos_memory_is_blank_char :: "char \<Rightarrow> bool" where
  "chaos_memory_is_blank_char ch \<longleftrightarrow> ch = CHR '' '' \<or> ch = TAB \<or> ch = CR \<or> ch = LF"

definition chaos_memory_trim :: "string \<Rightarrow> string" where
  "chaos_memory_trim s =
     (let t = dropWhile chaos_memory_is_blank_char s
      in if t = [] then t else rstrip chaos_memory_is_blank_char t)"

definition chaos_memory_strip_comment :: "string \<Rightarrow> string" where
  "chaos_memory_strip_comment line =
     (case split_first CHR ''#'' line of None \<Rightarrow> line | Some (before, _) \<Rightarrow> before)"

section \<open>Selectors\<close>

definition chaos_memory_selector_parse :: "string \<Rightarrow> chaos_memory_selector option" where
  "chaos_memory_selector_parse s =
     (if s = [] then None
      else let selector = memory_selector_zero\<lparr>msel_len := length s\<rparr>;
               whole = (\<lambda>operation. Some (selector\<lparr>msel_kind := CHAOS_MEMORY_SELECTOR_OPERATION, msel_operation := operation\<rparr>));
               mapping = (\<lambda>kind. Some (selector\<lparr>msel_kind := CHAOS_MEMORY_SELECTOR_MMAP_KIND,
                                       msel_operation := CHAOS_MEMORY_OP_MMAP, msel_mmap_kind := kind\<rparr>))
           in if s = ''*''
              then Some (selector\<lparr>msel_kind := CHAOS_MEMORY_SELECTOR_ANY, msel_operation := CHAOS_MEMORY_OP_INVALID\<rparr>)
              else if s = ''mmap'' then whole CHAOS_MEMORY_OP_MMAP
              else if s = ''mmap/anon'' then mapping CHAOS_MEMORY_MMAP_KIND_ANON
              else if s = ''mmap/file'' then mapping CHAOS_MEMORY_MMAP_KIND_FILE
              else if s = ''mprotect'' then whole CHAOS_MEMORY_OP_MPROTECT
              else if s = ''munmap'' then whole CHAOS_MEMORY_OP_MUNMAP
              else if s = ''madvise'' then whole CHAOS_MEMORY_OP_MADVISE
              else None)"

text \<open>The rank of the match, \<open>None\<close> where the function returns 0.\<close>

definition chaos_memory_selector_matches ::
  "chaos_memory_selector \<Rightarrow> chaos_memory_operation \<Rightarrow> mmap_flags \<Rightarrow> nat option" where
  "chaos_memory_selector_matches selector operation flags =
     (if msel_kind selector = CHAOS_MEMORY_SELECTOR_ANY then Some 1
      else if msel_operation selector \<noteq> operation then None
      else if msel_kind selector = CHAOS_MEMORY_SELECTOR_OPERATION then Some 2
      else if msel_kind selector = CHAOS_MEMORY_SELECTOR_MMAP_KIND \<and> operation = CHAOS_MEMORY_OP_MMAP then
        (let is_anonymous = chaos_memory_mmap_is_anonymous flags
         in if (msel_mmap_kind selector = CHAOS_MEMORY_MMAP_KIND_ANON \<and> is_anonymous) \<or>
               (msel_mmap_kind selector = CHAOS_MEMORY_MMAP_KIND_FILE \<and> \<not> is_anonymous) then Some 3 else None)
      else None)"

section \<open>Values\<close>

definition chaos_memory_parse_errno_name :: "string \<Rightarrow> errnum option" where
  "chaos_memory_parse_errno_name s =
     (if s = ''ENOMEM'' then Some (Errno_Name ENOMEM)
      else if s = ''EINVAL'' then Some (Errno_Name EINVAL)
      else if s = ''EACCES'' then Some (Errno_Name EACCES)
      else if s = ''EPERM'' then Some (Errno_Name EPERM)
      else if s = ''EBADF'' then Some (Errno_Name EBADF)
      else if s = ''ENODEV'' then Some (Errno_Name ENODEV)
      else if s = ''EAGAIN'' then Some (Errno_Name EAGAIN)
      else if s = ''EFAULT'' then Some (Errno_Name EFAULT)
      else if s = ''ENOSYS'' then Some (Errno_Name ENOSYS)
      else if s = ''ENFILE'' then Some (Errno_Name ENFILE)
      else if s = ''EMFILE'' then Some (Errno_Name EMFILE)
      else let (value, rest, converted, _) = strtol s
           in if \<not> converted \<or> chaos_memory_trim rest \<noteq> [] \<or> value \<le> 0 \<or> 0x7fffffff < value then None
              else Some (Errno_Number value))"

definition chaos_memory_parse_probability :: "string \<Rightarrow> rat option" where
  "chaos_memory_parse_probability s = chaos_policy_parse_probability (Some s)"

definition chaos_memory_copy_text_value :: "string \<Rightarrow> nat \<Rightarrow> string option" where
  "chaos_memory_copy_text_value s buffer_size = (if length s = 0 \<or> buffer_size \<le> length s then None else Some s)"

definition chaos_memory_parse_payload_probability :: "string \<Rightarrow> nat \<Rightarrow> (string \<times> rat) option" where
  "chaos_memory_parse_payload_probability s payload_size =
     (case split_last CHR ''@'' s of
        None \<Rightarrow> map_option (\<lambda>payload. (payload, 1)) (chaos_memory_copy_text_value s payload_size)
      | Some (before, after) \<Rightarrow>
          (if length before = 0 \<or> payload_size \<le> length before then None
           else map_option (\<lambda>p. (before, p)) (chaos_memory_parse_probability after)))"

definition chaos_memory_parse_latency :: "string \<Rightarrow> nat option" where
  "chaos_memory_parse_latency s =
     (let (value, rest, converted) = strtoul s
      in if \<not> converted \<or> chaos_memory_trim rest \<noteq> [] \<or> 0xffffffff < value then None else Some value)"

section \<open>One line\<close>

definition chaos_memory_split_rule_fields :: "string \<Rightarrow> (string \<times> string \<times> string) option" where
  "chaos_memory_split_rule_fields line =
     (case split_first CHR '':'' line of
        None \<Rightarrow> None
      | Some (selector, rest) \<Rightarrow>
          (case split_first CHR '':'' rest of
             None \<Rightarrow> None
           | Some (effect, payload) \<Rightarrow>
               Some (chaos_memory_trim selector, chaos_memory_trim effect, chaos_memory_trim payload)))"

definition memory_parse_effect :: "string \<Rightarrow> string \<Rightarrow> chaos_memory_rule \<Rightarrow> chaos_memory_rule option" where
  "memory_parse_effect effect text_value rule =
     (let with_payload = (\<lambda>code. case chaos_memory_parse_payload_probability text_value CHAOS_MEMORY_MAX_VALUE of
            None \<Rightarrow> None
          | Some (payload, p) \<Rightarrow> code payload (rule\<lparr>mem_probability := p\<rparr>))
      in if effect = ''ERRNO'' then
           with_payload (\<lambda>payload r. map_option (\<lambda>e. r\<lparr>mem_effect := CHAOS_MEMORY_EFFECT_ERRNO, mem_errnum := Some e\<rparr>)
             (chaos_memory_parse_errno_name payload))
         else if effect = ''LATENCY'' then
           with_payload (\<lambda>payload r. map_option (\<lambda>ms. r\<lparr>mem_effect := CHAOS_MEMORY_EFFECT_LATENCY, mem_latency_ms := ms\<rparr>)
             (chaos_memory_parse_latency payload))
         else None)"

definition memory_parse_cursor :: "string \<Rightarrow> chaos_memory_rule line_result" where
  "memory_parse_cursor cursor =
     (case chaos_memory_split_rule_fields cursor of
        None \<Rightarrow> Line_Invalid
      | Some (selector, effect, text_value) \<Rightarrow>
          (if selector = [] \<or> effect = [] \<or> text_value = [] then Line_Invalid
           else case chaos_memory_selector_parse selector of
                  None \<Rightarrow> Line_Invalid
                | Some s \<Rightarrow>
                    (case memory_parse_effect effect text_value (memory_rule_zero\<lparr>mem_selector := s\<rparr>) of
                       None \<Rightarrow> Line_Invalid
                     | Some r \<Rightarrow> Line_Rule r)))"

definition chaos_memory_config_parse_line :: "string \<Rightarrow> chaos_memory_rule line_result" where
  "chaos_memory_config_parse_line line =
     (let cursor = chaos_memory_trim (chaos_memory_strip_comment line)
      in if cursor = [] then Line_Blank else memory_parse_cursor cursor)"

section \<open>The file and selection\<close>

definition memory_rule_supported :: "chaos_memory_rule \<Rightarrow> bool" where
  "memory_rule_supported rule \<longleftrightarrow> True"

definition chaos_memory_config_parse_buffer :: "chaos_status_error \<Rightarrow> string \<Rightarrow> chaos_memory_rule parse_result" where
  "chaos_memory_config_parse_buffer err buffer =
     parse_rule_buffer chaos_memory_config_parse_line memory_rule_supported CHAOS_MEMORY_MAX_RULES err buffer"

definition chaos_memory_config_select_rule ::
  "chaos_memory_rule list \<Rightarrow> chaos_memory_effect \<Rightarrow> chaos_memory_operation \<Rightarrow> mmap_flags \<Rightarrow> chaos_memory_rule option" where
  "chaos_memory_config_select_rule rules effect operation flags =
     ranked_from
       (\<lambda>r. if mem_effect r \<noteq> effect then None else chaos_memory_selector_matches (mem_selector r) operation flags)
       (\<lambda>r. msel_len (mem_selector r)) None rules"

definition chaos_memory_config_match_loaded ::
  "chaos_memory_rule rule_snapshot \<Rightarrow> u64 \<Rightarrow> chaos_memory_effect \<Rightarrow> chaos_memory_operation \<Rightarrow> mmap_flags
     \<Rightarrow> chaos_memory_rule option" where
  "chaos_memory_config_match_loaded st sequence_after effect operation flags =
     match_snapshot (\<lambda>rules. chaos_memory_config_select_rule rules effect operation flags) st sequence_after"

section \<open>The helpers are the shared ones\<close>

lemma memory_blank_eq: "chaos_memory_is_blank_char = is_blank_char"
  by (auto simp: fun_eq_iff chaos_memory_is_blank_char_def is_blank_char_def)

lemma memory_trim_eq: "chaos_memory_trim = trim_blanks"
  by (rule ext) (simp only: chaos_memory_trim_def memory_blank_eq trim_form)

lemma memory_strip_comment_eq: "chaos_memory_strip_comment = cut_comment"
  by (rule ext) (simp only: chaos_memory_strip_comment_def strip_form)

lemma memory_split_eq: "chaos_memory_split_rule_fields = split_fields"
  by (simp add: fun_eq_iff chaos_memory_split_rule_fields_def split_fields_def memory_trim_eq split: option.split prod.split)

lemma memory_payload_eq: "chaos_memory_parse_payload_probability = payload_probability"
  by (simp add: fun_eq_iff chaos_memory_parse_payload_probability_def payload_probability_def copy_text_def
      chaos_memory_copy_text_value_def chaos_memory_parse_probability_def split: option.split prod.split)

lemma memory_latency_eq: "chaos_memory_parse_latency = latency_value"
  by (simp add: fun_eq_iff chaos_memory_parse_latency_def latency_value_def memory_trim_eq)

lemma memory_errno_cases:
  "chaos_memory_parse_errno_name s = Some e \<Longrightarrow> (\<exists>n. e = Errno_Name n) \<or> errno_number s = Some e"
  by (auto simp: chaos_memory_parse_errno_name_def errno_number_def memory_trim_eq split: if_splits)

lemma memory_errno_ok: "chaos_memory_parse_errno_name s = Some e \<Longrightarrow> errnum_ok e"
  using memory_errno_cases [of s e] errno_number_ok [of s e] by (auto simp: errnum_ok_def)

lemma memory_parse_line_form: "chaos_memory_config_parse_line = trimmed_line memory_parse_cursor"
  by (simp add: fun_eq_iff chaos_memory_config_parse_line_def trimmed_line_def memory_trim_eq memory_strip_comment_eq)

section \<open>Well-formed rules\<close>

definition memory_selector_ok :: "chaos_memory_selector \<Rightarrow> bool" where
  "memory_selector_ok s \<longleftrightarrow>
     msel_kind s \<noteq> CHAOS_MEMORY_SELECTOR_INVALID \<and> 0 < msel_len s \<and> msel_len s \<le> 9 \<and>
     (msel_operation s = CHAOS_MEMORY_OP_INVALID \<longleftrightarrow> msel_kind s = CHAOS_MEMORY_SELECTOR_ANY) \<and>
     (msel_kind s = CHAOS_MEMORY_SELECTOR_MMAP_KIND \<longrightarrow> msel_operation s = CHAOS_MEMORY_OP_MMAP) \<and>
     msel_mmap_kind s \<noteq> CHAOS_MEMORY_MMAP_KIND_INVALID"

definition memory_rule_ok :: "chaos_memory_rule \<Rightarrow> bool" where
  "memory_rule_ok r \<longleftrightarrow>
     memory_selector_ok (mem_selector r) \<and> mem_effect r \<noteq> CHAOS_MEMORY_EFFECT_INVALID \<and>
     (mem_errnum r \<noteq> None \<longleftrightarrow> mem_effect r = CHAOS_MEMORY_EFFECT_ERRNO) \<and> pred_option errnum_ok (mem_errnum r) \<and>
     0 \<le> mem_probability r \<and> mem_probability r \<le> 1 \<and> mem_latency_ms r \<le> 0xffffffff \<and>
     (mem_effect r = CHAOS_MEMORY_EFFECT_ERRNO \<longrightarrow> mem_latency_ms r = 0)"

lemma memory_selector_parse_ok: "chaos_memory_selector_parse s = Some sel \<Longrightarrow> memory_selector_ok sel"
  by (auto simp: chaos_memory_selector_parse_def memory_selector_ok_def memory_selector_zero_def Let_def split: if_splits)

lemma memory_parse_effect_ok:
  assumes "memory_parse_effect effect text_value rule = Some r" "rule = memory_rule_zero\<lparr>mem_selector := s\<rparr>" "memory_selector_ok s"
  shows "memory_rule_ok r"
proof -
  have zero: "mem_errnum rule = None" "mem_latency_ms rule = 0" "mem_selector rule = s"
    by (simp_all add: assms(2) memory_rule_zero_def)
  note eff = assms(1) [unfolded memory_parse_effect_def Let_def memory_payload_eq memory_latency_eq]
  consider (errno) "effect = ''ERRNO''" | (latency) "effect = ''LATENCY''" | (other) "effect \<noteq> ''ERRNO''" "effect \<noteq> ''LATENCY''"
    by blast
  then show ?thesis
  proof cases
    case errno
    then obtain payload p e where "payload_probability text_value CHAOS_MEMORY_MAX_VALUE = Some (payload, p)"
      "r = rule\<lparr>mem_probability := p, mem_effect := CHAOS_MEMORY_EFFECT_ERRNO, mem_errnum := Some e\<rparr>"
      "chaos_memory_parse_errno_name payload = Some e"
      using eff by (auto split: option.splits)
    with payload_probability_range [OF this(1)] memory_errno_ok show ?thesis
      using zero assms(3) by (auto simp: memory_rule_ok_def)
  next
    case latency
    then obtain payload p ms where "payload_probability text_value CHAOS_MEMORY_MAX_VALUE = Some (payload, p)"
      "r = rule\<lparr>mem_probability := p, mem_effect := CHAOS_MEMORY_EFFECT_LATENCY, mem_latency_ms := ms\<rparr>"
      "latency_value payload = Some ms"
      using eff by (auto split: option.splits)
    with payload_probability_range [OF this(1)] latency_value_bound show ?thesis
      using zero assms(3) by (auto simp: memory_rule_ok_def)
  qed (use eff in simp)
qed

lemma memory_parse_cursor_ok: "memory_parse_cursor cursor = Line_Rule r \<Longrightarrow> memory_rule_ok r"
  by (auto simp: memory_parse_cursor_def split: option.splits prod.splits if_splits
      dest!: memory_selector_parse_ok intro!: memory_parse_effect_ok)

lemma memory_rule_ok_tail: "memory_rule_ok r \<Longrightarrow> memory_rule_ok (r\<lparr>rh_policy := p, rh_call_size := n\<rparr>)"
  by (simp add: memory_rule_ok_def)

interpretation memory_lines: trimmed_grammar memory_parse_cursor memory_rule_supported CHAOS_MEMORY_MAX_RULES memory_rule_ok
  by unfold_locales (simp_all add: memory_parse_cursor_ok memory_rule_ok_tail)


end
