(* ===== verification/Memory_Reload.thy ===== *)
theory Memory_Reload
  imports Memory_Config Rule_Reload
begin

text \<open>
  The memory library's copy of the rule file machinery (\<open>src/memory/chaos_memory_config.c\<close>): its functions are those of
  \<open>Rule_Reload\<close> with the limits, paths, parser and stamp correction of this library.
\<close>

section \<open>The functions\<close>

type_synonym memory_lib = "chaos_memory_rule rule_lib"

definition CHAOS_MEMORY_MAX_LINE_LENGTH :: nat where "CHAOS_MEMORY_MAX_LINE_LENGTH = 1024"
definition CHAOS_MEMORY_MAX_CONFIG_BYTES :: nat where
  "CHAOS_MEMORY_MAX_CONFIG_BYTES = CHAOS_MEMORY_MAX_RULES * CHAOS_MEMORY_MAX_LINE_LENGTH"
definition CHAOS_MEMORY_STATUS_PATH :: string where "CHAOS_MEMORY_STATUS_PATH = ''/tmp/.chaos-memory.status''"
definition CHAOS_MEMORY_HITS_PREFIX :: string where "CHAOS_MEMORY_HITS_PREFIX = ''/tmp/.chaos-memory.hits''"

definition chaos_memory_config_normalize_mtime_hash :: "u64 \<Rightarrow> u64" where
  "chaos_memory_config_normalize_mtime_hash x =
     (if x = CHAOS_IO_MTIME_UNKNOWN \<or> x = CHAOS_IO_MTIME_RELOADING then x - 1 else x)"

definition memory_reload :: "chaos_memory_rule reload_params" where
  "memory_reload =
     \<lparr>rp_normalize = chaos_memory_config_normalize_mtime_hash,
      rp_parse = chaos_memory_config_parse_buffer,
      rp_max_rules = CHAOS_MEMORY_MAX_RULES, rp_max_bytes = CHAOS_MEMORY_MAX_CONFIG_BYTES,
      rp_status_path = CHAOS_MEMORY_STATUS_PATH, rp_hits_prefix = CHAOS_MEMORY_HITS_PREFIX,
      rp_reset_counters = (\<lambda>counters. counters)\<rparr>"

definition chaos_memory_config_reset_state :: "bool \<Rightarrow> chaos_memory_rule rule_state \<Rightarrow> chaos_memory_rule rule_state" where
  "chaos_memory_config_reset_state = reload_reset_state"

definition chaos_memory_config_active_state :: "memory_lib \<Rightarrow> chaos_memory_rule rule_state" where
  "chaos_memory_config_active_state = reload_active_state"

definition chaos_memory_config_publish :: "nat \<Rightarrow> u64 \<Rightarrow> memory_lib \<Rightarrow> memory_lib" where
  "chaos_memory_config_publish = reload_publish memory_reload"

definition chaos_memory_config_hash_mtime :: "file_stamp option \<Rightarrow> u64" where
  "chaos_memory_config_hash_mtime = reload_hash_mtime memory_reload"

definition chaos_memory_config_observed_mtime :: "io_env \<Rightarrow> u64" where
  "chaos_memory_config_observed_mtime = reload_observed_mtime memory_reload"

definition chaos_memory_config_read_file :: "io_env \<Rightarrow> u64 \<Rightarrow> memory_lib \<Rightarrow> read_result \<times> memory_lib" where
  "chaos_memory_config_read_file = reload_read_file memory_reload"

definition chaos_memory_config_init :: "io_env \<Rightarrow> memory_lib \<Rightarrow> memory_lib" where
  "chaos_memory_config_init = reload_init memory_reload"

definition chaos_memory_config_last_error :: "memory_lib \<Rightarrow> chaos_status_error" where
  "chaos_memory_config_last_error = rl_error"

definition chaos_memory_config_reject_file :: "nat \<Rightarrow> status_reason \<Rightarrow> memory_lib \<Rightarrow> memory_lib" where
  "chaos_memory_config_reject_file = reload_reject_file"

definition chaos_memory_config_report_hits :: "io_env \<Rightarrow> bool \<Rightarrow> memory_lib \<Rightarrow> memory_lib" where
  "chaos_memory_config_report_hits = reload_report_hits memory_reload"

definition chaos_memory_config_after_fork :: "io_env \<Rightarrow> memory_lib \<Rightarrow> memory_lib" where
  "chaos_memory_config_after_fork = reload_after_fork memory_reload"

definition chaos_memory_config_report_hits_at_exit :: "io_env \<Rightarrow> memory_lib \<Rightarrow> memory_lib" where
  "chaos_memory_config_report_hits_at_exit env lib = chaos_memory_config_report_hits env False lib"

definition chaos_memory_config_attach_hits :: "nat \<Rightarrow> memory_lib \<Rightarrow> memory_lib" where
  "chaos_memory_config_attach_hits = reload_attach_hits"

definition chaos_memory_config_report :: "io_env \<Rightarrow> u64 \<Rightarrow> chaos_memory_rule rule_state \<Rightarrow> memory_lib \<Rightarrow> memory_lib" where
  "chaos_memory_config_report = reload_report memory_reload"

definition chaos_memory_config_checked_recently :: "io_env \<Rightarrow> memory_lib \<Rightarrow> bool \<times> memory_lib" where
  "chaos_memory_config_checked_recently = reload_checked_recently"

definition chaos_memory_config_refresh :: "io_env \<Rightarrow> memory_lib \<Rightarrow> bool \<times> memory_lib" where
  "chaos_memory_config_refresh = reload_refresh memory_reload"

definition chaos_memory_config_prepare :: "io_env \<Rightarrow> memory_lib \<Rightarrow> bool \<times> memory_lib" where
  "chaos_memory_config_prepare env lib = chaos_memory_config_refresh env lib"

text \<open>The part of the refresh that follows the claim of the reload.\<close>

definition memory_reload_claimed :: "io_env \<Rightarrow> u64 \<Rightarrow> u64 \<Rightarrow> memory_lib \<Rightarrow> memory_lib" where
  "memory_reload_claimed = reload_run memory_reload"

section \<open>The contract of the reload\<close>

lemmas memory_reload_defs = chaos_memory_config_active_state_def chaos_memory_config_hash_mtime_def chaos_memory_config_observed_mtime_def
  chaos_memory_config_read_file_def chaos_memory_config_init_def chaos_memory_config_refresh_def chaos_memory_config_after_fork_def
  chaos_memory_config_checked_recently_def memory_reload_claimed_def

lemma memory_reload_simps [simp]:
  "rp_max_rules memory_reload = CHAOS_MEMORY_MAX_RULES" "rp_reset_counters memory_reload counters = counters"
  "rp_status_path memory_reload = CHAOS_MEMORY_STATUS_PATH"
  "rp_parse memory_reload err data = chaos_memory_config_parse_buffer err data"
  by (simp_all add: memory_reload_def)

interpretation memory_store: reload_library memory_reload
  by (rule grammar_reload_library [OF memory_lines.line_grammar_axioms, of _ memory_rule_supported CHAOS_MEMORY_MAX_RULES])
    (simp_all add: memory_reload_def fun_eq_iff chaos_memory_config_parse_buffer_def memory_parse_line_form)

text \<open>C34. A load whose stamp is too recent to be trusted is to be read again at the next look. If that second reading
  fails for the moment (no descriptor left, an interrupted writer), the stamp is put back for another try, but the
  mistrust is not: no later look that sees this stamp reads the file, so contents written within the resolution of
  the stamp are never taken over.\<close>

theorem memory_mistrust_forgotten:
  assumes "reload_reachable memory_reload lib" "rl_provisional lib"
    "rl_cached_mtime lib = chaos_memory_config_observed_mtime env"
    "rl_cached_mtime lib \<noteq> CHAOS_IO_MTIME_MISSING" "rl_cached_mtime lib \<noteq> CHAOS_IO_MTIME_RELOADING"
    "fst (chaos_memory_config_read_file env (rl_cached_mtime lib) lib) = Read_Retry"
    "\<not> fst (chaos_memory_config_checked_recently env lib)"
    "chaos_memory_config_observed_mtime later = rl_cached_mtime lib"
  shows "let lib' = snd (chaos_memory_config_refresh env lib) in
    \<not> rl_provisional lib' \<and> rl_cached_mtime lib' = rl_cached_mtime lib \<and>
    chaos_memory_config_active_state (snd (chaos_memory_config_refresh later lib')) = chaos_memory_config_active_state lib"
  using memory_store.mistrust_forgotten assms unfolding memory_reload_defs by blast

section \<open>An example\<close>

text \<open>The file was written 5 ms before it is loaded; then the table of descriptors is full once.\<close>

definition demo_recent_env :: io_env where
  "demo_recent_env = (demo_reading ''# quiet'')\<lparr>ev_realtime_ms := 10005\<rparr>"

definition demo_mistrusted :: memory_lib where
  "demo_mistrusted = snd (chaos_memory_config_refresh demo_recent_env (demo_started memory_reload 0))"

lemma demo_mistrusted_facts:
  "reload_reachable memory_reload demo_mistrusted" "rl_provisional demo_mistrusted"
  "rl_cached_mtime demo_mistrusted = chaos_memory_config_observed_mtime demo_io_env"
  "chaos_memory_config_observed_mtime demo_io_env \<notin>
     {CHAOS_IO_MTIME_MISSING, CHAOS_IO_MTIME_UNKNOWN, CHAOS_IO_MTIME_RELOADING}"
proof -
  define stamp where "stamp = chaos_memory_config_observed_mtime demo_io_env"
  show st: "chaos_memory_config_observed_mtime demo_io_env \<notin>
     {CHAOS_IO_MTIME_MISSING, CHAOS_IO_MTIME_UNKNOWN, CHAOS_IO_MTIME_RELOADING}"
    by (simp add: memory_reload_defs reload_observed_mtime_def reload_hash_mtime_def demo_io_env_def memory_reload_def
        chaos_memory_config_normalize_mtime_hash_def CHAOS_IO_MTIME_MISSING_def CHAOS_IO_MTIME_UNKNOWN_def
        CHAOS_IO_MTIME_RELOADING_def)
  have env: "ev_stat demo_recent_env = ev_stat demo_io_env" "ev_fstat demo_recent_env = ev_stat demo_io_env"
    "ev_stat demo_io_env = Some \<lparr>fst_sec = 10, fst_nsec = 0, fst_size = 13, fst_ino = 3, fst_dev = 4\<rparr>"
    "ev_realtime_ms demo_recent_env = 10005"
    by (simp_all add: demo_recent_env_def demo_reading_def demo_io_env_def)
  have obs: "stamp = reload_observed_mtime memory_reload demo_recent_env"
    by (simp add: stamp_def memory_reload_defs reload_observed_mtime_def env)
  have "reload_offers memory_reload demo_recent_env stamp ''# quiet''"
    by (simp add: reload_offers_def demo_recent_env_def demo_reading_def stamp_def memory_reload_defs reload_observed_mtime_def
        demo_io_env_def)
      (simp add: memory_reload_def CHAOS_MEMORY_MAX_CONFIG_BYTES_def CHAOS_MEMORY_MAX_RULES_def CHAOS_MEMORY_MAX_LINE_LENGTH_def)
  from first_load [OF this obs, of _ "demo_started memory_reload 0"] st
  have "rl_cached_mtime demo_mistrusted = stamp \<and> rl_provisional demo_mistrusted"
    by (simp add: env demo_mistrusted_def memory_reload_defs stamp_def demo_started_pending)
      (simp add: chaos_clock_stamp_is_recent_def CHAOS_RACY_WINDOW_MS_def)
  then show "rl_provisional demo_mistrusted" "rl_cached_mtime demo_mistrusted = chaos_memory_config_observed_mtime demo_io_env"
    by (simp_all add: stamp_def)
  show "reload_reachable memory_reload demo_mistrusted"
    unfolding demo_mistrusted_def memory_reload_defs by (rule Lib_Refresh) (rule demo_started_reachable)
qed

theorem memory_mistrust_forgotten_witness:
  "\<not> rl_provisional (snd (chaos_memory_config_refresh (demo_io_env\<lparr>ev_opens := [EMFILE]\<rparr>) demo_mistrusted))"
proof -
  let ?env = "demo_io_env\<lparr>ev_opens := [EMFILE]\<rparr>"
  have obs: "chaos_memory_config_observed_mtime ?env = chaos_memory_config_observed_mtime demo_io_env"
    by (simp add: memory_reload_defs reload_observed_mtime_def)
  have look: "\<not> fst (chaos_memory_config_checked_recently ?env demo_mistrusted)"
    unfolding memory_reload_defs
    by (simp add: reload_checked_recently_def chaos_clock_checked_recently_def demo_io_env_def)
  have retry: "fst (chaos_memory_config_read_file ?env (rl_cached_mtime demo_mistrusted) demo_mistrusted) = Read_Retry"
    by (simp add: memory_reload_defs reload_read_file_def)
  have stamp: "rl_cached_mtime demo_mistrusted = chaos_memory_config_observed_mtime ?env"
    "chaos_memory_config_observed_mtime demo_io_env = rl_cached_mtime demo_mistrusted"
    using demo_mistrusted_facts(3) obs by simp_all
  have "rl_cached_mtime demo_mistrusted \<noteq> CHAOS_IO_MTIME_MISSING" "rl_cached_mtime demo_mistrusted \<noteq> CHAOS_IO_MTIME_RELOADING"
    using demo_mistrusted_facts(4) unfolding demo_mistrusted_facts(3) by blast+
  from memory_mistrust_forgotten [OF demo_mistrusted_facts(1,2) stamp(1) this retry look stamp(2)]
  show ?thesis by (simp only: Let_def simp_thms)
qed

end
