(* ===== verification/Memory_Hooks.thy ===== *)
theory Memory_Hooks
  imports Memory_Reload Rule_Calls
begin

text \<open>
  The effects of the memory library (\<open>src/memory/chaos_memory_actions.c\<close>, with the guard and the generator of
  \<open>src/memory/chaos_memory_internal.h\<close>), its lookup (\<open>chaos_memory_config_match\<close>) and the interposed functions
  (\<open>src/memory/chaos_memory_hooks.c\<close>), on the state of the whole library. The real functions, each found or not,
  and the system calls are parameters; they are given the number of the call.
\<close>

section \<open>Guard and generator\<close>

definition chaos_memory_in_internal :: "int \<Rightarrow> bool" where
  "chaos_memory_in_internal guard \<longleftrightarrow> guard \<noteq> 0"

definition chaos_memory_enter_internal :: "int \<Rightarrow> int \<times> int" where
  "chaos_memory_enter_internal guard = (guard, 1)"

definition chaos_memory_leave_internal :: "int \<Rightarrow> int" where
  "chaos_memory_leave_internal previous = previous"

definition chaos_memory_prng_mix :: "u64 \<Rightarrow> u64" where
  "chaos_memory_prng_mix v =
     (let v1 = v + 0x9e3779b97f4a7c15;
          v2 = (v1 XOR drop_bit 30 v1) * 0xbf58476d1ce4e5b9;
          v3 = (v2 XOR drop_bit 27 v2) * 0x94d049bb133111eb
      in v3 XOR drop_bit 31 v3)"

definition chaos_memory_prng_ensure_seeded :: "prng_env \<Rightarrow> u64 \<Rightarrow> u64" where
  "chaos_memory_prng_ensure_seeded env state =
     (if state \<noteq> 0 then state
      else chaos_memory_prng_mix (pe_process_seed env XOR pe_tid env XOR pe_stack_address env) OR 1)"

definition chaos_memory_prng_seed_thread :: "u64 \<Rightarrow> u64" where
  "chaos_memory_prng_seed_thread seed = chaos_memory_prng_mix (if seed = 0 then 1 else seed)"

definition chaos_memory_prng_next_u32 :: "prng_env \<Rightarrow> u64 \<Rightarrow> u32 \<times> u64" where
  "chaos_memory_prng_next_u32 env state =
     (let s0 = chaos_memory_prng_ensure_seeded env state;
          s1 = s0 XOR drop_bit 12 s0;
          s2 = s1 XOR push_bit 25 s1;
          s3 = s2 XOR drop_bit 27 s2
      in (ucast (drop_bit 32 (s3 * 0x2545f4914f6cdd1d)), s3))"

section \<open>Effects\<close>

definition chaos_memory_probability_hit_sample :: "rat \<Rightarrow> u32 \<Rightarrow> bool" where
  "chaos_memory_probability_hit_sample probability sample =
     (if probability \<le> 0 then False
      else if probability \<ge> 1 then True
      else of_nat (unat sample) < probability * 4294967296)"

definition chaos_memory_probability_hit :: "prng_env \<Rightarrow> rat \<Rightarrow> u64 \<Rightarrow> bool \<times> u64" where
  "chaos_memory_probability_hit env probability prng =
     (let (sample, prng') = chaos_memory_prng_next_u32 env prng
      in (chaos_memory_probability_hit_sample probability sample, prng'))"

definition chaos_memory_rule_should_trigger ::
  "look_env \<Rightarrow> chaos_memory_rule option \<Rightarrow> memory_lib \<Rightarrow> bool \<times> memory_lib" where
  "chaos_memory_rule_should_trigger le rule lib =
     (case rule of
        None \<Rightarrow> (False, lib)
      | Some r \<Rightarrow>
          (if \<not> chaos_policy_window_open (le_now le) (rh_policy r) \<or>
              \<not> chaos_policy_size_ok (rh_policy r) (rh_call_size r) then (False, lib)
           else let (hit, prng) = chaos_memory_probability_hit (le_prng le) (mem_probability r) (rl_tls_prng lib);
                    lib' = lib\<lparr>rl_tls_prng := prng\<rparr>
                in if \<not> hit then (False, lib')
                   else let (fired, pool, hook) = fire_on_pool r (rl_pool lib');
                            lib'' = lib'\<lparr>rl_pool := pool\<rparr>
                        in (fired, if hook then chaos_memory_config_report_hits (le_hit le) True lib'' else lib'')))"

text \<open>The time slept, in nanoseconds.\<close>

definition chaos_memory_rule_apply_latency ::
  "look_env \<Rightarrow> chaos_memory_rule option \<Rightarrow> memory_lib \<Rightarrow> int \<times> memory_lib" where
  "chaos_memory_rule_apply_latency le rule lib =
     (case rule of
        None \<Rightarrow> (0, lib)
      | Some r \<Rightarrow>
          (if mem_effect r \<noteq> CHAOS_MEMORY_EFFECT_LATENCY then (0, lib)
           else let (fired, lib') = chaos_memory_rule_should_trigger le rule lib
                in if \<not> fired then (0, lib') else (chaos_sleep_ms (le_sleeps le) (mem_latency_ms r), lib')))"

text \<open>Whether the call is to fail, and the errno stored then.\<close>

definition chaos_memory_rule_apply_errno ::
  "look_env \<Rightarrow> chaos_memory_rule option \<Rightarrow> memory_lib \<Rightarrow> bool \<times> errnum option \<times> memory_lib" where
  "chaos_memory_rule_apply_errno le rule lib =
     (case rule of
        None \<Rightarrow> (False, None, lib)
      | Some r \<Rightarrow>
          (if mem_effect r \<noteq> CHAOS_MEMORY_EFFECT_ERRNO then (False, None, lib)
           else let (fired, lib') = chaos_memory_rule_should_trigger le rule lib
                in if \<not> fired then (False, None, lib') else (True, mem_errnum r, lib')))"

section \<open>Lookup\<close>

definition chaos_memory_config_match ::
  "io_env \<Rightarrow> chaos_memory_effect \<Rightarrow> chaos_memory_operation \<Rightarrow> mmap_flags \<Rightarrow> memory_lib
     \<Rightarrow> chaos_memory_rule option \<times> memory_lib" where
  "chaos_memory_config_match env effect operation flags lib =
     (let (loaded, lib') = chaos_memory_config_prepare env lib;
          st = chaos_memory_config_active_state lib'
      in (if \<not> loaded then None
          else chaos_memory_config_match_loaded (snapshot_of st) (rs_sequence st) effect operation flags, lib'))"

section \<open>Calls\<close>

text \<open>The calls that reach the kernel or the next library, with the arguments of the caller.\<close>

datatype memory_call =
  Mem_Mmap u64 u64 int mmap_flags int int
| Mem_Munmap u64 u64
| Mem_Mprotect u64 u64 int
| Mem_Madvise u64 u64 int
| Mem_Posix_Madvise u64 u64 int

record memory_env =
  me_look :: "chaos_memory_effect \<Rightarrow> look_env"
  me_real :: "memory_call \<Rightarrow> real_call option"
  me_sys :: "memory_call \<Rightarrow> real_call"

text \<open>The state: the library, the guard, \<open>errno\<close>, the time slept, and the calls made, each with the guard under
  which it ran.\<close>

record memory_state =
  ms_lib :: memory_lib
  ms_guard :: int
  ms_errno :: "errnum option"
  ms_slept :: int
  ms_calls :: "(memory_call \<times> int) list"

definition memory_answer :: "errno + int \<Rightarrow> memory_state \<Rightarrow> call_result \<times> memory_state" where
  "memory_answer outcome st =
     (case outcome of
        Inl e \<Rightarrow> (Returned (- 1), st\<lparr>ms_errno := Some (Errno_Name e)\<rparr>)
      | Inr v \<Rightarrow> (Returned v, st))"

definition memory_made :: "memory_call \<Rightarrow> memory_state \<Rightarrow> memory_state" where
  "memory_made call st = st\<lparr>ms_calls := ms_calls st @ [(call, ms_guard st)]\<rparr>"

text \<open>A call of the real function under the guard, or the system call where it has not been found.\<close>

definition memory_perform :: "memory_env \<Rightarrow> memory_call \<Rightarrow> memory_state \<Rightarrow> call_result \<times> memory_state" where
  "memory_perform me call st =
     (case me_real me call of
        None \<Rightarrow> memory_answer (me_sys me call (length (ms_calls st))) (memory_made call st)
      | Some f \<Rightarrow>
          (let (previous, guard) = chaos_memory_enter_internal (ms_guard st);
               (result, st') = memory_answer (f (length (ms_calls st))) (memory_made call (st\<lparr>ms_guard := guard\<rparr>))
           in (result, st'\<lparr>ms_guard := chaos_memory_leave_internal previous\<rparr>)))"

definition chaos_memory_call_real_mmap ::
  "memory_env \<Rightarrow> u64 \<Rightarrow> u64 \<Rightarrow> int \<Rightarrow> mmap_flags \<Rightarrow> int \<Rightarrow> int \<Rightarrow> memory_state \<Rightarrow> call_result \<times> memory_state" where
  "chaos_memory_call_real_mmap me address len protection flags fd offset =
     memory_perform me (Mem_Mmap address len protection flags fd offset)"

definition chaos_memory_call_real_mprotect ::
  "memory_env \<Rightarrow> u64 \<Rightarrow> u64 \<Rightarrow> int \<Rightarrow> memory_state \<Rightarrow> call_result \<times> memory_state" where
  "chaos_memory_call_real_mprotect me address len protection = memory_perform me (Mem_Mprotect address len protection)"

definition chaos_memory_call_real_munmap ::
  "memory_env \<Rightarrow> u64 \<Rightarrow> u64 \<Rightarrow> memory_state \<Rightarrow> call_result \<times> memory_state" where
  "chaos_memory_call_real_munmap me address len = memory_perform me (Mem_Munmap address len)"

definition chaos_memory_call_real_madvise ::
  "memory_env \<Rightarrow> u64 \<Rightarrow> u64 \<Rightarrow> int \<Rightarrow> memory_state \<Rightarrow> call_result \<times> memory_state" where
  "chaos_memory_call_real_madvise me address len advice = memory_perform me (Mem_Madvise address len advice)"

text \<open>\<open>posix_madvise\<close> returns its error and leaves \<open>errno\<close> alone. \<open>POSIX_MADV_DONTNEED\<close> must not discard pages,
  so no call stands in for it.\<close>

definition POSIX_MADV_DONTNEED :: int where "POSIX_MADV_DONTNEED = 4"

definition chaos_memory_call_real_posix_madvise ::
  "memory_env \<Rightarrow> u64 \<Rightarrow> u64 \<Rightarrow> int \<Rightarrow> memory_state \<Rightarrow> call_result \<times> memory_state" where
  "chaos_memory_call_real_posix_madvise me address len advice st =
     (case me_real me (Mem_Posix_Madvise address len advice) of
        None \<Rightarrow>
          (if advice = POSIX_MADV_DONTNEED then (Returned 0, st)
           else let call = Mem_Madvise address len advice
                in (number_answer (me_sys me call (length (ms_calls st))), memory_made call st))
      | Some f \<Rightarrow>
          (let (previous, guard) = chaos_memory_enter_internal (ms_guard st);
               call = Mem_Posix_Madvise address len advice;
               st' = memory_made call (st\<lparr>ms_guard := guard\<rparr>)
           in (number_answer (f (length (ms_calls st))), st'\<lparr>ms_guard := chaos_memory_leave_internal previous\<rparr>)))"

section \<open>Wrappers\<close>

definition chaos_memory_match_sized ::
  "memory_env \<Rightarrow> chaos_memory_effect \<Rightarrow> chaos_memory_operation \<Rightarrow> mmap_flags \<Rightarrow> u64 \<Rightarrow> memory_lib
     \<Rightarrow> chaos_memory_rule option \<times> memory_lib" where
  "chaos_memory_match_sized me effect operation flags len lib =
     (let (found, lib') = chaos_memory_config_match (le_look (me_look me effect)) effect operation flags lib
      in (map_option (\<lambda>r. r\<lparr>rh_call_size := len\<rparr>) found, lib'))"

text \<open>What every wrapper does before the real call: the delay, then the error if one is injected.\<close>

definition memory_delay ::
  "memory_env \<Rightarrow> chaos_memory_operation \<Rightarrow> mmap_flags \<Rightarrow> u64 \<Rightarrow> memory_state \<Rightarrow> memory_state" where
  "memory_delay me operation flags len st =
     (case chaos_memory_match_sized me CHAOS_MEMORY_EFFECT_LATENCY operation flags len (ms_lib st) of
        (None, lib) \<Rightarrow> st\<lparr>ms_lib := lib\<rparr>
      | (Some r, lib) \<Rightarrow>
          (let (slept, lib') = chaos_memory_rule_apply_latency (me_look me CHAOS_MEMORY_EFFECT_LATENCY) (Some r) lib
           in st\<lparr>ms_lib := lib', ms_slept := ms_slept st + slept\<rparr>))"

definition memory_error ::
  "memory_env \<Rightarrow> chaos_memory_operation \<Rightarrow> mmap_flags \<Rightarrow> u64 \<Rightarrow> memory_state \<Rightarrow> bool \<times> memory_state" where
  "memory_error me operation flags len st =
     (case chaos_memory_match_sized me CHAOS_MEMORY_EFFECT_ERRNO operation flags len (ms_lib st) of
        (None, lib) \<Rightarrow> (False, st\<lparr>ms_lib := lib\<rparr>)
      | (Some r, lib) \<Rightarrow>
          (let (fails, e, lib') = chaos_memory_rule_apply_errno (me_look me CHAOS_MEMORY_EFFECT_ERRNO) (Some r) lib
           in (fails, if fails then st\<lparr>ms_lib := lib', ms_errno := e\<rparr> else st\<lparr>ms_lib := lib'\<rparr>)))"

definition mmap ::
  "memory_env \<Rightarrow> u64 \<Rightarrow> u64 \<Rightarrow> int \<Rightarrow> mmap_flags \<Rightarrow> int \<Rightarrow> int \<Rightarrow> memory_state \<Rightarrow> call_result \<times> memory_state" where
  "mmap me address len protection flags fd offset st =
     (if chaos_memory_in_internal (ms_guard st)
      then chaos_memory_call_real_mmap me address len protection flags fd offset st
      else let st = memory_delay me CHAOS_MEMORY_OP_MMAP flags len st;
               (fails, st) = memory_error me CHAOS_MEMORY_OP_MMAP flags len st
           in if fails then (Returned (- 1), st)
              else chaos_memory_call_real_mmap me address len protection flags fd offset st)"

definition munmap :: "memory_env \<Rightarrow> u64 \<Rightarrow> u64 \<Rightarrow> memory_state \<Rightarrow> call_result \<times> memory_state" where
  "munmap me address len st =
     (if chaos_memory_in_internal (ms_guard st) then chaos_memory_call_real_munmap me address len st
      else let st = memory_delay me CHAOS_MEMORY_OP_MUNMAP 0 len st;
               (fails, st) = memory_error me CHAOS_MEMORY_OP_MUNMAP 0 len st
           in if fails then (Returned (- 1), st) else chaos_memory_call_real_munmap me address len st)"

definition mprotect :: "memory_env \<Rightarrow> u64 \<Rightarrow> u64 \<Rightarrow> int \<Rightarrow> memory_state \<Rightarrow> call_result \<times> memory_state" where
  "mprotect me address len protection st =
     (if chaos_memory_in_internal (ms_guard st) then chaos_memory_call_real_mprotect me address len protection st
      else let st = memory_delay me CHAOS_MEMORY_OP_MPROTECT 0 len st;
               (fails, st) = memory_error me CHAOS_MEMORY_OP_MPROTECT 0 len st
           in if fails then (Returned (- 1), st) else chaos_memory_call_real_mprotect me address len protection st)"

definition madvise :: "memory_env \<Rightarrow> u64 \<Rightarrow> u64 \<Rightarrow> int \<Rightarrow> memory_state \<Rightarrow> call_result \<times> memory_state" where
  "madvise me address len advice st =
     (if chaos_memory_in_internal (ms_guard st) then chaos_memory_call_real_madvise me address len advice st
      else let st = memory_delay me CHAOS_MEMORY_OP_MADVISE 0 len st;
               (fails, st) = memory_error me CHAOS_MEMORY_OP_MADVISE 0 len st
           in if fails then (Returned (- 1), st) else chaos_memory_call_real_madvise me address len advice st)"

text \<open>The errno the rule stored is taken back and returned.\<close>

definition posix_madvise :: "memory_env \<Rightarrow> u64 \<Rightarrow> u64 \<Rightarrow> int \<Rightarrow> memory_state \<Rightarrow> call_result \<times> memory_state" where
  "posix_madvise me address len advice st =
     (if chaos_memory_in_internal (ms_guard st) then chaos_memory_call_real_posix_madvise me address len advice st
      else let st = memory_delay me CHAOS_MEMORY_OP_MADVISE 0 len st;
               saved_errno = ms_errno st;
               (fails, st) = memory_error me CHAOS_MEMORY_OP_MADVISE 0 len st
           in if fails
              then (number_result (ms_errno st),
                    st\<lparr>ms_errno := saved_errno\<rparr>)
              else chaos_memory_call_real_posix_madvise me address len advice st)"

section \<open>The shared gate and lookup\<close>

lemma memory_prng_eq: "chaos_memory_prng_next_u32 = chaos_io_prng_next_u32"
  by (auto simp: fun_eq_iff chaos_memory_prng_next_u32_def chaos_io_prng_next_u32_def xorshift_def
      chaos_memory_prng_ensure_seeded_def chaos_io_prng_ensure_seeded_def chaos_memory_prng_mix_def
      chaos_io_prng_mix_def Let_def)

lemma memory_hit_eq: "chaos_memory_probability_hit = chaos_io_probability_hit"
  by (auto simp: fun_eq_iff chaos_memory_probability_hit_def chaos_io_probability_hit_def memory_prng_eq
      chaos_memory_probability_hit_sample_def chaos_io_probability_hit_sample_def)

lemma memory_trigger_gate:
  "chaos_memory_rule_should_trigger le (Some r) lib = gate memory_reload le (mem_probability r) r lib"
  by (simp add: chaos_memory_rule_should_trigger_def gate_def grant_def memory_hit_eq chaos_memory_config_report_hits_def Let_def
      cong: if_cong split: prod.split)

definition memory_select ::
  "chaos_memory_effect \<times> chaos_memory_operation \<times> mmap_flags \<Rightarrow> chaos_memory_rule list \<Rightarrow> chaos_memory_rule option" where
  "memory_select q rules = (case q of (effect, operation, flags) \<Rightarrow> chaos_memory_config_select_rule rules effect operation flags)"

definition memory_covers :: "chaos_memory_effect \<times> chaos_memory_operation \<times> mmap_flags \<Rightarrow> chaos_memory_rule \<Rightarrow> bool" where
  "memory_covers q r =
     (case q of (effect, operation, flags) \<Rightarrow>
        mem_effect r = effect \<and> chaos_memory_selector_matches (mem_selector r) operation flags \<noteq> None)"

lemma memory_match_look:
  "chaos_memory_config_match env effect operation flags lib =
     look_up memory_reload env (memory_select (effect, operation, flags)) lib"
proof -
  have "memory_select (effect, operation, flags) = (\<lambda>rules. chaos_memory_config_select_rule rules effect operation flags)"
    by (simp add: fun_eq_iff memory_select_def)
  then show ?thesis
    by (simp add: chaos_memory_config_match_def look_up_def chaos_memory_config_prepare_def chaos_memory_config_refresh_def
        chaos_memory_config_active_state_def chaos_memory_config_match_loaded_def Let_def cong: if_cong)
qed

lemma memory_typed: "typed_rules memory_reload memory_rule_ok"
  by (rule grammar_typed_rules [OF memory_lines.line_grammar_axioms, of _ memory_rule_supported CHAOS_MEMORY_MAX_RULES])
    (simp_all add: memory_reload_def fun_eq_iff chaos_memory_config_parse_buffer_def memory_parse_line_form
      memory_rule_ok_def bare_head_def)

interpretation memory_calls: rule_calls memory_reload memory_rule_ok memory_select memory_covers
proof (rule rule_calls.intro [OF memory_typed], unfold_locales)
  fix q :: "chaos_memory_effect \<times> chaos_memory_operation \<times> mmap_flags" and rules r
  assume "memory_select q rules = Some r"
  then show "r \<in> set rules \<and> memory_covers q r"
    by (cases q) (auto simp: memory_select_def memory_covers_def chaos_memory_config_select_rule_def
        dest!: ranked_from_member split: if_splits)
qed

section \<open>What a wrapper does\<close>

text \<open>The wrapper of a call, the real call in it, and what it asks the rules.\<close>

fun memory_entry :: "memory_env \<Rightarrow> memory_call \<Rightarrow> memory_state \<Rightarrow> call_result \<times> memory_state" where
  "memory_entry me (Mem_Mmap address len protection flags fd offset) st = mmap me address len protection flags fd offset st"
| "memory_entry me (Mem_Munmap address len) st = munmap me address len st"
| "memory_entry me (Mem_Mprotect address len protection) st = mprotect me address len protection st"
| "memory_entry me (Mem_Madvise address len advice) st = madvise me address len advice st"
| "memory_entry me (Mem_Posix_Madvise address len advice) st = posix_madvise me address len advice st"

fun memory_real :: "memory_env \<Rightarrow> memory_call \<Rightarrow> memory_state \<Rightarrow> call_result \<times> memory_state" where
  "memory_real me (Mem_Mmap address len protection flags fd offset) st =
     chaos_memory_call_real_mmap me address len protection flags fd offset st"
| "memory_real me (Mem_Munmap address len) st = chaos_memory_call_real_munmap me address len st"
| "memory_real me (Mem_Mprotect address len protection) st = chaos_memory_call_real_mprotect me address len protection st"
| "memory_real me (Mem_Madvise address len advice) st = chaos_memory_call_real_madvise me address len advice st"
| "memory_real me (Mem_Posix_Madvise address len advice) st = chaos_memory_call_real_posix_madvise me address len advice st"

fun memory_asked :: "memory_call \<Rightarrow> chaos_memory_operation \<times> mmap_flags \<times> u64" where
  "memory_asked (Mem_Mmap address len protection flags fd offset) = (CHAOS_MEMORY_OP_MMAP, flags, len)"
| "memory_asked (Mem_Munmap address len) = (CHAOS_MEMORY_OP_MUNMAP, 0, len)"
| "memory_asked (Mem_Mprotect address len protection) = (CHAOS_MEMORY_OP_MPROTECT, 0, len)"
| "memory_asked (Mem_Madvise address len advice) = (CHAOS_MEMORY_OP_MADVISE, 0, len)"
| "memory_asked (Mem_Posix_Madvise address len advice) = (CHAOS_MEMORY_OP_MADVISE, 0, len)"

text \<open>The convention of a function for a failure with an error.\<close>

definition memory_failure :: "memory_call \<Rightarrow> errnum \<Rightarrow> memory_state \<Rightarrow> memory_state \<Rightarrow> call_result \<Rightarrow> bool" where
  "memory_failure call e st st' result \<longleftrightarrow>
     (case call of
        Mem_Posix_Madvise address len advice \<Rightarrow> result = Error_Number e \<and> ms_errno st' = ms_errno st
      | _ \<Rightarrow> result = Returned (- 1) \<and> ms_errno st' = Some e)"

text \<open>A rule that may fail a call now: an error rule of the active snapshot for this operation, this kind of mapping
  and this length, inside its window.\<close>

definition memory_blamed :: "memory_env \<Rightarrow> memory_call \<Rightarrow> memory_lib \<Rightarrow> errnum \<Rightarrow> bool" where
  "memory_blamed me call lib e \<longleftrightarrow>
     (\<exists>r \<in> set (rs_rules (chaos_memory_config_active_state lib)).
        case memory_asked call of (operation, flags, len) \<Rightarrow>
          memory_covers (CHAOS_MEMORY_EFFECT_ERRNO, operation, flags) r \<and> mem_errnum r = Some e \<and> 0 < mem_probability r \<and>
          chaos_policy_window_open (le_now (me_look me CHAOS_MEMORY_EFFECT_ERRNO)) (rh_policy r) \<and>
          chaos_policy_size_ok (rh_policy r) len)"

lemma match_sized_sound:
  assumes "reload_reachable memory_reload lib" "chaos_memory_match_sized me effect operation flags len lib = (found, lib')"
  shows "reload_reachable memory_reload lib'"
    "found = Some r \<Longrightarrow> \<exists>r0 \<in> set (rs_rules (chaos_memory_config_active_state lib')).
       memory_covers (effect, operation, flags) r0 \<and> memory_rule_ok r0 \<and> r = r0\<lparr>rh_call_size := len\<rparr>"
proof -
  obtain f where m: "look_up memory_reload (le_look (me_look me effect)) (memory_select (effect, operation, flags)) lib = (f, lib')"
    "found = map_option (\<lambda>r. r\<lparr>rh_call_size := len\<rparr>) f"
    using assms(2) by (auto simp: chaos_memory_match_sized_def memory_match_look split: prod.splits)
  note l = memory_calls.look_sound [OF assms(1) m(1)]
  show "reload_reachable memory_reload lib'" by (rule l(1))
  show "found = Some r \<Longrightarrow> \<exists>r0 \<in> set (rs_rules (chaos_memory_config_active_state lib')).
       memory_covers (effect, operation, flags) r0 \<and> memory_rule_ok r0 \<and> r = r0\<lparr>rh_call_size := len\<rparr>"
    using l(2) m(2) by (auto simp: chaos_memory_config_active_state_def)
qed

lemma memory_delay_sound:
  assumes "reload_reachable memory_reload (ms_lib st)"
  shows "\<exists>lib slept. memory_delay me operation flags len st = st\<lparr>ms_lib := lib, ms_slept := slept\<rparr> \<and>
    reload_reachable memory_reload lib"
proof -
  obtain found lib where m: "chaos_memory_match_sized me CHAOS_MEMORY_EFFECT_LATENCY operation flags len (ms_lib st) = (found, lib)"
    by fastforce
  note r = match_sized_sound(1) [OF assms m]
  show ?thesis
  proof (cases found)
    case None
    then have "memory_delay me operation flags len st = st\<lparr>ms_lib := lib, ms_slept := ms_slept st\<rparr>"
      by (simp add: memory_delay_def m)
    with r show ?thesis by blast
  next
    case (Some rule)
    obtain slept lib' where a: "chaos_memory_rule_apply_latency (me_look me CHAOS_MEMORY_EFFECT_LATENCY) (Some rule) lib = (slept, lib')"
      by fastforce
    then have "reload_reachable memory_reload lib'"
      using r by (auto simp: chaos_memory_rule_apply_latency_def memory_trigger_gate Let_def
          split: if_splits prod.splits intro: gate_reachable)
    then show ?thesis by (auto simp: memory_delay_def m Some a)
  qed
qed

lemma memory_error_sound:
  assumes "reload_reachable memory_reload (ms_lib st)" "memory_error me operation flags len st = (fails, st')"
    "memory_asked call = (operation, flags, len)"
  shows "reload_reachable memory_reload (ms_lib st') \<and>
    (if fails then \<exists>e. memory_blamed me call (ms_lib st') e \<and> st' = st\<lparr>ms_lib := ms_lib st', ms_errno := Some e\<rparr>
     else st' = st\<lparr>ms_lib := ms_lib st'\<rparr>)"
proof -
  let ?le = "me_look me CHAOS_MEMORY_EFFECT_ERRNO"
  obtain found lib where m: "chaos_memory_match_sized me CHAOS_MEMORY_EFFECT_ERRNO operation flags len (ms_lib st) = (found, lib)"
    by fastforce
  note r = match_sized_sound [OF assms(1) m]
  show ?thesis
  proof (cases found)
    case None
    with assms(2) r(1) show ?thesis by (auto simp: memory_error_def m)
  next
    case (Some rule)
    from r(2) [OF Some] obtain r0 where r0: "r0 \<in> set (rs_rules (chaos_memory_config_active_state lib))"
      "memory_covers (CHAOS_MEMORY_EFFECT_ERRNO, operation, flags) r0" "memory_rule_ok r0" "rule = r0\<lparr>rh_call_size := len\<rparr>"
      by blast
    obtain fired lib' where g: "gate memory_reload ?le (mem_probability rule) rule lib = (fired, lib')" by fastforce
    have eff: "mem_effect rule = CHAOS_MEMORY_EFFECT_ERRNO" using r0(2,4) by (simp add: memory_covers_def)
    obtain e where e: "mem_errnum r0 = Some e" using r0(2,3) by (auto simp: memory_covers_def memory_rule_ok_def)
    have "mem_errnum rule = Some e" using e r0(4) by simp
    then have "chaos_memory_rule_apply_errno ?le (Some rule) lib = (fired, if fired then Some e else None, lib')"
      by (simp add: chaos_memory_rule_apply_errno_def eff memory_trigger_gate g)
    then have st': "fails = fired" "st' = (if fired then st\<lparr>ms_lib := lib', ms_errno := Some e\<rparr> else st\<lparr>ms_lib := lib'\<rparr>)"
      using assms(2) by (auto simp: memory_error_def m Some)
    note gf = gate_frame [OF g]
    have act: "chaos_memory_config_active_state lib' = chaos_memory_config_active_state lib"
      using same_rules_active [OF gf(1)] by (simp add: chaos_memory_config_active_state_def)
    have "memory_blamed me call lib' e" if fired
      using gf(3) [OF that] r0 e unfolding memory_blamed_def assms(3) act by auto
    then show ?thesis using st' gate_reachable [OF r(1) g] by auto
  qed
qed

definition memory_refuse :: "memory_call \<Rightarrow> memory_state \<Rightarrow> memory_state \<Rightarrow> call_result \<times> memory_state" where
  "memory_refuse call before st =
     (case call of
        Mem_Posix_Madvise address len advice \<Rightarrow>
          (number_result (ms_errno st), st\<lparr>ms_errno := ms_errno before\<rparr>)
      | _ \<Rightarrow> (Returned (- 1), st))"

lemma memory_entry_form:
  assumes "ms_guard st = 0" "memory_asked call = (operation, flags, len)"
  shows "memory_entry me call st =
    (let before = memory_delay me operation flags len st; (fails, st') = memory_error me operation flags len before
     in if fails then memory_refuse call before st' else memory_real me call st')"
  using assms
  by (cases call) (auto simp: mmap_def munmap_def mprotect_def madvise_def posix_madvise_def chaos_memory_in_internal_def
      memory_refuse_def Let_def split: prod.split)

lemma memory_perform_frame:
  "memory_perform me call st = (result, st') \<Longrightarrow> ms_lib st' = ms_lib st \<and> ms_guard st' = ms_guard st"
  by (auto simp: memory_perform_def memory_answer_def memory_made_def Let_def chaos_memory_enter_internal_def
      chaos_memory_leave_internal_def split: option.splits sum.splits)

lemma memory_real_frame:
  "memory_real me call st = (result, st') \<Longrightarrow> ms_lib st' = ms_lib st \<and> ms_guard st' = ms_guard st"
  by (cases call)
    (auto simp: chaos_memory_call_real_mmap_def chaos_memory_call_real_munmap_def chaos_memory_call_real_mprotect_def
      chaos_memory_call_real_madvise_def chaos_memory_call_real_posix_madvise_def Let_def memory_made_def
      chaos_memory_enter_internal_def chaos_memory_leave_internal_def
      dest!: memory_perform_frame split: option.splits if_splits)

text \<open>C40. A memory call from application code, whatever the rules: either it is the real call with the arguments of the
  caller, on the state a delay may have preceded, or no call is made and it fails the way the function fails, with
  the error of an active rule for this operation, kind of mapping and length, inside its window. The library stays
  sound and the guard is as before.\<close>

theorem memory_wrapper_sound:
  assumes "reload_reachable memory_reload (ms_lib st)" "ms_guard st = 0" "memory_entry me call st = (result, st')"
  shows "reload_reachable memory_reload (ms_lib st') \<and> ms_guard st' = 0 \<and>
    ((\<exists>slept. (result, st') = memory_real me call (st\<lparr>ms_lib := ms_lib st', ms_slept := slept\<rparr>)) \<or>
     (\<exists>e. memory_blamed me call (ms_lib st') e \<and> memory_failure call e st st' result \<and> ms_calls st' = ms_calls st))"
proof -
  obtain operation flags len where a: "memory_asked call = (operation, flags, len)" by (metis prod_cases3)
  obtain lib slept where d: "memory_delay me operation flags len st = st\<lparr>ms_lib := lib, ms_slept := slept\<rparr>" (is "_ = ?before")
    "reload_reachable memory_reload lib"
    using memory_delay_sound [OF assms(1)] by blast
  obtain fails st2 where e: "memory_error me operation flags len ?before = (fails, st2)" by fastforce
  have "reload_reachable memory_reload (ms_lib ?before)" using d(2) by simp
  note s = memory_error_sound [OF this e a]
  have entry: "(result, st') = (if fails then memory_refuse call ?before st2 else memory_real me call st2)"
    using memory_entry_form [OF assms(2) a, of me] assms(3) by (simp add: d(1) e Let_def)
  show ?thesis
  proof (cases fails)
    case True
    then obtain e where e: "memory_blamed me call (ms_lib st2) e" "st2 = ?before\<lparr>ms_lib := ms_lib st2, ms_errno := Some e\<rparr>"
      and r: "reload_reachable memory_reload (ms_lib st2)" using s by auto
    define l where "l = ms_lib st2"
    have st2: "st2 = st\<lparr>ms_lib := l, ms_slept := slept, ms_errno := Some e\<rparr>" using e(2) by (cases st; cases st2) (simp add: l_def)
    have lib: "ms_lib st' = l"
      using entry True by (auto simp: memory_refuse_def st2 split: memory_call.splits)
    have "memory_failure call e st st' result \<and> ms_guard st' = 0 \<and> ms_calls st' = ms_calls st"
      using entry True assms(2) by (cases call) (auto simp: memory_refuse_def memory_failure_def number_result_def st2)
    with e(1) r show ?thesis by (auto simp: lib l_def)
  next
    case False
    with entry have m: "memory_real me call st2 = (result, st')" by simp
    define l where "l = ms_lib st2"
    have st2: "st2 = st\<lparr>ms_lib := l, ms_slept := slept\<rparr>" using s False by (cases st; cases st2) (simp add: l_def)
    have f: "ms_lib st' = l" "ms_guard st' = 0" using memory_real_frame [OF m] assms(2) by (simp_all add: st2)
    have "(result, st') = memory_real me call (st\<lparr>ms_lib := ms_lib st', ms_slept := slept\<rparr>)"
      unfolding f(1) using m st2 by simp
    moreover have "reload_reachable memory_reload (ms_lib st')" using s by (simp add: f(1) l_def)
    ultimately show ?thesis using f(2) by blast
  qed
qed

text \<open>While the rule file is unchanged, a call that no active rule covers is the real call and nothing else: no
  delay, no draw from the generator, no hit.\<close>

theorem memory_uncovered_transparent:
  assumes "ms_guard st = 0" "\<not> rl_provisional (ms_lib st)" "memory_asked call = (operation, flags, len)"
    "\<forall>effect. chaos_memory_config_observed_mtime (le_look (me_look me effect)) = rl_cached_mtime (ms_lib st)"
    "\<forall>r \<in> set (rs_rules (chaos_memory_config_active_state (ms_lib st))).
       chaos_memory_selector_matches (mem_selector r) operation flags = None"
  shows "\<exists>lib. memory_entry me call st = memory_real me call (st\<lparr>ms_lib := lib\<rparr>) \<and>
    rl_tls_prng lib = rl_tls_prng (ms_lib st) \<and> rl_pool lib = rl_pool (ms_lib st) \<and>
    chaos_memory_config_active_state lib = chaos_memory_config_active_state (ms_lib st)"
proof -
  have none: "memory_select (effect, operation, flags) (rs_rules (reload_active_state (ms_lib st))) = None" for effect
    using assms(5) memory_calls.selected [of "(effect, operation, flags)" "rs_rules (reload_active_state (ms_lib st))"]
    by (cases "memory_select (effect, operation, flags) (rs_rules (reload_active_state (ms_lib st)))")
      (auto simp: memory_covers_def chaos_memory_config_active_state_def)
  have look: "\<exists>lib'. chaos_memory_match_sized me effect operation flags len lib = (None, lib') \<and>
      same_rules (ms_lib st) lib' \<and> rl_tls_prng lib' = rl_tls_prng (ms_lib st) \<and> rl_pool lib' = rl_pool (ms_lib st)"
    if l: "same_rules (ms_lib st) lib" "rl_tls_prng lib = rl_tls_prng (ms_lib st)" "rl_pool lib = rl_pool (ms_lib st)"
    for effect lib
  proof -
    obtain f lib' where f: "look_up memory_reload (le_look (me_look me effect)) (memory_select (effect, operation, flags)) lib
        = (f, lib')" by fastforce
    have prov: "\<not> rl_provisional lib" and m: "reload_observed_mtime memory_reload (le_look (me_look me effect)) = rl_cached_mtime lib"
      using assms(2,4) l(1) by (simp_all add: same_rules_def chaos_memory_config_observed_mtime_def)
    note q = memory_calls.quiet_look [OF prov m f]
    have "f = None" using q(5) none by (simp add: same_rules_active [OF l(1)])
    then show ?thesis
      using f q(1,3,4) l same_rules_trans by (auto simp: chaos_memory_match_sized_def memory_match_look)
  qed
  obtain lib1 where l1: "chaos_memory_match_sized me CHAOS_MEMORY_EFFECT_LATENCY operation flags len (ms_lib st) = (None, lib1)"
    "same_rules (ms_lib st) lib1" "rl_tls_prng lib1 = rl_tls_prng (ms_lib st)" "rl_pool lib1 = rl_pool (ms_lib st)"
    using look [of "ms_lib st"] by auto
  obtain lib2 where l2: "chaos_memory_match_sized me CHAOS_MEMORY_EFFECT_ERRNO operation flags len lib1 = (None, lib2)"
    "same_rules (ms_lib st) lib2" "rl_tls_prng lib2 = rl_tls_prng (ms_lib st)" "rl_pool lib2 = rl_pool (ms_lib st)"
    using look [OF l1(2-4)] by blast
  have "memory_entry me call st = memory_real me call (st\<lparr>ms_lib := lib2\<rparr>)"
    unfolding memory_entry_form [OF assms(1,3)] by (simp add: memory_delay_def memory_error_def l1(1) l2(1))
  then show ?thesis
    using l2(2-4) same_rules_active [OF l2(2)] by (auto simp: chaos_memory_config_active_state_def)
qed

section \<open>Examples\<close>

text \<open>A file with an error rule for anonymous mappings, and a kernel that gives the address 4096.\<close>

definition demo_memory_env :: memory_env where
  "demo_memory_env =
     \<lparr>me_look = (\<lambda>effect. demo_look\<lparr>le_look := demo_reading ''mmap/anon:ERRNO:ENOMEM''\<rparr>),
      me_real = (\<lambda>call. Some (\<lambda>n. Inr 4096)), me_sys = (\<lambda>call n. Inl ENOSYS)\<rparr>"

definition demo_memory_state :: memory_state where
  "demo_memory_state =
     \<lparr>ms_lib = demo_started memory_reload 0, ms_guard = 0, ms_errno = None, ms_slept = 0, ms_calls = []\<rparr>"

theorem memory_wrapper_sound_witness:
  "case memory_entry demo_memory_env (Mem_Mmap 0 8192 3 0x22 (- 1) 0) demo_memory_state of (result, st') \<Rightarrow>
     reload_reachable memory_reload (ms_lib st') \<and> ms_guard st' = 0"
proof -
  obtain result st' where m: "memory_entry demo_memory_env (Mem_Mmap 0 8192 3 0x22 (- 1) 0) demo_memory_state = (result, st')"
    by fastforce
  have "reload_reachable memory_reload (ms_lib demo_memory_state)" "ms_guard demo_memory_state = 0"
    by (simp_all add: demo_memory_state_def demo_started_reachable)
  from memory_wrapper_sound [OF this m] show ?thesis unfolding m prod.case by blast
qed

text \<open>A snapshot that fails anonymous mappings only, in a library that has seen its file; a file mapping is asked for.\<close>

definition demo_quiet_memory :: memory_state where
  "demo_quiet_memory = demo_memory_state
     \<lparr>ms_lib := (demo_started memory_reload 0)
        \<lparr>rl_states := [\<lparr>rs_sequence = 2, rs_rules = [memory_rule_zero
             \<lparr>mem_selector := the (chaos_memory_selector_parse ''mmap/anon''), mem_effect := CHAOS_MEMORY_EFFECT_ERRNO,
               mem_errnum := Some (Errno_Name ENOMEM), mem_probability := 1\<rparr>], rs_parse_ok = True, rs_hits = [None],
             rs_text = [''mmap/anon:ERRNO:ENOMEM'']\<rparr>],
          rl_active_index := 0, rl_provisional := False,
          rl_cached_mtime := chaos_memory_config_observed_mtime (demo_reading ''mmap/anon:ERRNO:ENOMEM'')\<rparr>\<rparr>"

theorem memory_uncovered_transparent_witness:
  "fst (memory_entry demo_memory_env (Mem_Mmap 0 8192 3 2 5 0) demo_quiet_memory) = Returned 4096"
proof -
  have "ms_guard demo_quiet_memory = 0" "\<not> rl_provisional (ms_lib demo_quiet_memory)"
    "memory_asked (Mem_Mmap 0 8192 3 2 5 0) = (CHAOS_MEMORY_OP_MMAP, 2, 8192)"
    "\<forall>effect. chaos_memory_config_observed_mtime (le_look (me_look demo_memory_env effect)) =
       rl_cached_mtime (ms_lib demo_quiet_memory)"
    by (simp_all add: demo_quiet_memory_def demo_memory_env_def demo_memory_state_def)
  moreover have "\<forall>r \<in> set (rs_rules (chaos_memory_config_active_state (ms_lib demo_quiet_memory))).
      chaos_memory_selector_matches (mem_selector r) CHAOS_MEMORY_OP_MMAP 2 = None"
    by (simp add: demo_quiet_memory_def chaos_memory_config_active_state_def reload_active_state_def
        chaos_memory_selector_parse_def memory_selector_zero_def chaos_memory_selector_matches_def
        chaos_memory_mmap_is_anonymous_def MAP_ANONYMOUS_def Let_def)
  ultimately obtain lib where "memory_entry demo_memory_env (Mem_Mmap 0 8192 3 2 5 0) demo_quiet_memory =
      memory_real demo_memory_env (Mem_Mmap 0 8192 3 2 5 0) (demo_quiet_memory\<lparr>ms_lib := lib\<rparr>)"
    using memory_uncovered_transparent by blast
  then show ?thesis
    by (simp add: chaos_memory_call_real_mmap_def memory_perform_def demo_memory_env_def memory_answer_def Let_def
        chaos_memory_enter_internal_def)
qed

end
