(* ===== verification/Process_Config.thy ===== *)
theory Process_Config
  imports Rule_Values
begin

text \<open>
  The rule file of the process library: selectors for operations, values, the line and the buffer parser, and
  selection (\<open>src/process/chaos_process_config.c\<close>), with the rules the supervisor supports
  (\<open>src/init/chaos_init_process.c\<close>).
\<close>

section \<open>Data\<close>

datatype chaos_process_operation =
  CHAOS_PROCESS_OP_INVALID | CHAOS_PROCESS_OP_PTHREAD_CREATE | CHAOS_PROCESS_OP_FORK | CHAOS_PROCESS_OP_POSIX_SPAWN
| CHAOS_PROCESS_OP_POSIX_SPAWNP | CHAOS_PROCESS_OP_EXECVE | CHAOS_PROCESS_OP_EXECVEAT | CHAOS_PROCESS_OP_WAITPID

text \<open>The place of an operation in the array of counters, \<open>None\<close> outside the range.\<close>

definition process_op_index :: "chaos_process_operation \<Rightarrow> nat option" where
  "process_op_index operation =
     (case operation of
        CHAOS_PROCESS_OP_INVALID \<Rightarrow> None
      | CHAOS_PROCESS_OP_PTHREAD_CREATE \<Rightarrow> Some 0
      | CHAOS_PROCESS_OP_FORK \<Rightarrow> Some 1
      | CHAOS_PROCESS_OP_POSIX_SPAWN \<Rightarrow> Some 2
      | CHAOS_PROCESS_OP_POSIX_SPAWNP \<Rightarrow> Some 3
      | CHAOS_PROCESS_OP_EXECVE \<Rightarrow> Some 4
      | CHAOS_PROCESS_OP_EXECVEAT \<Rightarrow> Some 5
      | CHAOS_PROCESS_OP_WAITPID \<Rightarrow> Some 6)"

definition CHAOS_PROCESS_OP_COUNT :: nat where "CHAOS_PROCESS_OP_COUNT = 7"

datatype chaos_process_selector_kind =
  CHAOS_PROCESS_SELECTOR_INVALID | CHAOS_PROCESS_SELECTOR_ANY | CHAOS_PROCESS_SELECTOR_OPERATION

datatype chaos_process_effect =
  CHAOS_PROCESS_EFFECT_INVALID | CHAOS_PROCESS_EFFECT_ERRNO | CHAOS_PROCESS_EFFECT_LATENCY
| CHAOS_PROCESS_EFFECT_FAIL_AFTER

record chaos_process_selector =
  psel_kind :: chaos_process_selector_kind
  psel_operation :: chaos_process_operation
  psel_len :: nat

record chaos_process_rule = rule_head +
  proc_selector :: chaos_process_selector
  proc_effect :: chaos_process_effect
  proc_errnum :: "errnum option"
  proc_probability :: rat
  proc_latency_ms :: nat
  proc_fail_after_count :: u64

definition CHAOS_PROCESS_MAX_RULES :: nat where "CHAOS_PROCESS_MAX_RULES = 256"
definition CHAOS_PROCESS_MAX_VALUE :: nat where "CHAOS_PROCESS_MAX_VALUE = 256"

text \<open>What \<open>memset\<close> leaves.\<close>

definition process_selector_zero :: chaos_process_selector where
  "process_selector_zero = \<lparr>psel_kind = CHAOS_PROCESS_SELECTOR_ANY, psel_operation = CHAOS_PROCESS_OP_PTHREAD_CREATE,
     psel_len = 0\<rparr>"

definition process_rule_zero :: chaos_process_rule where
  "process_rule_zero =
     \<lparr>rh_policy = policy_zero, rh_call_size = 0, rh_hit = None, rh_hit_generation = 0,
      proc_selector = process_selector_zero, proc_effect = CHAOS_PROCESS_EFFECT_ERRNO, proc_errnum = None,
      proc_probability = 0, proc_latency_ms = 0, proc_fail_after_count = 0\<rparr>"

section \<open>Text helpers\<close>

definition chaos_process_is_blank_char :: "char \<Rightarrow> bool" where
  "chaos_process_is_blank_char ch \<longleftrightarrow> ch = CHR '' '' \<or> ch = TAB \<or> ch = CR \<or> ch = LF"

definition chaos_process_trim :: "string \<Rightarrow> string" where
  "chaos_process_trim s =
     (let t = dropWhile chaos_process_is_blank_char s
      in if t = [] then t else rstrip chaos_process_is_blank_char t)"

definition chaos_process_strip_comment :: "string \<Rightarrow> string" where
  "chaos_process_strip_comment line =
     (case split_first CHR ''#'' line of None \<Rightarrow> line | Some (before, _) \<Rightarrow> before)"

section \<open>Selectors\<close>

definition chaos_process_selector_parse :: "string \<Rightarrow> chaos_process_selector option" where
  "chaos_process_selector_parse s =
     (if s = [] then None
      else let selector = process_selector_zero\<lparr>psel_len := length s\<rparr>;
               whole = (\<lambda>operation. Some (selector\<lparr>psel_kind := CHAOS_PROCESS_SELECTOR_OPERATION, psel_operation := operation\<rparr>))
           in if s = ''*''
              then Some (selector\<lparr>psel_kind := CHAOS_PROCESS_SELECTOR_ANY, psel_operation := CHAOS_PROCESS_OP_INVALID\<rparr>)
              else if s = ''pthread_create'' then whole CHAOS_PROCESS_OP_PTHREAD_CREATE
              else if s = ''fork'' then whole CHAOS_PROCESS_OP_FORK
              else if s = ''posix_spawn'' then whole CHAOS_PROCESS_OP_POSIX_SPAWN
              else if s = ''posix_spawnp'' then whole CHAOS_PROCESS_OP_POSIX_SPAWNP
              else if s = ''execve'' then whole CHAOS_PROCESS_OP_EXECVE
              else if s = ''execveat'' then whole CHAOS_PROCESS_OP_EXECVEAT
              else if s = ''waitpid'' then whole CHAOS_PROCESS_OP_WAITPID
              else None)"

text \<open>The rank of the match, \<open>None\<close> where the function returns 0.\<close>

definition chaos_process_selector_matches ::
  "chaos_process_selector \<Rightarrow> chaos_process_operation \<Rightarrow> nat option" where
  "chaos_process_selector_matches selector operation =
     (if psel_kind selector = CHAOS_PROCESS_SELECTOR_ANY then Some 1
      else if psel_kind selector = CHAOS_PROCESS_SELECTOR_OPERATION \<and> psel_operation selector = operation then Some 2
      else None)"

section \<open>Values\<close>

definition chaos_process_parse_errno_name :: "string \<Rightarrow> errnum option" where
  "chaos_process_parse_errno_name s =
     (if s = ''EAGAIN'' then Some (Errno_Name EAGAIN)
      else if s = ''ENOMEM'' then Some (Errno_Name ENOMEM)
      else if s = ''EACCES'' then Some (Errno_Name EACCES)
      else if s = ''ENOENT'' then Some (Errno_Name ENOENT)
      else if s = ''EINTR'' then Some (Errno_Name EINTR)
      else if s = ''ECHILD'' then Some (Errno_Name ECHILD)
      else if s = ''EPERM'' then Some (Errno_Name EPERM)
      else if s = ''ESRCH'' then Some (Errno_Name ESRCH)
      else if s = ''EBUSY'' then Some (Errno_Name EBUSY)
      else if s = ''EINVAL'' then Some (Errno_Name EINVAL)
      else if s = ''ENOSYS'' then Some (Errno_Name ENOSYS)
      else if s = ''EMFILE'' then Some (Errno_Name EMFILE)
      else if s = ''ENFILE'' then Some (Errno_Name ENFILE)
      else if s = ''E2BIG'' then Some (Errno_Name E2BIG)
      else let (value, rest, converted, _) = strtol s
           in if \<not> converted \<or> chaos_process_trim rest \<noteq> [] \<or> value \<le> 0 \<or> 0x7fffffff < value then None
              else Some (Errno_Number value))"

definition chaos_process_parse_probability :: "string \<Rightarrow> rat option" where
  "chaos_process_parse_probability s = chaos_policy_parse_probability (Some s)"

definition chaos_process_copy_text_value :: "string \<Rightarrow> nat \<Rightarrow> string option" where
  "chaos_process_copy_text_value s buffer_size = (if length s = 0 \<or> buffer_size \<le> length s then None else Some s)"

definition chaos_process_parse_payload_probability :: "string \<Rightarrow> nat \<Rightarrow> (string \<times> rat) option" where
  "chaos_process_parse_payload_probability s payload_size =
     (case split_last CHR ''@'' s of
        None \<Rightarrow> map_option (\<lambda>payload. (payload, 1)) (chaos_process_copy_text_value s payload_size)
      | Some (before, after) \<Rightarrow>
          (if length before = 0 \<or> payload_size \<le> length before then None
           else map_option (\<lambda>p. (before, p)) (chaos_process_parse_probability after)))"

definition chaos_process_parse_latency :: "string \<Rightarrow> nat option" where
  "chaos_process_parse_latency s =
     (let (value, rest, converted) = strtoul s
      in if \<not> converted \<or> chaos_process_trim rest \<noteq> [] \<or> 0xffffffff < value then None else Some value)"

definition chaos_process_parse_fail_after_count :: "string \<Rightarrow> u64 option" where
  "chaos_process_parse_fail_after_count s =
     (if s = [] \<or> \<not> is_digit (hd s) then None
      else let (value, rest, converted) = strtoul s
           in if strtoull_range s \<or> chaos_process_trim rest \<noteq> [] then None else Some (of_nat value))"

definition chaos_process_parse_fail_after_value :: "string \<Rightarrow> (errnum \<times> u64) option" where
  "chaos_process_parse_fail_after_value payload =
     (case split_first CHR '','' payload of
        None \<Rightarrow> None
      | Some (name, number) \<Rightarrow>
          (let name = chaos_process_trim name; number = chaos_process_trim number
           in if name = [] \<or> number = [] then None
              else case chaos_process_parse_errno_name name of
                     None \<Rightarrow> None
                   | Some e \<Rightarrow> map_option (\<lambda>n. (e, n)) (chaos_process_parse_fail_after_count number)))"

section \<open>One line\<close>

definition chaos_process_split_rule_fields :: "string \<Rightarrow> (string \<times> string \<times> string) option" where
  "chaos_process_split_rule_fields line =
     (case split_first CHR '':'' line of
        None \<Rightarrow> None
      | Some (selector, rest) \<Rightarrow>
          (case split_first CHR '':'' rest of
             None \<Rightarrow> None
           | Some (effect, payload) \<Rightarrow>
               Some (chaos_process_trim selector, chaos_process_trim effect, chaos_process_trim payload)))"

definition process_parse_effect :: "string \<Rightarrow> string \<Rightarrow> chaos_process_rule \<Rightarrow> chaos_process_rule option" where
  "process_parse_effect effect text_value rule =
     (let with_payload = (\<lambda>code. case chaos_process_parse_payload_probability text_value CHAOS_PROCESS_MAX_VALUE of
            None \<Rightarrow> None
          | Some (payload, p) \<Rightarrow> code payload (rule\<lparr>proc_probability := p\<rparr>))
      in if effect = ''ERRNO'' then
           with_payload (\<lambda>payload r. map_option (\<lambda>e. r\<lparr>proc_effect := CHAOS_PROCESS_EFFECT_ERRNO, proc_errnum := Some e\<rparr>)
             (chaos_process_parse_errno_name payload))
         else if effect = ''LATENCY'' then
           with_payload (\<lambda>payload r. map_option (\<lambda>ms. r\<lparr>proc_effect := CHAOS_PROCESS_EFFECT_LATENCY, proc_latency_ms := ms\<rparr>)
             (chaos_process_parse_latency payload))
         else if effect = ''FAIL_AFTER'' then
           with_payload (\<lambda>payload r. map_option (\<lambda>(e, n). r\<lparr>proc_effect := CHAOS_PROCESS_EFFECT_FAIL_AFTER,
               proc_errnum := Some e, proc_fail_after_count := n\<rparr>) (chaos_process_parse_fail_after_value payload))
         else None)"

definition process_parse_cursor :: "string \<Rightarrow> chaos_process_rule line_result" where
  "process_parse_cursor cursor =
     (case chaos_process_split_rule_fields cursor of
        None \<Rightarrow> Line_Invalid
      | Some (selector, effect, text_value) \<Rightarrow>
          (if selector = [] \<or> effect = [] \<or> text_value = [] then Line_Invalid
           else case chaos_process_selector_parse selector of
                  None \<Rightarrow> Line_Invalid
                | Some s \<Rightarrow>
                    (case process_parse_effect effect text_value (process_rule_zero\<lparr>proc_selector := s\<rparr>) of
                       None \<Rightarrow> Line_Invalid
                     | Some r \<Rightarrow> Line_Rule r)))"

definition chaos_process_config_parse_line :: "string \<Rightarrow> chaos_process_rule line_result" where
  "chaos_process_config_parse_line line =
     (let cursor = chaos_process_trim (chaos_process_strip_comment line)
      in if cursor = [] then Line_Blank else process_parse_cursor cursor)"

section \<open>The file and selection\<close>

definition process_rule_supported :: "chaos_process_rule \<Rightarrow> bool" where
  "process_rule_supported rule \<longleftrightarrow> True"

definition chaos_init_process_supported :: "chaos_process_rule \<Rightarrow> bool" where
  "chaos_init_process_supported rule \<longleftrightarrow>
     psel_kind (proc_selector rule) \<noteq> CHAOS_PROCESS_SELECTOR_OPERATION \<or>
     psel_operation (proc_selector rule) \<noteq> CHAOS_PROCESS_OP_POSIX_SPAWNP"

definition chaos_process_config_parse_buffer :: "(chaos_process_rule \<Rightarrow> bool) \<Rightarrow> chaos_status_error \<Rightarrow> string \<Rightarrow> chaos_process_rule parse_result" where
  "chaos_process_config_parse_buffer supported err buffer =
     parse_rule_buffer chaos_process_config_parse_line supported CHAOS_PROCESS_MAX_RULES err buffer"

definition chaos_process_config_select_rule ::
  "chaos_process_rule list \<Rightarrow> chaos_process_effect \<Rightarrow> chaos_process_operation \<Rightarrow> chaos_process_rule option" where
  "chaos_process_config_select_rule rules effect operation =
     ranked_from
       (\<lambda>r. if proc_effect r \<noteq> effect then None else chaos_process_selector_matches (proc_selector r) operation)
       (\<lambda>r. psel_len (proc_selector r)) None rules"

definition chaos_process_config_match_loaded ::
  "chaos_process_rule rule_snapshot \<Rightarrow> u64 \<Rightarrow> chaos_process_effect \<Rightarrow> chaos_process_operation
     \<Rightarrow> chaos_process_rule option" where
  "chaos_process_config_match_loaded st sequence_after effect operation =
     match_snapshot (\<lambda>rules. chaos_process_config_select_rule rules effect operation) st sequence_after"

section \<open>The helpers are the shared ones\<close>

lemma process_blank_eq: "chaos_process_is_blank_char = is_blank_char"
  by (auto simp: fun_eq_iff chaos_process_is_blank_char_def is_blank_char_def)

lemma process_trim_eq: "chaos_process_trim = trim_blanks"
  by (rule ext) (simp only: chaos_process_trim_def process_blank_eq trim_form)

lemma process_strip_comment_eq: "chaos_process_strip_comment = cut_comment"
  by (rule ext) (simp only: chaos_process_strip_comment_def strip_form)

lemma process_split_eq: "chaos_process_split_rule_fields = split_fields"
  by (simp add: fun_eq_iff chaos_process_split_rule_fields_def split_fields_def process_trim_eq split: option.split prod.split)

lemma process_payload_eq: "chaos_process_parse_payload_probability = payload_probability"
  by (simp add: fun_eq_iff chaos_process_parse_payload_probability_def payload_probability_def copy_text_def
      chaos_process_copy_text_value_def chaos_process_parse_probability_def split: option.split prod.split)

lemma process_latency_eq: "chaos_process_parse_latency = latency_value"
  by (simp add: fun_eq_iff chaos_process_parse_latency_def latency_value_def process_trim_eq)

lemma process_errno_cases:
  "chaos_process_parse_errno_name s = Some e \<Longrightarrow> (\<exists>n. e = Errno_Name n) \<or> errno_number s = Some e"
  by (auto simp: chaos_process_parse_errno_name_def errno_number_def process_trim_eq split: if_splits)

lemma process_errno_ok: "chaos_process_parse_errno_name s = Some e \<Longrightarrow> errnum_ok e"
  using process_errno_cases [of s e] errno_number_ok [of s e] by (auto simp: errnum_ok_def)

lemma process_parse_line_form: "chaos_process_config_parse_line = trimmed_line process_parse_cursor"
  by (simp add: fun_eq_iff chaos_process_config_parse_line_def trimmed_line_def process_trim_eq process_strip_comment_eq)

section \<open>Well-formed rules\<close>

definition process_selector_ok :: "chaos_process_selector \<Rightarrow> bool" where
  "process_selector_ok s \<longleftrightarrow>
     0 < psel_len s \<and>
     (psel_kind s = CHAOS_PROCESS_SELECTOR_ANY \<and> psel_operation s = CHAOS_PROCESS_OP_INVALID \<or>
      psel_kind s = CHAOS_PROCESS_SELECTOR_OPERATION \<and> psel_operation s \<noteq> CHAOS_PROCESS_OP_INVALID)"

definition process_rule_ok :: "chaos_process_rule \<Rightarrow> bool" where
  "process_rule_ok r \<longleftrightarrow>
     process_selector_ok (proc_selector r) \<and> proc_effect r \<noteq> CHAOS_PROCESS_EFFECT_INVALID \<and>
     (proc_errnum r = None \<longleftrightarrow> proc_effect r = CHAOS_PROCESS_EFFECT_LATENCY) \<and> pred_option errnum_ok (proc_errnum r) \<and>
     0 \<le> proc_probability r \<and> proc_probability r \<le> 1 \<and> proc_latency_ms r \<le> 0xffffffff \<and>
     (proc_effect r \<noteq> CHAOS_PROCESS_EFFECT_LATENCY \<longrightarrow> proc_latency_ms r = 0) \<and>
     (proc_effect r \<noteq> CHAOS_PROCESS_EFFECT_FAIL_AFTER \<longrightarrow> proc_fail_after_count r = 0)"

lemma process_selector_parse_ok: "chaos_process_selector_parse s = Some sel \<Longrightarrow> process_selector_ok sel"
  by (auto simp: chaos_process_selector_parse_def process_selector_ok_def process_selector_zero_def Let_def split: if_splits)

lemma fail_after_value_ok: "chaos_process_parse_fail_after_value payload = Some (e, n) \<Longrightarrow> errnum_ok e"
  by (auto simp: chaos_process_parse_fail_after_value_def Let_def dest: process_errno_ok split: option.splits if_splits)

lemma process_parse_effect_ok:
  assumes "process_parse_effect effect text_value rule = Some r" "rule = process_rule_zero\<lparr>proc_selector := s\<rparr>" "process_selector_ok s"
  shows "process_rule_ok r"
proof -
  have zero: "proc_errnum rule = None" "proc_latency_ms rule = 0" "proc_selector rule = s" "proc_fail_after_count rule = 0"
    by (simp_all add: assms(2) process_rule_zero_def)
  note eff = assms(1) [unfolded process_parse_effect_def Let_def process_payload_eq process_latency_eq]
  consider (errno) "effect = ''ERRNO''" | (latency) "effect = ''LATENCY''" | (fail_after) "effect = ''FAIL_AFTER''"
    | (other) "effect \<noteq> ''ERRNO''" "effect \<noteq> ''LATENCY''" "effect \<noteq> ''FAIL_AFTER''"
    by blast
  then show ?thesis
  proof cases
    case errno
    then obtain payload p e where "payload_probability text_value CHAOS_PROCESS_MAX_VALUE = Some (payload, p)"
      "r = rule\<lparr>proc_probability := p, proc_effect := CHAOS_PROCESS_EFFECT_ERRNO, proc_errnum := Some e\<rparr>"
      "chaos_process_parse_errno_name payload = Some e"
      using eff by (auto split: option.splits)
    with payload_probability_range [OF this(1)] process_errno_ok show ?thesis
      using zero assms(3) by (auto simp: process_rule_ok_def)
  next
    case latency
    then obtain payload p ms where "payload_probability text_value CHAOS_PROCESS_MAX_VALUE = Some (payload, p)"
      "r = rule\<lparr>proc_probability := p, proc_effect := CHAOS_PROCESS_EFFECT_LATENCY, proc_latency_ms := ms\<rparr>"
      "latency_value payload = Some ms"
      using eff by (auto split: option.splits)
    with payload_probability_range [OF this(1)] latency_value_bound show ?thesis
      using zero assms(3) by (auto simp: process_rule_ok_def)
  next
    case fail_after
    then obtain payload p e n where "payload_probability text_value CHAOS_PROCESS_MAX_VALUE = Some (payload, p)"
      "r = rule\<lparr>proc_probability := p, proc_effect := CHAOS_PROCESS_EFFECT_FAIL_AFTER, proc_errnum := Some e,
        proc_fail_after_count := n\<rparr>"
      "chaos_process_parse_fail_after_value payload = Some (e, n)"
      using eff by (auto split: option.splits)
    with payload_probability_range [OF this(1)] fail_after_value_ok show ?thesis
      using zero assms(3) by (auto simp: process_rule_ok_def)
  qed (use eff in simp)
qed

lemma process_parse_cursor_ok: "process_parse_cursor cursor = Line_Rule r \<Longrightarrow> process_rule_ok r"
  by (auto simp: process_parse_cursor_def split: option.splits prod.splits if_splits
      dest!: process_selector_parse_ok intro!: process_parse_effect_ok)

lemma process_rule_ok_tail: "process_rule_ok r \<Longrightarrow> process_rule_ok (r\<lparr>rh_policy := p, rh_call_size := n\<rparr>)"
  by (simp add: process_rule_ok_def)

interpretation process_lines: trimmed_grammar process_parse_cursor process_rule_supported CHAOS_PROCESS_MAX_RULES process_rule_ok
  by unfold_locales (simp_all add: process_parse_cursor_ok process_rule_ok_tail)

text \<open>A process rule file is taken whole or not at all, with the first line at fault, by the library and by the
  supervisor; every rule taken is well formed and one its reader supports: a selector for everything or for one
  operation, an error exactly for rules that fail calls, a delay only for delays, a count only for \<open>FAIL_AFTER\<close>.\<close>

theorem process_parse_buffer_sound:
  "list_all (\<lambda>supported. case scan_lines (line_rule chaos_process_config_parse_line) supported CHAOS_PROCESS_MAX_RULES 0 0
          (buffer_lines (c_string buffer)) of
     Inr rs \<Rightarrow>
       pr_ok (chaos_process_config_parse_buffer supported err buffer) \<and>
       pr_rules (chaos_process_config_parse_buffer supported err buffer) = rs \<and>
       length rs \<le> CHAOS_PROCESS_MAX_RULES \<and> list_all process_rule_ok rs \<and> list_all supported rs
   | Inl (n, reason, line) \<Rightarrow>
       \<not> pr_ok (chaos_process_config_parse_buffer supported err buffer) \<and>
       pr_rules (chaos_process_config_parse_buffer supported err buffer) = [] \<and>
       pr_error (chaos_process_config_parse_buffer supported err buffer) =
         chaos_status_reject (chaos_status_keep_line (chaos_status_clear err) n line) reason)
     [process_rule_supported, chaos_init_process_supported]"
proof -
  note forms = chaos_process_config_parse_buffer_def process_parse_line_form
  have supp: "list_all s (pr_rules (parse_rule_buffer (trimmed_line process_parse_cursor) s CHAOS_PROCESS_MAX_RULES err buffer))"
    if "pr_ok (parse_rule_buffer (trimmed_line process_parse_cursor) s CHAOS_PROCESS_MAX_RULES err buffer)" for s
    using line_grammar.parsed_rules(2) [OF process_lines.line_grammar_axioms that] by (simp add: list_all_iff)
  have one: "case scan_lines (line_rule chaos_process_config_parse_line) s CHAOS_PROCESS_MAX_RULES 0 0
          (buffer_lines (c_string buffer)) of
     Inr rs \<Rightarrow>
       pr_ok (chaos_process_config_parse_buffer s err buffer) \<and> pr_rules (chaos_process_config_parse_buffer s err buffer) = rs \<and>
       length rs \<le> CHAOS_PROCESS_MAX_RULES \<and> list_all process_rule_ok rs \<and> list_all s rs
   | Inl (n, reason, line) \<Rightarrow>
       \<not> pr_ok (chaos_process_config_parse_buffer s err buffer) \<and> pr_rules (chaos_process_config_parse_buffer s err buffer) = [] \<and>
       pr_error (chaos_process_config_parse_buffer s err buffer) =
         chaos_status_reject (chaos_status_keep_line (chaos_status_clear err) n line) reason" for s
    using line_grammar.parse_contract [OF process_lines.line_grammar_axioms, where supported = s and max_rules = CHAOS_PROCESS_MAX_RULES and buffer = buffer and err = err] supp [of s] unfolding forms
    by (auto split: sum.splits)
  show ?thesis using one by simp
qed

section \<open>Round trip\<close>

text \<open>C37. A \<open>FAIL_AFTER\<close> rule survives printing and parsing: any readable selector, the name of any error the
  library knows or any error number, any count of 64 bits and any probability text give back the rule written, with
  its qualifiers.\<close>

theorem process_fail_after_roundtrip:
  assumes "plain_field sel" "chaos_process_selector_parse sel = Some s" "chaos_process_parse_errno_name name = Some e"
    "plain_field name" "length name < 100" "CHR '','' \<notin> set name" "n < 2 ^ 64"
    "plain_field q" "chaos_policy_parse_probability (Some q) = Some prob" "policy_ok p"
  shows "line_rule chaos_process_config_parse_line
      (print_rule sel ''FAIL_AFTER'' (name @ CHR '','' # print_nat n) q @ print_qualifiers p) =
    Inr (Some (process_rule_zero\<lparr>proc_selector := s, proc_effect := CHAOS_PROCESS_EFFECT_FAIL_AFTER, proc_errnum := Some e,
      proc_fail_after_count := of_nat n, proc_probability := prob, rh_policy := p, rh_call_size := CHAOS_POLICY_NO_SIZE\<rparr>))"
proof -
  let ?payload = "name @ CHR '','' # print_nat n"
  have num: "plain_field (print_nat n)" by (rule plain_print_nat)
  have payload: "plain_field ?payload"
    using assms(4) num by (auto simp: plain_field_def trimmed_def hd_append)
  have ok: "printable sel ''FAIL_AFTER'' ?payload q"
    using assms(1,8) payload by (simp add: printable_def plain_field_def trimmed_def is_blank_char_def)
  have "n < 10 ^ Suc 19" using assms(7) by simp
  then have "length (print_nat n) \<le> Suc 19" by (rule length_print_nat)
  then have len: "length ?payload < CHAOS_PROCESS_MAX_VALUE" using assms(5) by (simp add: CHAOS_PROCESS_MAX_VALUE_def)
  have q: "CHR ''@'' \<notin> set q" using assms(8) by (simp add: plain_field_def)
  have ne: "name \<noteq> []" "sel \<noteq> []" "print_nat n \<noteq> []" using assms(1,4) num by (auto simp: plain_field_def trimmed_def)
  note read = payload_probability_print [OF _ len q assms(9)]
  have "n \<le> ulong_max" using assms(7) by (simp add: ulong_max_def)
  then have count: "chaos_process_parse_fail_after_count (print_nat n) = Some (of_nat n)"
    using strtoul_print_nat_full [of n] strtoull_range_print [of n] print_nat_head [of n]
    by (auto simp: chaos_process_parse_fail_after_count_def process_trim_eq trim_blanks_def)
  have "split_first CHR '','' ?payload = Some (name, print_nat n)"
    using assms(6) by (simp add: split_first_Some_iff)
  then have parsed: "chaos_process_parse_fail_after_value ?payload = Some (e, of_nat n)"
    using plain_field_trim [OF assms(4)] plain_field_trim [OF num] ne assms(3) count
    by (simp add: chaos_process_parse_fail_after_value_def process_trim_eq Let_def)
  have "process_parse_cursor line = Line_Rule (process_rule_zero\<lparr>proc_selector := s,
      proc_effect := CHAOS_PROCESS_EFFECT_FAIL_AFTER, proc_errnum := Some e, proc_fail_after_count := of_nat n,
      proc_probability := prob\<rparr>)"
    if "split_fields line = Some (sel, ''FAIL_AFTER'', ?payload @ CHR ''@'' # q)" for line
    using that ne assms(2) read parsed
    by (simp add: process_parse_cursor_def process_split_eq process_parse_effect_def process_payload_eq process_rule_zero_def)
  from printed_rule [OF ok assms(10), where body = process_parse_cursor, OF this] show ?thesis
    by (simp add: process_parse_line_form process_rule_zero_def)
qed

theorem process_fail_after_roundtrip_witness:
  "line_rule chaos_process_config_parse_line
      (print_rule ''fork'' ''FAIL_AFTER'' (''EAGAIN'' @ CHR '','' # print_nat 18446744073709551615) ''0.5'' @
        print_qualifiers (policy_zero\<lparr>pol_first := 2\<rparr>)) =
    Inr (Some (process_rule_zero\<lparr>proc_selector := \<lparr>psel_kind = CHAOS_PROCESS_SELECTOR_OPERATION,
        psel_operation = CHAOS_PROCESS_OP_FORK, psel_len = 4\<rparr>,
      proc_effect := CHAOS_PROCESS_EFFECT_FAIL_AFTER, proc_errnum := Some (Errno_Name EAGAIN),
      proc_fail_after_count := of_nat 18446744073709551615, proc_probability := dbl_div 5 10,
      rh_policy := policy_zero\<lparr>pol_first := 2\<rparr>, rh_call_size := CHAOS_POLICY_NO_SIZE\<rparr>))"
proof (rule process_fail_after_roundtrip)
  show "chaos_policy_parse_probability (Some ''0.5'') = Some (dbl_div 5 10)"
    using parse_probability_point [of "CHR ''0''" "''5''" "[]"] by (simp add: is_digit_def digit_value_def)
  show "chaos_process_selector_parse ''fork'' = Some \<lparr>psel_kind = CHAOS_PROCESS_SELECTOR_OPERATION,
        psel_operation = CHAOS_PROCESS_OP_FORK, psel_len = 4\<rparr>"
    by code_simp
  show "chaos_process_parse_errno_name ''EAGAIN'' = Some (Errno_Name EAGAIN)" by code_simp
qed (simp_all add: plain_field_def trimmed_def is_blank_char_def policy_ok_def policy_zero_def)

end
