(* ===== verification/Process_Reload.thy ===== *)
theory Process_Reload
  imports Process_Config Rule_Reload
begin

text \<open>
  The process library's copy of the rule file machinery (\<open>src/process/chaos_process_config.c\<close>): its functions are those of
  \<open>Rule_Reload\<close> with the limits, paths, parser and stamp correction of this library.
\<close>

section \<open>The functions\<close>

type_synonym process_lib = "chaos_process_rule rule_lib"

definition CHAOS_PROCESS_MAX_LINE_LENGTH :: nat where "CHAOS_PROCESS_MAX_LINE_LENGTH = 1024"
definition CHAOS_PROCESS_MAX_CONFIG_BYTES :: nat where
  "CHAOS_PROCESS_MAX_CONFIG_BYTES = CHAOS_PROCESS_MAX_RULES * CHAOS_PROCESS_MAX_LINE_LENGTH"
definition CHAOS_PROCESS_STATUS_PATH :: string where "CHAOS_PROCESS_STATUS_PATH = ''/tmp/.chaos-process.status''"
definition CHAOS_PROCESS_HITS_PREFIX :: string where "CHAOS_PROCESS_HITS_PREFIX = ''/tmp/.chaos-process.hits''"

definition chaos_process_config_normalize_mtime_hash :: "u64 \<Rightarrow> u64" where
  "chaos_process_config_normalize_mtime_hash x =
     (if x = CHAOS_IO_MTIME_UNKNOWN \<or> x = CHAOS_IO_MTIME_RELOADING then x - 1 else x)"

text \<open>One counter of calls per operation.\<close>

definition chaos_process_reset_fail_after_counters :: "u64 list \<Rightarrow> u64 list" where
  "chaos_process_reset_fail_after_counters counters = map (\<lambda>_. 0) counters"

definition process_reload :: "chaos_process_rule reload_params" where
  "process_reload =
     \<lparr>rp_normalize = chaos_process_config_normalize_mtime_hash,
      rp_parse = chaos_process_config_parse_buffer process_rule_supported,
      rp_max_rules = CHAOS_PROCESS_MAX_RULES, rp_max_bytes = CHAOS_PROCESS_MAX_CONFIG_BYTES,
      rp_status_path = CHAOS_PROCESS_STATUS_PATH, rp_hits_prefix = CHAOS_PROCESS_HITS_PREFIX,
      rp_reset_counters = chaos_process_reset_fail_after_counters\<rparr>"

definition chaos_process_config_reset_state :: "bool \<Rightarrow> chaos_process_rule rule_state \<Rightarrow> chaos_process_rule rule_state" where
  "chaos_process_config_reset_state = reload_reset_state"

definition chaos_process_config_active_state :: "process_lib \<Rightarrow> chaos_process_rule rule_state" where
  "chaos_process_config_active_state = reload_active_state"

definition chaos_process_config_publish :: "nat \<Rightarrow> u64 \<Rightarrow> process_lib \<Rightarrow> process_lib" where
  "chaos_process_config_publish = reload_publish process_reload"

definition chaos_process_config_hash_mtime :: "file_stamp option \<Rightarrow> u64" where
  "chaos_process_config_hash_mtime = reload_hash_mtime process_reload"

definition chaos_process_config_observed_mtime :: "io_env \<Rightarrow> u64" where
  "chaos_process_config_observed_mtime = reload_observed_mtime process_reload"

definition chaos_process_config_read_file :: "io_env \<Rightarrow> u64 \<Rightarrow> process_lib \<Rightarrow> read_result \<times> process_lib" where
  "chaos_process_config_read_file = reload_read_file process_reload"

definition chaos_process_config_init :: "io_env \<Rightarrow> process_lib \<Rightarrow> process_lib" where
  "chaos_process_config_init = reload_init process_reload"

definition chaos_process_config_last_error :: "process_lib \<Rightarrow> chaos_status_error" where
  "chaos_process_config_last_error = rl_error"

definition chaos_process_config_reject_file :: "nat \<Rightarrow> status_reason \<Rightarrow> process_lib \<Rightarrow> process_lib" where
  "chaos_process_config_reject_file = reload_reject_file"

definition chaos_process_config_report_hits :: "io_env \<Rightarrow> bool \<Rightarrow> process_lib \<Rightarrow> process_lib" where
  "chaos_process_config_report_hits = reload_report_hits process_reload"

definition chaos_process_config_after_fork :: "io_env \<Rightarrow> process_lib \<Rightarrow> process_lib" where
  "chaos_process_config_after_fork = reload_after_fork process_reload"

definition chaos_process_config_report_hits_at_exit :: "io_env \<Rightarrow> process_lib \<Rightarrow> process_lib" where
  "chaos_process_config_report_hits_at_exit env lib = chaos_process_config_report_hits env False lib"

definition chaos_process_config_attach_hits :: "nat \<Rightarrow> process_lib \<Rightarrow> process_lib" where
  "chaos_process_config_attach_hits = reload_attach_hits"

definition chaos_process_config_report :: "io_env \<Rightarrow> u64 \<Rightarrow> chaos_process_rule rule_state \<Rightarrow> process_lib \<Rightarrow> process_lib" where
  "chaos_process_config_report = reload_report process_reload"

definition chaos_process_config_checked_recently :: "io_env \<Rightarrow> process_lib \<Rightarrow> bool \<times> process_lib" where
  "chaos_process_config_checked_recently = reload_checked_recently"

definition chaos_process_config_refresh :: "io_env \<Rightarrow> process_lib \<Rightarrow> bool \<times> process_lib" where
  "chaos_process_config_refresh = reload_refresh process_reload"

definition chaos_process_config_prepare :: "io_env \<Rightarrow> process_lib \<Rightarrow> bool \<times> process_lib" where
  "chaos_process_config_prepare env lib = chaos_process_config_refresh env lib"

text \<open>The part of the refresh that follows the claim of the reload.\<close>

definition process_reload_claimed :: "io_env \<Rightarrow> u64 \<Rightarrow> u64 \<Rightarrow> process_lib \<Rightarrow> process_lib" where
  "process_reload_claimed = reload_run process_reload"

section \<open>The contract of the reload\<close>

lemmas process_reload_defs = chaos_process_config_active_state_def chaos_process_config_hash_mtime_def chaos_process_config_observed_mtime_def
  chaos_process_config_read_file_def chaos_process_config_init_def chaos_process_config_refresh_def chaos_process_config_after_fork_def
  chaos_process_config_checked_recently_def process_reload_claimed_def

lemma process_reload_simps [simp]:
  "rp_max_rules process_reload = CHAOS_PROCESS_MAX_RULES"
  "rp_reset_counters process_reload counters = chaos_process_reset_fail_after_counters counters"
  "rp_status_path process_reload = CHAOS_PROCESS_STATUS_PATH"
  "rp_parse process_reload err data = chaos_process_config_parse_buffer process_rule_supported err data"
  by (simp_all add: process_reload_def)

interpretation process_store: reload_library process_reload
  by (rule grammar_reload_library [OF process_lines.line_grammar_axioms, of _ process_rule_supported CHAOS_PROCESS_MAX_RULES])
    (simp_all add: process_reload_def fun_eq_iff chaos_process_config_parse_buffer_def process_parse_line_form)


section \<open>An example\<close>

definition demo_process_stamp :: u64 where
  "demo_process_stamp = chaos_process_config_hash_mtime (ev_fstat demo_io_env)"

lemma demo_process_stamp_ok: "demo_process_stamp \<notin> {CHAOS_IO_MTIME_MISSING, CHAOS_IO_MTIME_UNKNOWN}"
  by (simp add: demo_process_stamp_def chaos_process_config_hash_mtime_def reload_hash_mtime_def demo_io_env_def
      process_reload_def chaos_process_config_normalize_mtime_hash_def CHAOS_IO_MTIME_MISSING_def CHAOS_IO_MTIME_UNKNOWN_def
      CHAOS_IO_MTIME_RELOADING_def)

definition demo_counted :: process_lib where
  "demo_counted = (demo_started process_reload 0)\<lparr>rl_counters := [3, 0, 5, 0, 0, 0, 9], rl_tls_prng := 1\<rparr>"


end
