(* ===== verification/Process_Hooks.thy ===== *)
theory Process_Hooks
  imports Process_Reload Rule_Calls
begin

text \<open>
  The effects of the process library (\<open>src/process/chaos_process_actions.c\<close>, with the guard and the generator of
  \<open>src/process/chaos_process_internal.h\<close>), its lookup (\<open>chaos_process_config_match\<close>) and the interposed functions
  (\<open>src/process/chaos_process_hooks.c\<close>), on the state of the whole library with its counters of calls. The real
  functions, each found or not, and the system calls are parameters; they are given the number of the call.
\<close>

section \<open>Guard and generator\<close>

definition chaos_process_in_internal :: "int \<Rightarrow> bool" where
  "chaos_process_in_internal guard \<longleftrightarrow> guard \<noteq> 0"

definition chaos_process_enter_internal :: "int \<Rightarrow> int \<times> int" where
  "chaos_process_enter_internal guard = (guard, 1)"

definition chaos_process_leave_internal :: "int \<Rightarrow> int" where
  "chaos_process_leave_internal previous = previous"

definition chaos_process_prng_mix :: "u64 \<Rightarrow> u64" where
  "chaos_process_prng_mix v =
     (let v1 = v + 0x9e3779b97f4a7c15;
          v2 = (v1 XOR drop_bit 30 v1) * 0xbf58476d1ce4e5b9;
          v3 = (v2 XOR drop_bit 27 v2) * 0x94d049bb133111eb
      in v3 XOR drop_bit 31 v3)"

definition chaos_process_prng_ensure_seeded :: "prng_env \<Rightarrow> u64 \<Rightarrow> u64" where
  "chaos_process_prng_ensure_seeded env state =
     (if state \<noteq> 0 then state
      else chaos_process_prng_mix (pe_process_seed env XOR pe_tid env XOR pe_stack_address env) OR 1)"

definition chaos_process_prng_seed_thread :: "u64 \<Rightarrow> u64" where
  "chaos_process_prng_seed_thread seed = chaos_process_prng_mix (if seed = 0 then 1 else seed)"

definition chaos_process_prng_next_u32 :: "prng_env \<Rightarrow> u64 \<Rightarrow> u32 \<times> u64" where
  "chaos_process_prng_next_u32 env state =
     (let s0 = chaos_process_prng_ensure_seeded env state;
          s1 = s0 XOR drop_bit 12 s0;
          s2 = s1 XOR push_bit 25 s1;
          s3 = s2 XOR drop_bit 27 s2
      in (ucast (drop_bit 32 (s3 * 0x2545f4914f6cdd1d)), s3))"

text \<open>The value before, and the counters afterwards.\<close>

definition chaos_process_atomic_fetch_add_u64 :: "u64 list \<Rightarrow> nat \<Rightarrow> u64 \<Rightarrow> u64 \<times> u64 list" where
  "chaos_process_atomic_fetch_add_u64 counters i delta = (counters ! i, counters[i := counters ! i + delta])"

section \<open>Effects\<close>

definition chaos_process_probability_hit_sample :: "rat \<Rightarrow> u32 \<Rightarrow> bool" where
  "chaos_process_probability_hit_sample probability sample =
     (if probability \<le> 0 then False
      else if probability \<ge> 1 then True
      else of_nat (unat sample) < probability * 4294967296)"

definition chaos_process_probability_hit :: "prng_env \<Rightarrow> rat \<Rightarrow> u64 \<Rightarrow> bool \<times> u64" where
  "chaos_process_probability_hit env probability prng =
     (let (sample, prng') = chaos_process_prng_next_u32 env prng
      in (chaos_process_probability_hit_sample probability sample, prng'))"

definition chaos_process_rule_should_trigger ::
  "look_env \<Rightarrow> chaos_process_rule option \<Rightarrow> process_lib \<Rightarrow> bool \<times> process_lib" where
  "chaos_process_rule_should_trigger le rule lib =
     (case rule of
        None \<Rightarrow> (False, lib)
      | Some r \<Rightarrow>
          (if \<not> chaos_policy_window_open (le_now le) (rh_policy r) \<or>
              \<not> chaos_policy_size_ok (rh_policy r) (rh_call_size r) then (False, lib)
           else let (hit, prng) = chaos_process_probability_hit (le_prng le) (proc_probability r) (rl_tls_prng lib);
                    lib' = lib\<lparr>rl_tls_prng := prng\<rparr>
                in if \<not> hit then (False, lib') else grant process_reload (le_hit le) r lib'))"

definition chaos_process_rule_apply_latency ::
  "look_env \<Rightarrow> chaos_process_rule option \<Rightarrow> process_lib \<Rightarrow> int \<times> process_lib" where
  "chaos_process_rule_apply_latency le rule lib =
     (case rule of
        None \<Rightarrow> (0, lib)
      | Some r \<Rightarrow>
          (if proc_effect r \<noteq> CHAOS_PROCESS_EFFECT_LATENCY then (0, lib)
           else let (fired, lib') = chaos_process_rule_should_trigger le rule lib
                in if \<not> fired then (0, lib') else (chaos_sleep_ms (le_sleeps le) (proc_latency_ms r), lib')))"

text \<open>Whether the call is to fail, and the number stored then. The place for the number is never NULL.\<close>

definition chaos_process_rule_error_number ::
  "look_env \<Rightarrow> chaos_process_rule option \<Rightarrow> process_lib \<Rightarrow> bool \<times> errnum option \<times> process_lib" where
  "chaos_process_rule_error_number le rule lib =
     (case rule of
        None \<Rightarrow> (False, None, lib)
      | Some r \<Rightarrow>
          (if proc_effect r \<noteq> CHAOS_PROCESS_EFFECT_ERRNO then (False, None, lib)
           else let (fired, lib') = chaos_process_rule_should_trigger le rule lib
                in if \<not> fired then (False, None, lib') else (True, proc_errnum r, lib')))"

definition chaos_process_rule_fail_after_error ::
  "look_env \<Rightarrow> chaos_process_rule option \<Rightarrow> chaos_process_operation \<Rightarrow> process_lib
     \<Rightarrow> bool \<times> errnum option \<times> process_lib" where
  "chaos_process_rule_fail_after_error le rule operation lib =
     (case (rule, process_op_index operation) of
        (Some r, Some i) \<Rightarrow>
          (if proc_effect r \<noteq> CHAOS_PROCESS_EFFECT_FAIL_AFTER then (False, None, lib)
           else let (observed, counters) = chaos_process_atomic_fetch_add_u64 (rl_counters lib) i 1;
                    lib1 = lib\<lparr>rl_counters := counters\<rparr>
                in if observed < proc_fail_after_count r then (False, None, lib1)
                   else let (hit, prng) = chaos_process_probability_hit (le_prng le) (proc_probability r) (rl_tls_prng lib1);
                            lib2 = lib1\<lparr>rl_tls_prng := prng\<rparr>
                        in if \<not> hit then (False, None, lib2)
                           else if \<not> chaos_policy_window_open (le_now le) (rh_policy r) \<or>
                                   \<not> chaos_policy_size_ok (rh_policy r) (rh_call_size r) then (False, None, lib2)
                           else let (fired, lib3) = grant process_reload (le_hit le) r lib2
                                in (fired, if fired then proc_errnum r else None, lib3))
      | _ \<Rightarrow> (False, None, lib))"

section \<open>Lookup\<close>

definition chaos_process_config_match ::
  "io_env \<Rightarrow> chaos_process_effect \<Rightarrow> chaos_process_operation \<Rightarrow> process_lib \<Rightarrow> chaos_process_rule option \<times> process_lib" where
  "chaos_process_config_match env effect operation lib =
     (let (loaded, lib') = chaos_process_config_prepare env lib;
          st = chaos_process_config_active_state lib'
      in (if \<not> loaded then None
          else chaos_process_config_match_loaded (snapshot_of st) (rs_sequence st) effect operation, lib'))"

section \<open>Calls\<close>

text \<open>The calls that reach the kernel or the next library. Arrays of arguments are lists of pointers, with the NULL
  at the end; other pointers are their values.\<close>

type_synonym c_array = "string option list"

datatype process_call =
  Proc_Pthread_Create u64 u64 u64 u64
| Proc_Fork
| Proc_Posix_Spawn u64 string u64 u64 c_array c_array
| Proc_Posix_Spawnp u64 string u64 u64 c_array c_array
| Proc_Execve string c_array c_array
| Proc_Execveat int string c_array c_array int
| Proc_Execvpe string c_array c_array
| Proc_Fexecve int c_array c_array
| Proc_System "string option"
| Proc_Popen string string
| Proc_Waitpid int u64 int
| Proc_Wait4 int u64 int u64
| Proc_Waitid int int u64 int

text \<open>\<open>pv_resolve\<close> is what a second search for \<open>pthread_create\<close> finds; \<open>pv_child\<close> is what the fork handler meets
  in a child.\<close>

record process_env =
  pv_look :: "chaos_process_effect \<Rightarrow> look_env"
  pv_real :: "process_call \<Rightarrow> real_call option"
  pv_resolve :: "process_call \<Rightarrow> real_call option"
  pv_sys :: "process_call \<Rightarrow> real_call"
  pv_environ :: c_array
  pv_child :: io_env

record process_state =
  ps_lib :: process_lib
  ps_guard :: int
  ps_errno :: "errnum option"
  ps_slept :: int
  ps_calls :: "(process_call \<times> int) list"

definition process_made :: "process_call \<Rightarrow> process_state \<Rightarrow> process_state" where
  "process_made call st = st\<lparr>ps_calls := ps_calls st @ [(call, ps_guard st)]\<rparr>"

text \<open>A real function called under the guard: what it gives, and the state afterwards.\<close>

definition process_guarded :: "real_call \<Rightarrow> process_call \<Rightarrow> process_state \<Rightarrow> (errno + int) \<times> process_state" where
  "process_guarded f call st =
     (let (previous, guard) = chaos_process_enter_internal (ps_guard st);
          st' = process_made call (st\<lparr>ps_guard := guard\<rparr>)
      in (f (length (ps_calls st)), st'\<lparr>ps_guard := chaos_process_leave_internal previous\<rparr>))"

definition process_unguarded :: "real_call \<Rightarrow> process_call \<Rightarrow> process_state \<Rightarrow> (errno + int) \<times> process_state" where
  "process_unguarded f call st = (f (length (ps_calls st)), process_made call st)"

text \<open>The conventions: -1 or NULL with \<open>errno\<close>, or an error number.\<close>

definition process_fails :: "int \<Rightarrow> errnum \<Rightarrow> process_state \<Rightarrow> call_result \<times> process_state" where
  "process_fails failure e st = (Returned failure, st\<lparr>ps_errno := Some e\<rparr>)"

definition errno_answer :: "int \<Rightarrow> (errno + int) \<times> process_state \<Rightarrow> call_result \<times> process_state" where
  "errno_answer failure outcome =
     (case outcome of
        (Inl e, st) \<Rightarrow> process_fails failure (Errno_Name e) st
      | (Inr v, st) \<Rightarrow> (Returned v, st))"

definition chaos_process_call_real_pthread_create ::
  "process_env \<Rightarrow> u64 \<Rightarrow> u64 \<Rightarrow> u64 \<Rightarrow> u64 \<Rightarrow> process_state \<Rightarrow> call_result \<times> process_state" where
  "chaos_process_call_real_pthread_create pe thread attributes start_routine argument st =
     (let call = Proc_Pthread_Create thread attributes start_routine argument
      in case (case pv_real pe call of None \<Rightarrow> pv_resolve pe call | found \<Rightarrow> found) of
           None \<Rightarrow> (Error_Number (Errno_Name EAGAIN), st)
         | Some f \<Rightarrow> apfst number_answer (process_guarded f call st))"

text \<open>In a child the handler registered for forks has run when the real function returns 0.\<close>

definition chaos_process_call_real_fork :: "process_env \<Rightarrow> process_state \<Rightarrow> call_result \<times> process_state" where
  "chaos_process_call_real_fork pe st =
     (case pv_real pe Proc_Fork of
        None \<Rightarrow> process_fails (- 1) (Errno_Name ENOSYS) st
      | Some f \<Rightarrow>
          (let (rc, st') = process_guarded f Proc_Fork st
           in errno_answer (- 1) (rc,
                if rc = Inr 0 \<and> rl_atfork_registered (ps_lib st')
                then st'\<lparr>ps_lib := chaos_process_config_after_fork (pv_child pe) (ps_lib st')\<rparr> else st')))"

definition chaos_process_call_real_posix_spawn ::
  "process_env \<Rightarrow> u64 \<Rightarrow> string \<Rightarrow> u64 \<Rightarrow> u64 \<Rightarrow> c_array \<Rightarrow> c_array \<Rightarrow> process_state \<Rightarrow> call_result \<times> process_state" where
  "chaos_process_call_real_posix_spawn pe pid path file_actions attributes argv envp st =
     (let call = Proc_Posix_Spawn pid path file_actions attributes argv envp
      in case pv_real pe call of
           None \<Rightarrow> (Error_Number (Errno_Name ENOSYS), st)
         | Some f \<Rightarrow> apfst number_answer (process_guarded f call st))"

definition chaos_process_call_real_posix_spawnp ::
  "process_env \<Rightarrow> u64 \<Rightarrow> string \<Rightarrow> u64 \<Rightarrow> u64 \<Rightarrow> c_array \<Rightarrow> c_array \<Rightarrow> process_state \<Rightarrow> call_result \<times> process_state" where
  "chaos_process_call_real_posix_spawnp pe pid file file_actions attributes argv envp st =
     (let call = Proc_Posix_Spawnp pid file file_actions attributes argv envp
      in case pv_real pe call of
           None \<Rightarrow> (Error_Number (Errno_Name ENOSYS), st)
         | Some f \<Rightarrow> apfst number_answer (process_guarded f call st))"

definition process_or_sys :: "process_env \<Rightarrow> process_call \<Rightarrow> process_call \<Rightarrow> process_state \<Rightarrow> call_result \<times> process_state" where
  "process_or_sys pe call sys_call st =
     (case pv_real pe call of
        None \<Rightarrow> errno_answer (- 1) (process_unguarded (pv_sys pe sys_call) sys_call st)
      | Some f \<Rightarrow> errno_answer (- 1) (process_guarded f call st))"

definition chaos_process_call_real_execve ::
  "process_env \<Rightarrow> string \<Rightarrow> c_array \<Rightarrow> c_array \<Rightarrow> process_state \<Rightarrow> call_result \<times> process_state" where
  "chaos_process_call_real_execve pe path argv envp =
     process_or_sys pe (Proc_Execve path argv envp) (Proc_Execve path argv envp)"

definition chaos_process_call_real_execveat ::
  "process_env \<Rightarrow> int \<Rightarrow> string \<Rightarrow> c_array \<Rightarrow> c_array \<Rightarrow> int \<Rightarrow> process_state \<Rightarrow> call_result \<times> process_state" where
  "chaos_process_call_real_execveat pe directory_fd path argv envp flags =
     process_or_sys pe (Proc_Execveat directory_fd path argv envp flags) (Proc_Execveat directory_fd path argv envp flags)"

definition chaos_process_call_real_waitpid ::
  "process_env \<Rightarrow> int \<Rightarrow> u64 \<Rightarrow> int \<Rightarrow> process_state \<Rightarrow> call_result \<times> process_state" where
  "chaos_process_call_real_waitpid pe pid status options =
     process_or_sys pe (Proc_Waitpid pid status options) (Proc_Wait4 pid status options 0)"

definition chaos_process_call_real_wait4 ::
  "process_env \<Rightarrow> int \<Rightarrow> u64 \<Rightarrow> int \<Rightarrow> u64 \<Rightarrow> process_state \<Rightarrow> call_result \<times> process_state" where
  "chaos_process_call_real_wait4 pe pid status options usage =
     process_or_sys pe (Proc_Wait4 pid status options usage) (Proc_Wait4 pid status options usage)"

definition chaos_process_call_real_waitid ::
  "process_env \<Rightarrow> int \<Rightarrow> int \<Rightarrow> u64 \<Rightarrow> int \<Rightarrow> process_state \<Rightarrow> call_result \<times> process_state" where
  "chaos_process_call_real_waitid pe type id' info options =
     process_or_sys pe (Proc_Waitid type id' info options) (Proc_Waitid type id' info options)"

section \<open>The fault of an operation\<close>

definition process_latency :: "process_env \<Rightarrow> chaos_process_operation \<Rightarrow> process_state \<Rightarrow> process_state" where
  "process_latency pe operation st =
     (let le = pv_look pe CHAOS_PROCESS_EFFECT_LATENCY
      in case chaos_process_config_match (le_look le) CHAOS_PROCESS_EFFECT_LATENCY operation (ps_lib st) of
           (None, lib) \<Rightarrow> st\<lparr>ps_lib := lib\<rparr>
         | (Some r, lib) \<Rightarrow>
             (let (slept, lib') = chaos_process_rule_apply_latency le (Some r) lib
              in st\<lparr>ps_lib := lib', ps_slept := ps_slept st + slept\<rparr>))"

text \<open>The delay, then the first of the error and the counting rule that fires.\<close>

definition chaos_process_operation_fault ::
  "process_env \<Rightarrow> chaos_process_operation \<Rightarrow> process_state \<Rightarrow> bool \<times> errnum option \<times> process_state" where
  "chaos_process_operation_fault pe operation st =
     (let st1 = process_latency pe operation st;
          le = pv_look pe CHAOS_PROCESS_EFFECT_ERRNO;
          (found, lib) = chaos_process_config_match (le_look le) CHAOS_PROCESS_EFFECT_ERRNO operation (ps_lib st1);
          (fails, code, lib) = (case found of None \<Rightarrow> (False, None, lib) | Some r \<Rightarrow> chaos_process_rule_error_number le (Some r) lib)
      in if fails then (True, code, st1\<lparr>ps_lib := lib\<rparr>)
         else let le = pv_look pe CHAOS_PROCESS_EFFECT_FAIL_AFTER;
                  (found, lib) = chaos_process_config_match (le_look le) CHAOS_PROCESS_EFFECT_FAIL_AFTER operation lib;
                  (fails, code, lib) = (case found of None \<Rightarrow> (False, None, lib)
                    | Some r \<Rightarrow> chaos_process_rule_fail_after_error le (Some r) operation lib)
              in (fails, code, st1\<lparr>ps_lib := lib\<rparr>))"

definition chaos_process_wait_fault :: "process_env \<Rightarrow> process_state \<Rightarrow> bool \<times> process_state" where
  "chaos_process_wait_fault pe st =
     (let (fails, code, st') = chaos_process_operation_fault pe CHAOS_PROCESS_OP_WAITPID st
      in if fails then (True, st'\<lparr>ps_errno := code\<rparr>) else (False, st'))"

section \<open>Wrappers\<close>

text \<open>\<open>pthread_create\<close>, \<open>fork\<close>, the spawning functions, \<open>execve\<close> and \<open>execveat\<close> have the three rules written out where the
  others call \<open>chaos_process_operation_fault\<close>, in the same order.\<close>

definition pthread_create ::
  "process_env \<Rightarrow> u64 \<Rightarrow> u64 \<Rightarrow> u64 \<Rightarrow> u64 \<Rightarrow> process_state \<Rightarrow> call_result \<times> process_state" where
  "pthread_create pe thread attributes start_routine argument st =
     (if chaos_process_in_internal (ps_guard st)
      then chaos_process_call_real_pthread_create pe thread attributes start_routine argument st
      else let (fails, code, st) = chaos_process_operation_fault pe CHAOS_PROCESS_OP_PTHREAD_CREATE st
           in if fails then (number_result code, st)
              else chaos_process_call_real_pthread_create pe thread attributes start_routine argument st)"

definition fork :: "process_env \<Rightarrow> process_state \<Rightarrow> call_result \<times> process_state" where
  "fork pe st =
     (if chaos_process_in_internal (ps_guard st) then chaos_process_call_real_fork pe st
      else let (fails, code, st) = chaos_process_operation_fault pe CHAOS_PROCESS_OP_FORK st
           in if fails then (Returned (- 1), st\<lparr>ps_errno := code\<rparr>) else chaos_process_call_real_fork pe st)"

definition posix_spawn ::
  "process_env \<Rightarrow> u64 \<Rightarrow> string \<Rightarrow> u64 \<Rightarrow> u64 \<Rightarrow> c_array \<Rightarrow> c_array \<Rightarrow> process_state \<Rightarrow> call_result \<times> process_state" where
  "posix_spawn pe pid path file_actions attributes argv envp st =
     (if chaos_process_in_internal (ps_guard st)
      then chaos_process_call_real_posix_spawn pe pid path file_actions attributes argv envp st
      else let (fails, code, st) = chaos_process_operation_fault pe CHAOS_PROCESS_OP_POSIX_SPAWN st
           in if fails then (number_result code, st)
              else chaos_process_call_real_posix_spawn pe pid path file_actions attributes argv envp st)"

definition posix_spawnp ::
  "process_env \<Rightarrow> u64 \<Rightarrow> string \<Rightarrow> u64 \<Rightarrow> u64 \<Rightarrow> c_array \<Rightarrow> c_array \<Rightarrow> process_state \<Rightarrow> call_result \<times> process_state" where
  "posix_spawnp pe pid file file_actions attributes argv envp st =
     (if chaos_process_in_internal (ps_guard st)
      then chaos_process_call_real_posix_spawnp pe pid file file_actions attributes argv envp st
      else let (fails, code, st) = chaos_process_operation_fault pe CHAOS_PROCESS_OP_POSIX_SPAWNP st
           in if fails then (number_result code, st)
              else chaos_process_call_real_posix_spawnp pe pid file file_actions attributes argv envp st)"

definition execve :: "process_env \<Rightarrow> string \<Rightarrow> c_array \<Rightarrow> c_array \<Rightarrow> process_state \<Rightarrow> call_result \<times> process_state" where
  "execve pe path argv envp st =
     (if chaos_process_in_internal (ps_guard st) then chaos_process_call_real_execve pe path argv envp st
      else let (fails, code, st) = chaos_process_operation_fault pe CHAOS_PROCESS_OP_EXECVE st
           in if fails then (Returned (- 1), st\<lparr>ps_errno := code\<rparr>)
              else chaos_process_call_real_execve pe path argv envp st)"

definition execv :: "process_env \<Rightarrow> string \<Rightarrow> c_array \<Rightarrow> process_state \<Rightarrow> call_result \<times> process_state" where
  "execv pe path argv = execve pe path argv (pv_environ pe)"

text \<open>The functions without a fallback fail with \<open>ENOSYS\<close> when they have not been found, after the rules.\<close>

definition process_or_enosys :: "process_env \<Rightarrow> int \<Rightarrow> process_call \<Rightarrow> process_state \<Rightarrow> call_result \<times> process_state" where
  "process_or_enosys pe failure call st =
     (case pv_real pe call of
        None \<Rightarrow> process_fails failure (Errno_Name ENOSYS) st
      | Some f \<Rightarrow> errno_answer failure (process_guarded f call st))"

definition process_checked ::
  "process_env \<Rightarrow> chaos_process_operation option \<Rightarrow> int \<Rightarrow> process_call \<Rightarrow> process_state \<Rightarrow> call_result \<times> process_state" where
  "process_checked pe operation failure call st =
     (let (fails, code, st) =
            (case operation of
               None \<Rightarrow> (False, None, st)
             | Some op \<Rightarrow> if \<not> chaos_process_in_internal (ps_guard st) then chaos_process_operation_fault pe op st
                         else (False, None, st))
      in if fails then (Returned failure, st\<lparr>ps_errno := code\<rparr>) else process_or_enosys pe failure call st)"

definition execvpe :: "process_env \<Rightarrow> string \<Rightarrow> c_array \<Rightarrow> c_array \<Rightarrow> process_state \<Rightarrow> call_result \<times> process_state" where
  "execvpe pe file argv envp =
     process_checked pe (Some CHAOS_PROCESS_OP_EXECVE) (- 1) (Proc_Execvpe file argv envp)"

definition execvp :: "process_env \<Rightarrow> string \<Rightarrow> c_array \<Rightarrow> process_state \<Rightarrow> call_result \<times> process_state" where
  "execvp pe file argv = execvpe pe file argv (pv_environ pe)"

text \<open>The arguments after the first, up to the NULL and what follows it. Counting starts with the first argument;
  the copy takes the NULL along. Without a NULL the counting runs past the arguments, which the caller must not do.\<close>

fun count_args :: "c_array \<Rightarrow> nat \<Rightarrow> nat" where
  "count_args (Some a # args) count = count_args args (count + 1)"
| "count_args (None # args) count = count"
| "count_args [] count = count"

definition list_argv :: "string option \<Rightarrow> c_array \<Rightarrow> c_array" where
  "list_argv arg args = arg # take (count_args args 1) args"

definition execl :: "process_env \<Rightarrow> string \<Rightarrow> string option \<Rightarrow> c_array \<Rightarrow> process_state \<Rightarrow> call_result \<times> process_state" where
  "execl pe path arg args = execv pe path (list_argv arg args)"

definition execlp :: "process_env \<Rightarrow> string \<Rightarrow> string option \<Rightarrow> c_array \<Rightarrow> process_state \<Rightarrow> call_result \<times> process_state" where
  "execlp pe file arg args = execvp pe file (list_argv arg args)"

text \<open>The environment is the argument that follows the NULL.\<close>

definition execle ::
  "process_env \<Rightarrow> string \<Rightarrow> string option \<Rightarrow> c_array \<Rightarrow> c_array \<Rightarrow> process_state \<Rightarrow> call_result \<times> process_state" where
  "execle pe path arg args envp = execve pe path (list_argv arg args) envp"

definition fexecve :: "process_env \<Rightarrow> int \<Rightarrow> c_array \<Rightarrow> c_array \<Rightarrow> process_state \<Rightarrow> call_result \<times> process_state" where
  "fexecve pe fd argv envp = process_checked pe (Some CHAOS_PROCESS_OP_EXECVEAT) (- 1) (Proc_Fexecve fd argv envp)"

definition system :: "process_env \<Rightarrow> string option \<Rightarrow> process_state \<Rightarrow> call_result \<times> process_state" where
  "system pe command =
     process_checked pe (if command \<noteq> None then Some CHAOS_PROCESS_OP_POSIX_SPAWN else None) (- 1) (Proc_System command)"

definition popen :: "process_env \<Rightarrow> string \<Rightarrow> string \<Rightarrow> process_state \<Rightarrow> call_result \<times> process_state" where
  "popen pe command mode = process_checked pe (Some CHAOS_PROCESS_OP_POSIX_SPAWN) 0 (Proc_Popen command mode)"

definition execveat ::
  "process_env \<Rightarrow> int \<Rightarrow> string \<Rightarrow> c_array \<Rightarrow> c_array \<Rightarrow> int \<Rightarrow> process_state \<Rightarrow> call_result \<times> process_state" where
  "execveat pe directory_fd path argv envp flags st =
     (if chaos_process_in_internal (ps_guard st) then chaos_process_call_real_execveat pe directory_fd path argv envp flags st
      else let (fails, code, st) = chaos_process_operation_fault pe CHAOS_PROCESS_OP_EXECVEAT st
           in if fails then (Returned (- 1), st\<lparr>ps_errno := code\<rparr>)
              else chaos_process_call_real_execveat pe directory_fd path argv envp flags st)"

definition waitpid :: "process_env \<Rightarrow> int \<Rightarrow> u64 \<Rightarrow> int \<Rightarrow> process_state \<Rightarrow> call_result \<times> process_state" where
  "waitpid pe pid status options st =
     (if chaos_process_in_internal (ps_guard st) then chaos_process_call_real_waitpid pe pid status options st
      else let (fails, st) = chaos_process_wait_fault pe st
           in if fails then (Returned (- 1), st) else chaos_process_call_real_waitpid pe pid status options st)"

definition wait :: "process_env \<Rightarrow> u64 \<Rightarrow> process_state \<Rightarrow> call_result \<times> process_state" where
  "wait pe status = waitpid pe (- 1) status 0"

definition wait4 :: "process_env \<Rightarrow> int \<Rightarrow> u64 \<Rightarrow> int \<Rightarrow> u64 \<Rightarrow> process_state \<Rightarrow> call_result \<times> process_state" where
  "wait4 pe pid status options usage st =
     (if chaos_process_in_internal (ps_guard st) then chaos_process_call_real_wait4 pe pid status options usage st
      else let (fails, st) = chaos_process_wait_fault pe st
           in if fails then (Returned (- 1), st) else chaos_process_call_real_wait4 pe pid status options usage st)"

definition wait3 :: "process_env \<Rightarrow> u64 \<Rightarrow> int \<Rightarrow> u64 \<Rightarrow> process_state \<Rightarrow> call_result \<times> process_state" where
  "wait3 pe status options usage = wait4 pe (- 1) status options usage"

definition waitid :: "process_env \<Rightarrow> int \<Rightarrow> int \<Rightarrow> u64 \<Rightarrow> int \<Rightarrow> process_state \<Rightarrow> call_result \<times> process_state" where
  "waitid pe type id' info options st =
     (if chaos_process_in_internal (ps_guard st) then chaos_process_call_real_waitid pe type id' info options st
      else let (fails, st) = chaos_process_wait_fault pe st
           in if fails then (Returned (- 1), st) else chaos_process_call_real_waitid pe type id' info options st)"

section \<open>The shared gate and lookup\<close>

lemma process_prng_eq: "chaos_process_prng_next_u32 = chaos_io_prng_next_u32"
  by (auto simp: fun_eq_iff chaos_process_prng_next_u32_def chaos_io_prng_next_u32_def xorshift_def
      chaos_process_prng_ensure_seeded_def chaos_io_prng_ensure_seeded_def chaos_process_prng_mix_def
      chaos_io_prng_mix_def Let_def)

lemma process_hit_eq: "chaos_process_probability_hit = chaos_io_probability_hit"
  by (auto simp: fun_eq_iff chaos_process_probability_hit_def chaos_io_probability_hit_def process_prng_eq
      chaos_process_probability_hit_sample_def chaos_io_probability_hit_sample_def)

lemma process_trigger_gate:
  "chaos_process_rule_should_trigger le (Some r) lib = gate process_reload le (proc_probability r) r lib"
  by (simp add: chaos_process_rule_should_trigger_def gate_def process_hit_eq)

definition process_select ::
  "chaos_process_effect \<times> chaos_process_operation \<Rightarrow> chaos_process_rule list \<Rightarrow> chaos_process_rule option" where
  "process_select q rules = (case q of (effect, operation) \<Rightarrow> chaos_process_config_select_rule rules effect operation)"

definition process_covers :: "chaos_process_effect \<times> chaos_process_operation \<Rightarrow> chaos_process_rule \<Rightarrow> bool" where
  "process_covers q r =
     (case q of (effect, operation) \<Rightarrow>
        proc_effect r = effect \<and> chaos_process_selector_matches (proc_selector r) operation \<noteq> None)"

lemma process_match_look:
  "chaos_process_config_match env effect operation lib =
     look_up process_reload env (process_select (effect, operation)) lib"
proof -
  have "process_select (effect, operation) = (\<lambda>rules. chaos_process_config_select_rule rules effect operation)"
    by (simp add: fun_eq_iff process_select_def)
  then show ?thesis
    by (simp add: chaos_process_config_match_def look_up_def chaos_process_config_prepare_def chaos_process_config_refresh_def
        chaos_process_config_active_state_def chaos_process_config_match_loaded_def Let_def cong: if_cong)
qed

lemma process_typed: "typed_rules process_reload process_rule_ok"
  by (rule grammar_typed_rules [OF process_lines.line_grammar_axioms, of _ process_rule_supported CHAOS_PROCESS_MAX_RULES])
    (simp_all add: process_reload_def fun_eq_iff chaos_process_config_parse_buffer_def process_parse_line_form
      process_rule_ok_def bare_head_def)

interpretation process_looks: rule_calls process_reload process_rule_ok process_select process_covers
proof (rule rule_calls.intro [OF process_typed], unfold_locales)
  fix q :: "chaos_process_effect \<times> chaos_process_operation" and rules r
  assume "process_select q rules = Some r"
  then show "r \<in> set rules \<and> process_covers q r"
    by (cases q) (auto simp: process_select_def process_covers_def chaos_process_config_select_rule_def
        dest!: ranked_from_member split: if_splits)
qed

section \<open>What a wrapper does\<close>

fun process_operation :: "process_call \<Rightarrow> chaos_process_operation option" where
  "process_operation (Proc_Pthread_Create thread attributes start_routine argument) = Some CHAOS_PROCESS_OP_PTHREAD_CREATE"
| "process_operation Proc_Fork = Some CHAOS_PROCESS_OP_FORK"
| "process_operation (Proc_Posix_Spawn pid path file_actions attributes argv envp) = Some CHAOS_PROCESS_OP_POSIX_SPAWN"
| "process_operation (Proc_Posix_Spawnp pid path file_actions attributes argv envp) = Some CHAOS_PROCESS_OP_POSIX_SPAWNP"
| "process_operation (Proc_Execve path argv envp) = Some CHAOS_PROCESS_OP_EXECVE"
| "process_operation (Proc_Execveat directory_fd path argv envp flags) = Some CHAOS_PROCESS_OP_EXECVEAT"
| "process_operation (Proc_Execvpe file argv envp) = Some CHAOS_PROCESS_OP_EXECVE"
| "process_operation (Proc_Fexecve fd argv envp) = Some CHAOS_PROCESS_OP_EXECVEAT"
| "process_operation (Proc_System command) = (if command \<noteq> None then Some CHAOS_PROCESS_OP_POSIX_SPAWN else None)"
| "process_operation (Proc_Popen command mode) = Some CHAOS_PROCESS_OP_POSIX_SPAWN"
| "process_operation (Proc_Waitpid pid status options) = Some CHAOS_PROCESS_OP_WAITPID"
| "process_operation (Proc_Wait4 pid status options usage) = Some CHAOS_PROCESS_OP_WAITPID"
| "process_operation (Proc_Waitid type id' info options) = Some CHAOS_PROCESS_OP_WAITPID"

fun process_entry :: "process_env \<Rightarrow> process_call \<Rightarrow> process_state \<Rightarrow> call_result \<times> process_state" where
  "process_entry pe (Proc_Pthread_Create thread attributes start_routine argument) st =
     pthread_create pe thread attributes start_routine argument st"
| "process_entry pe Proc_Fork st = fork pe st"
| "process_entry pe (Proc_Posix_Spawn pid path file_actions attributes argv envp) st =
     posix_spawn pe pid path file_actions attributes argv envp st"
| "process_entry pe (Proc_Posix_Spawnp pid path file_actions attributes argv envp) st =
     posix_spawnp pe pid path file_actions attributes argv envp st"
| "process_entry pe (Proc_Execve path argv envp) st = execve pe path argv envp st"
| "process_entry pe (Proc_Execveat directory_fd path argv envp flags) st = execveat pe directory_fd path argv envp flags st"
| "process_entry pe (Proc_Execvpe file argv envp) st = execvpe pe file argv envp st"
| "process_entry pe (Proc_Fexecve fd argv envp) st = fexecve pe fd argv envp st"
| "process_entry pe (Proc_System command) st = system pe command st"
| "process_entry pe (Proc_Popen command mode) st = popen pe command mode st"
| "process_entry pe (Proc_Waitpid pid status options) st = waitpid pe pid status options st"
| "process_entry pe (Proc_Wait4 pid status options usage) st = wait4 pe pid status options usage st"
| "process_entry pe (Proc_Waitid type id' info options) st = waitid pe type id' info options st"

fun process_real :: "process_env \<Rightarrow> process_call \<Rightarrow> process_state \<Rightarrow> call_result \<times> process_state" where
  "process_real pe (Proc_Pthread_Create thread attributes start_routine argument) st =
     chaos_process_call_real_pthread_create pe thread attributes start_routine argument st"
| "process_real pe Proc_Fork st = chaos_process_call_real_fork pe st"
| "process_real pe (Proc_Posix_Spawn pid path file_actions attributes argv envp) st =
     chaos_process_call_real_posix_spawn pe pid path file_actions attributes argv envp st"
| "process_real pe (Proc_Posix_Spawnp pid path file_actions attributes argv envp) st =
     chaos_process_call_real_posix_spawnp pe pid path file_actions attributes argv envp st"
| "process_real pe (Proc_Execve path argv envp) st = chaos_process_call_real_execve pe path argv envp st"
| "process_real pe (Proc_Execveat directory_fd path argv envp flags) st =
     chaos_process_call_real_execveat pe directory_fd path argv envp flags st"
| "process_real pe (Proc_Execvpe file argv envp) st = process_or_enosys pe (- 1) (Proc_Execvpe file argv envp) st"
| "process_real pe (Proc_Fexecve fd argv envp) st = process_or_enosys pe (- 1) (Proc_Fexecve fd argv envp) st"
| "process_real pe (Proc_System command) st = process_or_enosys pe (- 1) (Proc_System command) st"
| "process_real pe (Proc_Popen command mode) st = process_or_enosys pe 0 (Proc_Popen command mode) st"
| "process_real pe (Proc_Waitpid pid status options) st = chaos_process_call_real_waitpid pe pid status options st"
| "process_real pe (Proc_Wait4 pid status options usage) st = chaos_process_call_real_wait4 pe pid status options usage st"
| "process_real pe (Proc_Waitid type id' info options) st = chaos_process_call_real_waitid pe type id' info options st"

text \<open>A failure by the convention of the function: threads and spawning return the number and leave \<open>errno\<close> alone.\<close>

definition process_refuse :: "process_call \<Rightarrow> errnum option \<Rightarrow> process_state \<Rightarrow> call_result \<times> process_state" where
  "process_refuse call code st =
     (case call of
        Proc_Pthread_Create _ _ _ _ \<Rightarrow> (number_result code, st)
      | Proc_Posix_Spawn _ _ _ _ _ _ \<Rightarrow> (number_result code, st)
      | Proc_Posix_Spawnp _ _ _ _ _ _ \<Rightarrow> (number_result code, st)
      | Proc_Popen _ _ \<Rightarrow> (Returned 0, st\<lparr>ps_errno := code\<rparr>)
      | _ \<Rightarrow> (Returned (- 1), st\<lparr>ps_errno := code\<rparr>))"

definition process_asked_fault :: "process_env \<Rightarrow> process_call \<Rightarrow> process_state \<Rightarrow> bool \<times> errnum option \<times> process_state" where
  "process_asked_fault pe call st =
     (case process_operation call of None \<Rightarrow> (False, None, st) | Some op \<Rightarrow> chaos_process_operation_fault pe op st)"

lemma process_entry_form:
  assumes "ps_guard st = 0"
  shows "process_entry pe call st =
    (let (fails, code, st') = process_asked_fault pe call st
     in if fails then process_refuse call code st' else process_real pe call st')"
  using assms
  by (cases call) (auto simp: process_asked_fault_def pthread_create_def fork_def posix_spawn_def posix_spawnp_def execve_def
      execveat_def execvpe_def fexecve_def system_def popen_def waitpid_def wait4_def waitid_def chaos_process_wait_fault_def
      process_checked_def chaos_process_in_internal_def process_refuse_def Let_def split: prod.split)

lemma process_guarded_frame:
  "process_guarded f call st = (outcome, st') \<Longrightarrow>
     st' = st\<lparr>ps_calls := ps_calls st @ [(call, 1)]\<rparr> \<and> outcome = f (length (ps_calls st))"
  by (auto simp: process_guarded_def process_made_def chaos_process_enter_internal_def chaos_process_leave_internal_def Let_def)

text \<open>What a found function leaves, in the process that called it.\<close>

lemma process_real_found:
  assumes "pv_real pe call = Some f" "call = Proc_Fork \<Longrightarrow> f (length (ps_calls st)) \<noteq> Inr 0" "process_real pe call st = (result, st')"
  shows "ps_lib st' = ps_lib st \<and> ps_guard st' = ps_guard st \<and> ps_calls st' = ps_calls st @ [(call, 1)]"
  using assms
  by (cases call)
    (auto simp: chaos_process_call_real_pthread_create_def chaos_process_call_real_fork_def process_or_enosys_def
      chaos_process_call_real_posix_spawn_def chaos_process_call_real_posix_spawnp_def process_or_sys_def
      chaos_process_call_real_execve_def chaos_process_call_real_execveat_def chaos_process_call_real_waitpid_def
      chaos_process_call_real_wait4_def chaos_process_call_real_waitid_def errno_answer_def process_fails_def
      process_guarded_def process_made_def chaos_process_enter_internal_def chaos_process_leave_internal_def Let_def
      split: sum.splits)

section \<open>Any call\<close>

text \<open>A rule that may fail a call now: an error rule, or a counting rule whose count is used up, of the active snapshot
  for this operation, inside its window. The counter has this call in it.\<close>

definition process_blamed :: "process_env \<Rightarrow> process_call \<Rightarrow> process_lib \<Rightarrow> errnum \<Rightarrow> bool" where
  "process_blamed pe call lib e \<longleftrightarrow>
     (\<exists>op. process_operation call = Some op \<and>
       (\<exists>r \<in> set (rs_rules (chaos_process_config_active_state lib)).
          chaos_process_selector_matches (proc_selector r) op \<noteq> None \<and> proc_errnum r = Some e \<and> 0 < proc_probability r \<and>
          chaos_policy_window_open (le_now (pv_look pe (proc_effect r))) (rh_policy r) \<and>
          chaos_policy_size_ok (rh_policy r) (rh_call_size r) \<and>
          (proc_effect r = CHAOS_PROCESS_EFFECT_ERRNO \<or>
           (proc_effect r = CHAOS_PROCESS_EFFECT_FAIL_AFTER \<and>
            (\<exists>i. process_op_index op = Some i \<and>
               (i < length (rl_counters lib) \<longrightarrow> proc_fail_after_count r \<le> rl_counters lib ! i - 1))))))"

lemma process_match_sound:
  assumes "reload_reachable process_reload lib" "chaos_process_config_match env effect op lib = (found, lib')"
  shows "reload_reachable process_reload lib'"
    "found = Some r \<Longrightarrow> r \<in> set (rs_rules (chaos_process_config_active_state lib')) \<and> process_covers (effect, op) r \<and>
       process_rule_ok r"
  using process_looks.look_sound [OF assms(1) assms(2) [unfolded process_match_look]]
  by (simp_all add: chaos_process_config_active_state_def)

lemma process_latency_sound:
  assumes "reload_reachable process_reload (ps_lib st)"
  shows "\<exists>lib slept. process_latency pe op st = st\<lparr>ps_lib := lib, ps_slept := slept\<rparr> \<and> reload_reachable process_reload lib"
proof -
  let ?le = "pv_look pe CHAOS_PROCESS_EFFECT_LATENCY"
  obtain found lib where m: "chaos_process_config_match (le_look ?le) CHAOS_PROCESS_EFFECT_LATENCY op (ps_lib st) = (found, lib)"
    by fastforce
  note r = process_match_sound(1) [OF assms m]
  show ?thesis
  proof (cases found)
    case None
    then have "process_latency pe op st = st\<lparr>ps_lib := lib, ps_slept := ps_slept st\<rparr>"
      by (simp add: process_latency_def m)
    with r show ?thesis by blast
  next
    case (Some rule)
    obtain slept lib' where a: "chaos_process_rule_apply_latency ?le (Some rule) lib = (slept, lib')" by fastforce
    then have "reload_reachable process_reload lib'"
      using r by (auto simp: chaos_process_rule_apply_latency_def process_trigger_gate Let_def
          split: if_splits prod.splits intro: gate_reachable)
    then show ?thesis by (auto simp: process_latency_def m Some a)
  qed
qed

lemma process_error_sound:
  assumes "reload_reachable process_reload lib" "chaos_process_rule_error_number le (Some r) lib = (fails, code, lib')"
  shows "reload_reachable process_reload lib' \<and> (fails \<longrightarrow> same_rules lib lib' \<and> code = proc_errnum r \<and>
    proc_effect r = CHAOS_PROCESS_EFFECT_ERRNO \<and> 0 < proc_probability r \<and>
    chaos_policy_window_open (le_now le) (rh_policy r) \<and> chaos_policy_size_ok (rh_policy r) (rh_call_size r))"
proof -
  obtain fired lib1 where g: "gate process_reload le (proc_probability r) r lib = (fired, lib1)" by fastforce
  have "(fails, code, lib') = (if proc_effect r \<noteq> CHAOS_PROCESS_EFFECT_ERRNO then (False, None, lib)
      else if \<not> fired then (False, None, lib1) else (True, proc_errnum r, lib1))"
    unfolding assms(2) [symmetric]
    by (simp add: chaos_process_rule_error_number_def process_trigger_gate g cong: if_cong)
  then show ?thesis
    using gate_frame [OF g] gate_reachable [OF assms(1) g] assms(1) by (auto split: if_splits)
qed

lemma process_fail_after_sound:
  assumes "reload_reachable process_reload lib" "chaos_process_rule_fail_after_error le (Some r) op lib = (fails, code, lib')"
  shows "reload_reachable process_reload lib' \<and> (fails \<longrightarrow> same_rules lib lib' \<and> code = proc_errnum r \<and>
    proc_effect r = CHAOS_PROCESS_EFFECT_FAIL_AFTER \<and> 0 < proc_probability r \<and>
    chaos_policy_window_open (le_now le) (rh_policy r) \<and> chaos_policy_size_ok (rh_policy r) (rh_call_size r) \<and>
    (\<exists>i. process_op_index op = Some i \<and> (i < length (rl_counters lib') \<longrightarrow> proc_fail_after_count r \<le> rl_counters lib' ! i - 1)))"
proof (cases "process_op_index op")
  case None
  with assms show ?thesis by (simp add: chaos_process_rule_fail_after_error_def)
next
  case (Some i)
  define counters where "counters = (rl_counters lib)[i := rl_counters lib ! i + 1]"
  define lib1 where "lib1 = lib\<lparr>rl_counters := counters\<rparr>"
  obtain hit prng where h: "chaos_io_probability_hit (le_prng le) (proc_probability r) (rl_tls_prng lib) = (hit, prng)" by fastforce
  define lib2 where "lib2 = lib1\<lparr>rl_tls_prng := prng\<rparr>"
  obtain fired lib3 where g: "grant process_reload (le_hit le) r lib2 = (fired, lib3)" by fastforce
  have pos: "hit \<Longrightarrow> 0 < proc_probability r"
    using h by (auto simp: chaos_io_probability_hit_def chaos_io_probability_hit_sample_def split: prod.splits if_splits)
  define opened where "opened \<longleftrightarrow> chaos_policy_window_open (le_now le) (rh_policy r) \<and>
    chaos_policy_size_ok (rh_policy r) (rh_call_size r)"
  have form: "(fails, code, lib') = (if proc_effect r \<noteq> CHAOS_PROCESS_EFFECT_FAIL_AFTER then (False, None, lib)
      else if rl_counters lib ! i < proc_fail_after_count r then (False, None, lib1)
      else if \<not> hit then (False, None, lib2) else if \<not> opened then (False, None, lib2)
      else (fired, if fired then proc_errnum r else None, lib3))"
    unfolding assms(2) [symmetric]
    by (simp add: chaos_process_rule_fail_after_error_def Some chaos_process_atomic_fetch_add_u64_def process_hit_eq h
        counters_def [symmetric] lib1_def [symmetric] lib2_def [symmetric] g opened_def Let_def del: de_Morgan_conj)
      (simp add: lib1_def h lib2_def g [unfolded lib2_def lib1_def] opened_def)
  have r1: "reload_reachable process_reload lib1"
    using Lib_Calls [OF assms(1), where cs = counters and prng = "rl_tls_prng lib"] by (simp add: lib1_def)
  have r2: "reload_reachable process_reload lib2"
    using Lib_Calls [OF assms(1), where cs = counters and prng = prng] by (simp add: lib2_def lib1_def)
  have r3: "reload_reachable process_reload lib3" by (rule grant_reachable [OF r2 g])
  have "same_rules lib lib2" by (simp add: lib2_def lib1_def same_rules_def)
  then have s3: "same_rules lib lib3" using same_rules_trans grant_frame(1) [OF g] by blast
  have c3: "rl_counters lib3 = counters" using grant_frame(2) [OF g] by (simp add: lib2_def lib1_def)
  have count: "\<not> rl_counters lib ! i < proc_fail_after_count r \<Longrightarrow>
      i < length counters \<longrightarrow> proc_fail_after_count r \<le> counters ! i - 1"
    by (simp add: counters_def not_less)
  show ?thesis
    using form assms(1) r1 r2 r3 s3 c3 count pos Some by (auto simp: opened_def split: if_splits)
qed

lemma process_fault_sound:
  assumes "reload_reachable process_reload (ps_lib st)" "process_asked_fault pe call st = (fails, code, st')"
  shows "\<exists>lib slept. st' = st\<lparr>ps_lib := lib, ps_slept := slept\<rparr> \<and> reload_reachable process_reload lib \<and>
    (fails \<longrightarrow> (\<exists>e. code = Some e \<and> process_blamed pe call lib e))"
proof (cases "process_operation call")
  case None
  with assms have "st' = st\<lparr>ps_lib := ps_lib st, ps_slept := ps_slept st\<rparr>" "\<not> fails"
    by (auto simp: process_asked_fault_def)
  with assms(1) show ?thesis by blast
next
  case (Some op)
  obtain lib0 slept where l: "process_latency pe op st = st\<lparr>ps_lib := lib0, ps_slept := slept\<rparr>" (is "_ = ?st1")
    and r0: "reload_reachable process_reload lib0"
    using process_latency_sound [OF assms(1)] by blast
  let ?e = "pv_look pe CHAOS_PROCESS_EFFECT_ERRNO"
  let ?f = "pv_look pe CHAOS_PROCESS_EFFECT_FAIL_AFTER"
  obtain found1 lib1 where m1: "chaos_process_config_match (le_look ?e) CHAOS_PROCESS_EFFECT_ERRNO op lib0 = (found1, lib1)"
    by fastforce
  note s1 = process_match_sound [OF r0 m1]
  obtain fails1 code1 lib2 where e1: "(case found1 of None \<Rightarrow> (False, None, lib1)
      | Some r \<Rightarrow> chaos_process_rule_error_number ?e (Some r) lib1) = (fails1, code1, lib2)" by (metis prod_cases3)
  have r2: "reload_reachable process_reload lib2"
    using e1 s1(1) process_error_sound by (auto split: option.splits)
  obtain found2 lib3 where m2: "chaos_process_config_match (le_look ?f) CHAOS_PROCESS_EFFECT_FAIL_AFTER op lib2 = (found2, lib3)"
    by fastforce
  note s2 = process_match_sound [OF r2 m2]
  obtain fails2 code2 lib4 where e2: "(case found2 of None \<Rightarrow> (False, None, lib3)
      | Some r \<Rightarrow> chaos_process_rule_fail_after_error ?f (Some r) op lib3) = (fails2, code2, lib4)" by (metis prod_cases3)
  have r4: "reload_reachable process_reload lib4"
    using e2 s2(1) process_fail_after_sound by (auto split: option.splits)
  have out: "(fails, code, st') = (if fails1 then (True, code1, ?st1\<lparr>ps_lib := lib2\<rparr>)
      else (fails2, code2, ?st1\<lparr>ps_lib := lib4\<rparr>))"
    unfolding assms(2) [symmetric] process_asked_fault_def Some option.case
    by (simp add: chaos_process_operation_fault_def l m1 e1 m2 e2 Let_def)
  have st1: "?st1\<lparr>ps_lib := lib\<rparr> = st\<lparr>ps_lib := lib, ps_slept := slept\<rparr>" for lib by simp
  have b1: "\<exists>e. code1 = Some e \<and> process_blamed pe call lib2 e" if f: fails1
  proof -
    from f e1 obtain r where r: "found1 = Some r" "chaos_process_rule_error_number ?e (Some r) lib1 = (True, code1, lib2)"
      by (auto split: option.splits)
    note p = process_error_sound [OF s1(1) r(2)] and q = s1(2) [OF r(1)]
    have act: "chaos_process_config_active_state lib2 = chaos_process_config_active_state lib1"
      using p same_rules_active by (auto simp: chaos_process_config_active_state_def)
    from p q obtain e where "proc_errnum r = Some e" by (auto simp: process_rule_ok_def)
    with p q show ?thesis unfolding process_blamed_def act by (auto simp: process_covers_def Some)
  qed
  have b2: "\<exists>e. code2 = Some e \<and> process_blamed pe call lib4 e" if f: fails2
  proof -
    from f e2 obtain r where r: "found2 = Some r" "chaos_process_rule_fail_after_error ?f (Some r) op lib3 = (True, code2, lib4)"
      by (auto split: option.splits)
    note p = process_fail_after_sound [OF s2(1) r(2)] and q = s2(2) [OF r(1)]
    have act: "chaos_process_config_active_state lib4 = chaos_process_config_active_state lib3"
      using p same_rules_active by (auto simp: chaos_process_config_active_state_def)
    from p q obtain e where "proc_errnum r = Some e" by (auto simp: process_rule_ok_def)
    with p q show ?thesis unfolding process_blamed_def act by (auto simp: process_covers_def Some)
  qed
  show ?thesis
  proof (cases fails1)
    case True
    with out b1 r2 st1 show ?thesis by auto
  next
    case False
    with out b2 r4 st1 show ?thesis by auto
  qed
qed

lemma process_real_reachable:
  assumes "reload_reachable process_reload (ps_lib st)" "process_real pe call st = (result, st')"
  shows "reload_reachable process_reload (ps_lib st') \<and> ps_guard st' = ps_guard st"
  using assms Lib_Fork [OF assms(1), of "pv_child pe"]
  by (cases call)
    (auto simp: chaos_process_call_real_pthread_create_def chaos_process_call_real_fork_def process_or_enosys_def
      chaos_process_call_real_posix_spawn_def chaos_process_call_real_posix_spawnp_def process_or_sys_def
      chaos_process_call_real_execve_def chaos_process_call_real_execveat_def chaos_process_call_real_waitpid_def
      chaos_process_call_real_wait4_def chaos_process_call_real_waitid_def errno_answer_def process_fails_def
      process_guarded_def process_unguarded_def process_made_def chaos_process_enter_internal_def
      chaos_process_leave_internal_def chaos_process_config_after_fork_def Let_def split: sum.splits option.splits if_splits)


section \<open>Counting rules\<close>

text \<open>Calls of one operation while the rule file stays as it is and \<open>r\<close> is the only rule for the operation.\<close>

definition process_settled :: "process_env \<Rightarrow> chaos_process_operation \<Rightarrow> chaos_process_rule \<Rightarrow> process_state \<Rightarrow> bool" where
  "process_settled pe op r st \<longleftrightarrow>
     ps_guard st = 0 \<and> \<not> rl_provisional (ps_lib st) \<and>
     (\<forall>effect. chaos_process_config_observed_mtime (le_look (pv_look pe effect)) = rl_cached_mtime (ps_lib st)) \<and>
     (let active = chaos_process_config_active_state (ps_lib st)
      in chaos_process_config_match_loaded (snapshot_of active) (rs_sequence active) CHAOS_PROCESS_EFFECT_LATENCY op = None \<and>
         chaos_process_config_match_loaded (snapshot_of active) (rs_sequence active) CHAOS_PROCESS_EFFECT_ERRNO op = None \<and>
         chaos_process_config_match_loaded (snapshot_of active) (rs_sequence active) CHAOS_PROCESS_EFFECT_FAIL_AFTER op = Some r) \<and>
     (case rh_hit r of None \<Rightarrow> True | Some j \<Rightarrow> slot_generation (rl_pool (ps_lib st) ! j) = rh_hit_generation r)"

fun process_run :: "process_env \<Rightarrow> process_call \<Rightarrow> nat \<Rightarrow> process_state \<Rightarrow> call_result list \<times> process_state" where
  "process_run pe call 0 st = ([], st)"
| "process_run pe call (Suc n) st =
     (let (result, st1) = process_entry pe call st; (results, st2) = process_run pe call n st1
      in (result # results, st2))"

lemma settled_same:
  assumes "process_settled pe op r st" "same_rules (ps_lib st) (ps_lib st')" "ps_guard st' = 0"
  shows "process_settled pe op r st'"
  using assms same_rules_active [OF assms(2)] unfolding process_settled_def
  by (simp add: same_rules_def chaos_process_config_active_state_def split: option.splits)

lemma settled_look:
  assumes "process_settled pe op r st" "same_rules (ps_lib st) lib"
    "chaos_process_config_match (le_look (pv_look pe effect)) effect op lib = (found, lib')"
    "effect \<noteq> CHAOS_PROCESS_EFFECT_INVALID"
  shows "same_rules (ps_lib st) lib'" "rl_counters lib' = rl_counters lib"
    "found = (if effect = CHAOS_PROCESS_EFFECT_FAIL_AFTER then Some r else None)"
proof -
  let ?A = "chaos_process_config_active_state (ps_lib st)"
  have prov: "\<not> rl_provisional lib"
    and m: "reload_observed_mtime process_reload (le_look (pv_look pe effect)) = rl_cached_mtime lib"
    using assms(1,2) by (simp_all add: process_settled_def same_rules_def chaos_process_config_observed_mtime_def)
  note q = process_looks.quiet_look [OF prov m assms(3) [unfolded process_match_look]]
  show "same_rules (ps_lib st) lib'" using same_rules_trans [OF assms(2) q(1)] .
  show "rl_counters lib' = rl_counters lib" by (rule q(2))
  have act: "reload_active_state lib = ?A"
    using same_rules_active [OF assms(2)] by (simp add: chaos_process_config_active_state_def)
  have "found = chaos_process_config_match_loaded (snapshot_of ?A) (rs_sequence ?A) effect op"
    unfolding q(5) act chaos_process_config_match_loaded_def
    by (auto simp: match_snapshot_def snapshot_of_def process_select_def chaos_snapshot_read_begin_def
        chaos_snapshot_read_valid_def Let_def split: option.splits)
  then show "found = (if effect = CHAOS_PROCESS_EFFECT_FAIL_AFTER then Some r else None)"
    using assms(1,4) by (cases effect) (simp_all add: process_settled_def Let_def)
qed

lemma fail_after_counts:
  assumes "proc_effect r = CHAOS_PROCESS_EFFECT_FAIL_AFTER" "proc_probability r = 1" "rh_policy r = policy_zero"
    "case rh_hit r of None \<Rightarrow> True | Some j \<Rightarrow> slot_generation (rl_pool lib ! j) = rh_hit_generation r"
    "process_op_index op = Some i" "i < length (rl_counters lib)" "proc_errnum r = Some e"
    "chaos_process_rule_fail_after_error le (Some r) op lib = (fails, code, lib')"
  shows "same_rules lib lib'" "rl_counters lib' = (rl_counters lib)[i := rl_counters lib ! i + 1]"
    "fails = (\<not> rl_counters lib ! i < proc_fail_after_count r)" "fails \<Longrightarrow> code = Some e"
proof -
  define lib1 where "lib1 = lib\<lparr>rl_counters := (rl_counters lib)[i := rl_counters lib ! i + 1]\<rparr>"
  obtain hit prng where h: "chaos_io_probability_hit (le_prng le) 1 (rl_tls_prng lib) = (hit, prng)" by fastforce
  have hit: hit using h by (auto simp: chaos_io_probability_hit_def chaos_io_probability_hit_sample_def split: prod.splits)
  define lib2 where "lib2 = lib1\<lparr>rl_tls_prng := prng\<rparr>"
  obtain fired lib3 where g: "grant process_reload (le_hit le) r lib2 = (fired, lib3)" by fastforce
  have "fst (grant process_reload (le_hit le) r lib2)"
    by (rule grant_unlimited) (use assms(3,4) in \<open>simp_all add: lib2_def lib1_def policy_zero_def split: option.splits\<close>)
  with g have fired: fired by simp
  have opened: "chaos_policy_window_open now policy_zero" "chaos_policy_size_ok policy_zero size'" for now size'
    by (simp_all add: chaos_policy_window_open_def chaos_policy_size_ok_def policy_zero_def)
  have form: "(fails, code, lib') = (if rl_counters lib ! i < proc_fail_after_count r then (False, None, lib1)
      else (True, Some e, lib3))"
    unfolding assms(8) [symmetric]
    using hit fired
    by (simp add: chaos_process_rule_fail_after_error_def chaos_process_atomic_fetch_add_u64_def assms(1,2,3,5,7) process_hit_eq
        h opened Let_def lib1_def g [unfolded lib2_def lib1_def])
  have l2: "same_rules lib lib2" by (simp add: lib2_def lib1_def same_rules_def)
  have "same_rules lib lib1" by (simp add: lib1_def)
  with form same_rules_trans [OF l2 grant_frame(1) [OF g]] show "same_rules lib lib'" by (simp split: if_splits)
  have "rl_counters lib3 = (rl_counters lib)[i := rl_counters lib ! i + 1]"
    using grant_frame(2) [OF g] by (simp add: lib2_def lib1_def)
  with form show "rl_counters lib' = (rl_counters lib)[i := rl_counters lib ! i + 1]" by (simp add: lib1_def split: if_splits)
  show "fails = (\<not> rl_counters lib ! i < proc_fail_after_count r)" "fails \<Longrightarrow> code = Some e"
    using form by (simp_all split: if_splits)
qed

lemma settled_fault:
  assumes "process_settled pe op r st" "proc_effect r = CHAOS_PROCESS_EFFECT_FAIL_AFTER" "proc_probability r = 1"
    "rh_policy r = policy_zero" "process_op_index op = Some i" "i < length (rl_counters (ps_lib st))"
    "proc_errnum r = Some e" "process_operation call = Some op" "process_asked_fault pe call st = (fails, code, st')"
  shows "same_rules (ps_lib st) (ps_lib st')" "ps_guard st' = 0" "ps_calls st' = ps_calls st"
    "rl_counters (ps_lib st') = (rl_counters (ps_lib st))[i := rl_counters (ps_lib st) ! i + 1]"
    "fails = (\<not> rl_counters (ps_lib st) ! i < proc_fail_after_count r)" "fails \<Longrightarrow> code = Some e"
proof -
  let ?l = "pv_look pe CHAOS_PROCESS_EFFECT_LATENCY" and ?e = "pv_look pe CHAOS_PROCESS_EFFECT_ERRNO"
    and ?f = "pv_look pe CHAOS_PROCESS_EFFECT_FAIL_AFTER"
  obtain found0 lib0 where m0: "chaos_process_config_match (le_look ?l) CHAOS_PROCESS_EFFECT_LATENCY op (ps_lib st) = (found0, lib0)"
    by fastforce
  from settled_look [OF assms(1) same_rules_refl m0] have s0: "same_rules (ps_lib st) lib0"
    "rl_counters lib0 = rl_counters (ps_lib st)" "found0 = None" by simp_all
  obtain found1 lib1 where m1: "chaos_process_config_match (le_look ?e) CHAOS_PROCESS_EFFECT_ERRNO op lib0 = (found1, lib1)"
    by fastforce
  from settled_look [OF assms(1) s0(1) m1] have s1: "same_rules (ps_lib st) lib1"
    "rl_counters lib1 = rl_counters (ps_lib st)" "found1 = None" using s0(2) by simp_all
  obtain found2 lib2 where m2: "chaos_process_config_match (le_look ?f) CHAOS_PROCESS_EFFECT_FAIL_AFTER op lib1 = (found2, lib2)"
    by fastforce
  from settled_look [OF assms(1) s1(1) m2] have s2: "same_rules (ps_lib st) lib2"
    "rl_counters lib2 = rl_counters (ps_lib st)" "found2 = Some r" using s1(2) by simp_all
  obtain fails2 code2 lib3 where f: "chaos_process_rule_fail_after_error ?f (Some r) op lib2 = (fails2, code2, lib3)"
    by (metis prod_cases3)
  have slot: "case rh_hit r of None \<Rightarrow> True | Some j \<Rightarrow> slot_generation (rl_pool lib2 ! j) = rh_hit_generation r"
    using assms(1) s2(1) by (simp add: process_settled_def same_rules_def split: option.splits)
  have len: "i < length (rl_counters lib2)" using assms(6) s2(2) by simp
  note c = fail_after_counts [OF assms(2-4) slot assms(5) len assms(7) f, unfolded s2(2)]
  have out: "(fails, code, st') = (fails2, code2, st\<lparr>ps_lib := lib3\<rparr>)"
    unfolding assms(9) [symmetric] process_asked_fault_def assms(8) option.case
    by (simp add: chaos_process_operation_fault_def process_latency_def m0 m1 m2 s0(3) s1(3) s2(3) f Let_def)
  show "same_rules (ps_lib st) (ps_lib st')" "ps_guard st' = 0" "ps_calls st' = ps_calls st"
    "rl_counters (ps_lib st') = (rl_counters (ps_lib st))[i := rl_counters (ps_lib st) ! i + 1]"
    "fails = (\<not> rl_counters (ps_lib st) ! i < proc_fail_after_count r)" "fails \<Longrightarrow> code = Some e"
    using out same_rules_trans [OF s2(1) c(1)] c(2-4) assms(1) by (simp_all add: process_settled_def)
qed

lemma refuse_frame:
  "process_refuse call code st = (result, st') \<Longrightarrow> ps_lib st' = ps_lib st \<and> ps_guard st' = ps_guard st \<and> ps_calls st' = ps_calls st"
  by (auto simp: process_refuse_def split: process_call.splits)

lemma refuse_result: "fst (process_refuse call code st) = fst (process_refuse call code st'')"
  by (simp add: process_refuse_def split: process_call.splits)

lemma settled_call:
  assumes "process_settled pe op r st" "proc_effect r = CHAOS_PROCESS_EFFECT_FAIL_AFTER" "proc_probability r = 1"
    "rh_policy r = policy_zero" "process_op_index op = Some i" "i < length (rl_counters (ps_lib st))"
    "proc_errnum r = Some e" "process_operation call = Some op" "pv_real pe call = Some f"
    "call = Proc_Fork \<Longrightarrow> \<forall>n. f n \<noteq> Inr 0" "process_entry pe call st = (result, st')"
  shows "process_settled pe op r st'" "rl_counters (ps_lib st') = (rl_counters (ps_lib st))[i := rl_counters (ps_lib st) ! i + 1]"
    "if rl_counters (ps_lib st) ! i < proc_fail_after_count r then ps_calls st' = ps_calls st @ [(call, 1)]
     else ps_calls st' = ps_calls st \<and> result = fst (process_refuse call (Some e) st)"
proof -
  obtain fails code st1 where f: "process_asked_fault pe call st = (fails, code, st1)" by (metis prod_cases3)
  note s = settled_fault [OF assms(1-8) f]
  have guard: "ps_guard st = 0" using assms(1) by (simp add: process_settled_def)
  have out: "(result, st') = (if fails then process_refuse call code st1 else process_real pe call st1)"
    using assms(11) process_entry_form [OF guard] by (simp add: f)
  have "ps_lib st' = ps_lib st1 \<and> ps_guard st' = 0 \<and>
      (if fails then ps_calls st' = ps_calls st \<and> result = fst (process_refuse call (Some e) st)
       else ps_calls st' = ps_calls st @ [(call, 1)])"
  proof (cases fails)
    case True
    then have m: "process_refuse call (Some e) st1 = (result, st')" using out s(6) by simp
    have "result = fst (process_refuse call (Some e) st)"
      unfolding refuse_result [of call "Some e" st st1] by (simp add: m)
    with refuse_frame [OF m] s(2,3) True show ?thesis by simp
  next
    case False
    then have "process_real pe call st1 = (result, st')" using out by simp
    from process_real_found [OF assms(9) _ this] assms(10) s(2,3) False show ?thesis by simp
  qed
  then show "process_settled pe op r st'" "rl_counters (ps_lib st') = (rl_counters (ps_lib st))[i := rl_counters (ps_lib st) ! i + 1]"
    "if rl_counters (ps_lib st) ! i < proc_fail_after_count r then ps_calls st' = ps_calls st @ [(call, 1)]
     else ps_calls st' = ps_calls st \<and> result = fst (process_refuse call (Some e) st)"
    using settled_same [OF assms(1), of st'] s(1,4,5) by (simp_all split: if_splits)
qed

text \<open>C38. Under a \<open>FAIL_AFTER\<close> rule with count \<open>N\<close>, certain and without qualifiers, the calls that bring the counter to
  \<open>N\<close> reach the real function and every later one fails with the error of the rule, by the convention of the
  function and without a call; the counter has counted them all. For \<open>fork\<close> this is the parent.\<close>

theorem process_fail_after_exact:
  assumes "process_settled pe op r st" "proc_effect r = CHAOS_PROCESS_EFFECT_FAIL_AFTER" "proc_probability r = 1"
    "rh_policy r = policy_zero" "process_op_index op = Some i" "i < length (rl_counters (ps_lib st))"
    "proc_errnum r = Some e" "process_operation call = Some op" "pv_real pe call = Some f"
    "call = Proc_Fork \<Longrightarrow> \<forall>n. f n \<noteq> Inr 0" "unat (rl_counters (ps_lib st) ! i) + n < 2 ^ 64"
    "process_run pe call n st = (results, st')"
  shows "let passed = min n (unat (proc_fail_after_count r) - unat (rl_counters (ps_lib st) ! i)) in
    length results = n \<and> ps_calls st' = ps_calls st @ replicate passed (call, 1) \<and>
    (\<forall>k. passed \<le> k \<and> k < n \<longrightarrow> results ! k = fst (process_refuse call (Some e) st)) \<and>
    rl_counters (ps_lib st') ! i = rl_counters (ps_lib st) ! i + of_nat n"
  using assms
proof (induction n arbitrary: st results)
  case (Suc n)
  let ?c = "rl_counters (ps_lib st) ! i" and ?N = "proc_fail_after_count r"
  obtain result st1 where one: "process_entry pe call st = (result, st1)" by fastforce
  obtain rest where more: "process_run pe call n st1 = (rest, st')" and results: "results = result # rest"
    using Suc.prems(12) one by (auto split: prod.splits)
  note c = settled_call [OF Suc.prems(1-10) one]
  have len: "i < length (rl_counters (ps_lib st1))" and c1: "rl_counters (ps_lib st1) ! i = ?c + 1"
    using Suc.prems(6) c(2) by simp_all
  have "unat ?c + 1 < 2 ^ LENGTH(64)" using Suc.prems(11) by simp
  then have u: "unat (?c + 1) = unat ?c + 1" using unat_add_lem [of ?c 1] by simp
  then have bound: "unat (rl_counters (ps_lib st1) ! i) + n < 2 ^ 64" using Suc.prems(11) by (simp add: c1)
  define passed where "passed = min n (unat ?N - unat (?c + 1))"
  have ih: "length rest = n" "ps_calls st' = ps_calls st1 @ replicate passed (call, 1)"
    "\<And>k. passed \<le> k \<Longrightarrow> k < n \<Longrightarrow> rest ! k = fst (process_refuse call (Some e) st)"
    "rl_counters (ps_lib st') ! i = ?c + 1 + of_nat n"
    using Suc.IH [OF c(1) Suc.prems(2-5) len Suc.prems(7-10) bound more]
    by (simp_all add: Let_def c1 passed_def refuse_result [of call "Some e" st1 st])
  show ?case
  proof (cases "?c < ?N")
    case True
    then have p: "min (Suc n) (unat ?N - unat ?c) = Suc passed"
      using u by (simp add: passed_def word_less_nat_alt)
    have "results ! k = fst (process_refuse call (Some e) st)" if "Suc passed \<le> k" "k < Suc n" for k
      using that ih(3) [of "k - 1"] by (cases k) (simp_all add: results)
    then show ?thesis
      unfolding Let_def p using c(3) ih(1,2,4) True by (simp add: results replicate_app_Cons_same algebra_simps)
  next
    case False
    then have "unat ?N \<le> unat ?c" by (simp add: word_less_nat_alt)
    then have p: "min (Suc n) (unat ?N - unat ?c) = 0" "passed = 0" using u by (simp_all add: passed_def)
    have "results ! k = fst (process_refuse call (Some e) st)" if "k < Suc n" for k
      using that ih(3) [of "k - 1"] c(3) False p(2) by (cases k) (simp_all add: results)
    then show ?thesis
      unfolding Let_def p(1) using c(3) ih(1,2,4) False p(2) by (simp add: results algebra_simps)
  qed
qed simp

section \<open>Arguments\<close>

lemma count_args_list: "count_args (map Some xs @ None # rest) n = n + length xs"
  by (induction xs arbitrary: n) simp_all

text \<open>The variadic functions pass on exactly the arguments before the NULL, with the NULL, and the environment of the
  process or the one given.\<close>

theorem process_exec_lists:
  "execl pe path (Some a) (map Some xs @ None # rest) st = execve pe path (map Some (a # xs) @ [None]) (pv_environ pe) st \<and>
   execlp pe path (Some a) (map Some xs @ None # rest) st = execvpe pe path (map Some (a # xs) @ [None]) (pv_environ pe) st \<and>
   execle pe path (Some a) (map Some xs @ None # rest) envp st = execve pe path (map Some (a # xs) @ [None]) envp st"
  by (simp add: execl_def execv_def execlp_def execvp_def execle_def list_argv_def count_args_list)

section \<open>Examples\<close>

definition demo_fork_rule :: chaos_process_rule where
  "demo_fork_rule = process_rule_zero
     \<lparr>proc_selector := the (chaos_process_selector_parse ''fork''), proc_effect := CHAOS_PROCESS_EFFECT_FAIL_AFTER,
      proc_errnum := Some (Errno_Name EAGAIN), proc_fail_after_count := 2, proc_probability := 1\<rparr>"

definition demo_process_env :: process_env where
  "demo_process_env =
     \<lparr>pv_look = (\<lambda>effect. demo_look), pv_real = (\<lambda>call. Some (\<lambda>n. Inr (100 + int n))), pv_resolve = (\<lambda>call. None),
      pv_sys = (\<lambda>call n. Inl ENOSYS), pv_environ = [None], pv_child = demo_io_env\<rparr>"

text \<open>A library that has seen its file, with one rule that lets two forks through.\<close>

definition demo_process_state :: process_state where
  "demo_process_state =
     \<lparr>ps_lib = (demo_started process_reload 0)
        \<lparr>rl_states := [\<lparr>rs_sequence = 2, rs_rules = [demo_fork_rule], rs_parse_ok = True, rs_hits = [None],
           rs_text = [''fork:FAIL_AFTER:EAGAIN,2'']\<rparr>],
         rl_active_index := 0, rl_provisional := False, rl_counters := replicate 7 0,
         rl_cached_mtime := chaos_process_config_observed_mtime demo_io_env\<rparr>,
      ps_guard = 0, ps_errno = None, ps_slept = 0, ps_calls = []\<rparr>"

lemma demo_process_settled: "process_settled demo_process_env CHAOS_PROCESS_OP_FORK demo_fork_rule demo_process_state"
  by (simp add: process_settled_def demo_process_env_def demo_process_state_def demo_look_def Let_def
      chaos_process_config_active_state_def reload_active_state_def chaos_process_config_match_loaded_def match_snapshot_def
      snapshot_of_def chaos_process_config_select_rule_def demo_fork_rule_def process_rule_zero_def
      chaos_process_selector_parse_def process_selector_zero_def chaos_process_selector_matches_def
      chaos_snapshot_read_begin_def chaos_snapshot_read_valid_def)

theorem process_fail_after_exact_witness:
  "ps_calls (snd (process_run demo_process_env Proc_Fork 4 demo_process_state)) = [(Proc_Fork, 1), (Proc_Fork, 1)] \<and>
   fst (process_run demo_process_env Proc_Fork 4 demo_process_state) ! 3 = Returned (- 1)"
proof -
  let ?run = "process_run demo_process_env Proc_Fork 4 demo_process_state"
  have rule: "proc_effect demo_fork_rule = CHAOS_PROCESS_EFFECT_FAIL_AFTER" "proc_probability demo_fork_rule = 1"
    "rh_policy demo_fork_rule = policy_zero" "proc_errnum demo_fork_rule = Some (Errno_Name EAGAIN)"
    "proc_fail_after_count demo_fork_rule = 2"
    by (simp_all add: demo_fork_rule_def process_rule_zero_def)
  have counters: "rl_counters (ps_lib demo_process_state) = replicate 7 0" "ps_calls demo_process_state = []"
    by (simp_all add: demo_process_state_def)
  have op: "process_op_index CHAOS_PROCESS_OP_FORK = Some 1" "process_operation Proc_Fork = Some CHAOS_PROCESS_OP_FORK"
    by (simp_all add: process_op_index_def)
  have real: "pv_real demo_process_env Proc_Fork = Some (\<lambda>n. Inr (100 + int n))" by (simp add: demo_process_env_def)
  have run: "?run = (fst ?run, snd ?run)" by simp
  have i: "1 < length (rl_counters (ps_lib demo_process_state))" "rl_counters (ps_lib demo_process_state) ! 1 = 0"
    by (simp_all add: counters)
  have parent: "\<forall>n. (Inr (100 + int n) :: errno + int) \<noteq> Inr 0" by simp
  have bound: "unat (rl_counters (ps_lib demo_process_state) ! 1) + 4 < 2 ^ 64" by (simp add: counters(1))
  from process_fail_after_exact [OF demo_process_settled rule(1-3) op(1) i(1) rule(4) op(2) real parent bound run]
  moreover have "replicate 2 (Proc_Fork, 1 :: int) = [(Proc_Fork, 1), (Proc_Fork, 1)]" by (simp add: numeral_2_eq_2)
  ultimately show ?thesis by (simp add: Let_def rule(5) counters process_refuse_def)
qed


end
