(* ===== verification/Chaos_Once.thy ===== *)
theory Chaos_Once
  imports Chaos_Prelude
begin

text \<open>
  \<open>src/common/chaos_once.h\<close>: the one-time initialisation used by every library. Threads run the
  function interleaved, one atomic access at a time; the initialiser may call it again on the same
  object. A frame of a thread's stack says which access of \<open>chaos_once\<close> comes next. The ghost
  fields count how often the initialiser was entered and completed, and log the calls that returned.
\<close>

section \<open>Threads and steps\<close>

definition CHAOS_ONCE_INIT :: nat where "CHAOS_ONCE_INIT = 0"
definition CHAOS_ONCE_DONE :: nat where "CHAOS_ONCE_DONE = 2"

text \<open>Before the first load, the compare-and-swap, the store of the flag, inside the initialiser,
  before the final store, before the test of the flag, in the waiting loop.\<close>

datatype once_frame = At_Load | At_Cas | At_Flag | In_Init | At_Store | At_Check | At_Spin

text \<open>A log entry: thread, result, completions of the initialiser by then, and whether the call was made
  inside the thread's own initialiser.\<close>

record once_state =
  on_once :: nat
  on_stack :: "nat \<Rightarrow> once_frame list"
  on_running :: "nat \<Rightarrow> bool"
  on_entered :: nat
  on_completed :: nat
  on_log :: "(nat \<times> bool \<times> nat \<times> bool) list"

definition once_start :: once_state where
  "once_start = \<lparr>on_once = CHAOS_ONCE_INIT, on_stack = (\<lambda>t. []), on_running = (\<lambda>t. False), on_entered = 0,
     on_completed = 0, on_log = []\<rparr>"

text \<open>Thread \<open>t\<close> calls \<open>chaos_once\<close>, from outside or from the initialiser it runs.\<close>

definition once_call :: "nat \<Rightarrow> once_state \<Rightarrow> once_state" where
  "once_call t s =
     (if on_stack s t = [] \<or> hd (on_stack s t) = In_Init
      then s\<lparr>on_stack := (on_stack s)(t := At_Load # on_stack s t)\<rparr> else s)"

definition once_goto :: "nat \<Rightarrow> once_frame \<Rightarrow> once_state \<Rightarrow> once_state" where
  "once_goto t frame s = s\<lparr>on_stack := (on_stack s)(t := frame # tl (on_stack s t))\<rparr>"

definition once_return :: "nat \<Rightarrow> bool \<Rightarrow> once_state \<Rightarrow> once_state" where
  "once_return t result s =
     s\<lparr>on_stack := (on_stack s)(t := tl (on_stack s t)),
       on_log := (t, result, on_completed s, In_Init \<in> set (tl (on_stack s t))) # on_log s\<rparr>"

text \<open>The next access of thread \<open>t\<close>; at \<open>In_Init\<close> the initialiser returns.\<close>

definition chaos_once_step :: "nat \<Rightarrow> once_state \<Rightarrow> once_state" where
  "chaos_once_step t s =
     (case on_stack s t of
        [] \<Rightarrow> s
      | frame # rest \<Rightarrow>
          (case frame of
             At_Load \<Rightarrow> if on_once s = CHAOS_ONCE_DONE then once_return t True s else once_goto t At_Cas s
           | At_Cas \<Rightarrow> if on_once s = CHAOS_ONCE_INIT then once_goto t At_Flag (s\<lparr>on_once := 1\<rparr>)
                       else once_goto t At_Check s
           | At_Flag \<Rightarrow> once_goto t In_Init
                          (s\<lparr>on_running := (on_running s)(t := True), on_entered := Suc (on_entered s)\<rparr>)
           | In_Init \<Rightarrow> once_goto t At_Store
                          (s\<lparr>on_running := (on_running s)(t := False), on_completed := Suc (on_completed s)\<rparr>)
           | At_Store \<Rightarrow> once_return t True (s\<lparr>on_once := CHAOS_ONCE_DONE\<rparr>)
           | At_Check \<Rightarrow> if on_running s t then once_return t False s else once_goto t At_Spin s
           | At_Spin \<Rightarrow> if on_once s = CHAOS_ONCE_DONE then once_return t True s else s))"

inductive once_reachable :: "once_state \<Rightarrow> bool" where
  once_init: "once_reachable once_start"
| once_calls: "once_reachable s \<Longrightarrow> once_reachable (once_call t s)"
| once_steps: "once_reachable s \<Longrightarrow> once_reachable (chaos_once_step t s)"

section \<open>Invariant\<close>

text \<open>The frames of the thread that won the compare-and-swap.\<close>

definition winning :: "once_frame \<Rightarrow> bool" where
  "winning f \<longleftrightarrow> f \<in> {At_Flag, In_Init, At_Store}"

definition waiting_stack :: "once_frame list \<Rightarrow> bool" where
  "waiting_stack fs \<longleftrightarrow> fs \<in> {[], [At_Load], [At_Cas], [At_Check], [At_Spin]}"

definition owner_stack :: "once_frame list \<Rightarrow> bool" where
  "owner_stack fs \<longleftrightarrow> fs \<in> {[At_Flag], [In_Init], [At_Store], [At_Load, In_Init], [At_Cas, In_Init], [At_Check, In_Init]}"

text \<open>Before anyone has won, no thread has got past the compare-and-swap.\<close>

definition early_stack :: "once_frame list \<Rightarrow> bool" where
  "early_stack fs \<longleftrightarrow> fs \<in> {[], [At_Load], [At_Cas]}"

text \<open>\<open>owner\<close> is the thread between the compare-and-swap it won and its final store.\<close>

definition once_counts :: "once_state \<Rightarrow> nat option \<Rightarrow> bool" where
  "once_counts s owner \<longleftrightarrow>
     (case owner of
        Some t \<Rightarrow> on_once s = 1 \<and>
          on_entered s = (if on_stack s t = [At_Flag] then 0 else 1) \<and>
          on_completed s = (if on_stack s t = [At_Store] then 1 else 0)
      | None \<Rightarrow> (on_once s = CHAOS_ONCE_INIT \<and> on_entered s = 0 \<and> on_completed s = 0) \<or>
          (on_once s = CHAOS_ONCE_DONE \<and> on_entered s = 1 \<and> on_completed s = 1))"

definition once_logged :: "nat \<times> bool \<times> nat \<times> bool \<Rightarrow> bool" where
  "once_logged entry \<longleftrightarrow> (let (t, result, completed, own) = entry in if result then completed = 1 else own)"

definition thread_ok :: "nat option \<Rightarrow> nat \<Rightarrow> once_frame list \<Rightarrow> bool" where
  "thread_ok owner t fs \<longleftrightarrow> (if owner = Some t then owner_stack fs else waiting_stack fs)"

definition once_inv :: "once_state \<Rightarrow> nat option \<Rightarrow> bool" where
  "once_inv s owner \<longleftrightarrow>
     (\<forall>t. thread_ok owner t (on_stack s t)) \<and>
     (\<forall>t. on_running s t \<longleftrightarrow> In_Init \<in> set (on_stack s t)) \<and>
     once_counts s owner \<and> list_all once_logged (on_log s) \<and>
     (on_once s = CHAOS_ONCE_INIT \<longrightarrow> (\<forall>t. early_stack (on_stack s t)))"

lemma once_inv_start: "once_inv once_start None"
  by (simp add: once_inv_def once_start_def waiting_stack_def early_stack_def thread_ok_def once_counts_def)

text \<open>A step of thread \<open>t\<close> changes its own stack and flag only.\<close>

lemma once_inv_update:
  assumes "once_inv s owner" "on_stack s' = (on_stack s)(t := fs)"
    "on_running s' = (on_running s)(t := In_Init \<in> set fs)" "thread_ok owner' t fs"
    "\<And>u. u \<noteq> t \<Longrightarrow> owner' = Some u \<longleftrightarrow> owner = Some u"
    "once_counts s' owner'" "list_all once_logged (on_log s')"
    "on_once s' = CHAOS_ONCE_INIT \<Longrightarrow> early_stack fs \<and> on_once s = CHAOS_ONCE_INIT"
  shows "once_inv s' owner'"
  using assms unfolding once_inv_def by (auto simp: thread_ok_def)

lemma once_inv_call:
  assumes "once_inv s owner"
  shows "once_inv (once_call t s) owner"
proof (cases "on_stack s t = [] \<or> hd (on_stack s t) = In_Init")
  case False
  with assms show ?thesis by (simp add: once_call_def)
next
  case True
  have ok: "thread_ok owner t (on_stack s t)" and run: "on_running s t \<longleftrightarrow> In_Init \<in> set (on_stack s t)"
    using assms by (simp_all add: once_inv_def)
  show ?thesis
  proof (rule once_inv_update [where t = t and fs = "At_Load # on_stack s t"])
    show "thread_ok owner t (At_Load # on_stack s t)"
      using ok True by (auto simp: thread_ok_def owner_stack_def waiting_stack_def split: if_splits)
    show "once_counts (once_call t s) owner"
      using assms True ok
      by (cases owner) (auto simp: once_inv_def once_counts_def once_call_def thread_ok_def owner_stack_def)
    show "early_stack (At_Load # on_stack s t) \<and> on_once s = CHAOS_ONCE_INIT"
      if "on_once (once_call t s) = CHAOS_ONCE_INIT"
    proof -
      have init: "on_once s = CHAOS_ONCE_INIT" using that True by (simp add: once_call_def)
      with assms have "early_stack (on_stack s t)" by (simp add: once_inv_def)
      with init True show ?thesis by (auto simp: early_stack_def)
    qed
  qed (use assms True run in \<open>auto simp: once_call_def once_inv_def fun_eq_iff\<close>)
qed

lemmas once_step_simps = chaos_once_step_def once_goto_def once_return_def CHAOS_ONCE_INIT_def CHAOS_ONCE_DONE_def

lemma once_inv_owner_step:
  assumes "once_inv s (Some t)"
  shows "\<exists>owner. once_inv (chaos_once_step t s) owner"
proof -
  from assms have own: "owner_stack (on_stack s t)" and run: "on_running s t \<longleftrightarrow> In_Init \<in> set (on_stack s t)"
    and counts: "once_counts s (Some t)" and logged: "list_all once_logged (on_log s)"
    by (simp_all add: once_inv_def thread_ok_def split: if_splits)
  let ?s' = "chaos_once_step t s" and ?fs = "on_stack (chaos_once_step t s) t"
  let ?owner = "if on_stack s t = [At_Store] then None else Some t"
  have "on_stack ?s' = (on_stack s)(t := ?fs) \<and> on_running ?s' = (on_running s)(t := In_Init \<in> set ?fs) \<and>
      thread_ok ?owner t ?fs \<and> once_counts ?s' ?owner \<and> list_all once_logged (on_log ?s') \<and>
      (on_once ?s' = CHAOS_ONCE_INIT \<longrightarrow> early_stack ?fs \<and> on_once s = CHAOS_ONCE_INIT)"
    using own run counts logged unfolding owner_stack_def
    by (elim insertE emptyE)
      (simp_all add: once_step_simps once_counts_def thread_ok_def owner_stack_def waiting_stack_def early_stack_def
        once_logged_def fun_upd_idem_iff fun_eq_iff)
  then show ?thesis
    using once_inv_update [OF assms, of ?s' t ?fs ?owner] by (metis option.distinct(1) option.inject)
qed

lemma once_inv_other_step:
  assumes "once_inv s owner" "owner \<noteq> Some t"
  shows "\<exists>owner. once_inv (chaos_once_step t s) owner"
proof -
  from assms have wait: "waiting_stack (on_stack s t)" and run: "on_running s t \<longleftrightarrow> In_Init \<in> set (on_stack s t)"
    and counts: "once_counts s owner" and logged: "list_all once_logged (on_log s)"
    by (auto simp: once_inv_def thread_ok_def)
  have early: "early_stack (on_stack s t)" if "on_once s = CHAOS_ONCE_INIT"
    using assms(1) that by (simp add: once_inv_def)
  let ?s' = "chaos_once_step t s" and ?fs = "on_stack (chaos_once_step t s) t"
  let ?owner = "if on_stack s t = [At_Cas] \<and> on_once s = CHAOS_ONCE_INIT then Some t else owner"
  have none: "owner = None" if "on_once s = CHAOS_ONCE_INIT \<or> on_once s = CHAOS_ONCE_DONE"
    using counts that by (cases owner) (auto simp: once_counts_def CHAOS_ONCE_INIT_def CHAOS_ONCE_DONE_def)
  have "on_stack ?s' = (on_stack s)(t := ?fs) \<and> on_running ?s' = (on_running s)(t := In_Init \<in> set ?fs) \<and>
      thread_ok ?owner t ?fs \<and> once_counts ?s' ?owner \<and> list_all once_logged (on_log ?s') \<and>
      (on_once ?s' = CHAOS_ONCE_INIT \<longrightarrow> early_stack ?fs \<and> on_once s = CHAOS_ONCE_INIT)"
    using wait run counts logged assms(2) none early unfolding waiting_stack_def
    by (elim insertE emptyE; cases owner)
      (auto simp: once_step_simps once_counts_def thread_ok_def owner_stack_def waiting_stack_def early_stack_def
        once_logged_def fun_upd_idem_iff fun_eq_iff)
  moreover have "?owner = Some u \<longleftrightarrow> owner = Some u" if "u \<noteq> t" for u
    using that none by auto
  ultimately show ?thesis
    using once_inv_update [OF assms(1), of ?s' t ?fs ?owner] by blast
qed

lemma once_reachable_inv: "once_reachable s \<Longrightarrow> \<exists>owner. once_inv s owner"
proof (induction rule: once_reachable.induct)
  case once_init
  show ?case using once_inv_start by blast
next
  case (once_calls s t)
  then show ?case using once_inv_call by blast
next
  case (once_steps s t)
  then obtain owner where inv: "once_inv s owner" by blast
  show ?case
  proof (cases "owner = Some t")
    case True
    with inv show ?thesis using once_inv_owner_step by blast
  next
    case False
    with inv show ?thesis using once_inv_other_step by blast
  qed
qed

section \<open>At most once, and not in vain\<close>

text \<open>C8. The initialiser is entered at most once whatever the interleaving; a call that returns 1 returns after
  its only completion, and a call that returns 0 was made by the initialiser itself.\<close>

theorem once_at_most_once:
  assumes "once_reachable s"
  shows "on_entered s \<le> 1 \<and> on_completed s \<le> on_entered s \<and>
    (\<forall>(t, result, completed, own) \<in> set (on_log s). if result then completed = 1 else own)"
proof -
  obtain owner where inv: "once_inv s owner" using once_reachable_inv [OF assms] by blast
  have "on_entered s \<le> 1 \<and> on_completed s \<le> on_entered s"
    using inv by (cases owner) (auto simp: once_inv_def once_counts_def)
  moreover have "\<forall>entry \<in> set (on_log s). once_logged entry"
    using inv by (simp add: once_inv_def list_all_iff)
  ultimately show ?thesis by (auto simp: once_logged_def)
qed

text \<open>A run of three threads in which the second meets the initialiser running, and the initialiser calls back.\<close>

definition once_example :: once_state where
  "once_example = foldl (\<lambda>s step. step s) once_start
     [once_call 1, chaos_once_step 1, once_call 2, chaos_once_step 1, chaos_once_step 1, chaos_once_step 2,
      chaos_once_step 2, once_call 1, chaos_once_step 1, chaos_once_step 1, chaos_once_step 1, chaos_once_step 2,
      chaos_once_step 1]"

lemma once_example_reachable: "once_reachable once_example"
  by (simp add: once_example_def once_init once_calls once_steps)

lemma once_example_values:
  "on_entered once_example = 1" "on_completed once_example = 1" "on_log once_example = [(1, False, 0, True)]"
  "on_stack once_example 2 = [At_Spin]" "on_once once_example = 1" "on_stack once_example 1 = [At_Store]"
  by (simp_all add: once_example_def once_start_def once_call_def once_step_simps)

theorem once_at_most_once_witness:
  "on_entered once_example \<le> 1 \<and> on_completed once_example \<le> on_entered once_example \<and>
    list_all (\<lambda>(t, result, completed, own). if result then completed = 1 else own) (on_log once_example)"
  using once_at_most_once [OF once_example_reachable] unfolding list_all_iff by blast

text \<open>The owner finishes by itself, and touches no other thread.\<close>

lemma owner_finishes:
  assumes "once_inv s (Some u)"
  shows "\<exists>n \<le> 5. on_once ((chaos_once_step u ^^ n) s) = CHAOS_ONCE_DONE"
proof -
  have own: "owner_stack (on_stack s u)" and run: "on_running s u \<longleftrightarrow> In_Init \<in> set (on_stack s u)"
    and busy: "on_once s = 1"
    using assms by (simp_all add: once_inv_def thread_ok_def once_counts_def split: if_splits)
  define steps where "steps = (case on_stack s u of
      [At_Store] \<Rightarrow> 1 | [In_Init] \<Rightarrow> 2 | [At_Flag] \<Rightarrow> 3 | [At_Check, In_Init] \<Rightarrow> 3 | [At_Cas, In_Init] \<Rightarrow> 4 | _ \<Rightarrow> (5::nat))"
  have "on_once ((chaos_once_step u ^^ steps) s) = CHAOS_ONCE_DONE"
    using own run busy unfolding owner_stack_def
    by (elim insertE emptyE) (simp_all add: steps_def numeral_eq_Suc once_step_simps)
  moreover have "steps \<le> 5"
    using own unfolding owner_stack_def by (elim insertE emptyE) (simp_all add: steps_def)
  ultimately show ?thesis by blast
qed

lemma step_other_stack: "t \<noteq> u \<Longrightarrow> on_stack ((chaos_once_step u ^^ n) s) t = on_stack s t"
proof (induction n)
  case (Suc n)
  have "on_stack (chaos_once_step u s') t = on_stack s' t" for s'
    using Suc.prems
    by (auto simp: chaos_once_step_def once_goto_def once_return_def split: list.splits once_frame.splits)
  with Suc show ?case by simp
qed simp

text \<open>C9. No call waits in vain: whenever a thread spins, one other thread, the one inside the initialiser, ends
  the wait by at most five steps of its own, after which the spinning call returns 1 at its next look.\<close>

theorem once_spin_ends:
  assumes "once_reachable s" "on_stack s t = [At_Spin]"
  shows "\<exists>u n. u \<noteq> t \<and> n \<le> 5 \<and>
    on_stack (chaos_once_step t ((chaos_once_step u ^^ n) s)) t = [] \<and>
    (\<exists>c own. hd (on_log (chaos_once_step t ((chaos_once_step u ^^ n) s))) = (t, True, c, own))"
proof -
  obtain owner where inv: "once_inv s owner" using once_reachable_inv [OF assms(1)] by blast
  have spin: "chaos_once_step t s' = once_return t True s'"
    if "on_stack s' t = [At_Spin]" "on_once s' = CHAOS_ONCE_DONE" for s'
    using that by (simp add: chaos_once_step_def)
  obtain u n where un: "u \<noteq> t" "n \<le> 5" "on_once ((chaos_once_step u ^^ n) s) = CHAOS_ONCE_DONE"
  proof (cases owner)
    case (Some u)
    have "owner_stack (on_stack s u)" using inv Some by (simp add: once_inv_def thread_ok_def split: if_splits)
    then have "u \<noteq> t" using assms(2) by (auto simp: owner_stack_def)
    with owner_finishes [of s u] inv Some that show ?thesis by blast
  next
    case None
    have "on_once s \<noteq> CHAOS_ONCE_INIT"
    proof
      assume "on_once s = CHAOS_ONCE_INIT"
      with inv have "early_stack (on_stack s t)" by (simp add: once_inv_def)
      with assms(2) show False by (simp add: early_stack_def)
    qed
    with inv None have "on_once s = CHAOS_ONCE_DONE" by (auto simp: once_inv_def once_counts_def)
    then show ?thesis using that [of "Suc t" 0] by simp
  qed
  have "on_stack ((chaos_once_step u ^^ n) s) t = [At_Spin]" using step_other_stack un(1) assms(2) by metis
  from spin [OF this un(3)] un this show ?thesis
    by (intro exI [of _ u] exI [of _ n]) (auto simp: once_return_def)
qed

theorem once_spin_ends_witness:
  "\<exists>u n. u \<noteq> 2 \<and> n \<le> 5 \<and>
    on_stack (chaos_once_step 2 ((chaos_once_step u ^^ n) once_example)) 2 = [] \<and>
    (\<exists>c own. hd (on_log (chaos_once_step 2 ((chaos_once_step u ^^ n) once_example))) = (2, True, c, own))"
  by (rule once_spin_ends [OF once_example_reachable once_example_values(4)])

end
