(* ===== verification/Claim_Protocol.thy ===== *)
theory Claim_Protocol
  imports Chaos_Policy
begin

text \<open>
  The claims of \<open>@first=N\<close> under concurrency: \<open>chaos_policy_fire\<close> (\<open>src/common/chaos_policy.h\<close>)
  run by any number of threads on one slot, one shared access per step, while the owner of the pool
  releases the slot and assigns it to other rules (\<open>src/common/chaos_hits.h\<close>). The ghost field
  counts the compare-and-swaps that succeeded, per generation. The tag of a claim word has the low 32
  bits of the generation, so the model stops before a slot was released \<open>2 ^ 32\<close> times.
\<close>

section \<open>Threads and steps\<close>

text \<open>No call; a rule copy of a generation in hand; past the generation test; the claim word read and
  found good; the claim made, the hit not counted yet.\<close>

datatype claim_pc = Not_Firing | Copied u64 | Checked u64 | Loaded u64 u64 | Counting u64

record claim_state =
  cl_slot :: chaos_hit_slot
  cl_pc :: "nat \<Rightarrow> claim_pc"
  cl_grants :: "u64 \<Rightarrow> nat"

definition claim_start :: "u64 \<Rightarrow> claim_state" where
  "claim_start g =
     \<lparr>cl_slot = \<lparr>slot_count = 0, slot_claimed = chaos_hit_claims_none g, slot_state = 0, slot_report = False,
        slot_generation = g, slot_used = False\<rparr>,
      cl_pc = (\<lambda>t. Not_Firing), cl_grants = (\<lambda>g. 0)\<rparr>"

definition claim_goto :: "nat \<Rightarrow> claim_pc \<Rightarrow> claim_state \<Rightarrow> claim_state" where
  "claim_goto t pc s = s\<lparr>cl_pc := (cl_pc s)(t := pc)\<rparr>"

text \<open>A lookup hands out a copy of the active rule, with the generation of its slot.\<close>

definition claim_copy :: "nat \<Rightarrow> claim_state \<Rightarrow> claim_state" where
  "claim_copy t s =
     (if cl_pc s t = Not_Firing \<and> slot_used (cl_slot s)
      then claim_goto t (Copied (slot_generation (cl_slot s))) s else s)"

definition claim_release :: "claim_state \<Rightarrow> claim_state" where
  "claim_release s =
     (if slot_used (cl_slot s) \<and> slot_generation (cl_slot s) < 0xffffffff
      then s\<lparr>cl_slot := release_slot (cl_slot s)\<rparr> else s)"

definition claim_assign :: "claim_state \<Rightarrow> claim_state" where
  "claim_assign s =
     (if \<not> slot_used (cl_slot s) then s\<lparr>cl_slot := attach_slot (fresh_slot (cl_slot s))\<rparr> else s)"

text \<open>The next shared access of \<open>chaos_policy_fire\<close> in thread \<open>t\<close>; \<open>pol g\<close> is the policy of the rule that
  held the slot in generation \<open>g\<close>.\<close>

definition chaos_policy_fire_step :: "(u64 \<Rightarrow> chaos_rule_policy) \<Rightarrow> nat \<Rightarrow> claim_state \<Rightarrow> claim_state" where
  "chaos_policy_fire_step pol t s =
     (case cl_pc s t of
        Not_Firing \<Rightarrow> s
      | Copied g \<Rightarrow>
          (if \<not> chaos_hit_slot_current (Some (cl_slot s)) g then claim_goto t Not_Firing s
           else if pol_first (pol g) \<noteq> 0 then claim_goto t (Checked g) s
           else claim_goto t (Counting g) s)
      | Checked g \<Rightarrow>
          (let claimed = slot_claimed (cl_slot s)
           in if claim_refused (pol g) g claimed then claim_goto t Not_Firing s
              else claim_goto t (Loaded g claimed) s)
      | Loaded g claimed \<Rightarrow>
          (if slot_claimed (cl_slot s) = claimed
           then claim_goto t (Counting g)
                  (s\<lparr>cl_slot := (cl_slot s)\<lparr>slot_claimed := claimed + 1\<rparr>,
                     cl_grants := (cl_grants s)(g := Suc (cl_grants s g))\<rparr>)
           else claim_goto t (Checked g) s)
      | Counting g \<Rightarrow>
          (case chaos_hit_record (Some (cl_slot s)) of
             (Some slot, _) \<Rightarrow> claim_goto t Not_Firing (s\<lparr>cl_slot := slot\<rparr>)
           | _ \<Rightarrow> s))"

inductive claim_reachable :: "(u64 \<Rightarrow> chaos_rule_policy) \<Rightarrow> claim_state \<Rightarrow> bool" for pol where
  claims_start: "g \<le> 0xffffffff \<Longrightarrow> claim_reachable pol (claim_start g)"
| claims_copy: "claim_reachable pol s \<Longrightarrow> claim_reachable pol (claim_copy t s)"
| claims_release: "claim_reachable pol s \<Longrightarrow> claim_reachable pol (claim_release s)"
| claims_assign: "claim_reachable pol s \<Longrightarrow> claim_reachable pol (claim_assign s)"
| claims_fire: "claim_reachable pol s \<Longrightarrow> claim_reachable pol (chaos_policy_fire_step pol t s)"

section \<open>Invariant\<close>

lemma claims_none_inj:
  assumes "chaos_hit_claims_none g = chaos_hit_claims_none h" "g \<le> 0xffffffff" "h \<le> 0xffffffff"
  shows "g = h"
proof -
  have low: "unat (x AND 0xffffffff) = unat x" if "x \<le> 0xffffffff" for x :: u64
  proof -
    have "x AND 0xffffffff = take_bit 32 x" by (simp only: low_half_mask take_bit_eq_mask)
    moreover have "unat x < 2 ^ 32" using that by (simp add: word_le_nat_alt)
    ultimately show ?thesis by (simp add: unsigned_take_bit_eq take_bit_nat_eq_self)
  qed
  have "g AND 0xffffffff = h AND 0xffffffff"
  proof (rule bit_word_eqI)
    fix n assume n: "n < LENGTH(64)"
    show "bit (g AND 0xffffffff) n = bit (h AND 0xffffffff) n"
    proof (cases "n < 32")
      case True
      then have "bit (chaos_hit_claims_none g) (n + 32) = bit (chaos_hit_claims_none h) (n + 32)" by (simp add: assms(1))
      then show ?thesis unfolding chaos_hit_claims_none_def bit_push_bit_iff using True by simp
    next
      case False
      then show ?thesis by (simp add: low_half_mask bit_and_iff bit_mask_iff)
    qed
  qed
  then have "unat g = unat h" using low assms(2,3) by metis
  then show ?thesis by (simp only: word_unat_eq_iff)
qed

text \<open>\<open>h\<close> is the generation the claim word is tagged with.\<close>

definition pc_generation :: "claim_pc \<Rightarrow> u64 option" where
  "pc_generation pc =
     (case pc of Not_Firing \<Rightarrow> None | Copied g \<Rightarrow> Some g | Checked g \<Rightarrow> Some g | Loaded g w \<Rightarrow> Some g | Counting g \<Rightarrow> Some g)"

definition pc_ok :: "(u64 \<Rightarrow> chaos_rule_policy) \<Rightarrow> chaos_hit_slot \<Rightarrow> claim_pc \<Rightarrow> bool" where
  "pc_ok pol slot pc \<longleftrightarrow>
     (case pc_generation pc of
        None \<Rightarrow> True
      | Some g \<Rightarrow> g < slot_generation slot \<or> (slot_used slot \<and> g = slot_generation slot)) \<and>
     (case pc of Loaded g w \<Rightarrow> \<not> claim_refused (pol g) g w | _ \<Rightarrow> True)"

lemma pc_ok_cong:
  "slot_generation a = slot_generation b \<Longrightarrow> slot_used a = slot_used b \<Longrightarrow> pc_ok pol a = pc_ok pol b"
  by (auto simp: fun_eq_iff pc_ok_def split: option.splits)

definition claim_inv :: "(u64 \<Rightarrow> chaos_rule_policy) \<Rightarrow> claim_state \<Rightarrow> u64 \<Rightarrow> bool" where
  "claim_inv pol s h \<longleftrightarrow>
     slot_claimed (cl_slot s) = chaos_hit_claims_none h + of_nat (cl_grants s h) \<and>
     cl_grants s h \<le> 0xffffffff \<and>
     h \<le> slot_generation (cl_slot s) \<and> slot_generation (cl_slot s) \<le> 0xffffffff \<and>
     (slot_used (cl_slot s) \<longrightarrow> h = slot_generation (cl_slot s)) \<and>
     (\<not> slot_used (cl_slot s) \<longrightarrow> cl_grants s (slot_generation (cl_slot s)) = 0) \<and>
     (\<forall>g. h < g \<longrightarrow> cl_grants s g = 0) \<and>
     (\<forall>g. pol_first (pol g) \<noteq> 0 \<longrightarrow> cl_grants s g \<le> unat (pol_first (pol g))) \<and>
     (\<forall>t. pc_ok pol (cl_slot s) (cl_pc s t))"

text \<open>What the test of the claim word says about the counter.\<close>

lemma claim_word_grants:
  assumes "claim_inv pol s h"
  shows "chaos_hit_claims (slot_claimed (cl_slot s)) = of_nat (cl_grants s h)"
    and "slot_claimed (cl_slot s) AND NOT 0xffffffff = chaos_hit_claims_none h"
    and "unat (of_nat (cl_grants s h) :: u64) = cl_grants s h"
proof -
  have n: "cl_grants s h \<le> 0xffffffff" and w: "slot_claimed (cl_slot s) = chaos_hit_claims_none h + of_nat (cl_grants s h)"
    using assms by (simp_all add: claim_inv_def)
  show u: "unat (of_nat (cl_grants s h) :: u64) = cl_grants s h" using n by (simp add: unat_of_nat)
  have c: "(of_nat (cl_grants s h) :: u64) \<le> 0xffffffff"
    unfolding word_le_nat_alt u using n by simp
  show "chaos_hit_claims (slot_claimed (cl_slot s)) = of_nat (cl_grants s h)"
    and "slot_claimed (cl_slot s) AND NOT 0xffffffff = chaos_hit_claims_none h"
    unfolding w using claim_word_split [OF c] by simp_all
qed

lemma claim_inv_start: "g \<le> 0xffffffff \<Longrightarrow> claim_inv pol (claim_start g) g"
  by (simp add: claim_inv_def claim_start_def pc_ok_def pc_generation_def)

lemma claim_inv_goto:
  "claim_inv pol s h \<Longrightarrow> pc_ok pol (cl_slot s) pc \<Longrightarrow> claim_inv pol (claim_goto t pc s) h"
  by (simp add: claim_inv_def claim_goto_def)

lemma claim_inv_copy: "claim_inv pol s h \<Longrightarrow> claim_inv pol (claim_copy t s) h"
  by (auto simp: claim_copy_def pc_ok_def pc_generation_def intro!: claim_inv_goto)

lemma generation_step: "(g :: u64) < 0xffffffff \<Longrightarrow> g < g + 1 \<and> g + 1 \<le> 0xffffffff"
proof -
  assume g: "g < 0xffffffff"
  then have n: "unat g < 0xffffffff" by (simp add: word_less_nat_alt)
  then have "unat (g + 1) = unat g + 1" by (simp add: unat_word_ariths)
  with n show ?thesis by (simp add: word_less_nat_alt word_le_nat_alt)
qed

lemma claim_inv_release:
  assumes "claim_inv pol s h"
  shows "claim_inv pol (claim_release s) h"
proof (cases "slot_used (cl_slot s) \<and> slot_generation (cl_slot s) < 0xffffffff")
  case False
  with assms show ?thesis by (simp only: claim_release_def if_False)
next
  case True
  let ?g = "slot_generation (cl_slot s)"
  have g: "?g < ?g + 1" "?g + 1 \<le> 0xffffffff" using generation_step True by blast+
  have h: "h = ?g" using assms True by (simp add: claim_inv_def)
  have "pc_ok pol (release_slot (cl_slot s)) (cl_pc s t)" for t
    using assms g(1) by (fastforce simp: claim_inv_def pc_ok_def release_slot_def split: option.splits)
  moreover have "slot_generation (release_slot (cl_slot s)) = ?g + 1" "\<not> slot_used (release_slot (cl_slot s))"
    "slot_claimed (release_slot (cl_slot s)) = slot_claimed (cl_slot s)"
    by (simp_all add: release_slot_def)
  ultimately show ?thesis using assms True g h by (simp add: claim_inv_def claim_release_def)
qed

lemma claim_inv_assign:
  assumes "claim_inv pol s h"
  shows "\<exists>h. claim_inv pol (claim_assign s) h"
proof (cases "slot_used (cl_slot s)")
  case True
  with assms show ?thesis by (auto simp: claim_assign_def)
next
  case False
  let ?g = "slot_generation (cl_slot s)"
  let ?slot = "attach_slot (fresh_slot (cl_slot s))"
  have "pc_ok pol ?slot (cl_pc s t)" for t
    using assms False by (auto simp: claim_inv_def pc_ok_def attach_slot_def fresh_slot_def split: option.splits)
  moreover have "slot_generation ?slot = ?g" "slot_used ?slot" "slot_claimed ?slot = chaos_hit_claims_none ?g"
    by (simp_all add: attach_slot_def fresh_slot_def)
  ultimately have "claim_inv pol (claim_assign s) ?g"
    using assms False by (auto simp: claim_inv_def claim_assign_def)
  then show ?thesis by blast
qed

lemma claim_inv_cas:
  assumes "claim_inv pol s h" "cl_pc s t = Loaded g claimed" "slot_claimed (cl_slot s) = claimed"
  shows "claim_inv pol (claim_goto t (Counting g)
      (s\<lparr>cl_slot := (cl_slot s)\<lparr>slot_claimed := claimed + 1\<rparr>, cl_grants := (cl_grants s)(g := Suc (cl_grants s g))\<rparr>)) h"
proof -
  have pc: "pc_ok pol (cl_slot s) (Loaded g claimed)"
    using assms(1,2) unfolding claim_inv_def by metis
  then have ok: "\<not> claim_refused (pol g) g claimed" and gle: "g \<le> slot_generation (cl_slot s)"
    and used: "\<not> slot_used (cl_slot s) \<Longrightarrow> g \<noteq> slot_generation (cl_slot s)"
    by (auto simp: pc_ok_def pc_generation_def)
  note word = claim_word_grants [OF assms(1), unfolded assms(3)]
  have bounds: "h \<le> 0xffffffff" "g \<le> 0xffffffff"
    using assms(1) gle by (auto simp: claim_inv_def intro: order_trans)
  have "chaos_hit_claims_none h = chaos_hit_claims_none g"
    using ok word(2) by (simp add: claim_refused_def)
  then have g: "g = h" using claims_none_inj bounds by blast
  have "of_nat (cl_grants s h) < pol_first (pol h)" "(of_nat (cl_grants s h) :: u64) \<noteq> 0xffffffff"
    using ok word(1) g by (simp_all add: claim_refused_def not_le)
  then have lt: "cl_grants s h < unat (pol_first (pol h))" "cl_grants s h \<noteq> 0xffffffff"
    using word(3) by (auto simp: word_less_nat_alt)
  then have le: "Suc (cl_grants s h) \<le> 0xffffffff" using assms(1) by (simp add: claim_inv_def)
  let ?slot = "(cl_slot s)\<lparr>slot_claimed := claimed + 1\<rparr>"
  have "pc_ok pol ?slot = pc_ok pol (cl_slot s)" by (rule pc_ok_cong) simp_all
  moreover have "pc_ok pol (cl_slot s) (Counting g)"
    using pc by (simp add: pc_ok_def pc_generation_def)
  ultimately show ?thesis
    using assms(1,3) g lt le used by (auto simp: claim_inv_def claim_goto_def)
qed

lemma claim_inv_fire:
  assumes "claim_inv pol s h"
  shows "claim_inv pol (chaos_policy_fire_step pol t s) h"
proof -
  have pc: "pc_ok pol (cl_slot s) (cl_pc s t)" using assms by (simp add: claim_inv_def)
  show ?thesis
  proof (cases "cl_pc s t")
    case Not_Firing
    with assms show ?thesis by (simp add: chaos_policy_fire_step_def)
  next
    case (Copied g)
    with pc have "pc_ok pol (cl_slot s) (Checked g)" "pc_ok pol (cl_slot s) (Counting g)" "pc_ok pol (cl_slot s) Not_Firing"
      by (simp_all add: pc_ok_def pc_generation_def)
    with assms Copied show ?thesis by (simp add: chaos_policy_fire_step_def claim_inv_goto)
  next
    case (Checked g)
    with pc have "pc_ok pol (cl_slot s) Not_Firing"
      "\<not> claim_refused (pol g) g w \<Longrightarrow> pc_ok pol (cl_slot s) (Loaded g w)" for w
      by (simp_all add: pc_ok_def pc_generation_def)
    with assms Checked show ?thesis by (simp add: chaos_policy_fire_step_def claim_inv_goto Let_def)
  next
    case (Loaded g w)
    with pc have "pc_ok pol (cl_slot s) (Checked g)" by (simp add: pc_ok_def pc_generation_def)
    with assms Loaded claim_inv_cas [OF assms Loaded] show ?thesis
      by (simp add: chaos_policy_fire_step_def claim_inv_goto)
  next
    case (Counting g)
    let ?s = "s\<lparr>cl_slot := (cl_slot s)\<lparr>slot_count := slot_count (cl_slot s) + 1\<rparr>\<rparr>"
    have "pc_ok pol (cl_slot ?s) = pc_ok pol (cl_slot s)" by (rule pc_ok_cong) simp_all
    with assms have "claim_inv pol ?s h" by (simp add: claim_inv_def)
    then have "claim_inv pol (claim_goto t Not_Firing ?s) h"
      by (rule claim_inv_goto) (simp add: pc_ok_def pc_generation_def)
    with Counting show ?thesis by (simp add: chaos_policy_fire_step_def chaos_hit_record_def)
  qed
qed

lemma claim_reachable_inv: "claim_reachable pol s \<Longrightarrow> \<exists>h. claim_inv pol s h"
proof (induction rule: claim_reachable.induct)
  case (claims_start g)
  then show ?case using claim_inv_start by blast
next
  case (claims_assign s)
  then show ?case using claim_inv_assign by blast
qed (use claim_inv_copy claim_inv_release claim_inv_fire in \<open>blast+\<close>)

text \<open>C7. With \<open>@first=N\<close> no interleaving of any number of threads, releases and reassignments lets more than
  \<open>N\<close> hits of one rule through; and a thread whose rule is still active is refused only when that
  allowance, or the 32-bit counter, is used up.\<close>

theorem claims_bounded:
  assumes "claim_reachable pol s" "pol_first (pol g) \<noteq> 0"
  shows "cl_grants s g \<le> unat (pol_first (pol g)) \<and>
    (slot_used (cl_slot s) \<and> g = slot_generation (cl_slot s) \<and> claim_refused (pol g) g (slot_claimed (cl_slot s))
       \<longrightarrow> cl_grants s g = unat (pol_first (pol g)) \<or> cl_grants s g = 0xffffffff)"
proof -
  obtain h where inv: "claim_inv pol s h" using claim_reachable_inv [OF assms(1)] by blast
  then have le: "cl_grants s g \<le> unat (pol_first (pol g))" using assms(2) by (simp add: claim_inv_def)
  have "cl_grants s g = unat (pol_first (pol g)) \<or> cl_grants s g = 0xffffffff"
    if "slot_used (cl_slot s)" "g = slot_generation (cl_slot s)" "claim_refused (pol g) g (slot_claimed (cl_slot s))"
  proof -
    have h: "h = g" using inv that by (simp add: claim_inv_def)
    note word = claim_word_grants [OF inv, unfolded h]
    from that(3) consider "pol_first (pol g) \<le> of_nat (cl_grants s g)" | "(of_nat (cl_grants s g) :: u64) = 0xffffffff"
      using word by (auto simp: claim_refused_def)
    then show ?thesis
    proof cases
      case 1
      then have "unat (pol_first (pol g)) \<le> cl_grants s g" using word(3) by (simp add: word_le_nat_alt)
      with le show ?thesis by simp
    next
      case 2
      with word(3) have "unat (0xffffffff :: u64) = cl_grants s g" by simp
      then show ?thesis by simp
    qed
  qed
  with le show ?thesis by blast
qed

text \<open>Two threads compete for an allowance of one: the loser of the swap is refused at its second look.\<close>

definition demo_pol :: "u64 \<Rightarrow> chaos_rule_policy" where
  "demo_pol g = policy_zero\<lparr>pol_first := 1\<rparr>"

definition claim_example :: claim_state where
  "claim_example = foldl (\<lambda>s step. step s) (claim_start 5)
     [claim_assign, claim_copy 1, claim_copy 2, chaos_policy_fire_step demo_pol 1, chaos_policy_fire_step demo_pol 2,
      chaos_policy_fire_step demo_pol 1, chaos_policy_fire_step demo_pol 2, chaos_policy_fire_step demo_pol 2,
      chaos_policy_fire_step demo_pol 1]"

lemma claim_example_reachable: "claim_reachable demo_pol claim_example"
  by (simp add: claim_example_def claims_start claims_copy claims_assign claims_fire)

theorem claims_bounded_witness:
  "cl_grants claim_example 5 \<le> unat (pol_first (demo_pol 5)) \<and> cl_pc claim_example 1 = Checked 5 \<and>
    cl_pc claim_example 2 = Counting 5"
proof (intro conjI)
  show "cl_grants claim_example 5 \<le> unat (pol_first (demo_pol 5))"
    using claims_bounded [OF claim_example_reachable] by (simp add: demo_pol_def)
  show "cl_pc claim_example 1 = Checked 5" by code_simp
  show "cl_pc claim_example 2 = Counting 5" by code_simp
qed

end
