(* ===== verification/Init_Core.thy ===== *)
theory Init_Core
  imports Chaos_Prelude
begin

text \<open>
  \<open>src/init/chaos_init_core.c\<close>: the side-effect free core of the seccomp supervisor \<open>chaos-init\<close>.
  Its command line, the system calls each library is notified of and the BPF program built from
  them, the search for the command, and the texts it prints. The numbers of the system calls and
  which of the older ones exist depend on the kernel's interface for the architecture, and are
  parameters (\<open>abi\<close>); the kernel runs the program, so the model has an interpreter of the five
  instructions used, after the kernel's documentation of classic BPF.
\<close>

section \<open>Libraries and command line\<close>

definition CHAOS_INIT_LIB_IO :: u32 where "CHAOS_INIT_LIB_IO = 0x01"
definition CHAOS_INIT_LIB_NET :: u32 where "CHAOS_INIT_LIB_NET = 0x02"
definition CHAOS_INIT_LIB_DNS :: u32 where "CHAOS_INIT_LIB_DNS = 0x04"
definition CHAOS_INIT_LIB_TIME :: u32 where "CHAOS_INIT_LIB_TIME = 0x08"
definition CHAOS_INIT_LIB_MEMORY :: u32 where "CHAOS_INIT_LIB_MEMORY = 0x10"
definition CHAOS_INIT_LIB_PROCESS :: u32 where "CHAOS_INIT_LIB_PROCESS = 0x20"

lemmas init_lib_defs = CHAOS_INIT_LIB_IO_def CHAOS_INIT_LIB_NET_def CHAOS_INIT_LIB_DNS_def
  CHAOS_INIT_LIB_TIME_def CHAOS_INIT_LIB_MEMORY_def CHAOS_INIT_LIB_PROCESS_def

definition g_chaos_init_libs :: "(string \<times> u32) list" where
  "g_chaos_init_libs =
     [(''io'', CHAOS_INIT_LIB_IO), (''net'', CHAOS_INIT_LIB_NET), (''dns'', CHAOS_INIT_LIB_DNS),
      (''time'', CHAOS_INIT_LIB_TIME), (''memory'', CHAOS_INIT_LIB_MEMORY), (''process'', CHAOS_INIT_LIB_PROCESS)]"

definition chaos_init_lib_bit :: "string \<Rightarrow> u32" where
  "chaos_init_lib_bit name = (case map_of g_chaos_init_libs name of None \<Rightarrow> 0 | Some b \<Rightarrow> b)"

text \<open>The loop over the names, with the bits collected so far.\<close>

function parse_libs :: "string \<Rightarrow> u32 \<Rightarrow> u32 option" where
  "parse_libs cursor libs =
     (case split_first CHR '','' cursor of
        None \<Rightarrow> (let b = chaos_init_lib_bit cursor in if b = 0 then None else Some (libs OR b))
      | Some (name, rest) \<Rightarrow>
          (let b = chaos_init_lib_bit name in if b = 0 then None else parse_libs rest (libs OR b)))"
  by pat_completeness auto
termination
  by (relation "measure (\<lambda>(cursor, libs). length cursor)") (auto simp: split_first_Some_iff)

declare parse_libs.simps [simp del]

text \<open>The libraries and the index of the command.\<close>

definition chaos_init_parse_args :: "string list \<Rightarrow> (u32 \<times> nat) option" where
  "chaos_init_parse_args argv =
     (if length argv < 5 \<or> argv ! 1 \<noteq> ''--libs'' \<or> argv ! 3 \<noteq> ''--'' then None
      else map_option (\<lambda>libs. (libs, 4)) (parse_libs (argv ! 2) 0))"

section \<open>The system calls of a library\<close>

datatype syscall =
  Openat | Read | Readv | Write | Writev | Pread64 | Preadv | Pwrite64 | Pwritev | Sendfile | Ftruncate
| Truncate | Fallocate | Unlinkat | Renameat2 | Close | Fsync | Fdatasync | Copy_file_range | Preadv2 | Pwritev2
| Openat2 | Open | Creat | Unlink | Rmdir | Rename | Renameat
| Socket | Socketpair | Bind | Listen | Connect | Accept4 | Shutdown | Sendto | Sendmsg | Sendmmsg | Recvfrom
| Recvmsg | Recvmmsg | Ppoll | Pselect6 | Epoll_pwait | Accept | Poll | Select | Epoll_wait | Epoll_pwait2
| Mmap | Munmap | Mprotect | Madvise
| Clone | Execve | Execveat | Wait4 | Waitid | Clone3 | Fork | Vfork

record abi =
  abi_x86_64 :: bool
  abi_audit_arch :: u32
  abi_nr :: "syscall \<Rightarrow> u32"
  abi_has :: "syscall \<Rightarrow> bool"

definition g_chaos_init_io_calls :: "abi \<Rightarrow> u32 list" where
  "g_chaos_init_io_calls abi =
     map (abi_nr abi)
       ([Openat, Read, Readv, Write, Writev, Pread64, Preadv, Pwrite64, Pwritev, Sendfile, Ftruncate, Truncate,
         Fallocate, Unlinkat, Renameat2, Close, Fsync, Fdatasync, Copy_file_range, Preadv2, Pwritev2] @
        filter (abi_has abi) [Openat2, Open, Creat, Unlink, Rmdir, Rename, Renameat])"

definition g_chaos_init_net_calls :: "abi \<Rightarrow> u32 list" where
  "g_chaos_init_net_calls abi =
     map (abi_nr abi)
       ([Socket, Socketpair, Bind, Listen, Connect, Accept4, Shutdown, Sendto, Sendmsg, Sendmmsg, Recvfrom, Recvmsg,
         Recvmmsg, Read, Readv, Write, Writev, Ppoll, Pselect6, Epoll_pwait, Close] @
        filter (abi_has abi) [Accept, Poll, Select, Epoll_wait, Epoll_pwait2])"

definition g_chaos_init_memory_calls :: "abi \<Rightarrow> u32 list" where
  "g_chaos_init_memory_calls abi = map (abi_nr abi) [Mmap, Munmap, Mprotect, Madvise]"

definition g_chaos_init_process_calls :: "abi \<Rightarrow> u32 list" where
  "g_chaos_init_process_calls abi =
     map (abi_nr abi) ([Clone, Execve, Execveat, Wait4, Waitid] @ filter (abi_has abi) [Clone3, Fork, Vfork])"

definition chaos_init_add_syscall :: "u32 list \<Rightarrow> u32 \<Rightarrow> u32 list" where
  "chaos_init_add_syscall calls nr = (if nr \<in> set calls then calls else calls @ [nr])"

definition CHAOS_INIT_MAX_FILTER :: nat where "CHAOS_INIT_MAX_FILTER = 128"
definition CHAOS_INIT_HANDOVER_FLAGS :: u32 where "CHAOS_INIT_HANDOVER_FLAGS = 0x40004000"

definition collect_calls :: "abi \<Rightarrow> u32 \<Rightarrow> u32 list" where
  "collect_calls abi libs =
     (let calls0 = (if libs AND CHAOS_INIT_LIB_IO \<noteq> 0
                    then foldl chaos_init_add_syscall [] (g_chaos_init_io_calls abi) else []);
          calls1 = (if libs AND CHAOS_INIT_LIB_NET \<noteq> 0
                    then foldl chaos_init_add_syscall calls0 (g_chaos_init_net_calls abi) else calls0);
          calls2 = (if libs AND CHAOS_INIT_LIB_MEMORY \<noteq> 0
                    then foldl chaos_init_add_syscall calls1 (g_chaos_init_memory_calls abi) else calls1)
      in if libs AND CHAOS_INIT_LIB_PROCESS \<noteq> 0
         then foldl chaos_init_add_syscall calls2 (g_chaos_init_process_calls abi) else calls2)"

section \<open>The filter program\<close>

text \<open>The words of \<open>struct seccomp_data\<close> the program loads; of an argument the low half.\<close>

datatype bpf_word = Word_Arch | Word_Nr | Word_Arg nat

text \<open>The jump offsets are 8 bits wide.\<close>

datatype bpf_insn =
  Bpf_Load bpf_word | Bpf_Jeq u32 u8 u8 | Bpf_Jge u32 u8 u8 | Bpf_Ret u32

definition SECCOMP_RET_ALLOW :: u32 where "SECCOMP_RET_ALLOW = 0x7fff0000"
definition SECCOMP_RET_USER_NOTIF :: u32 where "SECCOMP_RET_USER_NOTIF = 0x7fc00000"

text \<open>The exchange of \<open>sendmsg\<close> for the last entry.\<close>

fun take_sendmsg :: "u32 \<Rightarrow> u32 list \<Rightarrow> u32 list \<times> bool" where
  "take_sendmsg nr [] = ([], False)"
| "take_sendmsg nr (c # cs) =
     (if c = nr then (if cs = [] then [] else last cs # butlast cs, True)
      else let (rest, found) = take_sendmsg nr cs in (c # rest, found))"

fun call_chain :: "u32 list \<Rightarrow> bpf_insn list" where
  "call_chain [] = []"
| "call_chain (c # cs) = Bpf_Jeq c (of_nat (Suc (length cs))) 0 # call_chain cs"

definition handover_block :: "abi \<Rightarrow> u32 \<Rightarrow> bpf_insn list" where
  "handover_block abi handover_fd =
     [Bpf_Jeq (abi_nr abi Sendmsg) 0 6, Bpf_Load (Word_Arg 0), Bpf_Jeq handover_fd 0 3, Bpf_Load (Word_Arg 2),
      Bpf_Jeq CHAOS_INIT_HANDOVER_FLAGS 0 1, Bpf_Ret SECCOMP_RET_ALLOW, Bpf_Ret SECCOMP_RET_USER_NOTIF]"

definition chaos_init_build_filter :: "abi \<Rightarrow> u32 \<Rightarrow> u32 \<Rightarrow> nat \<Rightarrow> bpf_insn list" where
  "chaos_init_build_filter abi libs handover_fd capacity =
     (let (calls, handover) = take_sendmsg (abi_nr abi Sendmsg) (collect_calls abi libs)
      in if capacity < length calls + 16 then []
         else [Bpf_Load Word_Arch, Bpf_Jeq (abi_audit_arch abi) 1 0, Bpf_Ret SECCOMP_RET_ALLOW, Bpf_Load Word_Nr] @
              (if abi_x86_64 abi then [Bpf_Jge 0x40000000 0 1, Bpf_Ret SECCOMP_RET_ALLOW] else []) @
              (if handover then handover_block abi handover_fd else []) @
              call_chain calls @ [Bpf_Ret SECCOMP_RET_ALLOW, Bpf_Ret SECCOMP_RET_USER_NOTIF])"

section \<open>Running a filter program\<close>

record seccomp_data =
  sd_nr :: u32
  sd_arch :: u32
  sd_args :: "nat \<Rightarrow> u64"

fun load_word :: "seccomp_data \<Rightarrow> bpf_word \<Rightarrow> u32" where
  "load_word d Word_Arch = sd_arch d"
| "load_word d Word_Nr = sd_nr d"
| "load_word d (Word_Arg i) = ucast (sd_args d i)"

text \<open>The program counter is the suffix of the program; jumps go forward only. A run off the end, which
  the kernel's verifier refuses, is \<open>None\<close>.\<close>

function bpf_run :: "seccomp_data \<Rightarrow> bpf_insn list \<Rightarrow> u32 \<Rightarrow> u32 option" where
  "bpf_run d [] a = None"
| "bpf_run d (Bpf_Load w # rest) a = bpf_run d rest (load_word d w)"
| "bpf_run d (Bpf_Jeq k jt jf # rest) a = bpf_run d (drop (if a = k then unat jt else unat jf) rest) a"
| "bpf_run d (Bpf_Jge k jt jf # rest) a = bpf_run d (drop (if k \<le> a then unat jt else unat jf) rest) a"
| "bpf_run d (Bpf_Ret k # rest) a = Some k"
  by pat_completeness auto
termination
  by (relation "measure (\<lambda>(d, prog, a). length prog)") auto

text \<open>What the program is to decide.\<close>

definition is_handover :: "u32 \<Rightarrow> seccomp_data \<Rightarrow> bool" where
  "is_handover handover_fd d \<longleftrightarrow>
     ucast (sd_args d 0) = handover_fd \<and> ucast (sd_args d 2) = CHAOS_INIT_HANDOVER_FLAGS"

definition filter_notifies :: "abi \<Rightarrow> u32 \<Rightarrow> u32 \<Rightarrow> seccomp_data \<Rightarrow> bool" where
  "filter_notifies abi libs handover_fd d \<longleftrightarrow>
     sd_arch d = abi_audit_arch abi \<and> \<not> (abi_x86_64 abi \<and> 0x40000000 \<le> sd_nr d) \<and>
     sd_nr d \<in> set (collect_calls abi libs) \<and>
     \<not> (sd_nr d = abi_nr abi Sendmsg \<and> is_handover handover_fd d)"

lemma foldl_add_syscall:
  "set (foldl chaos_init_add_syscall calls nrs) = set calls \<union> set nrs \<and>
   length (foldl chaos_init_add_syscall calls nrs) \<le> length calls + length nrs \<and>
   (distinct calls \<longrightarrow> distinct (foldl chaos_init_add_syscall calls nrs))"
proof (induction nrs arbitrary: calls)
  case (Cons nr nrs)
  show ?case
    using Cons [of "chaos_init_add_syscall calls nr"] by (auto simp: chaos_init_add_syscall_def split: if_splits)
qed simp

definition lib_calls :: "abi \<Rightarrow> u32 \<Rightarrow> u32 set" where
  "lib_calls abi libs =
     (if libs AND CHAOS_INIT_LIB_IO \<noteq> 0 then set (g_chaos_init_io_calls abi) else {}) \<union>
     (if libs AND CHAOS_INIT_LIB_NET \<noteq> 0 then set (g_chaos_init_net_calls abi) else {}) \<union>
     (if libs AND CHAOS_INIT_LIB_MEMORY \<noteq> 0 then set (g_chaos_init_memory_calls abi) else {}) \<union>
     (if libs AND CHAOS_INIT_LIB_PROCESS \<noteq> 0 then set (g_chaos_init_process_calls abi) else {})"

lemma collect_calls_props:
  "set (collect_calls abi libs) = lib_calls abi libs" "distinct (collect_calls abi libs)"
  "length (collect_calls abi libs) \<le> 66"
proof -
  show "set (collect_calls abi libs) = lib_calls abi libs"
    by (simp add: collect_calls_def lib_calls_def foldl_add_syscall Let_def Un_assoc)
  show "distinct (collect_calls abi libs)"
    by (simp add: collect_calls_def foldl_add_syscall Let_def)
  have grow: "length nrs \<le> k \<Longrightarrow> length (if b then foldl chaos_init_add_syscall calls nrs else calls) \<le> length calls + k"
    for nrs k b calls
    using foldl_add_syscall [of calls nrs] by auto
  have io: "length (g_chaos_init_io_calls abi) \<le> 28" and net: "length (g_chaos_init_net_calls abi) \<le> 26"
    and mem: "length (g_chaos_init_memory_calls abi) \<le> 4" and proc: "length (g_chaos_init_process_calls abi) \<le> 8"
    by (simp_all add: g_chaos_init_io_calls_def g_chaos_init_net_calls_def g_chaos_init_memory_calls_def
        g_chaos_init_process_calls_def)
  define c0 where "c0 = (if libs AND CHAOS_INIT_LIB_IO \<noteq> 0
      then foldl chaos_init_add_syscall [] (g_chaos_init_io_calls abi) else [])"
  define c1 where "c1 = (if libs AND CHAOS_INIT_LIB_NET \<noteq> 0
      then foldl chaos_init_add_syscall c0 (g_chaos_init_net_calls abi) else c0)"
  define c2 where "c2 = (if libs AND CHAOS_INIT_LIB_MEMORY \<noteq> 0
      then foldl chaos_init_add_syscall c1 (g_chaos_init_memory_calls abi) else c1)"
  have all: "collect_calls abi libs = (if libs AND CHAOS_INIT_LIB_PROCESS \<noteq> 0
      then foldl chaos_init_add_syscall c2 (g_chaos_init_process_calls abi) else c2)"
    by (simp only: collect_calls_def Let_def c0_def c1_def c2_def)
  have "length c0 \<le> length ([] :: u32 list) + 28" unfolding c0_def by (rule grow [OF io])
  moreover have "length c1 \<le> length c0 + 26" unfolding c1_def by (rule grow [OF net])
  moreover have "length c2 \<le> length c1 + 4" unfolding c2_def by (rule grow [OF mem])
  moreover have "length (collect_calls abi libs) \<le> length c2 + 8" unfolding all by (rule grow [OF proc])
  ultimately show "length (collect_calls abi libs) \<le> 66" by simp
qed

lemma set_last_butlast: "xs \<noteq> [] \<Longrightarrow> set (last xs # butlast xs) = set xs"
proof -
  assume "xs \<noteq> []"
  then have "set xs = set (butlast xs @ [last xs])" by simp
  then show ?thesis by simp
qed

lemma take_sendmsg_found: "snd (take_sendmsg nr calls) \<longleftrightarrow> nr \<in> set calls"
  by (induction calls) (auto split: prod.splits)

lemma take_sendmsg_set: "distinct calls \<Longrightarrow> set (fst (take_sendmsg nr calls)) = set calls - {nr}"
proof (induction calls)
  case (Cons c cs)
  show ?case
  proof (cases "c = nr")
    case True
    have "set (fst (take_sendmsg nr (c # cs))) = set cs"
    proof (cases "cs = []")
      case False
      then have "fst (take_sendmsg nr (c # cs)) = last cs # butlast cs" by (simp add: True)
      then show ?thesis using set_last_butlast [OF False] by (simp only:)
    qed (simp add: True)
    moreover have "set (c # cs) - {nr} = set cs" using True Cons.prems by auto
    ultimately show ?thesis by (simp only:)
  next
    case False
    obtain rest found where r: "take_sendmsg nr cs = (rest, found)" by fastforce
    with Cons have "set rest = set cs - {nr}" by simp
    moreover have "set (fst (take_sendmsg nr (c # cs))) = insert c (set rest)" by (simp add: False r)
    ultimately show ?thesis using False by auto
  qed
qed simp

lemma take_sendmsg_length: "length (fst (take_sendmsg nr calls)) \<le> length calls"
  by (induction calls) (auto split: prod.splits)

lemma call_chain_length [simp]: "length (call_chain calls) = length calls"
  by (induction calls) simp_all

text \<open>The linear chain: every hit jumps over the rest of the chain and the \<open>ALLOW\<close> behind it.\<close>

lemma bpf_run_chain:
  "length calls \<le> 255 \<Longrightarrow>
   bpf_run d (call_chain calls @ [Bpf_Ret SECCOMP_RET_ALLOW, Bpf_Ret SECCOMP_RET_USER_NOTIF]) a =
     Some (if a \<in> set calls then SECCOMP_RET_USER_NOTIF else SECCOMP_RET_ALLOW)"
proof (induction calls)
  case (Cons c cs)
  then have "unat (1 + word_of_nat (length cs) :: u8) = Suc (length cs)"
    using unat_of_nat [of "Suc (length cs)", where 'a = 8] by simp
  with Cons show ?case by auto
qed simp

lemma bpf_run_handover:
  "bpf_run d (handover_block abi fd @ rest) a =
     (if a = abi_nr abi Sendmsg
      then Some (if is_handover fd d then SECCOMP_RET_ALLOW else SECCOMP_RET_USER_NOTIF)
      else bpf_run d rest a)"
  by (simp add: handover_block_def is_handover_def)

text \<open>C6. The kernel's decision on every system call is the intended one: for any selection of libraries and
  either architecture the program fits the buffer, always reaches a verdict, notifies the supervisor of
  exactly the system calls of the selected libraries in the native interface, and lets everything else and
  the one handover message through; no jump offset overflows its 8 bits.\<close>

theorem build_filter_decides:
  "chaos_init_build_filter abi libs fd CHAOS_INIT_MAX_FILTER \<noteq> [] \<and>
   length (chaos_init_build_filter abi libs fd CHAOS_INIT_MAX_FILTER) \<le> CHAOS_INIT_MAX_FILTER \<and>
   bpf_run d (chaos_init_build_filter abi libs fd CHAOS_INIT_MAX_FILTER) 0 =
     Some (if filter_notifies abi libs fd d then SECCOMP_RET_USER_NOTIF else SECCOMP_RET_ALLOW)"
proof -
  obtain calls handover where th: "take_sendmsg (abi_nr abi Sendmsg) (collect_calls abi libs) = (calls, handover)"
    by fastforce
  have handover: "handover \<longleftrightarrow> abi_nr abi Sendmsg \<in> set (collect_calls abi libs)"
    using take_sendmsg_found [of "abi_nr abi Sendmsg" "collect_calls abi libs"] th by simp
  have rest: "set calls = set (collect_calls abi libs) - {abi_nr abi Sendmsg}"
    using take_sendmsg_set [OF collect_calls_props(2), of "abi_nr abi Sendmsg" abi libs] th by simp
  have len: "length calls \<le> 66"
    using take_sendmsg_length [of "abi_nr abi Sendmsg" "collect_calls abi libs"] collect_calls_props(3) [of abi libs] th
    by simp
  have mem: "sd_nr d \<in> set calls \<longleftrightarrow> sd_nr d \<in> set (collect_calls abi libs) \<and> sd_nr d \<noteq> abi_nr abi Sendmsg"
    using rest by auto
  have chain: "bpf_run d (call_chain calls @ [Bpf_Ret SECCOMP_RET_ALLOW, Bpf_Ret SECCOMP_RET_USER_NOTIF]) a =
     Some (if a \<in> set calls then SECCOMP_RET_USER_NOTIF else SECCOMP_RET_ALLOW)" for a
    using len by (intro bpf_run_chain) simp
  have filter: "chaos_init_build_filter abi libs fd CHAOS_INIT_MAX_FILTER =
      [Bpf_Load Word_Arch, Bpf_Jeq (abi_audit_arch abi) 1 0, Bpf_Ret SECCOMP_RET_ALLOW, Bpf_Load Word_Nr] @
      (if abi_x86_64 abi then [Bpf_Jge 0x40000000 0 1, Bpf_Ret SECCOMP_RET_ALLOW] else []) @
      (if handover then handover_block abi fd else []) @
      call_chain calls @ [Bpf_Ret SECCOMP_RET_ALLOW, Bpf_Ret SECCOMP_RET_USER_NOTIF]"
    using len by (simp add: chaos_init_build_filter_def th CHAOS_INIT_MAX_FILTER_def)
  have run: "bpf_run d (chaos_init_build_filter abi libs fd CHAOS_INIT_MAX_FILTER) 0 =
     Some (if filter_notifies abi libs fd d then SECCOMP_RET_USER_NOTIF else SECCOMP_RET_ALLOW)"
    unfolding filter using handover mem
    by (cases handover) (auto simp: bpf_run_handover chain filter_notifies_def)
  have "length (chaos_init_build_filter abi libs fd CHAOS_INIT_MAX_FILTER) \<le> CHAOS_INIT_MAX_FILTER"
    unfolding filter using len by (simp add: handover_block_def CHAOS_INIT_MAX_FILTER_def)
  with run show ?thesis unfolding filter by simp
qed

section \<open>Exit code, kernel version, errors\<close>

definition chaos_init_exit_code :: "u32 \<Rightarrow> u32" where
  "chaos_init_exit_code status =
     (if status AND 0x7f = 0 then drop_bit 8 status AND 0xff else 128 + (status AND 0x7f))"

text \<open>One \<open>%u\<close> of \<open>sscanf\<close>: what \<open>strtoul\<close> reads, stored to 32 bits.\<close>

definition scan_u :: "string \<Rightarrow> (nat \<times> string) option" where
  "scan_u s = (let (value, rest, converted) = strtoul s in if converted then Some (value mod 2 ^ 32, rest) else None)"

definition chaos_init_kernel_supported :: "string option \<Rightarrow> bool" where
  "chaos_init_kernel_supported release =
     (case release of
        None \<Rightarrow> False
      | Some r \<Rightarrow>
          (case scan_u r of
             None \<Rightarrow> False
           | Some (major, rest) \<Rightarrow>
               (if rest = [] \<or> hd rest \<noteq> CHR ''.'' then False
                else case scan_u (tl rest) of
                       None \<Rightarrow> False
                     | Some (minor, _) \<Rightarrow> major > 5 \<or> (major = 5 \<and> minor \<ge> 5))))"

definition chaos_init_caller_gone :: "errno \<Rightarrow> bool" where
  "chaos_init_caller_gone error \<longleftrightarrow> error = ENOENT"

definition chaos_init_unsupported_reason :: "errno \<Rightarrow> string" where
  "chaos_init_unsupported_reason error =
     (case error of
        EINVAL \<Rightarrow> ''seccomp user notification not available (emulated architecture?)''
      | ENOSYS \<Rightarrow> ''seccomp not available in this kernel''
      | EACCES \<Rightarrow> ''seccomp refused by the container'' @ [CHR 0x27] @ ''s security settings''
      | EPERM \<Rightarrow> ''seccomp refused by the container'' @ [CHR 0x27] @ ''s security settings''
      | ENOTSUP \<Rightarrow> ''kernel older than 5.5''
      | EOPNOTSUPP \<Rightarrow> ''kernel older than 5.5''
      | _ \<Rightarrow> ''seccomp could not be installed'')"

section \<open>The search for the command\<close>

datatype command_result = Command_Found string | Command_None | Command_Refused

definition candidate :: "string \<Rightarrow> string \<Rightarrow> string" where
  "candidate entry command = entry @ (if entry = [] then [] else ''/'') @ command"

text \<open>\<open>regular\<close> is the test of \<open>stat\<close>, \<open>executable\<close> that of \<open>access\<close>.\<close>

function find_in_path ::
  "(string \<Rightarrow> bool) \<Rightarrow> (string \<Rightarrow> bool) \<Rightarrow> string \<Rightarrow> nat \<Rightarrow> string \<Rightarrow> bool \<Rightarrow> command_result" where
  "find_in_path regular executable command size' path refused =
     (let entry = (case split_first CHR '':'' path of None \<Rightarrow> path | Some (e, _) \<Rightarrow> e);
          out = candidate entry command;
          exists = (length out < size' \<and> regular out)
      in if exists \<and> executable out then Command_Found out
         else case split_first CHR '':'' path of
                None \<Rightarrow> if refused \<or> exists then Command_Refused else Command_None
              | Some (_, rest) \<Rightarrow> find_in_path regular executable command size' rest (refused \<or> exists))"
  by pat_completeness auto
termination
  by (relation "measure (\<lambda>(r, x, c, n, path, f). length path)") (auto simp: split_first_Some_iff)

declare find_in_path.simps [simp del]

definition chaos_init_find_command ::
  "(string \<Rightarrow> bool) \<Rightarrow> (string \<Rightarrow> bool) \<Rightarrow> string option \<Rightarrow> string option \<Rightarrow> nat \<Rightarrow> command_result" where
  "chaos_init_find_command regular executable command path size' =
     (case command of
        None \<Rightarrow> Command_None
      | Some c \<Rightarrow>
          (if c = [] \<or> size' = 0 then Command_None
           else if CHR ''/'' \<in> set c then (if length c < size' then Command_Found c else Command_None)
           else find_in_path regular executable c size'
                  (case path of None \<Rightarrow> ''/usr/local/bin:/usr/bin:/bin'' | Some p \<Rightarrow> p) False))"

text \<open>The fields of a text between separators.\<close>

function fields_of :: "char \<Rightarrow> string \<Rightarrow> string list" where
  "fields_of sep s =
     (case split_first sep s of None \<Rightarrow> [s] | Some (e, rest) \<Rightarrow> e # fields_of sep rest)"
  by pat_completeness auto
termination
  by (relation "measure (\<lambda>(sep, s). length s)") (auto simp: split_first_Some_iff)

declare fields_of.simps [simp del]

lemma fields_of_Nil [simp]: "fields_of sep [] = [[]]"
  by (simp add: fields_of.simps)

lemma fields_of_not_Nil [simp]: "fields_of sep s \<noteq> []"
  by (subst fields_of.simps) (simp split: option.splits)

lemma fields_of_Cons:
  "fields_of sep (c # cs) =
     (if c = sep then [] # fields_of sep cs else (c # hd (fields_of sep cs)) # tl (fields_of sep cs))"
  by (subst fields_of.simps, subst (2) fields_of.simps, subst (3) fields_of.simps) (auto split: option.splits)

lemma find_in_path_search:
  "find_in_path regular executable command size' path refused =
     (let found = filter (\<lambda>out. length out < size' \<and> regular out) (map (\<lambda>e. candidate e command) (fields_of CHR '':'' path))
      in case List.find executable found of
           Some out \<Rightarrow> Command_Found out
         | None \<Rightarrow> if refused \<or> found \<noteq> [] then Command_Refused else Command_None)"
proof (induction regular executable command size' path refused rule: find_in_path.induct)
  case (1 regular executable command size' path refused)
  show ?case
  proof (cases "split_first CHR '':'' path")
    case None
    then show ?thesis
      by (subst find_in_path.simps, subst fields_of.simps) (simp add: Let_def)
  next
    case (Some er)
    obtain e rest where er: "er = (e, rest)" by fastforce
    have step: "find_in_path regular executable command size' path refused =
        (if (length (candidate e command) < size' \<and> regular (candidate e command)) \<and> executable (candidate e command)
         then Command_Found (candidate e command)
         else find_in_path regular executable command size' rest
                (refused \<or> length (candidate e command) < size' \<and> regular (candidate e command)))"
      by (subst find_in_path.simps) (simp add: Some er Let_def)
    have entries: "fields_of CHR '':'' path = e # fields_of CHR '':'' rest"
      by (subst fields_of.simps) (simp add: Some er)
    show ?thesis
      using 1 Some er unfolding step entries by (auto simp: Let_def split: option.splits)
  qed
qed

text \<open>The command is found as \<open>execvp\<close> would find it: the first entry of the path whose file is regular and
  executable wins; permission is reported as the problem exactly when no such entry exists but some entry has
  a regular file of that name; candidates too long for the buffer do not count.\<close>

theorem find_command_search:
  "CHR ''/'' \<notin> set c \<and> c \<noteq> [] \<and> 0 < size' \<longrightarrow>
   chaos_init_find_command regular executable (Some c) (Some path) size' =
     (let found = filter (\<lambda>out. length out < size' \<and> regular out) (map (\<lambda>e. candidate e c) (fields_of CHR '':'' path))
      in case List.find executable found of
           Some out \<Rightarrow> Command_Found out
         | None \<Rightarrow> if found \<noteq> [] then Command_Refused else Command_None)"
  by (simp add: chaos_init_find_command_def find_in_path_search Let_def)

theorem find_command_search_witness:
  "chaos_init_find_command (\<lambda>f. f \<in> {''/a/ls'', ''/b/ls''}) (\<lambda>f. f = ''/b/ls'') (Some ''ls'') (Some ''/a:/b'') 64 =
     Command_Found ''/b/ls''"
proof -
  have "fields_of CHR '':'' ''/a:/b'' = [''/a'', ''/b'']" by (simp add: fields_of.simps)
  then show ?thesis
    using find_command_search [of "''ls''" 64 "\<lambda>f. f \<in> {''/a/ls'', ''/b/ls''}" "\<lambda>f. f = ''/b/ls''" "''/a:/b''"]
    by (simp add: candidate_def)
qed

section \<open>The status file and GODEBUG\<close>

definition lib_names :: "u32 \<Rightarrow> string list" where
  "lib_names libs = map fst (filter (\<lambda>(name, b). libs AND b \<noteq> 0) g_chaos_init_libs)"

definition append_name :: "string \<Rightarrow> string \<Rightarrow> string" where
  "append_name names name = names @ (if names \<noteq> [] then '','' else []) @ name"

text \<open>The text, unless the buffer of \<open>size'\<close> bytes is too small.\<close>

definition chaos_init_format_status :: "nat \<Rightarrow> u32 \<Rightarrow> string option \<Rightarrow> int \<Rightarrow> bool \<Rightarrow> string option" where
  "chaos_init_format_status size' libs reason pid mptcp_off =
     (let names = foldl append_name [] (lib_names libs);
          text' = (case reason of
             None \<Rightarrow> ''state=active'' @ [LF] @ ''libs='' @ names @ [LF] @ ''pid='' @ print_int pid @ [LF] @
               (if mptcp_off then ''mptcp=off'' @ [LF] else [])
           | Some r \<Rightarrow> ''state=unsupported'' @ [LF] @ ''reason='' @ r @ [LF] @ ''libs='' @ names @ [LF] @ ''pid='' @
               print_int pid @ [LF])
      in if size' \<le> length text' then None else Some text')"

text \<open>The search for a setting of the user's own, in the text after \<open>before\<close>: \<open>strstr\<close> stops at every
  occurrence, at which the character before is tested.\<close>

fun has_setting :: "char option \<Rightarrow> string \<Rightarrow> bool" where
  "has_setting before [] = False"
| "has_setting before (c # cs) =
     ((after_prefix ''multipathtcp='' (c # cs) \<noteq> None \<and> (before = None \<or> before = Some CHR '','')) \<or>
      has_setting (Some c) cs)"

definition chaos_init_godebug_mptcp_off :: "string option \<Rightarrow> nat \<Rightarrow> string option" where
  "chaos_init_godebug_mptcp_off current size' =
     (if (case current of None \<Rightarrow> False | Some c \<Rightarrow> has_setting None c) then None
      else let value = (case current of None \<Rightarrow> [] | Some c \<Rightarrow> c) @
                 (if current \<noteq> None \<and> current \<noteq> Some [] then '','' else []) @ ''multipathtcp=0''
           in if length value < size' then Some value else None)"

section \<open>Round trip of the library list\<close>

lemma parse_libs_last: "CHR '','' \<notin> set name \<Longrightarrow> chaos_init_lib_bit name \<noteq> 0 \<Longrightarrow>
    parse_libs name acc = Some (acc OR chaos_init_lib_bit name)"
  by (subst parse_libs.simps) (simp add: split_first_None_iff [THEN iffD2] Let_def)

lemma parse_libs_step: "CHR '','' \<notin> set name \<Longrightarrow> chaos_init_lib_bit name \<noteq> 0 \<Longrightarrow>
    parse_libs (name @ CHR '','' # rest) acc = parse_libs rest (acc OR chaos_init_lib_bit name)"
  by (subst parse_libs.simps) (simp add: split_first_Some_iff [THEN iffD2] Let_def)

lemma foldl_append_name:
  "names \<noteq> [] \<Longrightarrow> foldl append_name names rest = names @ concat (map (\<lambda>n. CHR '','' # n) rest)"
  by (induction rest arbitrary: names) (simp_all add: append_name_def)

lemma parse_libs_names:
  "names \<noteq> [] \<Longrightarrow> \<forall>n \<in> set names. CHR '','' \<notin> set n \<and> n \<noteq> [] \<and> chaos_init_lib_bit n \<noteq> 0 \<Longrightarrow>
   parse_libs (foldl append_name [] names) acc = Some (foldl (\<lambda>a n. a OR chaos_init_lib_bit n) acc names)"
proof (induction names arbitrary: acc)
  case (Cons n ns)
  show ?case
  proof (cases ns)
    case Nil
    with Cons.prems show ?thesis by (simp add: append_name_def parse_libs_last)
  next
    case (Cons m ms)
    have m: "m \<noteq> []" using Cons.prems(2) \<open>ns = m # ms\<close> by simp
    have "foldl append_name [] (n # ns) = n @ CHR '','' # foldl append_name [] ns"
      using Cons.prems(2) m by (simp add: append_name_def foldl_append_name \<open>ns = m # ms\<close>)
    then show ?thesis using Cons.IH [of "acc OR chaos_init_lib_bit n"] Cons.prems \<open>ns = m # ms\<close>
      by (simp add: parse_libs_step)
  qed
qed simp

lemma foldl_or_filter:
  "foldl (\<lambda>a n. a OR f n) acc (map fst (filter P xs)) = foldl (\<lambda>a x. a OR (if P x then f (fst x) else 0)) acc xs"
  for f :: "string \<Rightarrow> u32"
  by (induction xs arbitrary: acc) auto

lemma bit_if_exp: "bit (if c then 2 ^ k else 0 :: u32) n \<longleftrightarrow> c \<and> n = k \<and> k < 32"
  by (auto simp: bit_simps)

lemma lib_bits_sum:
  assumes "libs AND NOT 0x3f = 0"
  shows "foldl (\<lambda>a n. a OR chaos_init_lib_bit n) 0 (lib_names libs) = libs"
proof -
  have m: "(NOT 0x3f :: u32) = NOT (mask 6)" by (simp add: mask_eq_exp_minus_1)
  have high: "n < 6" if b: "bit libs n" for n
  proof (rule ccontr)
    assume "\<not> n < 6"
    moreover have "n < 32" using b bit_imp_le_length by force
    moreover have "\<not> bit (libs AND NOT (mask 6)) n" using assms unfolding m by simp
    ultimately show False using b by (simp add: bit_and_iff bit_not_iff bit_mask_iff)
  qed
  have one: "libs AND (2 ^ k) \<noteq> 0 \<longleftrightarrow> bit libs k" if "k < 32" for k
    using and_exp_eq_0_iff_not_bit [of libs k] by simp
  have "libs AND 1 \<noteq> 0 \<longleftrightarrow> bit libs 0" "libs AND 2 \<noteq> 0 \<longleftrightarrow> bit libs 1" "libs AND 4 \<noteq> 0 \<longleftrightarrow> bit libs 2"
    "libs AND 8 \<noteq> 0 \<longleftrightarrow> bit libs 3" "libs AND 16 \<noteq> 0 \<longleftrightarrow> bit libs 4" "libs AND 32 \<noteq> 0 \<longleftrightarrow> bit libs 5"
    using one [of 0] one [of 1] one [of 2] one [of 3] one [of 4] one [of 5] by simp_all
  then have "foldl (\<lambda>a n. a OR chaos_init_lib_bit n) 0 (lib_names libs) =
      (if bit libs 0 then 2 ^ 0 else 0) OR (if bit libs 1 then 2 ^ 1 else 0) OR (if bit libs 2 then 2 ^ 2 else 0) OR
      (if bit libs 3 then 2 ^ 3 else 0) OR (if bit libs 4 then 2 ^ 4 else 0) OR (if bit libs 5 then 2 ^ 5 else 0)"
    by (simp add: lib_names_def foldl_or_filter g_chaos_init_libs_def chaos_init_lib_bit_def init_lib_defs or.assoc
        del: bit_0)
  also have "\<dots> = libs"
  proof (rule bit_eqI)
    fix n :: nat
    have "n < 6 \<Longrightarrow> n \<in> {0, 1, 2, 3, 4, 5}" by auto
    then show "bit ((if bit libs 0 then 2 ^ 0 else 0 :: u32) OR (if bit libs 1 then 2 ^ 1 else 0) OR
        (if bit libs 2 then 2 ^ 2 else 0) OR (if bit libs 3 then 2 ^ 3 else 0) OR
        (if bit libs 4 then 2 ^ 4 else 0) OR (if bit libs 5 then 2 ^ 5 else 0)) n = bit libs n"
      using high [of n] by (auto simp only: bit_or_iff bit_if_exp)
  qed
  finally show ?thesis .
qed

text \<open>The list of libraries in the status file is one the command line accepts, and selects the same
  libraries again.\<close>

theorem lib_list_roundtrip:
  assumes "libs AND NOT 0x3f = 0" "libs \<noteq> 0"
  shows "chaos_init_parse_args [prog, ''--libs'', foldl append_name [] (lib_names libs), ''--'', command] =
    Some (libs, 4)"
proof -
  have ok: "\<forall>n \<in> set (lib_names libs). CHR '','' \<notin> set n \<and> n \<noteq> [] \<and> chaos_init_lib_bit n \<noteq> 0"
    by (auto simp: lib_names_def g_chaos_init_libs_def chaos_init_lib_bit_def init_lib_defs)
  have "lib_names libs \<noteq> []"
  proof
    assume "lib_names libs = []"
    with lib_bits_sum [OF assms(1)] assms(2) show False by simp
  qed
  from parse_libs_names [OF this ok, of 0] lib_bits_sum [OF assms(1)] show ?thesis
    by (simp add: chaos_init_parse_args_def)
qed

theorem lib_list_roundtrip_witness:
  "chaos_init_parse_args [''chaos-init'', ''--libs'', foldl append_name [] (lib_names 0x12), ''--'', ''sh''] =
    Some (0x12, 4)"
  by (rule lib_list_roundtrip) simp_all

section \<open>The user's own setting\<close>

definition own_setting :: "string \<Rightarrow> bool" where
  "own_setting entry \<longleftrightarrow> after_prefix ''multipathtcp='' entry \<noteq> None"

lemma prefix_field:
  "sep \<notin> set p \<Longrightarrow> after_prefix p s \<noteq> None \<longleftrightarrow> after_prefix p (hd (fields_of sep s)) \<noteq> None"
proof (induction p arbitrary: s)
  case (Cons x p)
  then show ?case by (cases s) (auto simp: fields_of_Cons)
qed simp

lemma has_setting_fields:
  "has_setting before s \<longleftrightarrow>
     (if before = None \<or> before = Some CHR '','' then \<exists>e \<in> set (fields_of CHR '','' s). own_setting e
      else \<exists>e \<in> set (tl (fields_of CHR '','' s)). own_setting e)"
proof (induction s arbitrary: before)
  case Nil
  then show ?case by (simp add: own_setting_def)
next
  case (Cons c cs)
  have first: "after_prefix ''multipathtcp='' (c # cs) \<noteq> None \<longleftrightarrow> own_setting (hd (fields_of CHR '','' (c # cs)))"
    unfolding own_setting_def by (rule prefix_field) simp
  have split: "(\<exists>e \<in> set (fields_of CHR '','' t). own_setting e) \<longleftrightarrow>
      own_setting (hd (fields_of CHR '','' t)) \<or> (\<exists>e \<in> set (tl (fields_of CHR '','' t)). own_setting e)" for t
    by (cases "fields_of CHR '','' t") (use fields_of_not_Nil [of "CHR '',''" t] in auto)
  have tail: "tl (fields_of CHR '','' (c # cs)) = (if c = CHR '','' then fields_of CHR '','' cs else tl (fields_of CHR '','' cs))"
    by (simp add: fields_of_Cons)
  show ?case
    unfolding has_setting.simps first Cons.IH split [of "c # cs"] tail by auto
qed

lemma fields_of_snoc_sep: "fields_of sep (s @ sep # t) = fields_of sep s @ fields_of sep t"
proof (induction s)
  case Nil
  then show ?case by (simp add: fields_of_Cons)
next
  case (Cons c cs)
  then show ?case by (simp add: fields_of_Cons)
qed

text \<open>A user's own \<open>multipathtcp\<close> setting always wins: a value is produced only if no entry of the list is
  one, a mere substring does not count, and the value keeps every entry and adds the setting at the end.\<close>

theorem godebug_respects_user:
  "case chaos_init_godebug_mptcp_off (Some s) size' of
     None \<Rightarrow> (\<exists>e \<in> set (fields_of CHR '','' s). own_setting e) \<or> size' \<le> length s + length '',multipathtcp=0''
   | Some value \<Rightarrow> (\<forall>e \<in> set (fields_of CHR '','' s). \<not> own_setting e) \<and> length value < size' \<and>
       fields_of CHR '','' value =
         (if s = [] then [] else fields_of CHR '','' s) @ [''multipathtcp=0'']"
proof -
  have user: "has_setting None s \<longleftrightarrow> (\<exists>e \<in> set (fields_of CHR '','' s). own_setting e)"
    by (simp add: has_setting_fields)
  have last: "fields_of CHR '','' ''multipathtcp=0'' = [''multipathtcp=0'']"
    by (simp add: fields_of.simps)
  show ?thesis
    using user by (auto simp: chaos_init_godebug_mptcp_off_def fields_of_snoc_sep last Let_def)
qed

theorem godebug_respects_user_witness:
  "chaos_init_godebug_mptcp_off (Some ''a=1,xmultipathtcp=1'') 64 = Some ''a=1,xmultipathtcp=1,multipathtcp=0'' \<and>
    \<not> (\<exists>e \<in> set (fields_of CHR '','' ''a=1,xmultipathtcp=1''). own_setting e)"
proof -
  have v: "chaos_init_godebug_mptcp_off (Some ''a=1,xmultipathtcp=1'') 64 = Some ''a=1,xmultipathtcp=1,multipathtcp=0''"
    by (simp add: chaos_init_godebug_mptcp_off_def)
  with godebug_respects_user [of "''a=1,xmultipathtcp=1''" 64] show ?thesis by auto
qed

end
