(* ===== verification/Init_Supervisor.thy ===== *)
theory Init_Supervisor
  imports Init_Core "HOL-Library.Multiset"
begin

text \<open>
  The answering of notified system calls in \<open>chaos-init\<close>: the queue of parked calls
  (\<open>src/init/chaos_init_delay.c\<close>) and the two handlers of the event loop that use it,
  \<open>chaos_init_answer\<close> and \<open>chaos_init_on_time\<close> (\<open>src/init/chaos_init.c\<close>). The deciders of the
  libraries are parameters here: functions from a call to whether they claim it and their verdict.
  The writing of "nothing ready" into the caller's buffers (\<open>chaos_init_net_commit\<close>) and the flush of
  the tracee's counters have no effect on the answers and are left out.
\<close>

section \<open>Calls and verdicts\<close>

record chaos_init_call =
  call_tid :: int
  call_nr :: int
  call_args :: "u64 list"

datatype chaos_init_action = CHAOS_INIT_PASS | CHAOS_INIT_FAIL | CHAOS_INIT_DELAY | CHAOS_INIT_RETURN

record chaos_init_verdict =
  vd_action :: chaos_init_action
  vd_error :: int
  vd_delay_ms :: u32
  vd_value :: int
  vd_returns :: bool
  vd_clear_ready :: bool

definition pass_verdict :: chaos_init_verdict where
  "pass_verdict = \<lparr>vd_action = CHAOS_INIT_PASS, vd_error = 0, vd_delay_ms = 0, vd_value = 0, vd_returns = False,
     vd_clear_ready = False\<rparr>"

section \<open>The queue of parked calls\<close>

record chaos_init_delayed =
  dl_id :: u64
  dl_call :: chaos_init_call
  dl_due_ms :: u64
  dl_answer :: chaos_init_verdict

definition CHAOS_INIT_MAX_DELAYED :: nat where "CHAOS_INIT_MAX_DELAYED = 1024"

definition chaos_init_delay_answer :: "chaos_init_verdict \<Rightarrow> chaos_init_verdict" where
  "chaos_init_delay_answer verdict =
     verdict\<lparr>vd_action := (if vd_error verdict \<noteq> 0 then CHAOS_INIT_FAIL
                           else if vd_returns verdict then CHAOS_INIT_RETURN else CHAOS_INIT_PASS),
             vd_delay_ms := 0\<rparr>"

text \<open>The queue afterwards, unless it is full.\<close>

definition chaos_init_delay_add ::
  "u64 \<Rightarrow> chaos_init_call \<Rightarrow> u64 \<Rightarrow> chaos_init_verdict \<Rightarrow> chaos_init_delayed list \<Rightarrow> chaos_init_delayed list option" where
  "chaos_init_delay_add i call due answer queue =
     (if length queue = CHAOS_INIT_MAX_DELAYED then None
      else Some (queue @ [\<lparr>dl_id = i, dl_call = call, dl_due_ms = due, dl_answer = answer\<rparr>]))"

definition same_call :: "chaos_init_call \<Rightarrow> chaos_init_call \<Rightarrow> bool" where
  "same_call parked call \<longleftrightarrow>
     call_tid parked = call_tid call \<and> call_nr parked = call_nr call \<and> call_args parked = call_args call"

text \<open>The queue with the first matching entry under the new id.\<close>

fun chaos_init_delay_resume ::
  "chaos_init_call \<Rightarrow> u64 \<Rightarrow> chaos_init_delayed list \<Rightarrow> chaos_init_delayed list option" where
  "chaos_init_delay_resume call i [] = None"
| "chaos_init_delay_resume call i (e # queue) =
     (if same_call (dl_call e) call then Some (e\<lparr>dl_id := i\<rparr> # queue)
      else map_option (\<lambda>q. e # q) (chaos_init_delay_resume call i queue))"

definition chaos_init_delay_next :: "chaos_init_delayed list \<Rightarrow> u64 option" where
  "chaos_init_delay_next queue =
     (case queue of
        [] \<Rightarrow> None
      | e # rest \<Rightarrow> Some (foldl (\<lambda>due x. if dl_due_ms x < due then dl_due_ms x else due) (dl_due_ms e) rest))"

text \<open>The first due entry and the queue without it: the last entry takes its place.\<close>

fun pop_due :: "u64 \<Rightarrow> chaos_init_delayed list \<Rightarrow> (chaos_init_delayed \<times> chaos_init_delayed list) option" where
  "pop_due now [] = None"
| "pop_due now (e # queue) =
     (if dl_due_ms e \<le> now then Some (e, if queue = [] then [] else last queue # butlast queue)
      else map_option (\<lambda>(x, q). (x, e # q)) (pop_due now queue))"

definition chaos_init_delay_pop ::
  "u64 \<Rightarrow> chaos_init_delayed list \<Rightarrow> (u64 \<times> chaos_init_verdict \<times> chaos_init_delayed list) option" where
  "chaos_init_delay_pop now queue = map_option (\<lambda>(e, q). (dl_id e, dl_answer e, q)) (pop_due now queue)"

lemma mset_last_butlast: "xs \<noteq> [] \<Longrightarrow> mset (last xs # butlast xs) = mset xs"
  by (metis append_butlast_last_id mset.simps(2) mset_append union_mset_add_mset_right mset.simps(1) add.right_neutral)

lemma pop_due_Some: "pop_due now queue = Some (e, q) \<Longrightarrow> dl_due_ms e \<le> now \<and> mset queue = add_mset e (mset q)"
proof (induction queue arbitrary: q)
  case (Cons x xs)
  show ?case
  proof (cases "dl_due_ms x \<le> now")
    case True
    with Cons.prems have "x = e" "q = (if xs = [] then [] else last xs # butlast xs)" by auto
    with True mset_last_butlast [of xs] show ?thesis by (cases "xs = []") (simp_all only: if_True if_False mset.simps simp_thms)
  next
    case False
    with Cons show ?thesis by auto
  qed
qed simp

lemma pop_due_None: "pop_due now queue = None \<longleftrightarrow> (\<forall>e \<in> set queue. now < dl_due_ms e)"
  by (induction queue) (auto simp: not_le)

lemma pop_due_shorter: "pop_due now queue = Some (e, q) \<Longrightarrow> length q < length queue"
  using pop_due_Some [of now queue e q] by (metis size_mset size_add_mset lessI)

text \<open>The entries of a queue, as the handlers rely on them.\<close>

locale delay_queue =
  fixes entries :: "'q \<Rightarrow> chaos_init_delayed multiset"
    and add :: "u64 \<Rightarrow> chaos_init_call \<Rightarrow> u64 \<Rightarrow> chaos_init_verdict \<Rightarrow> 'q \<Rightarrow> 'q option"
    and pop :: "u64 \<Rightarrow> 'q \<Rightarrow> (u64 \<times> chaos_init_verdict \<times> 'q) option"
  assumes add_entries: "add i call due answer q = Some q' \<Longrightarrow>
      entries q' = add_mset \<lparr>dl_id = i, dl_call = call, dl_due_ms = due, dl_answer = answer\<rparr> (entries q)"
    and pop_entries: "pop now q = Some (i, answer, q') \<Longrightarrow>
      \<exists>e. dl_id e = i \<and> dl_answer e = answer \<and> dl_due_ms e \<le> now \<and> entries q = add_mset e (entries q')"
    and pop_none: "pop now q = None \<longleftrightarrow> (\<forall>e \<in># entries q. now < dl_due_ms e)"
begin

text \<open>Popping until nothing is due gives the due entries, each once, and leaves the others.\<close>

lemma drained:
  assumes "\<And>q. drain q = (case pop now q of None \<Rightarrow> ([], q)
      | Some (i, answer, q') \<Rightarrow> (let (out, q'') = drain q' in ((i, answer) # out, q'')))"
  shows "mset (fst (drain q)) = image_mset (\<lambda>e. (dl_id e, dl_answer e)) (filter_mset (\<lambda>e. dl_due_ms e \<le> now) (entries q)) \<and>
    entries (snd (drain q)) = filter_mset (\<lambda>e. now < dl_due_ms e) (entries q)"
proof (induction "size (entries q)" arbitrary: q rule: less_induct)
  case less
  show ?case
  proof (cases "pop now q")
    case None
    then have late: "\<forall>e \<in># entries q. now < dl_due_ms e" by (simp add: pop_none)
    then have "filter_mset (\<lambda>e. dl_due_ms e \<le> now) (entries q) = {#}" by (auto simp: filter_mset_eq_mempty_iff not_le)
    moreover have "filter_mset (\<lambda>e. now < dl_due_ms e) (entries q) = entries q"
      using late by (simp add: filter_mset_eq_conv)
    ultimately show ?thesis by (subst (1 2) assms) (simp add: None)
  next
    case (Some r)
    obtain i answer q' where r: "r = (i, answer, q')" by (cases r)
    with Some pop_entries obtain e where e: "dl_id e = i" "dl_answer e = answer" "dl_due_ms e \<le> now"
      "entries q = add_mset e (entries q')" by blast
    obtain out q'' where d: "drain q' = (out, q'')" by fastforce
    have "drain q = ((i, answer) # out, q'')" by (subst assms) (simp add: Some r d)
    moreover have "size (entries q') < size (entries q)" by (simp add: e(4))
    note ih = less [OF this, unfolded d]
    ultimately show ?thesis using ih e by auto
  qed
qed

end

interpretation init_queue: delay_queue mset chaos_init_delay_add chaos_init_delay_pop
proof
  fix i call due answer q q'
  assume "chaos_init_delay_add i call due answer q = Some q'"
  then show "mset q' = add_mset \<lparr>dl_id = i, dl_call = call, dl_due_ms = due, dl_answer = answer\<rparr> (mset q)"
    by (auto simp: chaos_init_delay_add_def split: if_splits)
next
  fix now q i answer q'
  assume "chaos_init_delay_pop now q = Some (i, answer, q')"
  then show "\<exists>e. dl_id e = i \<and> dl_answer e = answer \<and> dl_due_ms e \<le> now \<and> mset q = add_mset e (mset q')"
    using pop_due_Some by (auto simp: chaos_init_delay_pop_def)
next
  fix now q
  show "chaos_init_delay_pop now q = None \<longleftrightarrow> (\<forall>e \<in># mset q. now < dl_due_ms e)"
    by (simp add: chaos_init_delay_pop_def pop_due_None)
qed

section \<open>Replies\<close>

datatype notif_reply = Reply_Error int | Reply_Value int | Reply_Continue

definition chaos_init_reply :: "chaos_init_verdict \<Rightarrow> notif_reply" where
  "chaos_init_reply verdict =
     (if vd_action verdict = CHAOS_INIT_FAIL then Reply_Error (- vd_error verdict)
      else if vd_action verdict = CHAOS_INIT_RETURN then Reply_Value (vd_value verdict)
      else Reply_Continue)"

section \<open>The handlers\<close>

text \<open>The deciders in the order they are asked; each says whether it claims the call, with a verdict.\<close>

record deciders =
  dec_net :: "chaos_init_call \<Rightarrow> bool \<times> chaos_init_verdict"
  dec_io :: "chaos_init_call \<Rightarrow> bool \<times> chaos_init_verdict"
  dec_memory :: "chaos_init_call \<Rightarrow> bool \<times> chaos_init_verdict"
  dec_process :: "chaos_init_call \<Rightarrow> bool \<times> chaos_init_verdict"

text \<open>Whether the library is selected and claims the call. A decider that does not claim a call leaves the
  verdict alone.\<close>

definition claims_call :: "u32 \<Rightarrow> u32 \<Rightarrow> bool \<times> chaos_init_verdict \<Rightarrow> bool" where
  "claims_call libs lib answer \<longleftrightarrow> libs AND lib \<noteq> 0 \<and> fst answer"

definition decide_call :: "deciders \<Rightarrow> u32 \<Rightarrow> chaos_init_call \<Rightarrow> chaos_init_verdict" where
  "decide_call dec libs call =
     (if claims_call libs CHAOS_INIT_LIB_NET (dec_net dec call) then snd (dec_net dec call)
      else if claims_call libs CHAOS_INIT_LIB_IO (dec_io dec call) then snd (dec_io dec call)
      else if claims_call libs CHAOS_INIT_LIB_MEMORY (dec_memory dec call) then snd (dec_memory dec call)
      else if claims_call libs CHAOS_INIT_LIB_PROCESS (dec_process dec call) then snd (dec_process dec call)
      else pass_verdict)"

text \<open>The supervisor: the queue and the replies sent, latest first, with the time of each. The other fields
  are ghosts: the notifications received, those dropped since their caller is gone, and those whose
  parked call came back under a newer id.\<close>

record supervisor =
  sv_queue :: "chaos_init_delayed list"
  sv_replies :: "(u64 \<times> notif_reply \<times> u64) list"
  sv_received :: "u64 list"
  sv_dropped :: "u64 list"
  sv_withdrawn :: "u64 list"

definition supervisor_start :: supervisor where
  "supervisor_start = \<lparr>sv_queue = [], sv_replies = [], sv_received = [], sv_dropped = [], sv_withdrawn = []\<rparr>"

text \<open>The id the resumed call was parked under.\<close>

definition parked_id :: "chaos_init_call \<Rightarrow> chaos_init_delayed list \<Rightarrow> u64 option" where
  "parked_id call queue = map_option dl_id (List.find (\<lambda>e. same_call (dl_call e) call) queue)"

definition send_reply :: "u64 \<Rightarrow> chaos_init_verdict \<Rightarrow> u64 \<Rightarrow> supervisor \<Rightarrow> supervisor" where
  "send_reply i verdict now sv = sv\<lparr>sv_replies := (i, chaos_init_reply verdict, now) # sv_replies sv\<rparr>"

text \<open>\<open>received\<close> is \<open>None\<close> when the receiving ioctl fails; \<open>gone\<close> is the error of the validity check, if it fails.\<close>

definition chaos_init_answer ::
  "deciders \<Rightarrow> u32 \<Rightarrow> (u64 \<times> chaos_init_call) option \<Rightarrow> errno option \<Rightarrow> u64 \<Rightarrow> supervisor \<Rightarrow> supervisor" where
  "chaos_init_answer dec libs received gone now sv0 =
     (case received of
        None \<Rightarrow> sv0
      | Some (i, call) \<Rightarrow>
          (let sv = sv0\<lparr>sv_received := i # sv_received sv0\<rparr>
           in case chaos_init_delay_resume call i (sv_queue sv) of
                Some queue \<Rightarrow>
                  sv\<lparr>sv_queue := queue,
                     sv_withdrawn := (case parked_id call (sv_queue sv) of None \<Rightarrow> [] | Some j \<Rightarrow> [j]) @ sv_withdrawn sv\<rparr>
              | None \<Rightarrow>
                  (let verdict = decide_call dec libs call
                   in if vd_action verdict \<noteq> CHAOS_INIT_PASS \<and>
                         (case gone of None \<Rightarrow> False | Some e \<Rightarrow> chaos_init_caller_gone e)
                      then sv\<lparr>sv_dropped := i # sv_dropped sv\<rparr>
                      else if vd_action verdict = CHAOS_INIT_DELAY then
                        (case chaos_init_delay_add i call (now + ucast (vd_delay_ms verdict) + 1)
                                (chaos_init_delay_answer verdict) (sv_queue sv) of
                           Some queue \<Rightarrow> sv\<lparr>sv_queue := queue\<rparr>
                         | None \<Rightarrow> send_reply i (chaos_init_delay_answer verdict) now sv)
                      else send_reply i verdict now sv)))"

function drain_due :: "u64 \<Rightarrow> chaos_init_delayed list \<Rightarrow> (u64 \<times> chaos_init_verdict) list \<times> chaos_init_delayed list" where
  "drain_due now queue =
     (case chaos_init_delay_pop now queue of
        None \<Rightarrow> ([], queue)
      | Some (i, answer, rest) \<Rightarrow> (let (out, left) = drain_due now rest in ((i, answer) # out, left)))"
  by pat_completeness auto
termination
  by (relation "measure (\<lambda>(now, queue). length queue)")
    (auto simp: chaos_init_delay_pop_def dest: pop_due_shorter)

declare drain_due.simps [simp del]

text \<open>The replies of the timer, and the time it is set to, 0 for none. The counters' flush is left out.\<close>

definition chaos_init_on_time :: "u64 \<Rightarrow> supervisor \<Rightarrow> supervisor \<times> u64" where
  "chaos_init_on_time now sv =
     (let (out, left) = drain_due now (sv_queue sv);
          due = (case chaos_init_delay_next left of None \<Rightarrow> 0 | Some d \<Rightarrow> d)
      in (foldl (\<lambda>s (i, answer). send_reply i answer now s) (sv\<lparr>sv_queue := left\<rparr>) out,
          if due \<noteq> 0 then (if now < due then due else now + 1) else 0))"

inductive supervisor_reachable :: "deciders \<Rightarrow> u32 \<Rightarrow> supervisor \<Rightarrow> bool" for dec libs where
  sv_start: "supervisor_reachable dec libs supervisor_start"
| sv_answer: "supervisor_reachable dec libs sv \<Longrightarrow>
    supervisor_reachable dec libs (chaos_init_answer dec libs received gone now sv)"
| sv_timer: "supervisor_reachable dec libs sv \<Longrightarrow> supervisor_reachable dec libs (fst (chaos_init_on_time now sv))"

section \<open>Every notification is answered once\<close>

definition accounted :: "supervisor \<Rightarrow> bool" where
  "accounted sv \<longleftrightarrow>
     mset (sv_received sv) =
       mset (map fst (sv_replies sv)) + mset (map dl_id (sv_queue sv)) + mset (sv_dropped sv) + mset (sv_withdrawn sv) \<and>
     length (sv_queue sv) \<le> CHAOS_INIT_MAX_DELAYED \<and>
     (\<forall>e \<in> set (sv_queue sv). vd_action (dl_answer e) \<noteq> CHAOS_INIT_DELAY)"

lemma resume_Some:
  "chaos_init_delay_resume call i queue = Some q \<Longrightarrow>
   \<exists>e before after. queue = before @ e # after \<and> q = before @ e\<lparr>dl_id := i\<rparr> # after \<and>
     same_call (dl_call e) call \<and> parked_id call queue = Some (dl_id e)"
proof (induction queue arbitrary: q)
  case (Cons x xs)
  show ?case
  proof (cases "same_call (dl_call x) call")
    case True
    with Cons.prems show ?thesis by (intro exI [of _ x] exI [of _ "[]"] exI [of _ xs]) (simp add: parked_id_def)
  next
    case False
    with Cons.prems obtain q' where q': "chaos_init_delay_resume call i xs = Some q'" "q = x # q'" by auto
    from Cons.IH [OF q'(1)] obtain e before after where
      x: "xs = before @ e # after" "q' = before @ e\<lparr>dl_id := i\<rparr> # after" "same_call (dl_call e) call"
        "parked_id call xs = Some (dl_id e)" by blast
    have "parked_id call (x # xs) = parked_id call xs" by (simp add: parked_id_def False)
    with x q'(2) have "x # xs = (x # before) @ e # after \<and> q = (x # before) @ e\<lparr>dl_id := i\<rparr> # after \<and>
        same_call (dl_call e) call \<and> parked_id call (x # xs) = Some (dl_id e)"
      by (simp only: append_Cons simp_thms)
    then show ?thesis by blast
  qed
qed simp

lemma send_reply_simps [simp]:
  "sv_queue (send_reply i v now sv) = sv_queue sv" "sv_received (send_reply i v now sv) = sv_received sv"
  "sv_dropped (send_reply i v now sv) = sv_dropped sv" "sv_withdrawn (send_reply i v now sv) = sv_withdrawn sv"
  "sv_replies (send_reply i v now sv) = (i, chaos_init_reply v, now) # sv_replies sv"
  by (simp_all add: send_reply_def)

lemma delay_answer_action: "vd_action (chaos_init_delay_answer v) \<noteq> CHAOS_INIT_DELAY"
  by (simp add: chaos_init_delay_answer_def)

lemma accounted_answer:
  assumes "accounted sv"
  shows "accounted (chaos_init_answer dec libs received gone now sv)"
proof (cases received)
  case None
  with assms show ?thesis by (simp add: chaos_init_answer_def)
next
  case (Some ic)
  obtain i call where ic: "ic = (i, call)" by fastforce
  show ?thesis
  proof (cases "chaos_init_delay_resume call i (sv_queue sv)")
    case (Some q)
    from resume_Some [OF this] obtain e before after where
      "sv_queue sv = before @ e # after" "q = before @ e\<lparr>dl_id := i\<rparr> # after" "parked_id call (sv_queue sv) = Some (dl_id e)"
      by blast
    with assms Some \<open>received = Some ic\<close> ic show ?thesis
      by (simp add: accounted_def chaos_init_answer_def Let_def)
  next
    case None
    define verdict where "verdict = decide_call dec libs call"
    consider (drop) "vd_action verdict \<noteq> CHAOS_INIT_PASS \<and> (case gone of None \<Rightarrow> False | Some e \<Rightarrow> chaos_init_caller_gone e)"
      | (park) "\<not> (vd_action verdict \<noteq> CHAOS_INIT_PASS \<and> (case gone of None \<Rightarrow> False | Some e \<Rightarrow> chaos_init_caller_gone e))"
        "vd_action verdict = CHAOS_INIT_DELAY"
      | (reply) "\<not> (vd_action verdict \<noteq> CHAOS_INIT_PASS \<and> (case gone of None \<Rightarrow> False | Some e \<Rightarrow> chaos_init_caller_gone e))"
        "vd_action verdict \<noteq> CHAOS_INIT_DELAY" by blast
    then show ?thesis
    proof cases
      case park
      then show ?thesis
        using assms \<open>received = Some ic\<close> ic None delay_answer_action [of verdict]
        by (simp add: accounted_def chaos_init_answer_def chaos_init_delay_add_def Let_def flip: verdict_def)
    qed (use assms \<open>received = Some ic\<close> ic None in
        \<open>simp_all add: accounted_def chaos_init_answer_def Let_def flip: verdict_def\<close>)
  qed
qed

lemma drain_due_queue:
  "mset (fst (drain_due now q)) = image_mset (\<lambda>e. (dl_id e, dl_answer e)) (filter_mset (\<lambda>e. dl_due_ms e \<le> now) (mset q))"
  "mset (snd (drain_due now q)) = filter_mset (\<lambda>e. now < dl_due_ms e) (mset q)"
  using init_queue.drained [of "drain_due now" now q, OF drain_due.simps] by simp_all

lemma foldl_send:
  "sv_queue (foldl (\<lambda>s (i, answer). send_reply i answer now s) sv out) = sv_queue sv \<and>
   sv_received (foldl (\<lambda>s (i, answer). send_reply i answer now s) sv out) = sv_received sv \<and>
   sv_dropped (foldl (\<lambda>s (i, answer). send_reply i answer now s) sv out) = sv_dropped sv \<and>
   sv_withdrawn (foldl (\<lambda>s (i, answer). send_reply i answer now s) sv out) = sv_withdrawn sv \<and>
   sv_replies (foldl (\<lambda>s (i, answer). send_reply i answer now s) sv out) =
     rev (map (\<lambda>(i, answer). (i, chaos_init_reply answer, now)) out) @ sv_replies sv"
  by (induction out arbitrary: sv) auto

lemma due_or_late: "filter_mset (\<lambda>e. dl_due_ms e \<le> now) M + filter_mset (\<lambda>e. now < dl_due_ms e) M = M"
  by (metis (mono_tags, lifting) filter_mset_cong multiset_partition not_le)

lemma accounted_timer:
  assumes "accounted sv"
  shows "accounted (fst (chaos_init_on_time now sv))"
proof -
  obtain out left where d: "drain_due now (sv_queue sv) = (out, left)" by fastforce
  note q = drain_due_queue [of now "sv_queue sv", unfolded d fst_conv snd_conv]
  have ids: "mset (map dl_id (sv_queue sv)) = mset (map fst out) + mset (map dl_id left)"
  proof -
    have "mset (map dl_id (sv_queue sv)) =
        image_mset dl_id (filter_mset (\<lambda>e. dl_due_ms e \<le> now) (mset (sv_queue sv)) +
          filter_mset (\<lambda>e. now < dl_due_ms e) (mset (sv_queue sv)))"
      by (simp only: due_or_late mset_map)
    also have "\<dots> = image_mset fst (mset out) + image_mset dl_id (mset left)"
      by (simp add: q image_mset.compositionality comp_def)
    finally show ?thesis by simp
  qed
  have "size (mset left) \<le> size (mset (sv_queue sv))" unfolding q(2) by (rule size_filter_mset_lesseq)
  moreover have "set_mset (mset left) \<subseteq> set_mset (mset (sv_queue sv))" unfolding q(2) by auto
  ultimately show ?thesis
    using assms ids
    by (auto simp: accounted_def chaos_init_on_time_def d foldl_send rev_map comp_def case_prod_beta Let_def)
qed

lemma supervisor_reachable_accounted: "supervisor_reachable dec libs sv \<Longrightarrow> accounted sv"
proof (induction rule: supervisor_reachable.induct)
  case sv_start
  show ?case by (simp add: accounted_def supervisor_start_def)
qed (use accounted_answer accounted_timer in \<open>blast+\<close>)

text \<open>C18. No notified call is forgotten or answered twice: at any time every notification received was replied to,
  is parked, was dropped because its caller is gone, or came back under a newer id, each exactly once; at
  most 1024 are parked, and none of them with a verdict that would park it again.\<close>

theorem supervisor_answers_once:
  assumes "supervisor_reachable dec libs sv"
  shows "mset (sv_received sv) =
      mset (map fst (sv_replies sv)) + mset (map dl_id (sv_queue sv)) + mset (sv_dropped sv) + mset (sv_withdrawn sv) \<and>
    length (sv_queue sv) \<le> CHAOS_INIT_MAX_DELAYED \<and>
    list_all (\<lambda>e. vd_action (dl_answer e) \<noteq> CHAOS_INIT_DELAY) (sv_queue sv)"
  using supervisor_reachable_accounted [OF assms] by (simp add: accounted_def list_all_iff)

definition demo_call :: chaos_init_call where
  "demo_call = \<lparr>call_tid = 7, call_nr = 42, call_args = [3, 0, 0, 0, 0, 0]\<rparr>"

text \<open>The network decider delays every call by 50 ms and fails it then with errno 111.\<close>

definition demo_deciders :: deciders where
  "demo_deciders =
     \<lparr>dec_net = (\<lambda>call. (True, pass_verdict\<lparr>vd_action := CHAOS_INIT_DELAY, vd_error := 111, vd_delay_ms := 50\<rparr>)),
      dec_io = (\<lambda>call. (False, pass_verdict)), dec_memory = (\<lambda>call. (False, pass_verdict)),
      dec_process = (\<lambda>call. (False, pass_verdict))\<rparr>"

definition demo_parked :: supervisor where
  "demo_parked = chaos_init_answer demo_deciders 3 (Some (9, demo_call)) None 1000 supervisor_start"

lemma demo_parked_reachable: "supervisor_reachable demo_deciders 3 demo_parked"
  unfolding demo_parked_def by (intro sv_answer sv_start)

theorem supervisor_answers_once_witness:
  "mset (sv_received demo_parked) =
      mset (map fst (sv_replies demo_parked)) + mset (map dl_id (sv_queue demo_parked)) + mset (sv_dropped demo_parked) +
      mset (sv_withdrawn demo_parked) \<and>
    length (sv_queue demo_parked) \<le> CHAOS_INIT_MAX_DELAYED \<and>
    list_all (\<lambda>e. vd_action (dl_answer e) \<noteq> CHAOS_INIT_DELAY) (sv_queue demo_parked)"
  by (rule supervisor_answers_once [OF demo_parked_reachable])

section \<open>Delays\<close>

lemma delay_next_Min:
  "chaos_init_delay_next queue = (if queue = [] then None else Some (Min (dl_due_ms ` set queue)))"
proof -
  have "foldl (\<lambda>due x. if dl_due_ms x < due then dl_due_ms x else due) d xs = Min (insert d (dl_due_ms ` set xs))" for d xs
  proof (induction xs arbitrary: d)
    case (Cons x xs)
    have "(if dl_due_ms x < d then dl_due_ms x else d) = min d (dl_due_ms x)"
      by (metis less_imp_le min.absorb1 min.absorb2 not_less)
    then have "foldl (\<lambda>due x. if dl_due_ms x < due then dl_due_ms x else due) d (x # xs) =
        Min (insert (min d (dl_due_ms x)) (dl_due_ms ` set xs))"
      by (simp only: foldl_Cons Cons.IH)
    moreover have "Min (insert (min d a) S) = Min (insert d (insert a S))" if "finite S" for a and S :: "u64 set"
      using that by (cases "S = {}") (simp_all add: min.assoc)
    ultimately show ?case by (simp only: list.set image_insert finite_imageI finite_set)
  qed simp
  then show ?thesis by (cases queue) (simp_all add: chaos_init_delay_next_def)
qed

text \<open>The timer answers exactly the parked calls that are due, each with its own answer, keeps the others, and is
  then set to the earliest due time left, or switched off when nothing is parked.\<close>

theorem timer_answers_due:
  "mset (sv_queue (fst (chaos_init_on_time now sv))) = filter_mset (\<lambda>e. now < dl_due_ms e) (mset (sv_queue sv)) \<and>
   mset (sv_replies (fst (chaos_init_on_time now sv))) =
     image_mset (\<lambda>e. (dl_id e, chaos_init_reply (dl_answer e), now)) (filter_mset (\<lambda>e. dl_due_ms e \<le> now) (mset (sv_queue sv))) +
     mset (sv_replies sv) \<and>
   snd (chaos_init_on_time now sv) =
     (if sv_queue (fst (chaos_init_on_time now sv)) = [] then 0
      else Min (dl_due_ms ` set (sv_queue (fst (chaos_init_on_time now sv)))))"
proof -
  obtain out left where d: "drain_due now (sv_queue sv) = (out, left)" by fastforce
  note q = drain_due_queue [of now "sv_queue sv", unfolded d fst_conv snd_conv]
  have fst': "fst (chaos_init_on_time now sv) = foldl (\<lambda>s (i, answer). send_reply i answer now s) (sv\<lparr>sv_queue := left\<rparr>) out"
    by (simp add: chaos_init_on_time_def d Let_def)
  have queue: "sv_queue (fst (chaos_init_on_time now sv)) = left" by (simp add: fst' foldl_send)
  have "mset (sv_replies (fst (chaos_init_on_time now sv))) =
      image_mset (\<lambda>(i, answer). (i, chaos_init_reply answer, now)) (mset out) + mset (sv_replies sv)"
    by (simp add: fst' foldl_send)
  also have "image_mset (\<lambda>(i, answer). (i, chaos_init_reply answer, now)) (mset out) =
      image_mset (\<lambda>e. (dl_id e, chaos_init_reply (dl_answer e), now)) (filter_mset (\<lambda>e. dl_due_ms e \<le> now) (mset (sv_queue sv)))"
    by (simp add: q image_mset.compositionality comp_def)
  finally have replies: "mset (sv_replies (fst (chaos_init_on_time now sv))) =
      image_mset (\<lambda>e. (dl_id e, chaos_init_reply (dl_answer e), now)) (filter_mset (\<lambda>e. dl_due_ms e \<le> now) (mset (sv_queue sv))) +
      mset (sv_replies sv)" .
  have late: "now < dl_due_ms e" if "e \<in> set left" for e
    using q(2) that by (metis filter_mset_eq_conv filter_filter_mset set_mset_mset mem_Collect_eq set_mset_filter)
  have "snd (chaos_init_on_time now sv) = (if left = [] then 0 else Min (dl_due_ms ` set left))"
  proof (cases "left = []")
    case True
    then show ?thesis by (simp add: chaos_init_on_time_def d delay_next_Min Let_def)
  next
    case False
    then have "Min (dl_due_ms ` set left) \<in> dl_due_ms ` set left" by simp
    with late have "now < Min (dl_due_ms ` set left)" by auto
    moreover from this have "Min (dl_due_ms ` set left) \<noteq> 0" by auto
    ultimately show ?thesis using False by (simp add: chaos_init_on_time_def d delay_next_Min Let_def)
  qed
  with q(2) replies show ?thesis unfolding queue by simp
qed



end
