(* ===== verification/Spec2Isabelle.thy ===== *)
theory Spec2Isabelle
  imports Io_Reload Io_Hooks Net_Actions Dns_Hostent Net_Reload Dns_Reload Time_Regress Time_Hooks Time_Reload Memory_Hooks Process_Hooks Chaos_Once Claim_Protocol Init_Core Init_Supervisor
begin

text \<open>
  A verification library for the fault-injection libraries of this repository.

  \<^bold>\<open>The program.\<close> Six preload libraries (\<open>libchaos-io\<close>, \<open>-net\<close>, \<open>-dns\<close>, \<open>-time\<close>, \<open>-memory\<close>, \<open>-process\<close>)
  interpose libc functions and make chosen calls fail, wait, or return changed data. Each library reads a rule
  file, re-reads it when its stamp changes, keeps the rules in one of two snapshots that readers use without
  locks, counts the hits of every rule in a shared slot pool, and writes a status file and a hits file.
  \<open>chaos-init\<close> applies the same rule files to programs that cannot be preloaded: it installs a seccomp filter,
  is notified of the system calls of its tracee, and answers them.

  \<^bold>\<open>How the theories follow the code\<close> (paths under \<open>src/\<close>).
  \<^item> \<open>Chaos_Prelude\<close>: machine words, C strings, \<open>strtoul\<close>, the errno names, string lemmas.
  \<^item> \<open>Chaos_Double\<close>: rounding of a decimal quotient to a double, used by the probability parser.
  \<^item> \<open>Chaos_Status\<close> (\<open>common/chaos_status.h\<close>): the kept error of a parse, the status text, the content hash, and
    the publication of a file through a staging file.
  \<^item> \<open>Chaos_Clock\<close> (\<open>common/chaos_clock.h\<close>, \<open>chaos_sleep.h\<close>): the lookup of the vDSO clock, stamps that may be
    racy, the check interval, the sleep loop.
  \<^item> \<open>Chaos_Policy\<close> (\<open>common/chaos_policy.h\<close>): the qualifiers at the end of a rule, probabilities and numbers,
    the window, size and claim checks.
  \<^item> \<open>Chaos_Hits\<close> (\<open>common/chaos_hits.h\<close>): the slot pool, its assignment to the rules of a new snapshot and the
    release afterwards, sequence counters, the hits report and its file.
  \<^item> \<open>Rule_File\<close>: what the rule files of the libraries share: the tail of a rule record, the loop over the
    lines, the selection loop by rank and length, the lookup in a snapshot. Three interfaces state what this
    needs of a library: \<open>line_grammar\<close> and \<open>trimmed_grammar\<close> (a line parser), \<open>best_scan\<close> (a selection).
  \<^item> \<open>Io_Internal\<close>, \<open>Io_Config\<close>, \<open>Io_Reload\<close>, \<open>Io_Actions\<close>, \<open>Io_Fdcache\<close> (\<open>core/\<close>, \<open>config/\<close>, \<open>effects/\<close>): the
    file library: paths, grammar and selection, the reload state machine with its double buffered snapshots,
    the effects, and the cache from descriptors to paths.
  \<^item> \<open>Net_Endpoint\<close>, \<open>Net_Config\<close>, \<open>Net_Actions\<close> (\<open>net/\<close>): selectors for addresses, grammar, the lookups on one
    or both ends of a connection, and the effects, which agree with those of the file library.
  \<^item> \<open>Dns_Config\<close>, \<open>Dns_Actions\<close> (\<open>dns/\<close>): selectors for names and addresses, the eight effects with their
    payloads, and the shaping of address lists with the release of their nodes.
  \<^item> \<open>Chaos_Once\<close> (\<open>common/chaos_once.h\<close>) and \<open>Claim_Protocol\<close> (the claim loop of \<open>chaos_policy_fire\<close>): step
    relations over any number of threads, one atomic access per step.
  \<^item> \<open>Init_Core\<close> (\<open>init/chaos_init_core.c\<close>): command line, system call tables, the BPF program and an interpreter
    for it, the command search, \<open>GODEBUG\<close>, the status text.
  \<^item> \<open>Init_Supervisor\<close> (\<open>init/chaos_init_delay.c\<close>, two handlers of \<open>chaos_init.c\<close>): the queue of parked calls
    and the answering of notifications, over any deciders.

  \<^bold>\<open>Conventions.\<close> A C string is the list of its bytes before the NUL; a pointer the code compares with NULL is an
  \<open>option\<close>; an output parameter is part of the result. Counters, hashes, stamps and generator states are words
  of their width; sizes and counts that cannot wrap are naturals. A double that holds a probability is the
  rational it denotes. Effects are passed as states: a record in, a record out. What a call of the C library or
  the kernel returns is an argument of the definition that makes the call.

  \<^bold>\<open>What the lemmas show.\<close> For every rule file: it is taken whole or not at all, the first line at fault is
  reported, and the rules taken are well formed; printed rules are read back; the selected rule applies and no
  better one exists. For reloading: invariants of the reachable states (snapshots even and complete, every rule
  on its own live slot), acceptance, rejection and transient failures, and that lookups are sound. For hits: a
  claim allowance is never exceeded, with and without concurrency; counters survive a reload exactly for
  unchanged rules. For the shared primitives: publication is atomic, the initialiser runs once and waiting for
  it ends, the vDSO lookup completes, sleeps take their full time. For \<open>chaos-init\<close>: the filter notifies exactly
  the calls of the selected libraries, and every notification is answered, parked, dropped or superseded
  exactly once.

  \<^bold>\<open>Bounds and fuel.\<close> No definition uses fuel. Loops over text recurse on its length; the sleep loop and the
  resolution of the descriptor cache take the outcomes of their system calls as lists; spinning threads are step
  relations. The table sizes (256 rules, 512 slots, 32 cache slots, 1024 parked calls, 256 own address lists)
  are those of the code.

  \<^bold>\<open>Not modelled.\<close> The ELF walk to the vDSO (loader memory), \<open>dlsym\<close> and the constructors, the decoding of a
  traced process's memory, the event loop and the setup of seccomp (system call glue), the stubs of domains that
  are not built. The reload machinery of the other five libraries repeats that of the file library. Still
  planned: the wrappers around the interposed functions, and the time, memory and process libraries.
\<close>

end
